(* ===== verification/JsValue.thy ===== *)
theory JsValue
  imports Prelude
begin

text \<open>
  JavaScript values as the sources use them: the JSON values an event payload is made of, the
  reading of a property (\<open>None\<close> is \<open>undefined\<close>; reading a property of \<open>null\<close> raises a
  TypeError), truthiness, the string conversion of a template literal, and the three states of
  an optional DTO property (absent, \<open>null\<close>, a value). JSON numbers are integers here: the
  program puts no other number in a payload.
\<close>

datatype json =
    JNull
  | JBool bool
  | JNum int
  | JStr string
  | JArr "json list"
  | JObj "(string \<times> json) list"

text \<open>An optional property of a DTO: \<open>@IsOptional()\<close> lets both \<open>undefined\<close> and \<open>null\<close> pass.\<close>

datatype 'a field = Undefined | Null | Val 'a

fun is_val :: "'a field \<Rightarrow> bool" where
  "is_val (Val _) = True"
| "is_val _ = False"

text \<open>\<open>?? fallback\<close>: replaces \<open>undefined\<close> and \<open>null\<close>.\<close>

fun nullish :: "'a field \<Rightarrow> 'a \<Rightarrow> 'a" where
  "nullish (Val x) _ = x"
| "nullish _ y = y"

section \<open>Property reads, truthiness, string conversion\<close>

text \<open>\<open>JNull\<close> has no properties: the read raises, which is the \<open>None\<close> of the outer option.\<close>

fun property :: "json \<Rightarrow> string \<Rightarrow> json option option" where
  "property JNull k = None"
| "property (JObj kvs) k = Some (map_of kvs k)"
| "property _ k = Some None"

fun truthy :: "json option \<Rightarrow> bool" where
  "truthy None = False"
| "truthy (Some JNull) = False"
| "truthy (Some (JBool b)) = b"
| "truthy (Some (JNum n)) = (n \<noteq> 0)"
| "truthy (Some (JStr s)) = (s \<noteq> [])"
| "truthy (Some (JArr _)) = True"
| "truthy (Some (JObj _)) = True"

fun js_string :: "json \<Rightarrow> string" where
  "js_string JNull = ''null''"
| "js_string (JBool b) = (if b then ''true'' else ''false'')"
| "js_string (JNum n) = show_int n"
| "js_string (JStr s) = s"
| "js_string (JArr xs) =
     join_with '','' (map (\<lambda>x. if x = JNull then [] else js_string x) xs)"
| "js_string (JObj _) = ''[object Object]''"

fun template :: "json option \<Rightarrow> string" where
  "template None = ''undefined''"
| "template (Some v) = js_string v"

text \<open>
  What \<open>JSON.stringify\<close> keeps of an object literal: a property whose value is \<open>undefined\<close>
  (here \<open>None\<close>) is dropped.
\<close>

definition json_object :: "(string \<times> json option) list \<Rightarrow> json" where
  "json_object kvs = JObj (List.map_filter (\<lambda>(k, v). map_option (Pair k) v) kvs)"

fun field_json :: "('a \<Rightarrow> json) \<Rightarrow> 'a field \<Rightarrow> json option" where
  "field_json f Undefined = None"
| "field_json f Null = Some JNull"
| "field_json f (Val x) = Some (f x)"

fun nullable_json :: "string option \<Rightarrow> json" where
  "nullable_json None = JNull"
| "nullable_json (Some s) = JStr s"

lemma property_json_object [simp]:
  "distinct (map fst kvs) \<Longrightarrow>
   property (json_object kvs) k =
     Some (case map_of kvs k of None \<Rightarrow> None | Some v \<Rightarrow> v)"
proof (induction kvs)
  case Nil
  then show ?case by (simp add: json_object_def List.map_filter_simps)
next
  case (Cons kv kvs)
  obtain k' v where kv: "kv = (k', v)" by (cases kv)
  have none: "map_of kvs k' = None" using Cons.prems kv
    by (simp add: map_of_eq_None_iff image_iff)
  show ?case
  proof (cases v)
    case None
    with Cons kv none show ?thesis
      by (auto simp: json_object_def List.map_filter_simps)
  next
    case (Some x)
    with Cons kv show ?thesis
      by (auto simp: json_object_def List.map_filter_simps)
  qed
qed

lemma truthy_Some_str [simp]: "truthy (Some (JStr s)) \<longleftrightarrow> s \<noteq> []"
  by simp

end
