(* ===== verification/Schema.thy ===== *)
theory Schema
  imports JsValue
begin

text \<open>
  The data model of \<open>backend/prisma/schema.prisma\<close>: one datatype per enum, one record per
  model (fields in the schema's order, prefixed by the table), and the database as the record of
  its tables, each a list of rows in insertion order. A nullable column is an \<open>option\<close>, a
  DateTime is an integer (milliseconds since the epoch).
  \<open>db_ok\<close> collects the key constraints the database enforces on every table.
\<close>

datatype role = ADMIN | AGENT | CUSTOMER

datatype ticket_status = OPEN | IN_PROGRESS | PENDING | RESOLVED | CLOSED

datatype ticket_priority = LOW | MEDIUM | HIGH | URGENT

datatype notification_type =
  TICKET_CREATED | TICKET_UPDATED | TICKET_ASSIGNED | TICKET_CLOSED | COMMENT_ADDED

datatype outbox_status = Outbox_PENDING | Outbox_DISPATCHED | Outbox_FAILED

fun role_string :: "role \<Rightarrow> string" where
  "role_string ADMIN = ''ADMIN''"
| "role_string AGENT = ''AGENT''"
| "role_string CUSTOMER = ''CUSTOMER''"

fun status_string :: "ticket_status \<Rightarrow> string" where
  "status_string OPEN = ''OPEN''"
| "status_string IN_PROGRESS = ''IN_PROGRESS''"
| "status_string PENDING = ''PENDING''"
| "status_string RESOLVED = ''RESOLVED''"
| "status_string CLOSED = ''CLOSED''"

fun priority_string :: "ticket_priority \<Rightarrow> string" where
  "priority_string LOW = ''LOW''"
| "priority_string MEDIUM = ''MEDIUM''"
| "priority_string HIGH = ''HIGH''"
| "priority_string URGENT = ''URGENT''"

record organization =
  org_id :: string
  org_name :: string
  org_slug :: string
  org_isActive :: bool
  org_createdAt :: time
  org_updatedAt :: time

record user =
  u_id :: string
  u_email :: string
  u_passwordHash :: string
  u_firstName :: string
  u_lastName :: string
  u_role :: role
  u_isActive :: bool
  u_lastLoginAt :: "time option"
  u_organizationId :: string
  u_createdAt :: time
  u_updatedAt :: time

record refresh_token =
  rt_id :: string
  rt_userId :: string
  rt_tokenHash :: string
  rt_familyId :: string
  rt_userAgent :: "string option"
  rt_ipAddress :: "string option"
  rt_expiresAt :: time
  rt_revokedAt :: "time option"
  rt_createdAt :: time

record ticket =
  tk_id :: string
  tk_reference :: string
  tk_title :: string
  tk_description :: string
  tk_status :: ticket_status
  tk_priority :: ticket_priority
  tk_category :: "string option"
  tk_organizationId :: string
  tk_createdById :: string
  tk_assignedToId :: "string option"
  tk_createdAt :: time
  tk_updatedAt :: time
  tk_closedAt :: "time option"

record comment =
  cm_id :: string
  cm_ticketId :: string
  cm_authorId :: string
  cm_body :: string
  cm_isInternal :: bool
  cm_createdAt :: time
  cm_updatedAt :: time

record notification =
  nt_id :: string
  nt_userId :: string
  nt_type :: notification_type
  nt_title :: string
  nt_message :: string
  nt_ticketId :: "string option"
  nt_isRead :: bool
  nt_readAt :: "time option"
  nt_createdAt :: time

record audit_log =
  al_id :: string
  al_action :: string
  al_entityType :: string
  al_entityId :: string
  al_actorId :: "string option"
  al_organizationId :: "string option"
  al_metadata :: "json option"
  al_correlationId :: "string option"
  al_createdAt :: time

record ticket_metric_daily =
  tm_id :: string
  tm_organizationId :: string
  tm_date :: time
  tm_ticketsCreated :: nat
  tm_ticketsClosed :: nat
  tm_ticketsAssigned :: nat
  tm_updatedAt :: time

record event_outbox =
  ob_id :: string
  ob_routingKey :: string
  ob_payload :: json
  ob_correlationId :: "string option"
  ob_status :: outbox_status
  ob_attempts :: nat
  ob_lastError :: "string option"
  ob_createdAt :: time
  ob_dispatchedAt :: "time option"

record processed_event =
  pe_id :: string
  pe_eventId :: string
  pe_consumer :: string
  pe_processedAt :: time

record db =
  organizations :: "organization list"
  users :: "user list"
  refresh_tokens :: "refresh_token list"
  tickets :: "ticket list"
  comments :: "comment list"
  notifications :: "notification list"
  audit_logs :: "audit_log list"
  ticket_metrics :: "ticket_metric_daily list"
  outbox :: "event_outbox list"
  processed_events :: "processed_event list"

definition empty_db :: db where
  "empty_db = \<lparr>organizations = [], users = [], refresh_tokens = [], tickets = [], comments = [],
     notifications = [], audit_logs = [], ticket_metrics = [], outbox = [],
     processed_events = []\<rparr>"

section \<open>Keys\<close>

text \<open>The pair a \<open>@@unique\<close> of the schema ranges over.\<close>

definition pe_key :: "processed_event \<Rightarrow> string \<times> string" where
  "pe_key r = (pe_eventId r, pe_consumer r)"

definition tm_key :: "ticket_metric_daily \<Rightarrow> string \<times> time" where
  "tm_key r = (tm_organizationId r, tm_date r)"

definition user_exists :: "db \<Rightarrow> string \<Rightarrow> bool" where
  "user_exists d i \<longleftrightarrow> list_ex (\<lambda>u. u_id u = i) (users d)"

definition organization_exists :: "db \<Rightarrow> string \<Rightarrow> bool" where
  "organization_exists d i \<longleftrightarrow> list_ex (\<lambda>g. org_id g = i) (organizations d)"

definition ticket_exists :: "db \<Rightarrow> string \<Rightarrow> bool" where
  "ticket_exists d i \<longleftrightarrow> list_ex (\<lambda>t. tk_id t = i) (tickets d)"

lemma ticket_exists_iff: "ticket_exists d i \<longleftrightarrow> (\<exists>t\<in>set (tickets d). tk_id t = i)"
  by (simp add: ticket_exists_def list_ex_iff)

lemma user_exists_iff: "user_exists d i \<longleftrightarrow> (\<exists>u\<in>set (users d). u_id u = i)"
  by (simp add: user_exists_def list_ex_iff)

lemma organization_exists_iff:
  "organization_exists d i \<longleftrightarrow> (\<exists>g\<in>set (organizations d). org_id g = i)"
  by (simp add: organization_exists_def list_ex_iff)

end
