(* ===== verification/Effects.thy ===== *)
theory Effects
  imports Schema
begin

text \<open>
  Operations of the services. An asynchronous method that reads and writes the database is a
  function of the \<open>world\<close> (the database, the supply of random UUIDs, the current time) that
  returns an exception or a value, and the new world. \<open>andThen\<close> is \<open>await\<close> followed by the
  rest of the method, \<open>transaction\<close> is an interactive \<open>$transaction\<close>: what its body wrote is
  undone when the body throws. One operation runs at one instant \<open>w_now\<close>; the time moves
  between operations.

  Exceptions: the \<open>HttpException\<close> family of NestJS (status, the response object as
  \<open>getResponse\<close> returns it, the message), Prisma's known request errors (code and
  \<open>meta.target\<close>), and any other \<open>Error\<close> with its message.
\<close>

datatype http_message = Msg string | Msgs "string list"

datatype http_response = RespString string | RespObject "http_message option"

datatype exn =
    HttpException nat http_response string
  | PrismaKnown string "string list option"
  | OtherError string

definition http_exn :: "nat \<Rightarrow> string \<Rightarrow> exn" where
  "http_exn status m = HttpException status (RespObject (Some (Msg m))) m"

definition NotFoundException :: "string \<Rightarrow> exn" where
  "NotFoundException = http_exn 404"

definition ForbiddenException :: "string \<Rightarrow> exn" where
  "ForbiddenException = http_exn 403"

definition UnauthorizedException :: "string \<Rightarrow> exn" where
  "UnauthorizedException = http_exn 401"

definition ConflictException :: "string \<Rightarrow> exn" where
  "ConflictException = http_exn 409"

lemmas exn_defs = NotFoundException_def ForbiddenException_def UnauthorizedException_def
  ConflictException_def http_exn_def

record world =
  w_db :: db
  w_uuid :: "nat \<Rightarrow> string"
  w_next :: nat
  w_now :: time

type_synonym 'a op = "world \<Rightarrow> (exn + 'a) \<times> world"

definition ret :: "'a \<Rightarrow> 'a op" where
  "ret x w = (Inr x, w)"

definition throw :: "exn \<Rightarrow> 'a op" where
  "throw e w = (Inl e, w)"

definition andThen :: "'a op \<Rightarrow> ('a \<Rightarrow> 'b op) \<Rightarrow> 'b op" where
  "andThen m f w = (case m w of (Inl e, w') \<Rightarrow> (Inl e, w') | (Inr x, w') \<Rightarrow> f x w')"

definition read_db :: "(db \<Rightarrow> 'a) \<Rightarrow> 'a op" where
  "read_db f w = (Inr (f (w_db w)), w)"

definition current_time :: "time op" where
  "current_time w = (Inr (w_now w), w)"

definition randomUUID :: "string op" where
  "randomUUID w = (Inr (w_uuid w (w_next w)), w\<lparr>w_next := Suc (w_next w)\<rparr>)"

definition write_db :: "(db \<Rightarrow> exn + db) \<Rightarrow> unit op" where
  "write_db f w = (case f (w_db w) of Inl e \<Rightarrow> (Inl e, w) | Inr d \<Rightarrow> (Inr (), w\<lparr>w_db := d\<rparr>))"

definition modify :: "(db \<Rightarrow> db) \<Rightarrow> unit op" where
  "modify f w = (Inr (), w\<lparr>w_db := f (w_db w)\<rparr>)"

definition transaction :: "'a op \<Rightarrow> 'a op" where
  "transaction m w =
     (case m w of (Inl e, w') \<Rightarrow> (Inl e, w'\<lparr>w_db := w_db w\<rparr>) | (Inr x, w') \<Rightarrow> (Inr x, w'))"

definition result :: "'a op \<Rightarrow> world \<Rightarrow> exn + 'a" where
  "result m w = fst (m w)"

definition after :: "'a op \<Rightarrow> world \<Rightarrow> world" where
  "after m w = snd (m w)"

definition db_after :: "'a op \<Rightarrow> world \<Rightarrow> db" where
  "db_after m w = w_db (snd (m w))"

section \<open>Running operations\<close>

lemma run_basic [mrun]:
  "ret x w = (Inr x, w)"
  "throw e w = (Inl e, w)"
  "read_db f w = (Inr (f (w_db w)), w)"
  "current_time w = (Inr (w_now w), w)"
  "randomUUID w = (Inr (w_uuid w (w_next w)), w\<lparr>w_next := Suc (w_next w)\<rparr>)"
  "modify g w = (Inr (), w\<lparr>w_db := g (w_db w)\<rparr>)"
  by (simp_all add: ret_def throw_def read_db_def current_time_def randomUUID_def modify_def)

named_theorems meval \<open>evaluation of composed operations\<close>

lemma run_andThen [meval]:
  "andThen m f w = (case m w of (Inl e, w') \<Rightarrow> (Inl e, w') | (Inr x, w') \<Rightarrow> f x w')"
  by (rule andThen_def)

lemma run_write_db [mrun]:
  "write_db f w = (case f (w_db w) of Inl e \<Rightarrow> (Inl e, w) | Inr d \<Rightarrow> (Inr (), w\<lparr>w_db := d\<rparr>))"
  by (rule write_db_def)

lemma run_transaction [meval]:
  "transaction m w =
     (case m w of (Inl e, w') \<Rightarrow> (Inl e, w'\<lparr>w_db := w_db w\<rparr>) | (Inr x, w') \<Rightarrow> (Inr x, w'))"
  by (rule transaction_def)

lemma write_db_ok:
  "write_db f w = (Inr u, w') \<longleftrightarrow> (\<exists>d. f (w_db w) = Inr d \<and> w' = w\<lparr>w_db := d\<rparr>)"
  by (auto simp: write_db_def split: sum.splits)

lemma write_db_err: "write_db f w = (Inl e, w') \<longleftrightarrow> f (w_db w) = Inl e \<and> w' = w"
  by (auto simp: write_db_def split: sum.splits)

lemma andThen_ok:
  "andThen m f w = (Inr y, w') \<longleftrightarrow> (\<exists>x v. m w = (Inr x, v) \<and> f x v = (Inr y, w'))"
  by (auto simp: andThen_def split: prod.splits sum.splits)

lemma andThen_err:
  "andThen m f w = (Inl e, w') \<longleftrightarrow>
     m w = (Inl e, w') \<or> (\<exists>x v. m w = (Inr x, v) \<and> f x v = (Inl e, w'))"
  by (auto simp: andThen_def split: prod.splits sum.splits)

lemma transaction_ok:
  "transaction m w = (Inr y, w') \<longleftrightarrow> m w = (Inr y, w')"
  by (auto simp: transaction_def split: prod.splits sum.splits)

lemma transaction_err:
  "transaction m w = (Inl e, w') \<longleftrightarrow> (\<exists>v. m w = (Inl e, v) \<and> w' = v\<lparr>w_db := w_db w\<rparr>)"
  by (auto simp: transaction_def split: prod.splits sum.splits)

lemmas mok = andThen_ok andThen_err transaction_ok transaction_err

lemma andThen_okE:
  assumes "andThen m f w = (Inr y, w')"
  obtains x v where "m w = (Inr x, v)" and "f x v = (Inr y, w')"
  using assms by (auto simp: andThen_ok)

lemma andThen_errE:
  assumes "andThen m f w = (Inl e, w')"
  obtains (first) "m w = (Inl e, w')"
  | (rest) x v where "m w = (Inr x, v)" and "f x v = (Inl e, w')"
  using assms by (auto simp: andThen_err)

lemmas runs = mok run_basic write_db_ok write_db_err

lemma transaction_rollback: "transaction m w = (Inl e, w') \<Longrightarrow> w_db w' = w_db w"
  by (auto simp: transaction_err)

lemma andThen_ret [simp]: "andThen (ret x) f = f x"
  by (rule ext) (simp add: mrun meval)

lemma andThen_throw [simp]: "andThen (throw e) f = throw e"
  by (rule ext) (simp add: mrun meval)

definition succeeds :: "'a op \<Rightarrow> world \<Rightarrow> bool" where
  "succeeds m w \<longleftrightarrow> (case fst (m w) of Inl _ \<Rightarrow> False | Inr _ \<Rightarrow> True)"

lemma succeedsE:
  assumes "succeeds m w"
  obtains x where "m w = (Inr x, snd (m w))"
  using assms by (cases "m w"; cases "fst (m w)") (auto simp: succeeds_def)

section \<open>Invariants of operations\<close>

text \<open>
  \<open>keeps I m\<close>: whatever \<open>m\<close> returns or throws, it takes a world that satisfies \<open>I\<close> to one
  that does. The rules follow the structure of an operation.
\<close>

definition keeps :: "(world \<Rightarrow> bool) \<Rightarrow> 'a op \<Rightarrow> bool" where
  "keeps I m \<longleftrightarrow> (\<forall>w. I w \<longrightarrow> I (snd (m w)))"

named_theorems keeping \<open>rules for \<open>keeps\<close>\<close>

lemma keepsI: "(\<And>w r w'. I w \<Longrightarrow> m w = (r, w') \<Longrightarrow> I w') \<Longrightarrow> keeps I m"
  unfolding keeps_def by (metis prod.collapse)

lemma keepsD: "keeps I m \<Longrightarrow> I w \<Longrightarrow> m w = (r, w') \<Longrightarrow> I w'"
  by (metis keeps_def snd_conv)

lemma keeps_pure [keeping]:
  "keeps I (ret x)" "keeps I (throw e)" "keeps I (read_db f)" "keeps I current_time"
  by (auto simp: keeps_def mrun)

lemma keeps_andThen [keeping]:
  assumes "keeps I m" and "\<And>x. keeps I (f x)"
  shows "keeps I (andThen m f)"
proof (rule keepsI)
  fix w r w'
  assume I: "I w" and run: "andThen m f w = (r, w')"
  show "I w'"
  proof (cases "m w")
    case (Pair res v)
    with I assms(1) have "I v" by (blast dest: keepsD)
    with run Pair assms(2) show ?thesis
      by (cases res) (auto simp: andThen_def dest: keepsD)
  qed
qed

lemma keeps_transaction_db:
  assumes "keeps I m" and "\<And>v w. I v \<Longrightarrow> I w \<Longrightarrow> I (v\<lparr>w_db := w_db w\<rparr>)"
  shows "keeps I (transaction m)"
proof (rule keepsI)
  fix w r w'
  assume I: "I w" and run: "transaction m w = (r, w')"
  obtain res v where m: "m w = (res, v)" by (cases "m w")
  with I assms(1) have "I v" by (blast dest: keepsD)
  with m run I assms(2) show "I w'"
    by (cases res) (auto simp: transaction_def)
qed

lemma keeps_if [keeping]: "keeps I m \<Longrightarrow> keeps I n \<Longrightarrow> keeps I (if b then m else n)"
  by simp

lemma keeps_case_option [keeping]:
  "keeps I m \<Longrightarrow> (\<And>x. keeps I (f x)) \<Longrightarrow>
   keeps I (case z of None \<Rightarrow> m | Some x \<Rightarrow> f x)"
  by (cases z) auto

end
