(* ===== verification/Tables.thy ===== *)
theory Tables
  imports Effects
begin

text \<open>
  The database the services write through Prisma: one insert per table with the constraints
  \<open>schema.prisma\<close> and the migration declare (primary keys and \<open>@unique\<close> columns raise P2002,
  foreign keys P2003), the update by id (P2025 when the row is missing), and the lemmas the
  services' proofs use. The client library itself is not part of the repository; what is written
  here is the documented effect of the calls the code makes on the declared tables.
\<close>

section \<open>Generic rows\<close>

definition update_row :: "('r \<Rightarrow> string) \<Rightarrow> string \<Rightarrow> ('r \<Rightarrow> 'r) \<Rightarrow> 'r list \<Rightarrow> 'r list" where
  "update_row k i f rows = map (\<lambda>r. if k r = i then f r else r) rows"

definition update_many :: "('r \<Rightarrow> bool) \<Rightarrow> ('r \<Rightarrow> 'r) \<Rightarrow> 'r list \<Rightarrow> 'r list" where
  "update_many P f rows = map (\<lambda>r. if P r then f r else r) rows"

definition find_by :: "('r \<Rightarrow> string) \<Rightarrow> string \<Rightarrow> 'r list \<Rightarrow> 'r option" where
  "find_by k i rows = List.find (\<lambda>r. k r = i) rows"

definition unique_violation :: "string list \<Rightarrow> exn" where
  "unique_violation cols = PrismaKnown ''P2002'' (Some cols)"

definition foreign_key_violation :: exn where
  "foreign_key_violation = PrismaKnown ''P2003'' None"

definition record_not_found :: exn where
  "record_not_found = PrismaKnown ''P2025'' None"

definition validation_error :: exn where
  "validation_error = OtherError ''PrismaClientValidationError''"

lemmas prisma_errors = unique_violation_def foreign_key_violation_def record_not_found_def
  validation_error_def

lemma set_update_row: "set (update_row k i f rows) =
    f ` {r \<in> set rows. k r = i} \<union> {r \<in> set rows. k r \<noteq> i}"
  by (auto simp: update_row_def)

lemma length_update_row [simp]: "length (update_row k i f rows) = length rows"
  by (simp add: update_row_def)

lemma length_update_many [simp]: "length (update_many P f rows) = length rows"
  by (simp add: update_many_def)

lemma update_row_Nil [simp]: "update_row k i f [] = []"
  by (simp add: update_row_def)

lemma map_update_row_same:
  "(\<And>r. g (f r) = g r) \<Longrightarrow> map g (update_row k i f rows) = map g rows"
  by (simp add: update_row_def)

lemma map_update_many_same:
  "(\<And>r. g (f r) = g r) \<Longrightarrow> map g (update_many P f rows) = map g rows"
  by (simp add: update_many_def)

lemma find_by_Some: "find_by k i rows = Some r \<Longrightarrow> r \<in> set rows \<and> k r = i"
  by (auto simp: find_by_def dest: find_SomeD)

lemma find_by_None: "find_by k i rows = None \<longleftrightarrow> (\<forall>r\<in>set rows. k r \<noteq> i)"
  by (auto simp: find_by_def find_None_iff)

lemma find_by_mem:
  "distinct (map k rows) \<Longrightarrow> r \<in> set rows \<Longrightarrow> find_by k (k r) rows = Some r"
  by (simp add: find_by_def find_key_distinct)

lemma find_by_update_row:
  assumes "\<And>r. k (f r) = k r"
  shows "find_by k j (update_row k i f rows) =
    map_option (\<lambda>r. if k r = i then f r else r) (find_by k j rows)"
  unfolding find_by_def update_row_def
  by (rule find_map_upd) (simp add: assms)

lemma find_by_update_many:
  assumes "\<And>r. k (f r) = k r"
  shows "find_by k j (update_many P f rows) =
    map_option (\<lambda>r. if P r then f r else r) (find_by k j rows)"
  unfolding find_by_def update_many_def
  by (rule find_map_upd) (simp add: assms)

lemma find_by_append:
  "find_by k i (xs @ ys) = (case find_by k i xs of None \<Rightarrow> find_by k i ys | Some x \<Rightarrow> Some x)"
  by (simp add: find_by_def find_append split: option.split)

lemma find_by_Cons [simp]:
  "find_by k i [] = None"
  "find_by k i (x # xs) = (if k x = i then Some x else find_by k i xs)"
  by (simp_all add: find_by_def)

section \<open>Inserts, with the constraints of the schema\<close>

definition organization_insert :: "organization \<Rightarrow> db \<Rightarrow> exn + db" where
  "organization_insert g d =
     (if organization_exists d (org_id g) then Inl (unique_violation [''id''])
      else if list_ex (\<lambda>r. org_slug r = org_slug g) (organizations d)
        then Inl (unique_violation [''slug''])
      else Inr (d\<lparr>organizations := organizations d @ [g]\<rparr>))"

definition user_insert :: "user \<Rightarrow> db \<Rightarrow> exn + db" where
  "user_insert u d =
     (if user_exists d (u_id u) then Inl (unique_violation [''id''])
      else if list_ex (\<lambda>r. u_email r = u_email u) (users d)
        then Inl (unique_violation [''email''])
      else if \<not> organization_exists d (u_organizationId u) then Inl foreign_key_violation
      else Inr (d\<lparr>users := users d @ [u]\<rparr>))"

definition refresh_token_insert :: "refresh_token \<Rightarrow> db \<Rightarrow> exn + db" where
  "refresh_token_insert t d =
     (if list_ex (\<lambda>r. rt_id r = rt_id t) (refresh_tokens d)
        then Inl (unique_violation [''id''])
      else if list_ex (\<lambda>r. rt_tokenHash r = rt_tokenHash t) (refresh_tokens d)
        then Inl (unique_violation [''tokenHash''])
      else if \<not> user_exists d (rt_userId t) then Inl foreign_key_violation
      else Inr (d\<lparr>refresh_tokens := refresh_tokens d @ [t]\<rparr>))"

definition assignee_ok :: "db \<Rightarrow> ticket \<Rightarrow> bool" where
  "assignee_ok d t = (case tk_assignedToId t of None \<Rightarrow> True | Some a \<Rightarrow> user_exists d a)"

definition ticket_insert :: "ticket \<Rightarrow> db \<Rightarrow> exn + db" where
  "ticket_insert t d =
     (if ticket_exists d (tk_id t) then Inl (unique_violation [''id''])
      else if list_ex (\<lambda>r. tk_reference r = tk_reference t) (tickets d)
        then Inl (unique_violation [''reference''])
      else if \<not> organization_exists d (tk_organizationId t) \<or> \<not> user_exists d (tk_createdById t)
          \<or> \<not> assignee_ok d t
        then Inl foreign_key_violation
      else Inr (d\<lparr>tickets := tickets d @ [t]\<rparr>))"

definition comment_insert :: "comment \<Rightarrow> db \<Rightarrow> exn + db" where
  "comment_insert c d =
     (if list_ex (\<lambda>r. cm_id r = cm_id c) (comments d) then Inl (unique_violation [''id''])
      else if \<not> ticket_exists d (cm_ticketId c) \<or> \<not> user_exists d (cm_authorId c)
        then Inl foreign_key_violation
      else Inr (d\<lparr>comments := comments d @ [c]\<rparr>))"

definition outbox_insert :: "event_outbox \<Rightarrow> db \<Rightarrow> exn + db" where
  "outbox_insert r d =
     (if list_ex (\<lambda>x. ob_id x = ob_id r) (outbox d) then Inl (unique_violation [''id''])
      else Inr (d\<lparr>outbox := outbox d @ [r]\<rparr>))"

definition processed_event_insert :: "processed_event \<Rightarrow> db \<Rightarrow> exn + db" where
  "processed_event_insert r d =
     (if list_ex (\<lambda>x. pe_key x = pe_key r) (processed_events d)
        then Inl (unique_violation [''eventId'', ''consumer''])
      else Inr (d\<lparr>processed_events := processed_events d @ [r]\<rparr>))"

definition audit_log_insert :: "audit_log \<Rightarrow> db \<Rightarrow> exn + db" where
  "audit_log_insert r d =
     (if (case al_actorId r of None \<Rightarrow> True | Some a \<Rightarrow> user_exists d a)
         \<and> (case al_organizationId r of None \<Rightarrow> True | Some g \<Rightarrow> organization_exists d g)
      then Inr (d\<lparr>audit_logs := audit_logs d @ [r]\<rparr>)
      else Inl foreign_key_violation)"

definition notifications_insert :: "notification list \<Rightarrow> db \<Rightarrow> exn + db" where
  "notifications_insert rs d =
     (if list_all (\<lambda>r. user_exists d (nt_userId r)) rs
      then Inr (d\<lparr>notifications := notifications d @ rs\<rparr>)
      else Inl foreign_key_violation)"

section \<open>Updates by id\<close>

text \<open>
  \<open>prisma.ticket.update\<close>: the row must exist (P2025) and a new assignee must be a user (P2003);
  no update of the code changes a unique column of a ticket.
\<close>

definition ticket_update :: "string \<Rightarrow> (ticket \<Rightarrow> ticket) \<Rightarrow> ticket op" where
  "ticket_update i f w =
     (case find_by tk_id i (tickets (w_db w)) of
        None \<Rightarrow> (Inl record_not_found, w)
      | Some t \<Rightarrow>
          if assignee_ok (w_db w) (f t)
          then (Inr (f t),
                w\<lparr>w_db := (w_db w)\<lparr>tickets := update_row tk_id i f (tickets (w_db w))\<rparr>\<rparr>)
          else (Inl foreign_key_violation, w))"

definition user_update :: "string \<Rightarrow> (user \<Rightarrow> user) \<Rightarrow> user op" where
  "user_update i f w =
     (case find_by u_id i (users (w_db w)) of
        None \<Rightarrow> (Inl record_not_found, w)
      | Some u \<Rightarrow>
          if list_ex (\<lambda>r. u_id r \<noteq> i \<and> u_email r = u_email (f u)) (users (w_db w))
          then (Inl (unique_violation [''email'']), w)
          else (Inr (f u),
                w\<lparr>w_db := (w_db w)\<lparr>users := update_row u_id i f (users (w_db w))\<rparr>\<rparr>))"

definition organization_update :: "string \<Rightarrow> (organization \<Rightarrow> organization) \<Rightarrow> organization op"
where
  "organization_update i f w =
     (case find_by org_id i (organizations (w_db w)) of
        None \<Rightarrow> (Inl record_not_found, w)
      | Some g \<Rightarrow>
          if list_ex (\<lambda>r. org_id r \<noteq> i \<and> org_slug r = org_slug (f g)) (organizations (w_db w))
          then (Inl (unique_violation [''slug'']), w)
          else (Inr (f g),
                w\<lparr>w_db := (w_db w)\<lparr>organizations :=
                   update_row org_id i f (organizations (w_db w))\<rparr>\<rparr>))"

definition refresh_token_update :: "string \<Rightarrow> (refresh_token \<Rightarrow> refresh_token) \<Rightarrow> unit op" where
  "refresh_token_update i f w =
     (case find_by rt_id i (refresh_tokens (w_db w)) of
        None \<Rightarrow> (Inl record_not_found, w)
      | Some t \<Rightarrow>
          (Inr (), w\<lparr>w_db := (w_db w)\<lparr>refresh_tokens :=
                      update_row rt_id i f (refresh_tokens (w_db w))\<rparr>\<rparr>))"

definition refresh_token_updateMany ::
  "(refresh_token \<Rightarrow> bool) \<Rightarrow> (refresh_token \<Rightarrow> refresh_token) \<Rightarrow> unit op" where
  "refresh_token_updateMany P f =
     modify (\<lambda>d. d\<lparr>refresh_tokens := update_many P f (refresh_tokens d)\<rparr>)"

lemmas inserts = organization_insert_def user_insert_def refresh_token_insert_def
  ticket_insert_def comment_insert_def outbox_insert_def processed_event_insert_def
  audit_log_insert_def notifications_insert_def

lemmas updates = ticket_update_def user_update_def organization_update_def
  refresh_token_update_def refresh_token_updateMany_def

lemma ticket_update_ok:
  "ticket_update i f w = (Inr t', w') \<longleftrightarrow>
     (\<exists>t. find_by tk_id i (tickets (w_db w)) = Some t \<and> t' = f t \<and> assignee_ok (w_db w) (f t)
        \<and> w' = w\<lparr>w_db := (w_db w)\<lparr>tickets := update_row tk_id i f (tickets (w_db w))\<rparr>\<rparr>)"
  by (auto simp: ticket_update_def split: option.splits if_splits)

lemma ticket_update_err: "ticket_update i f w = (Inl e, w') \<Longrightarrow> w' = w"
  by (auto simp: ticket_update_def split: option.splits if_splits)

lemma user_update_ok:
  "user_update i f w = (Inr u', w') \<longleftrightarrow>
     (\<exists>u. find_by u_id i (users (w_db w)) = Some u \<and> u' = f u
        \<and> \<not> list_ex (\<lambda>r. u_id r \<noteq> i \<and> u_email r = u_email (f u)) (users (w_db w))
        \<and> w' = w\<lparr>w_db := (w_db w)\<lparr>users := update_row u_id i f (users (w_db w))\<rparr>\<rparr>)"
  by (auto simp: user_update_def split: option.splits if_splits)

lemma user_update_err: "user_update i f w = (Inl e, w') \<Longrightarrow> w' = w"
  by (auto simp: user_update_def split: option.splits if_splits)

end
