(* ===== verification/Guards.thy ===== *)
theory Guards
  imports Effects
begin

text \<open>
  \<open>common/guards\<close>, \<open>common/interfaces/authenticated-user.interface.ts\<close> and the decorators of
  the controllers: what a request must carry to reach a handler. A route is described by the
  metadata its decorators attach (method-level \<open>@Roles\<close> and \<open>@Public\<close> override the
  class-level ones, so the record holds the effective value); \<open>activate\<close> runs its guards in
  the order \<open>@UseGuards\<close> lists them. What Passport makes of the bearer token is an input: an
  error, or a user, or neither.
\<close>

record authenticated_user =
  au_id :: string
  au_email :: string
  au_role :: role
  au_organizationId :: string

record passport_outcome =
  pp_err :: bool
  pp_user :: "authenticated_user option"

datatype guard = JwtAuthGuard | RolesGuard

datatype http_method = GET | POST | PATCH | DELETE

record route =
  r_method :: http_method
  r_path :: string
  r_guards :: "guard list"
  r_public :: bool
  r_roles :: "role list option"
  r_throttle :: "(nat \<times> nat) option"
  r_status :: nat

text \<open>\<open>JwtAuthGuard.handleRequest\<close>.\<close>

definition handleRequest :: "passport_outcome \<Rightarrow> exn + authenticated_user" where
  "handleRequest p =
     (if pp_err p then Inl (UnauthorizedException ''Authentication required'')
      else case pp_user p of
             None \<Rightarrow> Inl (UnauthorizedException ''Authentication required'')
           | Some u \<Rightarrow> Inr u)"

text \<open>
  \<open>JwtAuthGuard.canActivate\<close>: a public route passes without a user; otherwise the user Passport
  found is attached to the request.
\<close>

definition jwt_canActivate ::
  "bool \<Rightarrow> passport_outcome \<Rightarrow> authenticated_user option \<Rightarrow> exn + authenticated_user option" where
  "jwt_canActivate isPublic p req =
     (if isPublic then Inr req
      else case handleRequest p of Inl e \<Rightarrow> Inl e | Inr u \<Rightarrow> Inr (Some u))"

text \<open>\<open>RolesGuard.canActivate\<close>.\<close>

definition roles_canActivate ::
  "role list option \<Rightarrow> authenticated_user option \<Rightarrow> exn + authenticated_user option" where
  "roles_canActivate requiredRoles req =
     (if requiredRoles = None \<or> requiredRoles = Some [] then Inr req
      else case req of
             None \<Rightarrow> Inl (ForbiddenException ''You do not have permission to perform this action'')
           | Some u \<Rightarrow>
               if au_role u \<notin> set (the requiredRoles)
               then Inl (ForbiddenException ''You do not have permission to perform this action'')
               else Inr (Some u))"

fun run_guards ::
  "guard list \<Rightarrow> route \<Rightarrow> passport_outcome \<Rightarrow> authenticated_user option
    \<Rightarrow> exn + authenticated_user option"
where
  "run_guards [] r p req = Inr req"
| "run_guards (JwtAuthGuard # gs) r p req =
     (case jwt_canActivate (r_public r) p req of
        Inl e \<Rightarrow> Inl e | Inr req' \<Rightarrow> run_guards gs r p req')"
| "run_guards (RolesGuard # gs) r p req =
     (case roles_canActivate (r_roles r) req of
        Inl e \<Rightarrow> Inl e | Inr req' \<Rightarrow> run_guards gs r p req')"

definition activate :: "route \<Rightarrow> passport_outcome \<Rightarrow> exn + authenticated_user option" where
  "activate r p = run_guards (r_guards r) r p None"

section \<open>The routes of the controllers\<close>

definition jwt_roles :: "guard list" where
  "jwt_roles = [JwtAuthGuard, RolesGuard]"

definition mk_route ::
  "http_method \<Rightarrow> string \<Rightarrow> guard list \<Rightarrow> role list option \<Rightarrow> nat \<Rightarrow> route" where
  "mk_route m path gs roles status =
     \<lparr>r_method = m, r_path = path, r_guards = gs, r_public = False, r_roles = roles,
      r_throttle = None, r_status = status\<rparr>"

definition tickets_routes :: "route list" where
  "tickets_routes =
     [mk_route POST ''tickets'' jwt_roles None 201,
      mk_route GET ''tickets'' jwt_roles None 200,
      mk_route GET ''tickets/:id'' jwt_roles None 200,
      mk_route PATCH ''tickets/:id'' jwt_roles None 200,
      mk_route PATCH ''tickets/:id/assign'' jwt_roles (Some [ADMIN, AGENT]) 200]"

definition comments_routes :: "route list" where
  "comments_routes =
     [mk_route POST ''tickets/:ticketId/comments'' jwt_roles None 201,
      mk_route GET ''tickets/:ticketId/comments'' jwt_roles None 200]"

definition users_routes :: "route list" where
  "users_routes =
     [mk_route POST ''users'' jwt_roles (Some [ADMIN]) 201,
      mk_route GET ''users'' jwt_roles (Some [ADMIN]) 200,
      mk_route GET ''users/:id'' jwt_roles (Some [ADMIN]) 200,
      mk_route PATCH ''users/:id'' jwt_roles (Some [ADMIN]) 200,
      mk_route DELETE ''users/:id'' jwt_roles (Some [ADMIN]) 204]"

definition organizations_routes :: "route list" where
  "organizations_routes =
     [mk_route POST ''organizations'' jwt_roles (Some [ADMIN]) 201,
      mk_route GET ''organizations'' jwt_roles (Some [ADMIN]) 200,
      mk_route GET ''organizations/:id'' jwt_roles (Some [ADMIN]) 200,
      mk_route PATCH ''organizations/:id'' jwt_roles (Some [ADMIN]) 200,
      mk_route DELETE ''organizations/:id'' jwt_roles (Some [ADMIN]) 204]"

definition notifications_routes :: "route list" where
  "notifications_routes =
     [mk_route GET ''notifications'' [JwtAuthGuard] None 200,
      mk_route GET ''notifications/unread-count'' [JwtAuthGuard] None 200,
      mk_route PATCH ''notifications/:id/read'' [JwtAuthGuard] None 200,
      mk_route PATCH ''notifications/read-all'' [JwtAuthGuard] None 200]"

definition audit_routes :: "route list" where
  "audit_routes = [mk_route GET ''audit'' jwt_roles (Some [ADMIN]) 200]"

definition auth_routes :: "route list" where
  "auth_routes =
     [\<lparr>r_method = POST, r_path = ''auth/register'', r_guards = [], r_public = True,
       r_roles = None, r_throttle = Some (10, 60000), r_status = 201\<rparr>,
      \<lparr>r_method = POST, r_path = ''auth/login'', r_guards = [], r_public = True,
       r_roles = None, r_throttle = Some (10, 60000), r_status = 200\<rparr>,
      \<lparr>r_method = POST, r_path = ''auth/refresh'', r_guards = [], r_public = True,
       r_roles = None, r_throttle = Some (20, 60000), r_status = 200\<rparr>,
      mk_route POST ''auth/logout'' [JwtAuthGuard] None 204,
      mk_route GET ''auth/me'' [JwtAuthGuard] None 200]"

definition health_routes :: "route list" where
  "health_routes =
     [\<lparr>r_method = GET, r_path = ''health'', r_guards = [], r_public = True,
       r_roles = None, r_throttle = None, r_status = 200\<rparr>,
      \<lparr>r_method = GET, r_path = ''health/ready'', r_guards = [], r_public = True,
       r_roles = None, r_throttle = None, r_status = 200\<rparr>]"

definition api_routes :: "route list" where
  "api_routes = auth_routes @ organizations_routes @ users_routes @ tickets_routes
     @ comments_routes @ notifications_routes @ audit_routes @ health_routes"

lemmas route_tables = tickets_routes_def comments_routes_def users_routes_def
  organizations_routes_def notifications_routes_def audit_routes_def auth_routes_def
  health_routes_def

section \<open>What the guards enforce\<close>

lemma jwt_first:
  assumes "r_guards r = JwtAuthGuard # gs" and "\<not> r_public r"
    and "pp_err p \<or> pp_user p = None"
  shows "activate r p = Inl (UnauthorizedException ''Authentication required'')"
  using assms by (auto simp: activate_def jwt_canActivate_def handleRequest_def)

lemma roles_enforced:
  assumes "r_guards r = jwt_roles" and "\<not> r_public r" and "r_roles r = Some rs" and "rs \<noteq> []"
    and "activate r p = Inr req"
  shows "\<exists>u. req = Some u \<and> au_role u \<in> set rs \<and> pp_user p = Some u"
  using assms
  by (auto simp: activate_def jwt_roles_def jwt_canActivate_def handleRequest_def
      roles_canActivate_def split: option.splits if_splits)

lemma protected_shape:
  "list_all (\<lambda>r. (r_public r \<and> r_guards r = [])
      \<or> (\<not> r_public r \<and> r_guards r \<noteq> [] \<and> hd (r_guards r) = JwtAuthGuard)) api_routes"
  by (simp add: api_routes_def route_tables mk_route_def jwt_roles_def)

lemma admin_shape:
  "list_all (\<lambda>r. r_guards r = jwt_roles \<and> \<not> r_public r \<and> r_roles r = Some [ADMIN])
     (users_routes @ organizations_routes @ audit_routes)"
  by (simp add: route_tables mk_route_def)

lemma unauthenticated_refused:
  assumes "r \<in> set api_routes" and "\<not> r_public r" and "pp_err p \<or> pp_user p = None"
  shows "activate r p = Inl (UnauthorizedException ''Authentication required'')"
proof -
  from assms(1,2) protected_shape have "r_guards r \<noteq> []" "hd (r_guards r) = JwtAuthGuard"
    by (auto simp: list_all_iff)
  then have "r_guards r = JwtAuthGuard # tl (r_guards r)" by (cases "r_guards r") auto
  then show ?thesis using assms(2,3) by (rule jwt_first)
qed

lemma admin_only:
  assumes "r \<in> set (users_routes @ organizations_routes @ audit_routes)"
    and "activate r p = Inr req"
  shows "\<exists>u. req = Some u \<and> au_role u = ADMIN \<and> pp_user p = Some u"
proof -
  from assms(1) admin_shape
  have "r_guards r = jwt_roles" "\<not> r_public r" "r_roles r = Some [ADMIN]"
    by (auto simp only: list_all_iff)
  from roles_enforced [OF this _ assms(2)] show ?thesis by simp
qed

lemma assign_staff_only:
  assumes "r \<in> set api_routes" and "r_path r = ''tickets/:id/assign''"
    and "activate r p = Inr req"
  shows "\<exists>u. req = Some u \<and> au_role u \<noteq> CUSTOMER \<and> pp_user p = Some u"
proof -
  have "\<forall>r\<in>set api_routes. r_path r = ''tickets/:id/assign'' \<longrightarrow>
      r_guards r = jwt_roles \<and> \<not> r_public r \<and> r_roles r = Some [ADMIN, AGENT]"
    by (simp add: api_routes_def route_tables mk_route_def)
  with assms(1,2) have "r_guards r = jwt_roles" "\<not> r_public r" "r_roles r = Some [ADMIN, AGENT]"
    by auto
  from roles_enforced [OF this _ assms(3)] show ?thesis by fastforce
qed

text \<open>
  The access matrix of the API. A request without an authenticated user is answered 401 on
  every route except the five public ones (register, login, refresh and the two health probes);
  the users, organizations and audit routes are reached by administrators only, and the
  assignment of a ticket by administrators and agents only.
\<close>

theorem access_matrix:
  "(\<forall>r\<in>set api_routes. \<not> r_public r \<longrightarrow> (pp_err p \<or> pp_user p = None) \<longrightarrow>
      activate r p = Inl (UnauthorizedException ''Authentication required''))
   \<and> map r_path (filter r_public api_routes)
      = [''auth/register'', ''auth/login'', ''auth/refresh'', ''health'', ''health/ready'']
   \<and> (\<forall>r\<in>set (users_routes @ organizations_routes @ audit_routes).
      activate r p = Inr req \<longrightarrow> (\<exists>u. req = Some u \<and> au_role u = ADMIN \<and> pp_user p = Some u))
   \<and> (\<forall>r\<in>set api_routes. r_path r = ''tickets/:id/assign'' \<longrightarrow> activate r p = Inr req \<longrightarrow>
      (\<exists>u. req = Some u \<and> au_role u \<noteq> CUSTOMER \<and> pp_user p = Some u))"
proof (intro conjI)
  show "map r_path (filter r_public api_routes)
      = [''auth/register'', ''auth/login'', ''auth/refresh'', ''health'', ''health/ready'']"
    by (simp add: api_routes_def route_tables mk_route_def)
qed (use unauthenticated_refused admin_only assign_staff_only in blast)+

definition sample_agent :: authenticated_user where
  "sample_agent = \<lparr>au_id = ''a'', au_email = ''a@x'', au_role = AGENT, au_organizationId = ''o''\<rparr>"

theorem access_matrix_witness:
  "activate (tickets_routes ! 0) \<lparr>pp_err = False, pp_user = None\<rparr>
     = Inl (UnauthorizedException ''Authentication required'')
   \<and> activate (tickets_routes ! 4) \<lparr>pp_err = False, pp_user = Some sample_agent\<rparr>
     = Inr (Some sample_agent)
   \<and> au_role sample_agent \<noteq> CUSTOMER"
proof -
  have r: "tickets_routes ! 0 \<in> set api_routes" "\<not> r_public (tickets_routes ! 0)"
    "tickets_routes ! 4 \<in> set api_routes" "r_path (tickets_routes ! 4) = ''tickets/:id/assign''"
    by (simp_all add: api_routes_def route_tables mk_route_def)
  have a: "activate (tickets_routes ! 4) \<lparr>pp_err = False, pp_user = Some sample_agent\<rparr>
     = Inr (Some sample_agent)"
    by (simp add: activate_def tickets_routes_def mk_route_def jwt_roles_def jwt_canActivate_def
        handleRequest_def roles_canActivate_def sample_agent_def)
  show ?thesis
    using access_matrix [of "\<lparr>pp_err = False, pp_user = None\<rparr>"]
      access_matrix [of "\<lparr>pp_err = False, pp_user = Some sample_agent\<rparr>"] r a
    by fastforce
qed

end
