(* ===== verification/Config.thy ===== *)
theory Config
  imports Effects
begin

text \<open>
  \<open>config/configuration.ts\<close> and \<open>config/env.validation.ts\<close>: the configuration object built
  from the environment, with \<open>parseInt\<close>, and the checks made at boot. A value the code casts
  with \<open>as string\<close> may be undefined and stays an option; \<open>getOrThrow\<close> raises on it.
\<close>

type_synonym environment = "string \<Rightarrow> string option"

record jwt_config =
  jwt_accessSecret :: "string option"
  jwt_accessExpiresIn :: string
  jwt_refreshSecret :: "string option"
  jwt_refreshExpiresIn :: string

record security_config =
  sec_bcryptSaltRounds :: "int option"
  sec_throttleTtl :: "int option"
  sec_throttleLimit :: "int option"

record outbox_config =
  oc_pollIntervalMs :: "int option"
  oc_batchSize :: "int option"
  oc_maxAttempts :: "int option"

record app_config =
  cf_env :: string
  cf_port :: "int option"
  cf_workerPort :: "int option"
  cf_globalPrefix :: string
  cf_corsOrigin :: string
  cf_databaseUrl :: "string option"
  cf_jwt :: jwt_config
  cf_security :: security_config
  cf_rabbitUri :: "string option"
  cf_rabbitExchange :: string
  cf_outbox :: outbox_config
  cf_maxRetries :: "int option"

section \<open>\<open>parseInt\<close>\<close>

text \<open>Leading white space, an optional sign, the longest run of digits; no digit is \<open>NaN\<close>
  (\<open>None\<close>).\<close>

definition is_space :: "char \<Rightarrow> bool" where
  "is_space c \<longleftrightarrow> (of_char c :: nat) \<in> {9, 10, 11, 12, 13, 32}"

definition parse_digits :: "string \<Rightarrow> nat option" where
  "parse_digits s = (let ds = takeWhile is_digit s in if ds = [] then None else Some (dec_value ds))"

definition parseInt :: "string \<Rightarrow> int option" where
  "parseInt s =
     (case dropWhile is_space s of
        CHR ''-'' # r \<Rightarrow> map_option (\<lambda>n. - int n) (parse_digits r)
      | CHR ''+'' # r \<Rightarrow> map_option int (parse_digits r)
      | r \<Rightarrow> map_option int (parse_digits r))"

fun or_default :: "string option \<Rightarrow> string \<Rightarrow> string" where
  "or_default None s = s"
| "or_default (Some x) _ = x"

definition env_int :: "environment \<Rightarrow> string \<Rightarrow> string \<Rightarrow> int option" where
  "env_int env k fallback = parseInt (or_default (env k) fallback)"

definition configuration :: "environment \<Rightarrow> app_config" where
  "configuration env =
     \<lparr>cf_env = or_default (env ''NODE_ENV'') ''development'',
      cf_port = env_int env ''PORT'' ''3000'',
      cf_workerPort = env_int env ''WORKER_PORT'' ''3001'',
      cf_globalPrefix = or_default (env ''API_GLOBAL_PREFIX'') ''api'',
      cf_corsOrigin = or_default (env ''CORS_ORIGIN'') ''http://localhost:4200'',
      cf_databaseUrl = env ''DATABASE_URL'',
      cf_jwt = \<lparr>jwt_accessSecret = env ''JWT_ACCESS_SECRET'',
                jwt_accessExpiresIn = or_default (env ''JWT_ACCESS_EXPIRES_IN'') ''15m'',
                jwt_refreshSecret = env ''JWT_REFRESH_SECRET'',
                jwt_refreshExpiresIn = or_default (env ''JWT_REFRESH_EXPIRES_IN'') ''7d''\<rparr>,
      cf_security = \<lparr>sec_bcryptSaltRounds = env_int env ''BCRYPT_SALT_ROUNDS'' ''12'',
                     sec_throttleTtl = env_int env ''THROTTLE_TTL'' ''60'',
                     sec_throttleLimit = env_int env ''THROTTLE_LIMIT'' ''120''\<rparr>,
      cf_rabbitUri = env ''RABBITMQ_URI'',
      cf_rabbitExchange = or_default (env ''RABBITMQ_EXCHANGE'') ''support.events'',
      cf_outbox = \<lparr>oc_pollIntervalMs = env_int env ''OUTBOX_POLL_INTERVAL_MS'' ''3000'',
                   oc_batchSize = env_int env ''OUTBOX_BATCH_SIZE'' ''50'',
                   oc_maxAttempts = env_int env ''OUTBOX_MAX_ATTEMPTS'' ''5''\<rparr>,
      cf_maxRetries = env_int env ''CONSUMER_MAX_RETRIES'' ''3''\<rparr>"

text \<open>\<open>ConfigService.getOrThrow\<close> on a key that may be undefined.\<close>

fun getOrThrow :: "string \<Rightarrow> 'a option \<Rightarrow> 'a op" where
  "getOrThrow key None = throw (OtherError (''Configuration key \"'' @ key @ ''\" does not exist''))"
| "getOrThrow key (Some x) = ret x"

section \<open>Validation at boot\<close>

text \<open>
  The Joi schema: what \<open>Joi.string().uri\<close> and \<open>Joi.number()\<close> accept is Joi's, so both are
  parameters (\<open>number\<close> gives the integer read, if the string is one).
\<close>

definition joi_number_ok ::
  "(string \<Rightarrow> int option) \<Rightarrow> environment \<Rightarrow> string \<Rightarrow> (int \<Rightarrow> bool) \<Rightarrow> bool" where
  "joi_number_ok number env k P =
     (case env k of None \<Rightarrow> True | Some s \<Rightarrow> (case number s of None \<Rightarrow> False | Some n \<Rightarrow> P n))"

definition joi_string_ok :: "environment \<Rightarrow> string \<Rightarrow> bool \<Rightarrow> (string \<Rightarrow> bool) \<Rightarrow> bool" where
  "joi_string_ok env k required P =
     (case env k of None \<Rightarrow> \<not> required | Some s \<Rightarrow> s \<noteq> [] \<and> P s)"

definition envValidation ::
  "(string \<Rightarrow> int option) \<Rightarrow> (string \<Rightarrow> bool) \<Rightarrow> environment \<Rightarrow> bool" where
  "envValidation number postgres_uri env \<longleftrightarrow>
     joi_string_ok env ''NODE_ENV'' False
       (\<lambda>s. s \<in> {''development'', ''production'', ''test''})
     \<and> joi_number_ok number env ''PORT'' (\<lambda>_. True)
     \<and> joi_number_ok number env ''WORKER_PORT'' (\<lambda>_. True)
     \<and> joi_string_ok env ''API_GLOBAL_PREFIX'' False (\<lambda>_. True)
     \<and> joi_string_ok env ''CORS_ORIGIN'' False (\<lambda>_. True)
     \<and> joi_string_ok env ''DATABASE_URL'' True postgres_uri
     \<and> joi_string_ok env ''JWT_ACCESS_SECRET'' True (\<lambda>s. 16 \<le> length s)
     \<and> joi_string_ok env ''JWT_ACCESS_EXPIRES_IN'' False (\<lambda>_. True)
     \<and> joi_string_ok env ''JWT_REFRESH_SECRET'' True (\<lambda>s. 16 \<le> length s)
     \<and> joi_string_ok env ''JWT_REFRESH_EXPIRES_IN'' False (\<lambda>_. True)
     \<and> joi_number_ok number env ''BCRYPT_SALT_ROUNDS'' (\<lambda>n. 10 \<le> n \<and> n \<le> 15)
     \<and> joi_number_ok number env ''THROTTLE_TTL'' (\<lambda>_. True)
     \<and> joi_number_ok number env ''THROTTLE_LIMIT'' (\<lambda>_. True)
     \<and> joi_string_ok env ''RABBITMQ_URI'' True (\<lambda>_. True)
     \<and> joi_string_ok env ''RABBITMQ_EXCHANGE'' False (\<lambda>_. True)
     \<and> joi_number_ok number env ''OUTBOX_POLL_INTERVAL_MS'' (\<lambda>_. True)
     \<and> joi_number_ok number env ''OUTBOX_BATCH_SIZE'' (\<lambda>_. True)
     \<and> joi_number_ok number env ''OUTBOX_MAX_ATTEMPTS'' (\<lambda>_. True)
     \<and> joi_number_ok number env ''CONSUMER_MAX_RETRIES'' (\<lambda>_. True)"

text \<open>
  A process that boots has a usable configuration: both JWT secrets are present with at
  least 16 characters, so no \<open>getOrThrow\<close> on them can fail, the bcrypt cost is between 10 and
  15, and every numeric setting is a number. (\<open>parseInt\<close> is assumed to read the integers the
  validator accepted the way the validator did.)
\<close>

theorem valid_env_config:
  assumes "envValidation number uri env"
    and "\<And>s n. number s = Some n \<Longrightarrow> parseInt s = Some n"
  shows "(\<exists>s. jwt_accessSecret (cf_jwt (configuration env)) = Some s \<and> 16 \<le> length s)
    \<and> (\<exists>s. jwt_refreshSecret (cf_jwt (configuration env)) = Some s \<and> 16 \<le> length s)
    \<and> (\<exists>n. sec_bcryptSaltRounds (cf_security (configuration env)) = Some n \<and> 10 \<le> n \<and> n \<le> 15)
    \<and> cf_maxRetries (configuration env) \<noteq> None
    \<and> oc_batchSize (cf_outbox (configuration env)) \<noteq> None
    \<and> oc_maxAttempts (cf_outbox (configuration env)) \<noteq> None"
proof -
  have int: "\<exists>n. env_int env k f = Some n \<and> P n"
    if "joi_number_ok number env k P" and "\<exists>n. parseInt f = Some n \<and> P n" for k f P
    using that assms(2) unfolding joi_number_ok_def env_int_def
    by (cases "env k") (auto split: option.splits)
  have dflt: "parseInt ''12'' = Some 12" "parseInt ''3'' = Some 3" "parseInt ''50'' = Some 50"
    "parseInt ''5'' = Some 5" by code_simp+
  have "\<exists>n. env_int env ''BCRYPT_SALT_ROUNDS'' ''12'' = Some n \<and> 10 \<le> n \<and> n \<le> 15"
    using assms(1) dflt unfolding envValidation_def by (intro int) auto
  moreover have "\<exists>n. env_int env ''CONSUMER_MAX_RETRIES'' ''3'' = Some n \<and> True"
      "\<exists>n. env_int env ''OUTBOX_BATCH_SIZE'' ''50'' = Some n \<and> True"
      "\<exists>n. env_int env ''OUTBOX_MAX_ATTEMPTS'' ''5'' = Some n \<and> True"
    using assms(1) dflt unfolding envValidation_def by (intro int; simp)+
  moreover have "\<exists>s. env ''JWT_ACCESS_SECRET'' = Some s \<and> 16 \<le> length s"
      "\<exists>s. env ''JWT_REFRESH_SECRET'' = Some s \<and> 16 \<le> length s"
    using assms(1) by (auto simp: envValidation_def joi_string_ok_def split: option.splits)
  ultimately show ?thesis by (auto simp: configuration_def)
qed

definition fx_env :: environment where
  "fx_env = map_of [(''DATABASE_URL'', ''postgresql://db''),
     (''JWT_ACCESS_SECRET'', ''access-secret-0123456789''),
     (''JWT_REFRESH_SECRET'', ''refresh-secret-0123456789''), (''RABBITMQ_URI'', ''amqp://mq''),
     (''BCRYPT_SALT_ROUNDS'', ''11'')]"

theorem valid_env_config_witness:
  "\<exists>n. sec_bcryptSaltRounds (cf_security (configuration fx_env)) = Some n \<and> 10 \<le> n \<and> n \<le> 15"
proof -
  have v: "envValidation parseInt (\<lambda>s. take 10 s = ''postgresql'') fx_env" by code_simp
  show ?thesis using valid_env_config [OF v] by simp
qed

end
