(* ===== verification/JsDate.thy ===== *)
theory JsDate
  imports JsValue
begin

text \<open>
  The parts of \<open>Date\<close> the sources use: the proleptic Gregorian calendar of the UTC getters,
  \<open>Date.UTC\<close> and \<open>toISOString\<close> (for the years 0 to 9999 the ISO string writes with four
  digits). A \<open>Date\<close> is its number of milliseconds since the epoch. The conversion between day
  numbers and dates counts eras of 400 years from 1 March of the year 0.
\<close>

definition ms_per_day :: int where
  "ms_per_day = 86400000"

definition civil_from_days :: "int \<Rightarrow> int \<times> int \<times> int" where
  "civil_from_days n =
     (let z = n + 719468;
          era = z div 146097;
          doe = z mod 146097;
          yoe = (doe - doe div 1460 + doe div 36524 - doe div 146096) div 365;
          doy = doe - (365 * yoe + yoe div 4 - yoe div 100);
          mp = (5 * doy + 2) div 153;
          d = doy - (153 * mp + 2) div 5 + 1;
          m = (if mp < 10 then mp + 3 else mp - 9);
          y = yoe + era * 400 + (if m \<le> 2 then 1 else 0)
      in (y, m, d))"

definition days_from_civil :: "int \<Rightarrow> int \<Rightarrow> int \<Rightarrow> int" where
  "days_from_civil y0 m d =
     (let y = (if m \<le> 2 then y0 - 1 else y0);
          era = y div 400;
          yoe = y mod 400;
          mp = (if m > 2 then m - 3 else m + 9);
          doy = (153 * mp + 2) div 5 + d - 1;
          doe = yoe * 365 + yoe div 4 - yoe div 100 + doy
      in era * 146097 + doe - 719468)"

definition getUTCFullYear :: "time \<Rightarrow> int" where
  "getUTCFullYear t = fst (civil_from_days (t div ms_per_day))"

definition getUTCMonth :: "time \<Rightarrow> int" where
  "getUTCMonth t = fst (snd (civil_from_days (t div ms_per_day))) - 1"

definition getUTCDate :: "time \<Rightarrow> int" where
  "getUTCDate t = snd (snd (civil_from_days (t div ms_per_day)))"

definition date_UTC :: "int \<Rightarrow> int \<Rightarrow> int \<Rightarrow> time" where
  "date_UTC y mon d = days_from_civil y (mon + 1) d * ms_per_day"

definition two :: "int \<Rightarrow> string" where
  "two i = padStart 2 CHR ''0'' (show_int i)"

definition toISOString :: "time \<Rightarrow> string" where
  "toISOString t =
     (let ms = t mod ms_per_day
      in padStart 4 CHR ''0'' (show_int (getUTCFullYear t)) @ ''-'' @ two (getUTCMonth t + 1)
         @ ''-'' @ two (getUTCDate t) @ ''T'' @ two (ms div 3600000) @ '':''
         @ two (ms div 60000 mod 60) @ '':'' @ two (ms div 1000 mod 60) @ ''.''
         @ padStart 3 CHR ''0'' (show_int (ms mod 1000)) @ ''Z'')"

lemma iso_epoch: "toISOString 0 = ''1970-01-01T00:00:00.000Z''"
  by code_simp

lemma iso_leap_day: "toISOString 1709208000123 = ''2024-02-29T12:00:00.123Z''"
  by code_simp

end
