(* ===== verification/Messaging.thy ===== *)
theory Messaging
  imports Tables JsDate
begin

text \<open>
  \<open>messaging/contracts\<close> and \<open>messaging/event-publisher.service.ts\<close>: the routing keys, the
  RabbitMQ topology, the event envelope, and the transactional outbox writer \<open>enqueue\<close>. The
  locale \<open>outbox_writer\<close> is what the domain services rely on: an \<open>enqueue\<close> that succeeds
  appends exactly one PENDING row with the given key, payload and correlation id, and one that
  fails writes nothing.
\<close>

section \<open>Routing keys and topology\<close>

definition RK_TicketCreated :: string where "RK_TicketCreated = ''ticket.created''"
definition RK_TicketUpdated :: string where "RK_TicketUpdated = ''ticket.updated''"
definition RK_TicketAssigned :: string where "RK_TicketAssigned = ''ticket.assigned''"
definition RK_TicketClosed :: string where "RK_TicketClosed = ''ticket.closed''"
definition RK_CommentCreated :: string where "RK_CommentCreated = ''comment.created''"
definition RK_NotificationCreated :: string where
  "RK_NotificationCreated = ''notification.created''"

lemmas routing_keys = RK_TicketCreated_def RK_TicketUpdated_def RK_TicketAssigned_def
  RK_TicketClosed_def RK_CommentCreated_def RK_NotificationCreated_def

lemma routing_keys_distinct [simp]:
  "RK_TicketCreated \<noteq> RK_TicketUpdated" "RK_TicketCreated \<noteq> RK_TicketAssigned"
  "RK_TicketCreated \<noteq> RK_TicketClosed" "RK_TicketCreated \<noteq> RK_CommentCreated"
  "RK_TicketUpdated \<noteq> RK_TicketCreated" "RK_TicketUpdated \<noteq> RK_TicketAssigned"
  "RK_TicketUpdated \<noteq> RK_TicketClosed" "RK_TicketUpdated \<noteq> RK_CommentCreated"
  "RK_TicketAssigned \<noteq> RK_TicketCreated" "RK_TicketAssigned \<noteq> RK_TicketUpdated"
  "RK_TicketAssigned \<noteq> RK_TicketClosed" "RK_TicketAssigned \<noteq> RK_CommentCreated"
  "RK_TicketClosed \<noteq> RK_TicketCreated" "RK_TicketClosed \<noteq> RK_TicketUpdated"
  "RK_TicketClosed \<noteq> RK_TicketAssigned" "RK_TicketClosed \<noteq> RK_CommentCreated"
  "RK_CommentCreated \<noteq> RK_TicketCreated" "RK_CommentCreated \<noteq> RK_TicketUpdated"
  "RK_CommentCreated \<noteq> RK_TicketAssigned" "RK_CommentCreated \<noteq> RK_TicketClosed"
  by (simp_all add: routing_keys)

definition EXCHANGE :: string where "EXCHANGE = ''support.events''"
definition DEAD_LETTER_EXCHANGE :: string where "DEAD_LETTER_EXCHANGE = ''support.events.dlx''"

definition Q_Notification :: string where "Q_Notification = ''notification.queue''"
definition Q_Audit :: string where "Q_Audit = ''audit.queue''"
definition Q_Analytics :: string where "Q_Analytics = ''analytics.queue''"
definition Q_DeadLetter :: string where "Q_DeadLetter = ''dlq''"

definition Consumer_Notification :: string where "Consumer_Notification = ''notification''"
definition Consumer_Audit :: string where "Consumer_Audit = ''audit''"
definition Consumer_Analytics :: string where "Consumer_Analytics = ''analytics''"

definition NotificationBindings :: "string list" where
  "NotificationBindings =
     [RK_TicketCreated, RK_TicketUpdated, RK_TicketAssigned, RK_TicketClosed, RK_CommentCreated]"

definition AuditBindings :: "string list" where
  "AuditBindings = [''#'']"

definition AnalyticsBindings :: "string list" where
  "AnalyticsBindings = [RK_TicketCreated, RK_TicketAssigned, RK_TicketClosed]"

definition DeadLetterBindings :: "string list" where
  "DeadLetterBindings = [''#'']"

definition RETRY_HEADER :: string where "RETRY_HEADER = ''x-retry''"
definition LAST_ERROR_HEADER :: string where "LAST_ERROR_HEADER = ''x-last-error''"

record domain_event =
  ev_eventId :: string
  ev_routingKey :: string
  ev_occurredAt :: string
  ev_correlationId :: "string option"
  ev_payload :: json

section \<open>The outbox writer\<close>

definition outbox_row :: "string \<Rightarrow> time \<Rightarrow> string \<Rightarrow> json \<Rightarrow> string option \<Rightarrow> event_outbox" where
  "outbox_row i t routingKey payload correlationId =
     \<lparr>ob_id = i, ob_routingKey = routingKey, ob_payload = payload,
      ob_correlationId = correlationId, ob_status = Outbox_PENDING, ob_attempts = 0,
      ob_lastError = None, ob_createdAt = t, ob_dispatchedAt = None\<rparr>"

definition enqueue :: "string \<Rightarrow> json \<Rightarrow> string option \<Rightarrow> unit op" where
  "enqueue routingKey payload correlationId =
     andThen randomUUID (\<lambda>i.
     andThen current_time (\<lambda>t.
     write_db (outbox_insert (outbox_row i t routingKey payload correlationId))))"

text \<open>A row that waits to be relayed with this key, payload and correlation id.\<close>

definition pending_row :: "string \<Rightarrow> json \<Rightarrow> string option \<Rightarrow> event_outbox \<Rightarrow> bool" where
  "pending_row k p c row \<longleftrightarrow> ob_routingKey row = k \<and> ob_payload row = p
     \<and> ob_correlationId row = c \<and> ob_status row = Outbox_PENDING \<and> ob_attempts row = 0"

locale outbox_writer =
  fixes put :: "string \<Rightarrow> json \<Rightarrow> string option \<Rightarrow> unit op"
  assumes put_ok: "put k p c w = (Inr u, w') \<Longrightarrow>
      \<exists>row. w_db w' = (w_db w)\<lparr>outbox := outbox (w_db w) @ [row]\<rparr> \<and> pending_row k p c row"
    and put_err: "put k p c w = (Inl e, w') \<Longrightarrow> w_db w' = w_db w"
begin

lemma committed_put:
  assumes "transaction (andThen m (\<lambda>x. andThen (put (k x) (p x) c) (\<lambda>_. ret x))) w = (Inr x, w')"
  shows "\<exists>v row. m w = (Inr x, v)
    \<and> w_db w' = (w_db v)\<lparr>outbox := outbox (w_db v) @ [row]\<rparr> \<and> pending_row (k x) (p x) c row"
proof -
  from assms obtain v u v' where
    m: "m w = (Inr x, v)" and q: "put (k x) (p x) c v = (Inr u, v')" and "w' = v'"
    by (auto simp: transaction_ok andThen_ok mrun)
  with put_ok [OF q] show ?thesis by auto
qed

lemma two_puts:
  assumes "andThen (put k p c) (\<lambda>_. andThen (put k' p' c) (\<lambda>_. ret x)) v = (Inr y, w')"
  shows "y = x \<and> (\<exists>r r'. w_db w' = (w_db v)\<lparr>outbox := outbox (w_db v) @ [r, r']\<rparr>
    \<and> pending_row k p c r \<and> pending_row k' p' c r')"
proof -
  from assms obtain u v1 u' where 1: "put k p c v = (Inr u, v1)"
    and 2: "put k' p' c v1 = (Inr u', w')" and "y = x"
    by (auto simp: andThen_ok mrun)
  obtain r where r: "w_db v1 = (w_db v)\<lparr>outbox := outbox (w_db v) @ [r]\<rparr>" "pending_row k p c r"
    using put_ok [OF 1] by blast
  obtain r' where "w_db w' = (w_db v1)\<lparr>outbox := outbox (w_db v1) @ [r']\<rparr>"
      "pending_row k' p' c r'"
    using put_ok [OF 2] by blast
  with r have "w_db w' = (w_db v)\<lparr>outbox := outbox (w_db v) @ [r, r']\<rparr>
    \<and> pending_row k p c r \<and> pending_row k' p' c r'" by simp
  with \<open>y = x\<close> show ?thesis by blast
qed

lemma one_put:
  assumes "andThen (put k p c) (\<lambda>_. ret x) v = (Inr y, w')"
  shows "y = x \<and> (\<exists>r. w_db w' = (w_db v)\<lparr>outbox := outbox (w_db v) @ [r]\<rparr>
    \<and> pending_row k p c r)"
  using assms by (auto simp: andThen_ok mrun dest: put_ok)

end

interpretation publisher: outbox_writer enqueue
  by unfold_locales
    (auto simp: enqueue_def mrun meval outbox_insert_def outbox_row_def pending_row_def
      split: if_splits)

lemma enqueue_now: "enqueue k p c w = (Inr u, w') \<Longrightarrow> w_now w' = w_now w"
  by (auto simp: enqueue_def mrun meval outbox_insert_def split: if_splits)

lemma enqueue_fresh:
  assumes "\<forall>r\<in>set (outbox (w_db w)). ob_id r \<noteq> w_uuid w (w_next w)"
  shows "enqueue k p c w =
    (Inr (), w\<lparr>w_next := Suc (w_next w), w_db := (w_db w)\<lparr>outbox := outbox (w_db w)
       @ [outbox_row (w_uuid w (w_next w)) (w_now w) k p c]\<rparr>\<rparr>)"
  using assms by (auto simp: enqueue_def mrun meval outbox_insert_def outbox_row_def list_ex_iff)

end
