(* ===== verification/Fixtures.thy ===== *)
theory Fixtures
  imports Messaging Guards
begin

text \<open>
  A small concrete database (one organization with a customer, an agent and an admin, a second
  organization with its own agent, two tickets) on which the witnesses of the properties run.
\<close>

definition fx_user :: "string \<Rightarrow> role \<Rightarrow> string \<Rightarrow> user" where
  "fx_user i r g = \<lparr>u_id = i, u_email = i @ ''@acme.test'', u_passwordHash = ''hash:'' @ i,
     u_firstName = i, u_lastName = ''Doe'', u_role = r, u_isActive = True, u_lastLoginAt = None,
     u_organizationId = g, u_createdAt = 0, u_updatedAt = 0\<rparr>"

definition fx_org :: "string \<Rightarrow> organization" where
  "fx_org i = \<lparr>org_id = i, org_name = i, org_slug = i, org_isActive = True, org_createdAt = 0,
     org_updatedAt = 0\<rparr>"

definition fx_ticket :: "string \<Rightarrow> string \<Rightarrow> string \<Rightarrow> string \<Rightarrow> ticket" where
  "fx_ticket i ref g c = \<lparr>tk_id = i, tk_reference = ref, tk_title = ''Broken'',
     tk_description = ''It is broken'', tk_status = OPEN, tk_priority = LOW, tk_category = None,
     tk_organizationId = g, tk_createdById = c, tk_assignedToId = None, tk_createdAt = 0,
     tk_updatedAt = 0, tk_closedAt = None\<rparr>"

definition fx_db :: db where
  "fx_db = empty_db\<lparr>
     organizations := [fx_org ''acme'', fx_org ''globex''],
     users := [fx_user ''carol'' CUSTOMER ''acme'', fx_user ''alex'' AGENT ''acme'',
               fx_user ''ada'' ADMIN ''acme'', fx_user ''gus'' AGENT ''globex''],
     tickets := [fx_ticket ''t1'' ''TKT-000001'' ''acme'' ''carol'',
                 fx_ticket ''t2'' ''TKT-000002'' ''acme'' ''ada'']\<rparr>"

definition fx_world :: "db \<Rightarrow> world" where
  "fx_world d = \<lparr>w_db = d, w_uuid = (\<lambda>n. ''uuid-'' @ show_nat n), w_next = 0, w_now = 1000\<rparr>"

definition fx_actor :: "string \<Rightarrow> role \<Rightarrow> string \<Rightarrow> authenticated_user" where
  "fx_actor i r g = \<lparr>au_id = i, au_email = i @ ''@acme.test'', au_role = r,
     au_organizationId = g\<rparr>"

definition carol :: authenticated_user where "carol = fx_actor ''carol'' CUSTOMER ''acme''"
definition alex :: authenticated_user where "alex = fx_actor ''alex'' AGENT ''acme''"
definition ada :: authenticated_user where "ada = fx_actor ''ada'' ADMIN ''acme''"
definition gus :: authenticated_user where "gus = fx_actor ''gus'' AGENT ''globex''"

lemmas fixtures = fx_user_def fx_org_def fx_ticket_def fx_db_def fx_world_def fx_actor_def
  carol_def alex_def ada_def gus_def empty_db_def

lemma fx_ticket_ids: "distinct (map tk_id (tickets (w_db (fx_world fx_db))))"
  by (simp add: fixtures)

end
