(* ===== verification/Tokens.thy ===== *)
theory Tokens
  imports Tables Guards Config Fixtures
begin

text \<open>
  \<open>auth/token.service.ts\<close>: issuing access and refresh tokens, rotation with reuse detection,
  and revocation. The JWT library and SHA-256 are a record of functions (\<open>crypto\<close>) the
  operations take; \<open>verifyRefresh\<close> answers \<open>None\<close> when \<open>verifyAsync\<close> rejects, and a payload
  whose \<open>jti\<close> and \<open>familyId\<close> are present only if the verified token carries them.
\<close>

record access_payload =
  ap_sub :: string
  ap_email :: string
  ap_role :: role
  ap_organizationId :: string

record refresh_payload =
  rp_sub :: string
  rp_jti :: "string option"
  rp_familyId :: "string option"

record auth_tokens =
  accessToken :: string
  refreshToken :: string
  tokenType :: string
  expiresIn :: string

record request_context =
  rc_userAgent :: "string option"
  rc_ipAddress :: "string option"

record crypto =
  signAccess :: "string \<Rightarrow> access_payload \<Rightarrow> string \<Rightarrow> time \<Rightarrow> string"
  signRefresh :: "string \<Rightarrow> refresh_payload \<Rightarrow> string \<Rightarrow> time \<Rightarrow> string"
  verifyRefresh :: "string \<Rightarrow> time \<Rightarrow> string \<Rightarrow> refresh_payload option"
  sha256 :: "string \<Rightarrow> string"

section \<open>Expiry\<close>

fun unitMs :: "char \<Rightarrow> int" where
  "unitMs c = (if c = CHR ''s'' then 1000 else if c = CHR ''m'' then 60 * 1000
     else if c = CHR ''h'' then 60 * 60 * 1000 else 24 * 60 * 60 * 1000)"

definition expiry_match :: "string \<Rightarrow> (string \<times> char) option" where
  "expiry_match s =
     (if 2 \<le> length s \<and> list_all is_digit (butlast s) \<and> last s \<in> set ''dhms''
      then Some (butlast s, last s) else None)"

definition expiryToDate :: "string \<Rightarrow> time \<Rightarrow> time" where
  "expiryToDate e t =
     (case expiry_match e of
        None \<Rightarrow> t + 7 * 24 * 60 * 60 * 1000
      | Some (ds, u) \<Rightarrow> t + int (dec_value ds) * unitMs u)"

section \<open>Issuing\<close>

text \<open>\<open>familyId\<close> is a parameter with the default value \<open>randomUUID()\<close>, evaluated on entry.\<close>

definition default_family :: "string option \<Rightarrow> string op" where
  "default_family f = (case f of None \<Rightarrow> randomUUID | Some i \<Rightarrow> ret i)"

definition context_field :: "(request_context \<Rightarrow> string option) \<Rightarrow> request_context option \<Rightarrow> string option"
where
  "context_field sel c = (case c of None \<Rightarrow> None | Some x \<Rightarrow> sel x)"

definition issueTokens ::
  "crypto \<Rightarrow> jwt_config \<Rightarrow> authenticated_user \<Rightarrow> request_context option \<Rightarrow> string option
    \<Rightarrow> auth_tokens op"
where
  "issueTokens cr cfg u ctx family =
     andThen (default_family family) (\<lambda>familyId.
     andThen (getOrThrow ''jwt.accessSecret'' (jwt_accessSecret cfg)) (\<lambda>accessSecret.
     andThen current_time (\<lambda>t.
     let accessT = signAccess cr accessSecret
           \<lparr>ap_sub = au_id u, ap_email = au_email u, ap_role = au_role u,
            ap_organizationId = au_organizationId u\<rparr> (jwt_accessExpiresIn cfg) t
     in andThen randomUUID (\<lambda>jti.
        andThen (getOrThrow ''jwt.refreshSecret'' (jwt_refreshSecret cfg)) (\<lambda>refreshSecret.
        let refreshT = signRefresh cr refreshSecret
              \<lparr>rp_sub = au_id u, rp_jti = Some jti, rp_familyId = Some familyId\<rparr>
              (jwt_refreshExpiresIn cfg) t
        in andThen (write_db (refresh_token_insert
             \<lparr>rt_id = jti, rt_userId = au_id u, rt_tokenHash = sha256 cr refreshT,
              rt_familyId = familyId, rt_userAgent = context_field rc_userAgent ctx,
              rt_ipAddress = context_field rc_ipAddress ctx,
              rt_expiresAt = expiryToDate (jwt_refreshExpiresIn cfg) t, rt_revokedAt = None,
              rt_createdAt = t\<rparr>)) (\<lambda>_.
           ret \<lparr>accessToken = accessT, refreshToken = refreshT, tokenType = ''Bearer'',
                expiresIn = jwt_accessExpiresIn cfg\<rparr>))))))"

section \<open>Rotation\<close>

definition to_subject :: "user \<Rightarrow> authenticated_user" where
  "to_subject u = \<lparr>au_id = u_id u, au_email = u_email u, au_role = u_role u,
     au_organizationId = u_organizationId u\<rparr>"

definition revoke_row :: "time \<Rightarrow> refresh_token \<Rightarrow> refresh_token" where
  "revoke_row t r = r\<lparr>rt_revokedAt := Some t\<rparr>"

definition live_in_family :: "string \<Rightarrow> refresh_token \<Rightarrow> bool" where
  "live_in_family f r \<longleftrightarrow> rt_familyId r = f \<and> rt_revokedAt r = None"

definition revoke_family :: "string \<Rightarrow> unit op" where
  "revoke_family f =
     andThen current_time (\<lambda>t. refresh_token_updateMany (live_in_family f) (revoke_row t))"

text \<open>
  \<open>rotate\<close> up to the point where every check has passed (\<open>rotate_check\<close>), and the two writes
  that follow (\<open>rotate_commit\<close>); the code runs them one after the other without a transaction.
\<close>

definition verify_refresh :: "crypto \<Rightarrow> jwt_config \<Rightarrow> string \<Rightarrow> refresh_payload option op" where
  "verify_refresh cr cfg raw =
     andThen current_time (\<lambda>t.
     ret (case jwt_refreshSecret cfg of None \<Rightarrow> None | Some s \<Rightarrow> verifyRefresh cr s t raw))"

definition find_token :: "string option \<Rightarrow> refresh_token option op" where
  "find_token jti =
     (case jti of
        None \<Rightarrow> throw validation_error
      | Some i \<Rightarrow> read_db (\<lambda>d. find_by rt_id i (refresh_tokens d)))"

definition rotate_check ::
  "crypto \<Rightarrow> jwt_config \<Rightarrow> string \<Rightarrow> (refresh_token \<times> authenticated_user) op" where
  "rotate_check cr cfg raw =
     andThen (verify_refresh cr cfg raw) (\<lambda>v.
     case v of
       None \<Rightarrow> throw (UnauthorizedException ''Invalid refresh token'')
     | Some payload \<Rightarrow>
     andThen (find_token (rp_jti payload)) (\<lambda>found.
     case found of
       None \<Rightarrow> throw (UnauthorizedException ''Invalid refresh token'')
     | Some stored \<Rightarrow>
     if rt_tokenHash stored \<noteq> sha256 cr raw
     then throw (UnauthorizedException ''Invalid refresh token'')
     else if rt_revokedAt stored \<noteq> None
     then andThen (revoke_family (rt_familyId stored)) (\<lambda>_.
          throw (UnauthorizedException ''Refresh token reuse detected''))
     else andThen current_time (\<lambda>t.
     if rt_expiresAt stored < t
     then throw (UnauthorizedException ''Refresh token expired'')
     else andThen (read_db (\<lambda>d. find_by u_id (rt_userId stored) (users d))) (\<lambda>u.
     case u of
       None \<Rightarrow> throw (UnauthorizedException ''User is no longer active'')
     | Some user \<Rightarrow>
         if \<not> u_isActive user
         then throw (UnauthorizedException ''User is no longer active'')
         else ret (stored, to_subject user)))))"

definition rotate_commit ::
  "crypto \<Rightarrow> jwt_config \<Rightarrow> request_context option \<Rightarrow> refresh_token \<times> authenticated_user
    \<Rightarrow> auth_tokens op"
where
  "rotate_commit cr cfg ctx c =
     andThen current_time (\<lambda>t.
     andThen (refresh_token_update (rt_id (fst c)) (revoke_row t)) (\<lambda>_.
     issueTokens cr cfg (snd c) ctx (Some (rt_familyId (fst c)))))"

definition rotate ::
  "crypto \<Rightarrow> jwt_config \<Rightarrow> string \<Rightarrow> request_context option \<Rightarrow> auth_tokens op" where
  "rotate cr cfg raw ctx = andThen (rotate_check cr cfg raw) (rotate_commit cr cfg ctx)"

section \<open>Revocation\<close>

text \<open>
  Prisma drops a filter whose value is \<open>undefined\<close>: a verified token without \<open>familyId\<close>
  leaves only \<open>revokedAt: null\<close>.
\<close>

definition revoke :: "crypto \<Rightarrow> jwt_config \<Rightarrow> string \<Rightarrow> unit op" where
  "revoke cr cfg raw =
     andThen (verify_refresh cr cfg raw) (\<lambda>v.
     case v of
       None \<Rightarrow> ret ()
     | Some payload \<Rightarrow>
         andThen current_time (\<lambda>t.
         refresh_token_updateMany
           (\<lambda>r. rt_revokedAt r = None
              \<and> (case rp_familyId payload of None \<Rightarrow> True | Some f \<Rightarrow> rt_familyId r = f))
           (revoke_row t)))"

section \<open>Runs\<close>

definition token_row ::
  "crypto \<Rightarrow> jwt_config \<Rightarrow> authenticated_user \<Rightarrow> request_context option \<Rightarrow> string \<Rightarrow> string \<Rightarrow> time
    \<Rightarrow> string \<Rightarrow> refresh_token"
where
  "token_row cr cfg u ctx f jti t raw =
     \<lparr>rt_id = jti, rt_userId = au_id u, rt_tokenHash = sha256 cr raw, rt_familyId = f,
      rt_userAgent = context_field rc_userAgent ctx,
      rt_ipAddress = context_field rc_ipAddress ctx,
      rt_expiresAt = expiryToDate (jwt_refreshExpiresIn cfg) t, rt_revokedAt = None,
      rt_createdAt = t\<rparr>"

definition add_token :: "refresh_token \<Rightarrow> db \<Rightarrow> db" where
  "add_token r d = d\<lparr>refresh_tokens := refresh_tokens d @ [r]\<rparr>"

lemma add_token_simps [simp]:
  "refresh_tokens (add_token r d) = refresh_tokens d @ [r]" "users (add_token r d) = users d"
  by (simp_all add: add_token_def)

lemma getOrThrow_ok: "getOrThrow k x w = (Inr y, w') \<longleftrightarrow> x = Some y \<and> w' = w"
  by (cases x) (auto simp: mrun)

lemma getOrThrow_err: "getOrThrow k x w = (Inl e, w') \<Longrightarrow> w' = w"
  by (cases x) (auto simp: mrun)

lemma refresh_token_insert_ok:
  "refresh_token_insert r d = Inr d' \<longleftrightarrow>
     (\<forall>x\<in>set (refresh_tokens d). rt_id x \<noteq> rt_id r \<and> rt_tokenHash x \<noteq> rt_tokenHash r)
     \<and> user_exists d (rt_userId r) \<and> d' = add_token r d"
  by (auto simp: refresh_token_insert_def list_ex_iff add_token_def)

definition uuids_used :: "string option \<Rightarrow> nat" where
  "uuids_used f = (if f = None then 2 else 1)"

lemma default_family_run:
  "default_family f w = (Inr (case f of None \<Rightarrow> w_uuid w (w_next w) | Some i \<Rightarrow> i),
     (case f of None \<Rightarrow> w\<lparr>w_next := Suc (w_next w)\<rparr> | Some i \<Rightarrow> w))"
  by (simp add: default_family_def mrun split: option.split)

lemma issueTokens_ok:
  assumes "issueTokens cr cfg u ctx fam w = (Inr toks, w')"
  obtains jti f where
    "jti = w_uuid w (w_next w + uuids_used fam - 1)"
    "f = (case fam of None \<Rightarrow> w_uuid w (w_next w) | Some i \<Rightarrow> i)"
    "w' = w\<lparr>w_next := w_next w + uuids_used fam,
        w_db := add_token (token_row cr cfg u ctx f jti (w_now w) (refreshToken toks)) (w_db w)\<rparr>"
    "user_exists (w_db w) (au_id u)"
    "\<forall>x\<in>set (refresh_tokens (w_db w)). rt_tokenHash x \<noteq> sha256 cr (refreshToken toks)"
proof -
  obtain f v where f: "f = (case fam of None \<Rightarrow> w_uuid w (w_next w) | Some i \<Rightarrow> i)"
    and v: "v = (case fam of None \<Rightarrow> w\<lparr>w_next := Suc (w_next w)\<rparr> | Some i \<Rightarrow> w)" by simp
  have same: "w_db v = w_db w" "w_now v = w_now w" "w_uuid v = w_uuid w"
    and nxt: "w_next v = w_next w + uuids_used fam - 1"
    by (simp_all add: v uuids_used_def split: option.split)
  let ?jti = "w_uuid w (w_next v)"
  let ?r = "token_row cr cfg u ctx f ?jti (w_now w) (refreshToken toks)"
  have "default_family fam w = (Inr f, v)" by (simp add: default_family_run f v)
  with assms obtain d where ins: "refresh_token_insert ?r (w_db w) = Inr d"
    and w': "w' = v\<lparr>w_next := Suc (w_next v), w_db := d\<rparr>"
    unfolding issueTokens_def andThen_ok [where m = "default_family fam"]
    by (auto simp: runs Let_def getOrThrow_ok token_row_def same)
  have "w' = w\<lparr>w_next := w_next w + uuids_used fam, w_db := add_token ?r (w_db w)\<rparr>"
    using ins unfolding w'
    by (auto simp: refresh_token_insert_ok v uuids_used_def split: option.split)
  with ins show ?thesis
    by (intro that [of ?jti f]) (auto simp: refresh_token_insert_ok token_row_def nxt f)
qed

lemma issueTokens_err: 
  assumes "issueTokens cr cfg u ctx fam w = (Inl e, w')"
  shows "w_db w' = w_db w \<and> w_uuid w' = w_uuid w \<and> w_now w' = w_now w \<and> w_next w \<le> w_next w'"
proof -
  obtain f v where df: "default_family fam w = (Inr f, v)"
    and v: "v = (case fam of None \<Rightarrow> w\<lparr>w_next := Suc (w_next w)\<rparr> | Some i \<Rightarrow> w)"
    by (simp add: default_family_run)
  have same: "w_db v = w_db w" "w_now v = w_now w" "w_uuid v = w_uuid w" "w_next w \<le> w_next v"
    by (simp_all add: v split: option.split)
  from assms df have "w' = v \<or> w' = v\<lparr>w_next := Suc (w_next v)\<rparr>"
    unfolding issueTokens_def andThen_err [where m = "default_family fam"]
    by (auto simp: runs Let_def getOrThrow_ok dest: getOrThrow_err)
  with same show ?thesis by auto
qed

lemma rotate_check_ok:
  assumes "rotate_check cr cfg raw w = (Inr (stored, subj), w')"
  shows "w' = w \<and> stored \<in> set (refresh_tokens (w_db w)) \<and> rt_tokenHash stored = sha256 cr raw
    \<and> rt_revokedAt stored = None \<and> w_now w \<le> rt_expiresAt stored
    \<and> (\<exists>p s. jwt_refreshSecret cfg = Some s \<and> verifyRefresh cr s (w_now w) raw = Some p
         \<and> rp_jti p = Some (rt_id stored))
    \<and> (\<exists>usr\<in>set (users (w_db w)). u_id usr = rt_userId stored \<and> u_isActive usr
         \<and> subj = to_subject usr)"
  using assms
  by (auto simp: rotate_check_def runs verify_refresh_def find_token_def
      split: option.splits if_splits dest!: find_by_Some)

definition family_revoked :: "string \<Rightarrow> time \<Rightarrow> db \<Rightarrow> db" where
  "family_revoked f t d =
     d\<lparr>refresh_tokens := update_many (live_in_family f) (revoke_row t) (refresh_tokens d)\<rparr>"

definition consumed :: "string \<Rightarrow> time \<Rightarrow> db \<Rightarrow> db" where
  "consumed i t d =
     d\<lparr>refresh_tokens := update_row rt_id i (revoke_row t) (refresh_tokens d)\<rparr>"

lemma revoke_family_run:
  "revoke_family f w = (Inr (), w\<lparr>w_db := family_revoked f (w_now w) (w_db w)\<rparr>)"
  by (simp add: revoke_family_def refresh_token_updateMany_def family_revoked_def mrun meval)

lemma token_update_run:
  assumes "i \<in> rt_id ` set (refresh_tokens (w_db w))"
  shows "refresh_token_update i (revoke_row t) w
    = (Inr (), w\<lparr>w_db := consumed i t (w_db w)\<rparr>)"
proof -
  have "find_by rt_id i (refresh_tokens (w_db w)) \<noteq> None"
    using assms by (auto simp: find_by_None)
  then show ?thesis by (auto simp: refresh_token_update_def consumed_def)
qed

lemma rotate_check_err:
  assumes "rotate_check cr cfg raw w = (Inl e, w')"
  shows "w' = w \<or> (\<exists>stored\<in>set (refresh_tokens (w_db w)). rt_tokenHash stored = sha256 cr raw
    \<and> rt_revokedAt stored \<noteq> None
    \<and> w' = w\<lparr>w_db := family_revoked (rt_familyId stored) (w_now w) (w_db w)\<rparr>
    \<and> e = UnauthorizedException ''Refresh token reuse detected'')"
  using assms
  by (auto simp: rotate_check_def runs verify_refresh_def find_token_def revoke_family_run
      split: option.splits if_splits dest!: find_by_Some)

lemma rotate_commit_run:
  assumes "rt_id stored \<in> rt_id ` set (refresh_tokens (w_db w))"
  shows "rotate_commit cr cfg ctx (stored, u) w = issueTokens cr cfg u ctx (Some (rt_familyId stored))
    (w\<lparr>w_db := consumed (rt_id stored) (w_now w) (w_db w)\<rparr>)"
  using assms by (simp add: rotate_commit_def andThen_def run_basic token_update_run)

lemma rotate_okD:
  assumes "rotate cr cfg raw ctx w = (Inr toks, w')"
  obtains stored usr where
    "stored \<in> set (refresh_tokens (w_db w))" "rt_tokenHash stored = sha256 cr raw"
    "rt_revokedAt stored = None" "w_now w \<le> rt_expiresAt stored"
    "usr \<in> set (users (w_db w))" "u_id usr = rt_userId stored" "u_isActive usr"
    "w' = w\<lparr>w_next := Suc (w_next w), w_db := add_token
       (token_row cr cfg (to_subject usr) ctx (rt_familyId stored) (w_uuid w (w_next w)) (w_now w)
          (refreshToken toks)) (consumed (rt_id stored) (w_now w) (w_db w))\<rparr>"
proof -
  obtain c v where c: "rotate_check cr cfg raw w = (Inr c, v)"
    and run: "rotate_commit cr cfg ctx c v = (Inr toks, w')"
    using assms unfolding rotate_def by (rule andThen_okE)
  obtain stored u where cu: "c = (stored, u)" by (cases c)
  note chk = rotate_check_ok [OF c [unfolded cu]]
  then obtain usr where usr: "usr \<in> set (users (w_db w))" "u_id usr = rt_userId stored"
      "u_isActive usr" "u = to_subject usr" by blast
  have v: "v = w" using chk by simp
  have iss: "issueTokens cr cfg u ctx (Some (rt_familyId stored))
      (w\<lparr>w_db := consumed (rt_id stored) (w_now w) (w_db w)\<rparr>) = (Inr toks, w')"
    using run chk by (simp add: cu v rotate_commit_run)
  show ?thesis
    by (rule issueTokens_ok [OF iss], rule that [of stored usr])
      (use chk usr in \<open>simp_all add: uuids_used_def\<close>)
qed

lemma rotate_errD:
  assumes "rotate cr cfg raw ctx w = (Inl e, w')"
  shows "w_uuid w' = w_uuid w \<and> w_next w \<le> w_next w' \<and> (w_db w' = w_db w
    \<or> (\<exists>stored\<in>set (refresh_tokens (w_db w)). rt_revokedAt stored \<noteq> None
         \<and> rt_tokenHash stored = sha256 cr raw
         \<and> w_db w' = family_revoked (rt_familyId stored) (w_now w) (w_db w)
         \<and> e = UnauthorizedException ''Refresh token reuse detected'')
    \<or> (\<exists>stored\<in>set (refresh_tokens (w_db w)). rt_revokedAt stored = None
         \<and> rt_tokenHash stored = sha256 cr raw
         \<and> w_db w' = consumed (rt_id stored) (w_now w) (w_db w)))"
  using assms unfolding rotate_def
proof (cases rule: andThen_errE)
  case first
  from rotate_check_err [OF this] show ?thesis by auto
next
  case (rest c v)
  obtain stored u where cu: "c = (stored, u)" by (cases c)
  note chk = rotate_check_ok [OF rest(1) [unfolded cu]]
  have "issueTokens cr cfg u ctx (Some (rt_familyId stored))
      (w\<lparr>w_db := consumed (rt_id stored) (w_now w) (w_db w)\<rparr>) = (Inl e, w')"
    using rest(2) chk by (simp add: cu rotate_commit_run)
  from issueTokens_err [OF this] chk show ?thesis by auto
qed

text \<open>
  Rotation consumes what it exchanges. A successful \<open>rotate\<close> means the presented token is
  stored under its hash, was not revoked and not expired, and its user still exists and is
  active; afterwards that row is revoked, exactly one row was added, for the same user and in
  the same family, with the hash of the returned refresh token, and nothing else changed. A
  failed one either changed nothing, or was a reuse and revoked the family, or failed while
  issuing after the presented token was already revoked (the two writes are not a transaction).
\<close>

theorem rotate_effect:
  "case rotate cr cfg raw ctx w of
     (Inr toks, w') \<Rightarrow> \<exists>stored usr row.
       stored \<in> set (refresh_tokens (w_db w)) \<and> rt_tokenHash stored = sha256 cr raw
       \<and> rt_revokedAt stored = None \<and> w_now w \<le> rt_expiresAt stored
       \<and> usr \<in> set (users (w_db w)) \<and> u_id usr = rt_userId stored \<and> u_isActive usr
       \<and> w_db w' = add_token row (consumed (rt_id stored) (w_now w) (w_db w))
       \<and> rt_familyId row = rt_familyId stored \<and> rt_userId row = rt_userId stored
       \<and> rt_tokenHash row = sha256 cr (refreshToken toks) \<and> rt_revokedAt row = None
       \<and> rt_expiresAt row = expiryToDate (jwt_refreshExpiresIn cfg) (w_now w)
   | (Inl e, w') \<Rightarrow> w_db w' = w_db w
       \<or> (\<exists>stored\<in>set (refresh_tokens (w_db w)). rt_revokedAt stored \<noteq> None
            \<and> w_db w' = family_revoked (rt_familyId stored) (w_now w) (w_db w)
            \<and> e = UnauthorizedException ''Refresh token reuse detected'')
       \<or> (\<exists>stored\<in>set (refresh_tokens (w_db w)). rt_revokedAt stored = None
            \<and> w_db w' = consumed (rt_id stored) (w_now w) (w_db w))"
proof (cases "rotate cr cfg raw ctx w")
  case (Pair r w')
  show ?thesis
  proof (cases r)
    case (Inl e)
    with rotate_errD [OF Pair [unfolded Inl]] Pair show ?thesis by auto
  next
    case (Inr toks)
    show ?thesis
      by (rule rotate_okD [OF Pair [unfolded Inr]])
        (use Pair Inr in \<open>force simp: token_row_def to_subject_def\<close>)
  qed
qed

section \<open>Reuse detection\<close>

definition family_dead :: "string \<Rightarrow> db \<Rightarrow> bool" where
  "family_dead f d \<longleftrightarrow> (\<forall>r\<in>set (refresh_tokens d). rt_familyId r = f \<longrightarrow> rt_revokedAt r \<noteq> None)"

lemma family_revoked_dead: "family_dead f (family_revoked f t d)"
  by (simp add: family_dead_def family_revoked_def update_many_def revoke_row_def
      live_in_family_def del: if_image_distrib)

lemma family_revoked_others:
  "filter (\<lambda>r. rt_familyId r \<noteq> f) (refresh_tokens (family_revoked f t d))
     = filter (\<lambda>r. rt_familyId r \<noteq> f) (refresh_tokens d)"
proof -
  have "filter (\<lambda>r. rt_familyId r \<noteq> f) (update_many (live_in_family f) (revoke_row t) rs)
      = filter (\<lambda>r. rt_familyId r \<noteq> f) rs" for rs
    by (induction rs) (auto simp: update_many_def live_in_family_def revoke_row_def)
  then show ?thesis by (simp add: family_revoked_def)
qed

text \<open>
  C16. Reuse detection: presenting a genuine refresh token that was already rotated or revoked
  is refused, and it leaves no live token in that token's family, while the tokens of every
  other family are untouched.
\<close>

theorem rotate_reuse:
  assumes "jwt_refreshSecret cfg = Some s" and "verifyRefresh cr s (w_now w) raw = Some p"
    and "rp_jti p = Some i" and "find_by rt_id i (refresh_tokens (w_db w)) = Some stored"
    and "rt_tokenHash stored = sha256 cr raw" and "rt_revokedAt stored \<noteq> None"
  shows "result (rotate cr cfg raw ctx) w
      = Inl (UnauthorizedException ''Refresh token reuse detected'')
    \<and> family_dead (rt_familyId stored) (db_after (rotate cr cfg raw ctx) w)
    \<and> filter (\<lambda>r. rt_familyId r \<noteq> rt_familyId stored)
          (refresh_tokens (db_after (rotate cr cfg raw ctx) w))
      = filter (\<lambda>r. rt_familyId r \<noteq> rt_familyId stored) (refresh_tokens (w_db w))"
proof -
  have "rotate cr cfg raw ctx w = (Inl (UnauthorizedException ''Refresh token reuse detected''),
      w\<lparr>w_db := family_revoked (rt_familyId stored) (w_now w) (w_db w)\<rparr>)"
  proof -
    have v: "verify_refresh cr cfg raw w = (Inr (Some p), w)"
      using assms(1,2) by (simp add: verify_refresh_def mrun meval)
    have f: "find_token (rp_jti p) w = (Inr (Some stored), w)"
      using assms(3,4) by (simp add: find_token_def mrun)
    show ?thesis
      using assms(5,6)
      by (simp add: rotate_def rotate_check_def andThen_def v f revoke_family_run throw_def)
  qed
  then show ?thesis
    by (simp add: result_def db_after_def family_revoked_dead family_revoked_others)
qed

section \<open>Histories of tokens\<close>

text \<open>
  \<open>token_step\<close>: a login issues a token of a new family, a token is rotated or revoked, other
  parts of the database change, time passes. \<open>other_tables\<close> is a step of the rest of the
  program: it neither touches refresh tokens nor gives back a random id.
\<close>

definition other_tables :: "world \<Rightarrow> world \<Rightarrow> bool" where
  "other_tables w w' \<longleftrightarrow> refresh_tokens (w_db w') = refresh_tokens (w_db w)
     \<and> w_uuid w' = w_uuid w \<and> w_next w \<le> w_next w'"

inductive token_step :: "crypto \<Rightarrow> jwt_config \<Rightarrow> world \<Rightarrow> world \<Rightarrow> bool" for cr cfg where
  step_issue: "issueTokens cr cfg u ctx None w = (r, w') \<Longrightarrow> token_step cr cfg w w'"
| step_rotate: "rotate cr cfg raw ctx w = (r, w') \<Longrightarrow> token_step cr cfg w w'"
| step_revoke: "revoke cr cfg raw w = (r, w') \<Longrightarrow> token_step cr cfg w w'"
| step_other: "other_tables w w' \<Longrightarrow> token_step cr cfg w w'"

definition tokens_fresh :: "world \<Rightarrow> bool" where
  "tokens_fresh w \<longleftrightarrow> inj (w_uuid w) \<and> (\<forall>n\<ge>w_next w. \<forall>r\<in>set (refresh_tokens (w_db w)).
     rt_id r \<noteq> w_uuid w n \<and> rt_familyId r \<noteq> w_uuid w n)"

definition one_live :: "db \<Rightarrow> bool" where
  "one_live d \<longleftrightarrow> (\<forall>f. length (filter (live_in_family f) (refresh_tokens d)) \<le> 1)"

definition token_inv :: "world \<Rightarrow> bool" where
  "token_inv w \<longleftrightarrow> tokens_fresh w \<and> distinct (map rt_id (refresh_tokens (w_db w)))
     \<and> one_live (w_db w)"

text \<open>What a step does to the table: it revokes some rows, or rotates one, or starts a family.\<close>

definition revoked_some :: "world \<Rightarrow> world \<Rightarrow> bool" where
  "revoked_some w w' \<longleftrightarrow> (\<exists>P t. refresh_tokens (w_db w')
     = update_many P (revoke_row t) (refresh_tokens (w_db w)))"

definition rotated_one :: "world \<Rightarrow> world \<Rightarrow> bool" where
  "rotated_one w w' \<longleftrightarrow> (\<exists>stored row t. stored \<in> set (refresh_tokens (w_db w))
     \<and> rt_revokedAt stored = None \<and> rt_familyId row = rt_familyId stored
     \<and> rt_id row = w_uuid w (w_next w) \<and> w_next w < w_next w'
     \<and> refresh_tokens (w_db w')
         = update_row rt_id (rt_id stored) (revoke_row t) (refresh_tokens (w_db w)) @ [row])"

definition started_family :: "world \<Rightarrow> world \<Rightarrow> bool" where
  "started_family w w' \<longleftrightarrow> (\<exists>row. rt_familyId row = w_uuid w (w_next w)
     \<and> rt_id row = w_uuid w (Suc (w_next w)) \<and> w_next w + 2 \<le> w_next w'
     \<and> refresh_tokens (w_db w') = refresh_tokens (w_db w) @ [row])"

lemma update_many_none: "update_many (\<lambda>_. False) f rs = rs"
  by (simp add: update_many_def)

lemma revoked_some_same: "refresh_tokens (w_db w') = refresh_tokens (w_db w) \<Longrightarrow> revoked_some w w'"
  unfolding revoked_some_def by (metis update_many_none)

lemma revoked_some_family: "w_db w' = family_revoked f t (w_db w) \<Longrightarrow> revoked_some w w'"
  unfolding revoked_some_def family_revoked_def by auto

lemma revoked_some_consumed: "w_db w' = consumed i t (w_db w) \<Longrightarrow> revoked_some w w'"
  unfolding revoked_some_def consumed_def update_row_def update_many_def by auto

definition revocable :: "refresh_payload \<Rightarrow> refresh_token \<Rightarrow> bool" where
  "revocable p r \<longleftrightarrow> rt_revokedAt r = None
     \<and> (case rp_familyId p of None \<Rightarrow> True | Some f \<Rightarrow> rt_familyId r = f)"

lemma revoke_run:
  "revoke cr cfg raw w = (Inr (), case jwt_refreshSecret cfg of None \<Rightarrow> w | Some s \<Rightarrow>
     (case verifyRefresh cr s (w_now w) raw of None \<Rightarrow> w
      | Some p \<Rightarrow> w\<lparr>w_db := (w_db w)\<lparr>refresh_tokens :=
           update_many (revocable p) (revoke_row (w_now w)) (refresh_tokens (w_db w))\<rparr>\<rparr>))"
proof -
  have "(\<lambda>r. rt_revokedAt r = None
      \<and> (case rp_familyId p of None \<Rightarrow> True | Some f \<Rightarrow> rt_familyId r = f)) = revocable p" for p
    by (rule ext) (simp add: revocable_def)
  then show ?thesis
    by (simp add: revoke_def verify_refresh_def refresh_token_updateMany_def mrun meval
        split: option.split)
qed

lemma token_step_shape:
  assumes "token_step cr cfg w w'"
  shows "w_uuid w' = w_uuid w \<and> w_next w \<le> w_next w'
    \<and> (revoked_some w w' \<or> rotated_one w w' \<or> started_family w w')"
  using assms
proof cases
  case (step_issue u ctx r)
  show ?thesis
  proof (cases r)
    case (Inl e)
    from issueTokens_err [OF step_issue [unfolded Inl]] show ?thesis
      by (simp add: revoked_some_same)
  next
    case (Inr toks)
    show ?thesis
      by (rule issueTokens_ok [OF step_issue [unfolded Inr]])
        (simp add: uuids_used_def started_family_def token_row_def)
  qed
next
  case (step_rotate raw ctx r)
  show ?thesis
  proof (cases r)
    case (Inl e)
    from rotate_errD [OF step_rotate [unfolded Inl]] show ?thesis
      using revoked_some_same revoked_some_family revoked_some_consumed by auto
  next
    case (Inr toks)
    show ?thesis
    proof (rule rotate_okD [OF step_rotate [unfolded Inr]])
      fix stored usr
      assume a: "stored \<in> set (refresh_tokens (w_db w))" "rt_revokedAt stored = None"
        "w' = w\<lparr>w_next := Suc (w_next w), w_db := add_token
       (token_row cr cfg (to_subject usr) ctx (rt_familyId stored) (w_uuid w (w_next w)) (w_now w)
          (refreshToken toks)) (consumed (rt_id stored) (w_now w) (w_db w))\<rparr>"
      then have "rotated_one w w'"
        unfolding rotated_one_def
        by (intro exI [of _ stored] exI [of _ "token_row cr cfg (to_subject usr) ctx
            (rt_familyId stored) (w_uuid w (w_next w)) (w_now w) (refreshToken toks)"]
            exI [of _ "w_now w"]) (simp add: token_row_def consumed_def)
      with a(3) show ?thesis by simp
    qed
  qed
next
  case (step_revoke raw r)
  with revoke_run [of cr cfg raw w] show ?thesis
    by (auto simp: revoked_some_same split: option.splits)
      (auto simp: revoked_some_def)
next
  case step_other
  then show ?thesis by (simp add: other_tables_def revoked_some_same)
qed

lemma revoke_row_simps [simp]:
  "rt_id (revoke_row t r) = rt_id r" "rt_familyId (revoke_row t r) = rt_familyId r"
  "rt_userId (revoke_row t r) = rt_userId r" "rt_tokenHash (revoke_row t r) = rt_tokenHash r"
  "rt_revokedAt (revoke_row t r) = Some t"
  by (simp_all add: revoke_row_def)

lemma live_revoke_row [simp]: "\<not> live_in_family f (revoke_row t r)"
  by (simp add: live_in_family_def)

lemma live_update_many:
  "length (filter (live_in_family f) (update_many P (revoke_row t) rs))
    \<le> length (filter (live_in_family f) rs)"
  by (induction rs) (auto simp: update_many_def)

lemma live_update_row:
  assumes "distinct (map rt_id rs)" and "x \<in> set rs" and "rt_revokedAt x = None"
  shows "length (filter (live_in_family f) (update_row rt_id (rt_id x) (revoke_row t) rs))
      + (if rt_familyId x = f then 1 else 0) = length (filter (live_in_family f) rs)"
proof (cases "rt_familyId x = f")
  case True
  then have "live_in_family f x" using assms(3) by (simp add: live_in_family_def)
  with length_filter_update_key [OF assms(1,2), of "revoke_row t" "live_in_family f"] True
  show ?thesis by (simp add: update_row_def)
next
  case False
  have "filter (live_in_family f) (update_row rt_id (rt_id x) (revoke_row t) rs)
      = filter (live_in_family f) rs"
    using assms(1,2)
  proof (induction rs)
    case (Cons y ys)
    show ?case
    proof (cases "rt_id y = rt_id x")
      case True
      with Cons.prems have "y = x" "\<forall>z\<in>set ys. rt_id z \<noteq> rt_id x" by (auto simp: image_iff)
      with False show ?thesis by (simp add: update_row_def map_if_id live_in_family_def)
    next
      case False
      with Cons show ?thesis by (auto simp: update_row_def)
    qed
  qed simp
  with False show ?thesis by simp
qed

lemma mem_update_many_key:
  assumes "\<And>r. k (f r) = k r"
  shows "k ` set (update_many P f rs) = k ` set rs"
proof -
  have "map k (update_many P f rs) = map k rs" by (rule map_update_many_same) (rule assms)
  then show ?thesis by (metis list.set_map)
qed

lemma update_row_many: "update_row k i f rs = update_many (\<lambda>r. k r = i) f rs"
  by (simp add: update_row_def update_many_def)

lemma tokens_fresh_alt: "tokens_fresh w \<longleftrightarrow> inj (w_uuid w) \<and> (\<forall>n\<ge>w_next w.
    w_uuid w n \<notin> rt_id ` set (refresh_tokens (w_db w))
    \<and> w_uuid w n \<notin> rt_familyId ` set (refresh_tokens (w_db w)))"
  unfolding tokens_fresh_def image_iff by metis

lemma token_step_inv:
  assumes step: "token_step cr cfg w w'" and inv: "token_inv w"
  shows "token_inv w'"
proof -
  let ?ts = "refresh_tokens (w_db w)"
  have d: "distinct (map rt_id ?ts)" and one: "one_live (w_db w)" and fr: "tokens_fresh w"
    using inv by (auto simp: token_inv_def)
  have u: "w_uuid w' = w_uuid w" "w_next w \<le> w_next w'" using token_step_shape [OF step] by auto
  consider "revoked_some w w'" | "rotated_one w w'" | "started_family w w'"
    using token_step_shape [OF step] by blast
  then show ?thesis
  proof cases
    case 1
    then obtain P t where ts: "refresh_tokens (w_db w') = update_many P (revoke_row t) ?ts"
      by (auto simp: revoked_some_def)
    have "tokens_fresh w'" using fr u by (simp add: tokens_fresh_alt ts mem_update_many_key)
    moreover have "distinct (map rt_id (refresh_tokens (w_db w')))"
      using d by (simp add: ts map_update_many_same)
    moreover have "one_live (w_db w')"
      unfolding one_live_def ts
    proof
      fix f
      have "length (filter (live_in_family f) ?ts) \<le> 1" using one by (simp add: one_live_def)
      with live_update_many [of f P t ?ts]
      show "length (filter (live_in_family f) (update_many P (revoke_row t) ?ts)) \<le> 1"
        by linarith
    qed
    ultimately show ?thesis by (simp add: token_inv_def)
  next
    case 2
    then obtain stored row t where st: "stored \<in> set ?ts" "rt_revokedAt stored = None"
      and row: "rt_familyId row = rt_familyId stored" "rt_id row = w_uuid w (w_next w)"
      and n: "w_next w < w_next w'"
      and ts: "refresh_tokens (w_db w') = update_row rt_id (rt_id stored) (revoke_row t) ?ts @ [row]"
      by (auto simp: rotated_one_def)
    have ids: "rt_id ` set (refresh_tokens (w_db w')) = insert (rt_id row) (rt_id ` set ?ts)"
      and fams: "rt_familyId ` set (refresh_tokens (w_db w')) = rt_familyId ` set ?ts"
      using st(1) by (auto simp: ts row(1) update_row_many mem_update_many_key)
    have "tokens_fresh w'"
      using fr u n by (auto simp: tokens_fresh_alt ids fams row(2) inj_eq)
    moreover have "distinct (map rt_id (refresh_tokens (w_db w')))"
      using d fr by (simp add: ts map_update_row_same update_row_many mem_update_many_key
          map_update_many_same row(2) tokens_fresh_alt)
    moreover have "one_live (w_db w')" unfolding one_live_def
    proof
      fix f
      show "length (filter (live_in_family f) (refresh_tokens (w_db w'))) \<le> 1"
        using live_update_row [OF d st, of f t] one row(1)
        by (cases "rt_familyId stored = f")
          (auto simp: ts one_live_def live_in_family_def dest!: spec [of _ f])
    qed
    ultimately show ?thesis by (simp add: token_inv_def)
  next
    case 3
    then obtain row where row: "rt_familyId row = w_uuid w (w_next w)"
        "rt_id row = w_uuid w (Suc (w_next w))"
      and n: "w_next w + 2 \<le> w_next w'" and ts: "refresh_tokens (w_db w') = ?ts @ [row]"
      by (auto simp: started_family_def)
    have "tokens_fresh w'"
      using fr u n by (auto simp: tokens_fresh_alt ts row inj_eq)
    moreover have "distinct (map rt_id (refresh_tokens (w_db w')))"
      using d fr by (simp add: ts row(2) tokens_fresh_alt)
    moreover have "one_live (w_db w')" unfolding one_live_def
    proof
      fix f
      have "filter (live_in_family f) ?ts = []" if "f = rt_familyId row"
        using fr that by (auto simp: tokens_fresh_def row filter_empty_conv live_in_family_def)
      then show "length (filter (live_in_family f) (refresh_tokens (w_db w'))) \<le> 1"
        using one by (cases "f = rt_familyId row") (auto simp: ts one_live_def live_in_family_def)
    qed
    ultimately show ?thesis by (simp add: token_inv_def)
  qed
qed

lemma token_steps_inv:
  assumes "(token_step cr cfg)\<^sup>*\<^sup>* w w'" and "token_inv w"
  shows "token_inv w'"
  using assms by (induction rule: rtranclp_induct) (auto intro: token_step_inv)

lemma family_dead_step:
  assumes "token_step cr cfg w w'" and "token_inv w" and "family_dead f (w_db w)"
    and "f \<in> rt_familyId ` set (refresh_tokens (w_db w))"
  shows "family_dead f (w_db w') \<and> f \<in> rt_familyId ` set (refresh_tokens (w_db w'))"
proof -
  let ?ts = "refresh_tokens (w_db w)"
  have many: "\<forall>r\<in>set (update_many P (revoke_row t) ?ts). rt_familyId r = f \<longrightarrow> rt_revokedAt r \<noteq> None"
    for P t
    using assms(3) by (simp add: family_dead_def update_many_def del: if_image_distrib)
  consider "revoked_some w w'" | "rotated_one w w'" | "started_family w w'"
    using token_step_shape [OF assms(1)] by blast
  then show ?thesis
  proof cases
    case 1
    then obtain P t where "refresh_tokens (w_db w') = update_many P (revoke_row t) ?ts"
      by (auto simp: revoked_some_def)
    with many assms(4) show ?thesis by (simp add: family_dead_def mem_update_many_key)
  next
    case 2
    then obtain stored row t where st: "stored \<in> set ?ts" "rt_revokedAt stored = None"
        "rt_familyId row = rt_familyId stored"
      and ts: "refresh_tokens (w_db w') = update_row rt_id (rt_id stored) (revoke_row t) ?ts @ [row]"
      by (auto simp: rotated_one_def)
    then have "rt_familyId row \<noteq> f" using assms(3) by (auto simp: family_dead_def)
    with many assms(4) show ?thesis
      by (simp add: family_dead_def ts update_row_many mem_update_many_key)
  next
    case 3
    then obtain row where "rt_familyId row = w_uuid w (w_next w)"
      and ts: "refresh_tokens (w_db w') = ?ts @ [row]"
      by (auto simp: started_family_def)
    moreover have "w_uuid w (w_next w) \<noteq> f"
      using assms(2,4) by (auto simp: token_inv_def tokens_fresh_alt)
    ultimately show ?thesis using assms(3,4) by (auto simp: family_dead_def ts)
  qed
qed

text \<open>
  C13. In every history of logins, rotations and revocations, run one after the other, with
  random ids that do not repeat, a family has at most one live refresh token at any time; token
  ids stay unique.
\<close>

theorem one_live_token_per_family:
  assumes "(token_step cr cfg)\<^sup>*\<^sup>* w w'" and "token_inv w"
  shows "length (filter (live_in_family f) (refresh_tokens (w_db w'))) \<le> 1
    \<and> distinct (map rt_id (refresh_tokens (w_db w')))"
  using token_steps_inv [OF assms] by (simp add: token_inv_def one_live_def)

text \<open>
  A family without a live token (after a logout or a detected reuse) never gets one again:
  no later login, rotation or revocation, by anyone, revives it.
\<close>

theorem dead_family_stays_dead:
  assumes "(token_step cr cfg)\<^sup>*\<^sup>* w w'" and "token_inv w" and "family_dead f (w_db w)"
    and "f \<in> rt_familyId ` set (refresh_tokens (w_db w))"
  shows "family_dead f (w_db w') \<and> f \<in> rt_familyId ` set (refresh_tokens (w_db w'))"
  using assms(1)
proof (induction rule: rtranclp_induct)
  case base
  with assms(3,4) show ?case by simp
next
  case (step v w')
  have "token_inv v" by (rule token_steps_inv [OF step.hyps(1) assms(2)])
  with step family_dead_step show ?case by blast
qed

section \<open>Concurrent rotation\<close>

lemma commit_after_consumed:
  assumes "rotate_commit cr cfg ctx (stored, u) w = (Inr toks, w')"
    and "rt_id stored \<in> rt_id ` set (refresh_tokens (w_db w))"
  obtains row where "rt_familyId row = rt_familyId stored" "rt_revokedAt row = None"
    "rt_id row = w_uuid w (w_next w)" "w_next w' = Suc (w_next w)" "w_uuid w' = w_uuid w"
    "refresh_tokens (w_db w')
      = update_row rt_id (rt_id stored) (revoke_row (w_now w)) (refresh_tokens (w_db w)) @ [row]"
proof -
  have iss: "issueTokens cr cfg u ctx (Some (rt_familyId stored))
      (w\<lparr>w_db := consumed (rt_id stored) (w_now w) (w_db w)\<rparr>) = (Inr toks, w')"
    using assms by (simp add: rotate_commit_run)
  show ?thesis
    by (rule issueTokens_ok [OF iss])
      (rule that, auto simp: uuids_used_def consumed_def token_row_def)
qed


section \<open>Revocation and expiry\<close>

text \<open>
  Logout: revoking with a refresh token that verifies leaves no live token in the family
  the token names and touches no other family; a token that does not verify changes nothing. The
  filter is only as good as the token: if the verified token carries no \<open>familyId\<close> (an access
  token, when both secrets are configured equal) every live token of every user is revoked.
\<close>

theorem revoke_effect:
  assumes "jwt_refreshSecret cfg = Some s"
  shows "result (revoke cr cfg raw) w = Inr ()
    \<and> (case verifyRefresh cr s (w_now w) raw of
         None \<Rightarrow> db_after (revoke cr cfg raw) w = w_db w
       | Some p \<Rightarrow>
           (case rp_familyId p of
              Some f \<Rightarrow> db_after (revoke cr cfg raw) w = family_revoked f (w_now w) (w_db w)
                \<and> family_dead f (db_after (revoke cr cfg raw) w)
            | None \<Rightarrow> \<forall>f. family_dead f (db_after (revoke cr cfg raw) w)))"
proof -
  have some: "revocable p = live_in_family f" if "rp_familyId p = Some f" for p f
    using that by (auto simp: revocable_def live_in_family_def)
  have none: "family_dead f (d\<lparr>refresh_tokens :=
      update_many (revocable p) (revoke_row t) (refresh_tokens d)\<rparr>)" if "rp_familyId p = None"
    for p f t d
    using that by (simp add: family_dead_def update_many_def revocable_def del: if_image_distrib)
  show ?thesis
    using assms by (auto simp: revoke_run result_def db_after_def some none family_revoked_def
        family_revoked_dead [unfolded family_revoked_def] split: option.split)
qed

lemma expiry_match_unit:
  "u \<in> set ''dhms'' \<Longrightarrow> expiry_match (show_nat n @ [u]) = Some (show_nat n, u)"
  using show_nat_digits [of n] by (simp add: expiry_match_def Suc_le_eq)

text \<open>
  Expiry strings: \<open>"<n>d"\<close>, \<open>"<n>h"\<close>, \<open>"<n>m"\<close> and \<open>"<n>s"\<close> mean n days, hours,
  minutes and seconds from now, for every n; a string with no unit at its end, or no digits
  before it, means seven days.
\<close>

theorem expiryToDate_units:
  "expiryToDate (show_nat n @ ''d'') t = t + int n * 86400000
   \<and> expiryToDate (show_nat n @ ''h'') t = t + int n * 3600000
   \<and> expiryToDate (show_nat n @ ''m'') t = t + int n * 60000
   \<and> expiryToDate (show_nat n @ ''s'') t = t + int n * 1000
   \<and> expiryToDate (show_nat n) t = t + 604800000
   \<and> expiryToDate [] t = t + 604800000
   \<and> expiryToDate [c] t = t + 604800000"
proof -
  have "last (show_nat n) \<notin> set ''dhms''"
  proof
    assume "last (show_nat n) \<in> set ''dhms''"
    moreover have "is_digit (last (show_nat n))"
      using show_nat_digits [of n] by (simp add: list_all_iff)
    ultimately show False by (auto simp: is_digit_def)
  qed
  then have "expiry_match (show_nat n) = None" by (simp add: expiry_match_def)
  then show ?thesis
    by (simp add: expiryToDate_def expiry_match_unit) (simp add: expiry_match_def)
qed

section \<open>Instances\<close>

text \<open>A toy signer and hash, and a family of two tokens of which the first was rotated.\<close>

definition fx_crypto :: crypto where
  "fx_crypto =
     \<lparr>signAccess = (\<lambda>_ p _ _. ''A.'' @ ap_sub p),
      signRefresh = (\<lambda>_ p _ _. ''R.'' @ (case rp_jti p of None \<Rightarrow> [] | Some j \<Rightarrow> j) @ ''.''
        @ (case rp_familyId p of None \<Rightarrow> [] | Some f \<Rightarrow> f)),
      verifyRefresh = (\<lambda>_ _ raw. case split_on CHR ''.'' raw of
          [_, j, f] \<Rightarrow> Some \<lparr>rp_sub = [], rp_jti = Some j, rp_familyId = Some f\<rparr>
        | _ \<Rightarrow> None),
      sha256 = (\<lambda>s. CHR ''#'' # s)\<rparr>"

definition fx_jwt :: jwt_config where
  "fx_jwt = \<lparr>jwt_accessSecret = Some ''access'', jwt_accessExpiresIn = ''15m'',
     jwt_refreshSecret = Some ''refresh'', jwt_refreshExpiresIn = ''7d''\<rparr>"

definition fx_token :: "string \<Rightarrow> string \<Rightarrow> time option \<Rightarrow> refresh_token" where
  "fx_token i f revoked = \<lparr>rt_id = i, rt_userId = ''carol'',
     rt_tokenHash = ''#R.'' @ i @ ''.'' @ f, rt_familyId = f, rt_userAgent = None,
     rt_ipAddress = None, rt_expiresAt = 5000, rt_revokedAt = revoked, rt_createdAt = 0\<rparr>"

definition fx_tokens :: world where
  "fx_tokens = fx_world (fx_db\<lparr>refresh_tokens :=
     [fx_token ''a'' ''F'' (Some 5), fx_token ''b'' ''F'' None]\<rparr>)"

lemmas token_fixtures = fx_tokens_def fx_token_def fx_jwt_def fx_crypto_def fixtures

lemma fx_token_inv: "token_inv fx_tokens"
  by (simp add: token_inv_def tokens_fresh_def one_live_def live_in_family_def token_fixtures
      inj_def)

theorem rotate_reuse_witness:
  "result (rotate fx_crypto fx_jwt ''R.a.F'' None) fx_tokens
     = Inl (UnauthorizedException ''Refresh token reuse detected'')
   \<and> family_dead ''F'' (db_after (rotate fx_crypto fx_jwt ''R.a.F'' None) fx_tokens)"
proof -
  have 1: "jwt_refreshSecret fx_jwt = Some ''refresh''" by (simp add: fx_jwt_def)
  have 2: "verifyRefresh fx_crypto ''refresh'' (w_now fx_tokens) ''R.a.F''
      = Some \<lparr>rp_sub = [], rp_jti = Some ''a'', rp_familyId = Some ''F''\<rparr>"
    by (simp add: fx_crypto_def)
  have 3: "rp_jti \<lparr>rp_sub = [], rp_jti = Some ''a'', rp_familyId = Some ''F''\<rparr> = Some ''a''"
    by simp
  have 4: "find_by rt_id ''a'' (refresh_tokens (w_db fx_tokens))
      = Some (fx_token ''a'' ''F'' (Some 5))"
    by (simp add: token_fixtures)
  have 5: "rt_tokenHash (fx_token ''a'' ''F'' (Some 5)) = sha256 fx_crypto ''R.a.F''"
    and 6: "rt_revokedAt (fx_token ''a'' ''F'' (Some 5)) \<noteq> None"
    and f: "rt_familyId (fx_token ''a'' ''F'' (Some 5)) = ''F''"
    by (simp_all add: token_fixtures)
  show ?thesis using rotate_reuse [OF 1 2 3 4 5 6, of None] unfolding f by blast
qed

theorem rotate_effect_witness:
  "\<exists>toks w' stored row. rotate fx_crypto fx_jwt ''R.b.F'' None fx_tokens = (Inr toks, w')
     \<and> stored \<in> set (refresh_tokens (w_db fx_tokens)) \<and> rt_revokedAt stored = None
     \<and> rt_tokenHash stored = ''#R.b.F''
     \<and> w_db w' = add_token row (consumed (rt_id stored) (w_now fx_tokens) (w_db fx_tokens))"
proof -
  have "succeeds (rotate fx_crypto fx_jwt ''R.b.F'' None) fx_tokens" by code_simp
  then obtain toks w' where r: "rotate fx_crypto fx_jwt ''R.b.F'' None fx_tokens = (Inr toks, w')"
    by (rule succeedsE)
  have "sha256 fx_crypto ''R.b.F'' = ''#R.b.F''" by (simp add: fx_crypto_def)
  with rotate_effect [where cr = fx_crypto and cfg = fx_jwt and raw = "''R.b.F''" and ctx = None
      and w = fx_tokens] r
  show ?thesis unfolding r prod.case sum.case by metis
qed

lemma fx_step_rotate:
  "(token_step fx_crypto fx_jwt)\<^sup>*\<^sup>* w (snd (rotate fx_crypto fx_jwt raw None w))"
  by (rule r_into_rtranclp, rule step_rotate) (rule prod.collapse [symmetric])

theorem one_live_token_per_family_witness:
  "length (filter (live_in_family ''F'')
     (refresh_tokens (w_db (snd (rotate fx_crypto fx_jwt ''R.b.F'' None fx_tokens))))) \<le> 1
   \<and> length (refresh_tokens (w_db (snd (rotate fx_crypto fx_jwt ''R.b.F'' None fx_tokens)))) = 3"
proof -
  have n: "length (refresh_tokens (w_db (snd (rotate fx_crypto fx_jwt ''R.b.F'' None fx_tokens))))
      = 3" by code_simp
  show ?thesis using one_live_token_per_family [OF fx_step_rotate fx_token_inv] n by blast
qed

definition fx_dead :: world where
  "fx_dead = fx_world (fx_db\<lparr>refresh_tokens :=
     [fx_token ''a'' ''F'' (Some 5), fx_token ''b'' ''F'' (Some 7)]\<rparr>)"

theorem dead_family_stays_dead_witness:
  "family_dead ''F'' (w_db (snd (rotate fx_crypto fx_jwt ''R.b.F'' None fx_dead)))"
proof -
  have 1: "token_inv fx_dead"
    by (simp add: token_inv_def tokens_fresh_def one_live_def live_in_family_def fx_dead_def
        token_fixtures inj_def)
  have 2: "family_dead ''F'' (w_db fx_dead)"
    and 3: "''F'' \<in> rt_familyId ` set (refresh_tokens (w_db fx_dead))"
    by (simp_all add: family_dead_def fx_dead_def token_fixtures)
  show ?thesis using dead_family_stays_dead [OF fx_step_rotate 1 2 3] by blast
qed

theorem revoke_effect_witness:
  "family_dead ''F'' (db_after (revoke fx_crypto fx_jwt ''R.b.F'') fx_tokens)"
proof -
  have 1: "jwt_refreshSecret fx_jwt = Some ''refresh''" by (simp add: fx_jwt_def)
  have 2: "verifyRefresh fx_crypto ''refresh'' (w_now fx_tokens) ''R.b.F''
      = Some \<lparr>rp_sub = [], rp_jti = Some ''b'', rp_familyId = Some ''F''\<rparr>"
    by (simp add: fx_crypto_def)
  show ?thesis using revoke_effect [OF 1, of fx_crypto "''R.b.F''" fx_tokens]
    unfolding 2 option.case refresh_payload.select_convs by blast
qed

definition fx_checked :: "refresh_token \<times> authenticated_user" where
  "fx_checked = (fx_token ''b'' ''F'' None, to_subject (fx_user ''carol'' CUSTOMER ''acme''))"

definition fx_commit :: "auth_tokens op" where
  "fx_commit = rotate_commit fx_crypto fx_jwt None fx_checked"


end
