(* ===== verification/AuthService.thy ===== *)
theory AuthService
  imports Tokens
begin

text \<open>
  \<open>auth/auth.service.ts\<close> and \<open>auth/strategies/jwt.strategy.ts\<close>: registration, login, refresh,
  logout, the profile, and the validation of an access token's payload. bcrypt is a pair of
  functions (\<open>passwords\<close>); the random salt is part of the hashing function.
\<close>

record passwords =
  bcrypt_hash :: "string \<Rightarrow> int option \<Rightarrow> string"
  bcrypt_compare :: "string \<Rightarrow> string \<Rightarrow> bool"

record register_dto =
  rd_email :: string
  rd_password :: string
  rd_firstName :: string
  rd_lastName :: string
  rd_organizationId :: string

record login_dto =
  ld_email :: string
  ld_password :: string

record auth_user_dto =
  aud_id :: string
  aud_email :: string
  aud_firstName :: string
  aud_lastName :: string
  aud_role :: role
  aud_organizationId :: string

record auth_response =
  ar_tokens :: auth_tokens
  ar_user :: auth_user_dto

definition toAuthUser :: "user \<Rightarrow> auth_user_dto" where
  "toAuthUser u = \<lparr>aud_id = u_id u, aud_email = u_email u, aud_firstName = u_firstName u,
     aud_lastName = u_lastName u, aud_role = u_role u, aud_organizationId = u_organizationId u\<rparr>"

definition buildAuthResponse ::
  "crypto \<Rightarrow> app_config \<Rightarrow> user \<Rightarrow> request_context \<Rightarrow> auth_response op" where
  "buildAuthResponse cr cfg u ctx =
     andThen (issueTokens cr (cf_jwt cfg) (to_subject u) (Some ctx) None) (\<lambda>toks.
     ret \<lparr>ar_tokens = toks, ar_user = toAuthUser u\<rparr>)"

text \<open>\<open>prisma.user.create\<close> with the column defaults of the schema.\<close>

definition new_user ::
  "string \<Rightarrow> time \<Rightarrow> string \<Rightarrow> string \<Rightarrow> string \<Rightarrow> string \<Rightarrow> role \<Rightarrow> string \<Rightarrow> user" where
  "new_user i t email passwordHash firstName lastName r organizationId =
     \<lparr>u_id = i, u_email = email, u_passwordHash = passwordHash, u_firstName = firstName,
      u_lastName = lastName, u_role = r, u_isActive = True, u_lastLoginAt = None,
      u_organizationId = organizationId, u_createdAt = t, u_updatedAt = t\<rparr>"

definition prisma_user_create ::
  "string \<Rightarrow> string \<Rightarrow> string \<Rightarrow> string \<Rightarrow> role \<Rightarrow> string \<Rightarrow> user op" where
  "prisma_user_create email passwordHash firstName lastName r organizationId =
     andThen randomUUID (\<lambda>i.
     andThen current_time (\<lambda>t.
     let u = new_user i t email passwordHash firstName lastName r organizationId
     in andThen (write_db (user_insert u)) (\<lambda>_. ret u)))"

definition register ::
  "crypto \<Rightarrow> passwords \<Rightarrow> app_config \<Rightarrow> register_dto \<Rightarrow> request_context \<Rightarrow> auth_response op"
where
  "register cr pw cfg dto ctx =
     andThen (read_db (\<lambda>d. find_by org_id (rd_organizationId dto) (organizations d))) (\<lambda>org.
     if (case org of None \<Rightarrow> True | Some g \<Rightarrow> \<not> org_isActive g)
     then throw (NotFoundException ''Organization not found'')
     else andThen (read_db (\<lambda>d. find_by u_email (rd_email dto) (users d))) (\<lambda>existing.
     if existing \<noteq> None then throw (ConflictException ''Email is already registered'')
     else andThen (prisma_user_create (rd_email dto)
            (bcrypt_hash pw (rd_password dto) (sec_bcryptSaltRounds (cf_security cfg)))
            (rd_firstName dto) (rd_lastName dto) CUSTOMER (rd_organizationId dto)) (\<lambda>u.
     buildAuthResponse cr cfg u ctx)))"

definition login ::
  "crypto \<Rightarrow> passwords \<Rightarrow> app_config \<Rightarrow> login_dto \<Rightarrow> request_context \<Rightarrow> auth_response op"
where
  "login cr pw cfg dto ctx =
     andThen (read_db (\<lambda>d. find_by u_email (ld_email dto) (users d))) (\<lambda>found.
     case found of
       None \<Rightarrow> throw (UnauthorizedException ''Invalid credentials'')
     | Some u \<Rightarrow>
         if \<not> u_isActive u then throw (UnauthorizedException ''Invalid credentials'')
         else if \<not> bcrypt_compare pw (ld_password dto) (u_passwordHash u)
         then throw (UnauthorizedException ''Invalid credentials'')
         else andThen current_time (\<lambda>t.
              andThen (user_update (u_id u) (\<lambda>x. x\<lparr>u_lastLoginAt := Some t, u_updatedAt := t\<rparr>)) (\<lambda>_.
              buildAuthResponse cr cfg u ctx)))"

definition refresh ::
  "crypto \<Rightarrow> app_config \<Rightarrow> string \<Rightarrow> request_context \<Rightarrow> auth_tokens op" where
  "refresh cr cfg raw ctx = rotate cr (cf_jwt cfg) raw (Some ctx)"

definition logout :: "crypto \<Rightarrow> app_config \<Rightarrow> string \<Rightarrow> unit op" where
  "logout cr cfg raw = revoke cr (cf_jwt cfg) raw"

definition getProfile :: "string \<Rightarrow> auth_user_dto op" where
  "getProfile i =
     andThen (read_db (\<lambda>d. find_by u_id i (users d))) (\<lambda>u.
     case u of None \<Rightarrow> throw (NotFoundException ''User not found'') | Some x \<Rightarrow> ret (toAuthUser x))"

text \<open>\<open>JwtStrategy.validate\<close>.\<close>

definition jwt_validate :: "access_payload \<Rightarrow> authenticated_user op" where
  "jwt_validate payload =
     andThen (read_db (\<lambda>d. find_by u_id (ap_sub payload) (users d))) (\<lambda>u.
     case u of
       None \<Rightarrow> throw (UnauthorizedException ''User is no longer active'')
     | Some x \<Rightarrow>
         if \<not> u_isActive x then throw (UnauthorizedException ''User is no longer active'')
         else ret (to_subject x))"

section \<open>Registration\<close>

lemma user_insert_ok:
  "user_insert u d = Inr d' \<longleftrightarrow> \<not> user_exists d (u_id u)
     \<and> (\<forall>r\<in>set (users d). u_email r \<noteq> u_email u) \<and> organization_exists d (u_organizationId u)
     \<and> d' = d\<lparr>users := users d @ [u]\<rparr>"
  by (auto simp: user_insert_def list_ex_iff)

lemma buildAuthResponse_ok:
  assumes "buildAuthResponse cr cfg u ctx w = (Inr resp, w')"
  obtains row where "ar_user resp = toAuthUser u" "w_db w' = add_token row (w_db w)"
    "rt_userId row = u_id u" "rt_tokenHash row = sha256 cr (refreshToken (ar_tokens resp))"
    "rt_revokedAt row = None"
proof -
  from assms obtain toks where iss:
    "issueTokens cr (cf_jwt cfg) (to_subject u) (Some ctx) None w = (Inr toks, w')"
    and resp: "resp = \<lparr>ar_tokens = toks, ar_user = toAuthUser u\<rparr>"
    by (auto simp: buildAuthResponse_def runs)
  obtain jti f where "w_db w' = add_token (token_row cr (cf_jwt cfg) (to_subject u) (Some ctx) f jti
      (w_now w) (refreshToken toks)) (w_db w)"
    by (rule issueTokens_ok [OF iss]) (simp add: that)
  then show ?thesis by (rule that [rotated]) (simp_all add: resp token_row_def to_subject_def)
qed

lemma buildAuthResponse_err:
  "buildAuthResponse cr cfg u ctx w = (Inl e, w') \<Longrightarrow> w_db w' = w_db w"
  by (auto simp: buildAuthResponse_def runs dest: issueTokens_err)

lemma prisma_user_create_ok:
  "prisma_user_create e h fn ln r g w = (Inr u, w') \<Longrightarrow>
     u = new_user (w_uuid w (w_next w)) (w_now w) e h fn ln r g
   \<and> (\<forall>x\<in>set (users (w_db w)). u_email x \<noteq> e) \<and> organization_exists (w_db w) g
   \<and> w_db w' = (w_db w)\<lparr>users := users (w_db w) @ [u]\<rparr>"
  by (auto simp: prisma_user_create_def runs Let_def user_insert_ok new_user_def)

lemma prisma_user_create_err:
  "prisma_user_create e h fn ln r g w = (Inl x, w') \<Longrightarrow> w_db w' = w_db w"
  by (auto simp: prisma_user_create_def runs Let_def)

text \<open>
  Self-registration only ever creates customers: a success adds exactly one user, with the
  role CUSTOMER, active, in an organization that exists and is active, under an e-mail nobody
  had, with the hash and not the password stored, plus one refresh token of that user; the
  response shows that user. A failure adds nothing, unless the user was created and issuing the
  tokens failed afterwards.
\<close>

theorem register_effect:
  "case register cr pw cfg dto ctx w of
     (Inr resp, w') \<Rightarrow> \<exists>u g row.
       w_db w' = add_token row ((w_db w)\<lparr>users := users (w_db w) @ [u]\<rparr>)
       \<and> u_role u = CUSTOMER \<and> u_isActive u \<and> u_organizationId u = rd_organizationId dto
       \<and> g \<in> set (organizations (w_db w)) \<and> org_id g = rd_organizationId dto \<and> org_isActive g
       \<and> u_email u = rd_email dto \<and> rd_email dto \<notin> u_email ` set (users (w_db w))
       \<and> u_passwordHash u
           = bcrypt_hash pw (rd_password dto) (sec_bcryptSaltRounds (cf_security cfg))
       \<and> rt_userId row = u_id u \<and> ar_user resp = toAuthUser u
   | (Inl e, w') \<Rightarrow> w_db w' = w_db w
       \<or> (\<exists>u. w_db w' = (w_db w)\<lparr>users := users (w_db w) @ [u]\<rparr> \<and> u_role u = CUSTOMER)"
proof (cases "register cr pw cfg dto ctx w")
  case (Pair r w')
  let ?h = "bcrypt_hash pw (rd_password dto) (sec_bcryptSaltRounds (cf_security cfg))"
  let ?create = "prisma_user_create (rd_email dto) ?h (rd_firstName dto) (rd_lastName dto) CUSTOMER
    (rd_organizationId dto)"
  show ?thesis
  proof (cases r)
    case (Inl e)
    have "w' = w \<or> ?create w = (Inl e, w')
        \<or> (\<exists>u v. ?create w = (Inr u, v) \<and> buildAuthResponse cr cfg u ctx v = (Inl e, w'))"
      using Pair Inl by (auto simp: register_def runs split: if_splits)
    then have "w_db w' = w_db w
        \<or> (\<exists>u. w_db w' = (w_db w)\<lparr>users := users (w_db w) @ [u]\<rparr> \<and> u_role u = CUSTOMER)"
    proof (elim disjE exE conjE)
      fix u v
      assume "?create w = (Inr u, v)" and b: "buildAuthResponse cr cfg u ctx v = (Inl e, w')"
      from prisma_user_create_ok [OF this(1)] buildAuthResponse_err [OF b]
      have "w_db w' = (w_db w)\<lparr>users := users (w_db w) @ [u]\<rparr> \<and> u_role u = CUSTOMER"
        by (simp add: new_user_def)
      then show ?thesis by blast
    qed (auto dest: prisma_user_create_err)
    then show ?thesis by (simp add: Pair Inl)
  next
    case (Inr resp)
    obtain g u v where g: "find_by org_id (rd_organizationId dto) (organizations (w_db w)) = Some g"
        "org_isActive g"
      and u: "?create w = (Inr u, v)" and b: "buildAuthResponse cr cfg u ctx v = (Inr resp, w')"
      using Pair Inr by (auto simp: register_def runs split: if_splits option.splits)
    obtain row where row: "ar_user resp = toAuthUser u" "w_db w' = add_token row (w_db v)"
      "rt_userId row = u_id u" using b by (rule buildAuthResponse_ok)
    note c = prisma_user_create_ok [OF u]
    have "rd_email dto \<notin> u_email ` set (users (w_db w))" using c by auto
    moreover have "w_db w' = add_token row ((w_db w)\<lparr>users := users (w_db w) @ [u]\<rparr>)"
      using row(2) c by simp
    moreover have "u_role u = CUSTOMER \<and> u_isActive u \<and> u_organizationId u = rd_organizationId dto
        \<and> u_email u = rd_email dto \<and> u_passwordHash u = ?h"
      using c by (simp add: new_user_def)
    ultimately show ?thesis
      using find_by_Some [OF g(1)] g(2) row(1,3) unfolding Pair Inr prod.case sum.case by blast
  qed
qed

section \<open>Login\<close>

definition credentials_ok :: "passwords \<Rightarrow> login_dto \<Rightarrow> user \<Rightarrow> bool" where
  "credentials_ok pw dto u \<longleftrightarrow> u_email u = ld_email dto \<and> u_isActive u
     \<and> bcrypt_compare pw (ld_password dto) (u_passwordHash u)"

lemma login_refused:
  assumes "\<forall>u\<in>set (users (w_db w)). \<not> credentials_ok pw dto u"
  shows "login cr pw cfg dto ctx w = (Inl (UnauthorizedException ''Invalid credentials''), w)"
proof (cases "find_by u_email (ld_email dto) (users (w_db w))")
  case None
  then show ?thesis by (simp add: login_def andThen_def run_basic)
next
  case (Some u)
  with find_by_Some [OF Some] assms
  have "\<not> u_isActive u \<or> \<not> bcrypt_compare pw (ld_password dto) (u_passwordHash u)"
    by (auto simp: credentials_ok_def)
  with Some show ?thesis by (auto simp: login_def andThen_def run_basic)
qed

lemma login_okD:
  assumes "login cr pw cfg dto ctx w = (Inr resp, w')"
  obtains u row where "u \<in> set (users (w_db w))" "credentials_ok pw dto u"
    "ar_user resp = toAuthUser u" "rt_userId row = u_id u" "rt_revokedAt row = None"
    "refresh_tokens (w_db w') = refresh_tokens (w_db w) @ [row]"
    "users (w_db w') = update_row u_id (u_id u)
       (\<lambda>x. x\<lparr>u_lastLoginAt := Some (w_now w), u_updatedAt := w_now w\<rparr>) (users (w_db w))"
proof -
  let ?f = "\<lambda>x. x\<lparr>u_lastLoginAt := Some (w_now w), u_updatedAt := w_now w\<rparr>"
  from assms obtain u x v where
    u: "find_by u_email (ld_email dto) (users (w_db w)) = Some u" "u_isActive u"
       "bcrypt_compare pw (ld_password dto) (u_passwordHash u)"
    and upd: "user_update (u_id u) ?f w = (Inr x, v)"
    and b: "buildAuthResponse cr cfg u ctx v = (Inr resp, w')"
    by (auto simp: login_def runs split: option.splits if_splits)
  have v: "w_db v = (w_db w)\<lparr>users := update_row u_id (u_id u) ?f (users (w_db w))\<rparr>"
    using upd by (auto simp: user_update_ok)
  obtain row where row: "ar_user resp = toAuthUser u" "w_db w' = add_token row (w_db v)"
      "rt_userId row = u_id u" "rt_revokedAt row = None"
    using b by (rule buildAuthResponse_ok)
  have dbs: "refresh_tokens (w_db w') = refresh_tokens (w_db w) @ [row]"
    "users (w_db w') = update_row u_id (u_id u) ?f (users (w_db w))"
    by (simp_all add: row(2) v)
  show ?thesis
    by (rule that [OF _ _ row(1,3,4) dbs])
      (use find_by_Some [OF u(1)] u(2,3) in \<open>simp_all add: credentials_ok_def\<close>)
qed

text \<open>
  C27. Login reveals nothing about accounts: with an unknown e-mail, a deactivated account or a
  wrong password the answer is the same 401, nothing is written and no random id is drawn. A
  success proves an active user with that e-mail and password; it opens one session for that
  user and records the time of the login.
\<close>

theorem login_effect:
  "((\<forall>u\<in>set (users (w_db w)). \<not> credentials_ok pw dto u) \<longrightarrow>
      login cr pw cfg dto ctx w = (Inl (UnauthorizedException ''Invalid credentials''), w))
   \<and> (\<forall>resp w'. login cr pw cfg dto ctx w = (Inr resp, w') \<longrightarrow>
      (\<exists>u row. u \<in> set (users (w_db w)) \<and> credentials_ok pw dto u \<and> ar_user resp = toAuthUser u
         \<and> rt_userId row = u_id u \<and> rt_revokedAt row = None
         \<and> refresh_tokens (w_db w') = refresh_tokens (w_db w) @ [row]
         \<and> users (w_db w') = update_row u_id (u_id u)
             (\<lambda>x. x\<lparr>u_lastLoginAt := Some (w_now w), u_updatedAt := w_now w\<rparr>)
             (users (w_db w))))"
proof (intro conjI impI allI)
  assume "\<forall>u\<in>set (users (w_db w)). \<not> credentials_ok pw dto u"
  then show "login cr pw cfg dto ctx w = (Inl (UnauthorizedException ''Invalid credentials''), w)"
    by (rule login_refused)
next
  fix resp w'
  assume "login cr pw cfg dto ctx w = (Inr resp, w')"
  then show "\<exists>u row. u \<in> set (users (w_db w)) \<and> credentials_ok pw dto u \<and> ar_user resp = toAuthUser u
         \<and> rt_userId row = u_id u \<and> rt_revokedAt row = None
         \<and> refresh_tokens (w_db w') = refresh_tokens (w_db w) @ [row]
         \<and> users (w_db w') = update_row u_id (u_id u)
             (\<lambda>x. x\<lparr>u_lastLoginAt := Some (w_now w), u_updatedAt := w_now w\<rparr>) (users (w_db w))"
    by (rule login_okD) blast
qed

definition fx_passwords :: passwords where
  "fx_passwords = \<lparr>bcrypt_hash = (\<lambda>p _. ''hash:'' @ p), bcrypt_compare = (\<lambda>p h. h = ''hash:'' @ p)\<rparr>"

definition fx_login :: "string \<Rightarrow> login_dto" where
  "fx_login p = \<lparr>ld_email = ''carol@acme.test'', ld_password = p\<rparr>"

definition fx_context :: request_context where
  "fx_context = \<lparr>rc_userAgent = Some ''curl'', rc_ipAddress = None\<rparr>"

theorem login_effect_witness:
  "login fx_crypto fx_passwords (configuration fx_env) (fx_login ''wrong'') fx_context fx_tokens
     = (Inl (UnauthorizedException ''Invalid credentials''), fx_tokens)
   \<and> (\<exists>resp w' row. login fx_crypto fx_passwords (configuration fx_env) (fx_login ''carol'')
        fx_context fx_tokens = (Inr resp, w')
      \<and> refresh_tokens (w_db w') = refresh_tokens (w_db fx_tokens) @ [row])"
proof -
  have 1: "\<forall>u\<in>set (users (w_db fx_tokens)). \<not> credentials_ok fx_passwords (fx_login ''wrong'') u"
    by (simp add: token_fixtures fx_passwords_def fx_login_def credentials_ok_def)
  have 2: "succeeds (login fx_crypto fx_passwords (configuration fx_env) (fx_login ''carol'')
      fx_context) fx_tokens" by code_simp
  show ?thesis
    using login_effect [of fx_tokens fx_passwords "fx_login ''wrong''" fx_crypto
        "configuration fx_env" fx_context] 1
      login_effect [of fx_tokens fx_passwords "fx_login ''carol''" fx_crypto
        "configuration fx_env" fx_context] succeedsE [OF 2] by metis
qed

section \<open>Deactivated users\<close>

text \<open>No stored user with this id is active.\<close>

definition locked_out :: "string \<Rightarrow> db \<Rightarrow> bool" where
  "locked_out i d \<longleftrightarrow> (\<forall>u\<in>set (users d). u_id u = i \<longrightarrow> \<not> u_isActive u)"

lemma locked_out_validate:
  "locked_out (ap_sub p) (w_db w) \<Longrightarrow>
   jwt_validate p w = (Inl (UnauthorizedException ''User is no longer active''), w)"
  by (cases "find_by u_id (ap_sub p) (users (w_db w))")
    (auto simp: jwt_validate_def andThen_def run_basic locked_out_def dest: find_by_Some)

lemma locked_out_rotate:
  assumes "locked_out i (w_db w)" and "rotate cr cfg raw ctx w = (Inr toks, w')"
  shows "\<exists>r\<in>set (refresh_tokens (w_db w)). rt_tokenHash r = sha256 cr raw \<and> rt_userId r \<noteq> i"
  using assms(2)
proof (rule rotate_okD)
  fix stored usr
  assume "stored \<in> set (refresh_tokens (w_db w))" "rt_tokenHash stored = sha256 cr raw"
    "usr \<in> set (users (w_db w))" "u_id usr = rt_userId stored" "u_isActive usr"
  moreover have "rt_userId stored \<noteq> i" using calculation assms(1) by (auto simp: locked_out_def)
  ultimately show ?thesis by blast
qed

lemma locked_out_login:
  assumes "locked_out i (w_db w)" and "login cr pw cfg dto ctx w = (Inr resp, w')"
  shows "aud_id (ar_user resp) \<noteq> i"
  using assms(2)
proof (rule login_okD)
  fix u row
  assume "u \<in> set (users (w_db w))" "credentials_ok pw dto u" "ar_user resp = toAuthUser u"
  with assms(1) show ?thesis by (auto simp: locked_out_def credentials_ok_def toAuthUser_def)
qed

end
