(* ===== verification/Pagination.thy ===== *)
theory Pagination
  imports Tables
begin

text \<open>
  \<open>common/utils/pagination.util.ts\<close> and \<open>common/dto/pagination-query.dto.ts\<close>: page
  arithmetic, the sort allow-list, the paginated envelope, and the pair of queries
  (\<open>findMany\<close>, \<open>count\<close>) every list endpoint runs. The order in which the database returns
  rows is not the program's: a list query takes a function that orders the matching rows, and the
  properties only assume that it permutes them.
\<close>

datatype sort_direction = Asc | Desc

type_synonym order_by = "string \<times> sort_direction"

record page_query =
  q_page :: "int option"
  q_limit :: "int option"
  q_sort :: "string option"
  q_search :: "string option"

record page_args =
  skip_rows :: int
  take_rows :: int

record page_meta =
  m_page :: int
  m_limit :: int
  m_total :: nat
  m_totalPages :: int

record 'a paginated =
  items :: "'a list"
  meta :: page_meta

definition query_page :: "page_query \<Rightarrow> int" where
  "query_page q = (case q_page q of None \<Rightarrow> 1 | Some p \<Rightarrow> p)"

definition query_limit :: "page_query \<Rightarrow> int" where
  "query_limit q = (case q_limit q of None \<Rightarrow> 20 | Some l \<Rightarrow> l)"

definition toPrismaPage :: "page_query \<Rightarrow> page_args" where
  "toPrismaPage q =
     (let page = query_page q; limit = query_limit q
      in \<lparr>skip_rows = (page - 1) * limit, take_rows = limit\<rparr>)"

definition default_order :: order_by where
  "default_order = (''createdAt'', Desc)"

definition toPrismaOrderBy :: "string option \<Rightarrow> string list \<Rightarrow> order_by \<Rightarrow> order_by" where
  "toPrismaOrderBy srt allowed fallback =
     (case srt of
        None \<Rightarrow> fallback
      | Some s \<Rightarrow>
          if s = [] then fallback
          else (let parts = split_on CHR '':'' s; field = hd parts
                in if field \<notin> set allowed then fallback
                   else (field, if length parts \<ge> 2 \<and> parts ! 1 = ''asc'' then Asc else Desc)))"

definition ceil_div :: "int \<Rightarrow> int \<Rightarrow> int" where
  "ceil_div a b = - ((- a) div b)"

definition buildPaginatedResult :: "'a list \<Rightarrow> nat \<Rightarrow> page_query \<Rightarrow> 'a paginated" where
  "buildPaginatedResult xs n q =
     (let page = query_page q; limit = query_limit q
      in \<lparr>items = xs,
          meta = \<lparr>m_page = page, m_limit = limit, m_total = n,
                  m_totalPages = max 1 (ceil_div (int n) limit)\<rparr>\<rparr>)"

text \<open>
  \<open>findMany\<close> with \<open>skip\<close> and \<open>take\<close>: the matching rows, ordered, cut. A negative
  \<open>skip\<close> or \<open>take\<close> never reaches it from a validated query (\<open>valid_page_query\<close>).
\<close>

definition find_many ::
  "(order_by \<Rightarrow> 'a list \<Rightarrow> 'a list) \<Rightarrow> ('a \<Rightarrow> bool) \<Rightarrow> order_by \<Rightarrow> page_args \<Rightarrow> 'a list \<Rightarrow> 'a list"
where
  "find_many ord P oby args rows =
     take (nat (take_rows args)) (drop (nat (skip_rows args)) (ord oby (filter P rows)))"

definition list_page ::
  "(order_by \<Rightarrow> 'a list \<Rightarrow> 'a list) \<Rightarrow> ('a \<Rightarrow> bool) \<Rightarrow> order_by \<Rightarrow> page_query \<Rightarrow> 'a list
    \<Rightarrow> 'a paginated"
where
  "list_page ord P oby q rows =
     buildPaginatedResult (find_many ord P oby (toPrismaPage q) rows) (length (filter P rows)) q"

text \<open>The validators of \<open>PaginationQueryDto\<close> on the converted numbers.\<close>

definition valid_page_query :: "page_query \<Rightarrow> bool" where
  "valid_page_query q \<longleftrightarrow> 1 \<le> query_page q \<and> 1 \<le> query_limit q \<and> query_limit q \<le> 100"

definition permutes_rows :: "(order_by \<Rightarrow> 'a list \<Rightarrow> 'a list) \<Rightarrow> bool" where
  "permutes_rows ord \<longleftrightarrow> (\<forall>oby rows. mset (ord oby rows) = mset rows)"

section \<open>Page arithmetic\<close>

lemma ceil_div_bounds:
  assumes "0 < b"
  shows "a \<le> b * ceil_div a b" and "b * ceil_div a b < a + b"
proof -
  have eq: "b * ((- a) div b) + (- a) mod b = - a" by (simp only: mult_div_mod_eq)
  have r: "0 \<le> (- a) mod b" "(- a) mod b < b" using assms by simp_all
  show "a \<le> b * ceil_div a b" and "b * ceil_div a b < a + b"
    unfolding ceil_div_def mult_minus_right using eq r by linarith+
qed

lemma concat_chunks:
  assumes "0 < l"
  shows "concat (map (\<lambda>k. take l (drop (k * l) xs)) [0..<n]) = take (n * l) xs"
proof (induction n)
  case (Suc n)
  have "take (n * l) xs @ take l (drop (n * l) xs) = take (n * l + l) xs"
    by (simp add: take_add)
  with Suc show ?case by (simp add: add.commute)
qed simp

lemma permutes_rows_set: "permutes_rows ord \<Longrightarrow> set (ord oby rows) = set rows"
  by (metis permutes_rows_def set_mset_mset)

lemma permutes_rows_length: "permutes_rows ord \<Longrightarrow> length (ord oby rows) = length rows"
  by (metis permutes_rows_def size_mset)

lemma find_many_sound:
  assumes "permutes_rows ord" and "x \<in> set (find_many ord P oby args rows)"
  shows "x \<in> set rows \<and> P x"
proof -
  from assms(2) have "x \<in> set (ord oby (filter P rows))"
    unfolding find_many_def by (blast dest: in_set_takeD in_set_dropD)
  with assms(1) show ?thesis by (simp add: permutes_rows_set)
qed

lemma list_page_sound:
  assumes "permutes_rows ord" and "x \<in> set (items (list_page ord P oby q rows))"
  shows "x \<in> set rows \<and> P x"
proof -
  have "x \<in> set (find_many ord P oby (toPrismaPage q) rows)"
    using assms(2) by (simp add: list_page_def buildPaginatedResult_def Let_def)
  with assms(1) show ?thesis by (rule find_many_sound)
qed

lemma list_page_total: "m_total (meta (list_page ord P oby q rows)) = length (filter P rows)"
  by (simp add: list_page_def buildPaginatedResult_def Let_def)

lemma list_page_size:
  assumes "valid_page_query q"
  shows "length (items (list_page ord P oby q rows)) \<le> 100"
proof -
  have "nat (query_limit q) \<le> 100" using assms by (simp add: valid_page_query_def nat_le_iff)
  then show ?thesis
    by (simp add: list_page_def buildPaginatedResult_def find_many_def toPrismaPage_def Let_def
        min.coboundedI2)
qed

text \<open>The page number \<open>k + 1\<close> of a query.\<close>

definition nth_page :: "page_query \<Rightarrow> nat \<Rightarrow> page_query" where
  "nth_page q k = q\<lparr>q_page := Some (int k + 1)\<rparr>"

lemma items_nth_page:
  assumes "1 \<le> query_limit q"
  shows "items (list_page ord P oby (nth_page q k) rows)
    = take (nat (query_limit q)) (drop (k * nat (query_limit q)) (ord oby (filter P rows)))"
proof -
  have "nat (int k * query_limit q) = k * nat (query_limit q)"
    using assms by (simp add: nat_mult_distrib)
  then show ?thesis
    by (simp add: list_page_def buildPaginatedResult_def find_many_def toPrismaPage_def
        nth_page_def query_page_def query_limit_def Let_def)
qed

lemma total_pages_cover:
  assumes "1 \<le> query_limit q"
  shows "length (filter P rows)
    \<le> nat (m_totalPages (meta (list_page ord P oby q rows))) * nat (query_limit q)"
proof -
  let ?n = "int (length (filter P rows))" and ?l = "query_limit q"
  have "?n \<le> ?l * ceil_div ?n ?l" using assms by (intro ceil_div_bounds) simp
  also have "\<dots> \<le> ?l * max 1 (ceil_div ?n ?l)" using assms by (simp add: mult_left_mono)
  finally have "?n \<le> max 1 (ceil_div ?n ?l) * ?l" by (simp add: mult.commute)
  then have "nat ?n \<le> nat (max 1 (ceil_div ?n ?l) * ?l)" by (rule nat_mono)
  then show ?thesis
    using assms
    by (simp add: list_page_def buildPaginatedResult_def Let_def nat_mult_distrib)
qed

text \<open>
  Walking the pages of a list endpoint from the first to \<open>meta.totalPages\<close> returns every
  matching row exactly once, in the order of the database: the pages neither overlap nor miss a
  row.
\<close>

theorem pages_partition:
  assumes "1 \<le> query_limit q" and "permutes_rows ord"
  shows "concat (map (\<lambda>k. items (list_page ord P oby (nth_page q k) rows))
           [0..<nat (m_totalPages (meta (list_page ord P oby q rows)))])
         = ord oby (filter P rows)"
proof -
  let ?xs = "ord oby (filter P rows)" and ?l = "nat (query_limit q)"
  let ?n = "nat (m_totalPages (meta (list_page ord P oby q rows)))"
  have "concat (map (\<lambda>k. items (list_page ord P oby (nth_page q k) rows)) [0..<?n])
    = concat (map (\<lambda>k. take ?l (drop (k * ?l) ?xs)) [0..<?n])"
    by (simp add: items_nth_page assms(1))
  also have "\<dots> = take (?n * ?l) ?xs" using assms(1) by (intro concat_chunks) simp
  also have "\<dots> = ?xs"
    using total_pages_cover [OF assms(1), of P rows ord oby]
    by (simp add: permutes_rows_length [OF assms(2)])
  finally show ?thesis .
qed

theorem pages_partition_witness:
  "concat (map (\<lambda>k. items (list_page (\<lambda>_ xs. rev xs) (\<lambda>x. x \<noteq> (3::nat)) default_order
       (nth_page \<lparr>q_page = None, q_limit = Some 2, q_sort = None, q_search = None\<rparr> k)
       [1, 2, 3, 4]))
     [0..<nat (m_totalPages (meta (list_page (\<lambda>_ xs. rev xs) (\<lambda>x. x \<noteq> (3::nat)) default_order
       \<lparr>q_page = None, q_limit = Some 2, q_sort = None, q_search = None\<rparr> [1, 2, 3, 4])))])
   = [4, 2, 1]"
proof -
  have h: "1 \<le> query_limit \<lparr>q_page = None, q_limit = Some 2, q_sort = None, q_search = None\<rparr>"
    by (simp add: query_limit_def)
  have p: "permutes_rows (\<lambda>_ (xs :: nat list). rev xs)"
    by (simp add: permutes_rows_def)
  show ?thesis
    using pages_partition [OF h p, of "\<lambda>x. x \<noteq> 3" default_order "[1, 2, 3, 4]"] by simp
qed

section \<open>The sort allow-list\<close>

lemma order_by_field:
  assumes "f \<in> set allowed" and "f \<noteq> []" and "CHR '':'' \<notin> set f"
  shows "toPrismaOrderBy (Some (f @ '':asc'')) allowed fallback = (f, Asc)"
    and "toPrismaOrderBy (Some (f @ '':desc'')) allowed fallback = (f, Desc)"
  using assms by (simp_all add: toPrismaOrderBy_def Let_def split_on_append)

text \<open>
  The sort expression of a request can only select an allowed column: whatever string the
  client sends, the resulting order is the fallback or an allowed field with a direction; and
  \<open>field:asc\<close> and \<open>field:desc\<close> of an allowed field are read back as they were written.
\<close>

theorem order_by_allow_list:
  "(toPrismaOrderBy srt allowed fallback = fallback
      \<or> fst (toPrismaOrderBy srt allowed fallback) \<in> set allowed)
   \<and> (f \<in> set allowed \<and> f \<noteq> [] \<and> CHR '':'' \<notin> set f \<longrightarrow>
        toPrismaOrderBy (Some (f @ '':asc'')) allowed fallback = (f, Asc)
      \<and> toPrismaOrderBy (Some (f @ '':desc'')) allowed fallback = (f, Desc))"
  by (auto simp: order_by_field) (auto simp: toPrismaOrderBy_def Let_def split: option.split)

theorem order_by_allow_list_witness:
  "toPrismaOrderBy (Some ''status:asc'') [''createdAt'', ''status''] default_order
   = (''status'', Asc)"
  using order_by_allow_list [of None "[''createdAt'', ''status'']" default_order "''status''"]
  by simp

end
