(* ===== verification/Http.thy ===== *)
theory Http
  imports AuthService Pagination JsDate
begin

text \<open>
  The HTTP shell around the services: \<open>common/filters/all-exceptions.filter.ts\<close> (every exception
  becomes one error envelope), \<open>common/interceptors\<close> (the success envelope and the correlation
  id) and \<open>health/health.controller.ts\<close>. The names of the status codes are those of NestJS's
  \<open>HttpStatus\<close> enum, which is not part of the repository: the functions that use them take the
  enum's entries as an argument.
\<close>

type_synonym status_names = "(string \<times> nat) list"

section \<open>The exception filter\<close>

record resolved =
  re_status :: nat
  re_error :: string
  re_message :: http_message

record error_body =
  eb_statusCode :: nat
  eb_error :: string
  eb_message :: http_message
  eb_path :: string
  eb_correlationId :: "string option"
  eb_timestamp :: string

datatype log_level = LogError | LogWarn

definition is_word_char :: "char \<Rightarrow> bool" where
  "is_word_char c \<longleftrightarrow> is_digit c \<or> c = CHR ''_''
     \<or> (65 \<le> (of_char c :: nat) \<and> (of_char c :: nat) \<le> 90)
     \<or> (97 \<le> (of_char c :: nat) \<and> (of_char c :: nat) \<le> 122)"

definition to_upper :: "char \<Rightarrow> char" where
  "to_upper c =
     (if 97 \<le> (of_char c :: nat) \<and> (of_char c :: nat) \<le> 122 then char_of (of_char c - 32 :: nat)
      else c)"

text \<open>\<open>replace(/\b\w/g, c => c.toUpperCase())\<close>: \<open>inside\<close> tells whether a word character precedes.\<close>

fun capitalize_words :: "bool \<Rightarrow> string \<Rightarrow> string" where
  "capitalize_words inside [] = []"
| "capitalize_words inside (c # cs) =
     (if is_word_char c \<and> \<not> inside then to_upper c else c) # capitalize_words (is_word_char c) cs"

definition underscores_to_spaces :: "string \<Rightarrow> string" where
  "underscores_to_spaces = map (\<lambda>c. if c = CHR ''_'' then CHR '' '' else c)"

definition statusToName :: "status_names \<Rightarrow> nat \<Rightarrow> string" where
  "statusToName names status =
     (case List.find (\<lambda>kv. snd kv = status) names of
        None \<Rightarrow> ''Error''
      | Some kv \<Rightarrow> capitalize_words False (underscores_to_spaces (fst kv)))"

definition resolvePrisma :: "string \<Rightarrow> string list option \<Rightarrow> resolved" where
  "resolvePrisma code tgt =
     (if code = ''P2002'' then
        \<lparr>re_status = 409, re_error = ''Conflict'',
         re_message = Msg (case tgt of
             None \<Rightarrow> ''Unique constraint violation''
           | Some ts \<Rightarrow>
               if join_with '', '' ts = [] then ''Unique constraint violation''
               else ''A record with this '' @ join_with '', '' ts @ '' already exists'')\<rparr>
      else if code = ''P2025'' then
        \<lparr>re_status = 404, re_error = ''Not Found'',
         re_message = Msg ''The requested record was not found''\<rparr>
      else if code = ''P2003'' then
        \<lparr>re_status = 400, re_error = ''Bad Request'',
         re_message = Msg ''Related record does not exist''\<rparr>
      else
        \<lparr>re_status = 400, re_error = ''Bad Request'',
         re_message = Msg (''Database error ('' @ code @ '')'')\<rparr>)"

fun response_message :: "http_response \<Rightarrow> string \<Rightarrow> http_message" where
  "response_message (RespString s) m = Msg s"
| "response_message (RespObject None) m = Msg m"
| "response_message (RespObject (Some x)) m = x"

fun resolve :: "status_names \<Rightarrow> exn \<Rightarrow> resolved" where
  "resolve names (HttpException status res m) =
     \<lparr>re_status = status, re_error = statusToName names status,
      re_message = response_message res m\<rparr>"
| "resolve names (PrismaKnown code tgt) = resolvePrisma code tgt"
| "resolve names (OtherError m) =
     \<lparr>re_status = 500, re_error = ''Internal Server Error'',
      re_message = Msg ''An unexpected error occurred''\<rparr>"

text \<open>\<open>AllExceptionsFilter.catch\<close>: the level of the log line, the status and the body.\<close>

definition catch ::
  "status_names \<Rightarrow> exn \<Rightarrow> string \<Rightarrow> string option \<Rightarrow> time \<Rightarrow> log_level \<times> nat \<times> error_body"
where
  "catch names e url cid now =
     (let r = resolve names e
      in (if 500 \<le> re_status r then LogError else LogWarn,
          re_status r,
          \<lparr>eb_statusCode = re_status r, eb_error = re_error r, eb_message = re_message r,
           eb_path = url, eb_correlationId = cid, eb_timestamp = toISOString now\<rparr>))"

section \<open>The success envelope and the correlation id\<close>

text \<open>
  \<open>isPaginated\<close> looks for the properties \<open>items\<close> and \<open>meta\<close>. A handler without a result returns
  \<open>undefined\<close>, here \<open>None\<close>.
\<close>

fun isPaginated :: "json option \<Rightarrow> bool" where
  "isPaginated (Some (JObj kvs)) \<longleftrightarrow> ''items'' \<in> fst ` set kvs \<and> ''meta'' \<in> fst ` set kvs"
| "isPaginated _ \<longleftrightarrow> False"

fun envelope :: "json option \<Rightarrow> json" where
  "envelope (Some (JObj kvs)) =
     (if isPaginated (Some (JObj kvs))
      then json_object [(''data'', map_of kvs ''items''), (''meta'', map_of kvs ''meta'')]
      else json_object [(''data'', Some (JObj kvs))])"
| "envelope payload = json_object [(''data'', payload)]"

definition meta_json :: "page_meta \<Rightarrow> json" where
  "meta_json m = JObj [(''page'', JNum (m_page m)), (''limit'', JNum (m_limit m)),
     (''total'', JNum (int (m_total m))), (''totalPages'', JNum (m_totalPages m))]"

definition paginated_json :: "('a \<Rightarrow> json) \<Rightarrow> 'a paginated \<Rightarrow> json" where
  "paginated_json f p =
     JObj [(''items'', JArr (map f (items p))), (''meta'', meta_json (paginated.meta p))]"

record request =
  rq_url :: string
  rq_correlation :: "string option"
  rq_userAgent :: "string option"
  rq_ip :: "string option"

text \<open>\<open>CorrelationIdInterceptor\<close>: the header of the client, or a fresh UUID.\<close>

definition correlation_id :: "request \<Rightarrow> string op" where
  "correlation_id rq = (case rq_correlation rq of Some c \<Rightarrow> ret c | None \<Rightarrow> randomUUID)"

section \<open>The health probes\<close>

record readiness_report =
  rr_ok :: bool
  rr_database :: bool
  rr_rabbitmq :: "bool option"

text \<open>
  \<open>checkDatabase\<close> and \<open>checkRabbit\<close> are inputs: whether the probe query returned, and (when an
  \<open>AmqpConnection\<close> is injected, as in the API and not in every process) whether the connection
  answered that it is up; a connection object that throws counts as down.
\<close>

definition checkRabbit :: "(exn + bool) option \<Rightarrow> bool" where
  "checkRabbit amqp = (case amqp of Some (Inr up) \<Rightarrow> up | _ \<Rightarrow> False)"

definition checkDatabase :: "exn + unit \<Rightarrow> bool" where
  "checkDatabase probe = (case probe of Inr _ \<Rightarrow> True | Inl _ \<Rightarrow> False)"

definition readiness :: "exn + unit \<Rightarrow> (exn + bool) option \<Rightarrow> readiness_report" where
  "readiness probe amqp =
     (let dbUp = checkDatabase probe; mqUp = checkRabbit amqp
      in \<lparr>rr_ok = (dbUp \<and> (amqp = None \<or> mqUp)), rr_database = dbUp,
          rr_rabbitmq = (if amqp = None then None else Some mqUp)\<rparr>)"

definition ready :: "exn + unit \<Rightarrow> (exn + bool) option \<Rightarrow> exn + readiness_report" where
  "ready probe amqp =
     (let report = readiness probe amqp
      in if rr_ok report then Inr report
         else Inl (HttpException 503 (RespObject None) ''Http Exception''))"

lemma ready_ok_iff:
  "ready probe amqp = Inr r \<longleftrightarrow>
     r = readiness probe amqp \<and> checkDatabase probe \<and> (amqp = None \<or> checkRabbit amqp)"
  by (auto simp: ready_def readiness_def Let_def)

section \<open>What an error tells the client\<close>

lemma resolvePrisma_status:
  "re_status (resolvePrisma code tgt)
     = (if code = ''P2002'' then 409 else if code = ''P2025'' then 404 else 400)"
  by (simp add: resolvePrisma_def)

text \<open>
  One error envelope for every exception. Whatever a request raises, the answer's status is
  the \<open>statusCode\<close> of its body, the body carries the path, the correlation id and the time, and
  the line is logged as an error exactly for a status of 500 or more. An HTTP exception keeps its
  status and the message of its response. A known database error is never a server error: a
  violated unique index is 409 (as the services' own conflict check answers, so a registration
  that loses the race between check and insert answers like one that did not), a missing row 404,
  everything else 400. Any other exception is a 500 whose whole body is independent of it, so no
  message of an unexpected error reaches a client.
\<close>

theorem error_envelope:
  "(case catch names e url cid now of (level, status, body) \<Rightarrow>
      eb_statusCode body = status \<and> eb_path body = url \<and> eb_correlationId body = cid
      \<and> eb_timestamp body = toISOString now \<and> (level = LogError \<longleftrightarrow> 500 \<le> status)
      \<and> (case e of
           HttpException s res m \<Rightarrow> status = s \<and> eb_message body = response_message res m
             \<and> eb_error body = statusToName names s
         | PrismaKnown code tgt \<Rightarrow> status < 500
             \<and> (status = 409 \<longleftrightarrow> code = ''P2002'') \<and> (status = 404 \<longleftrightarrow> code = ''P2025'')
         | OtherError m \<Rightarrow> status = 500
             \<and> (\<forall>m'. catch names (OtherError m') url cid now = (level, status, body))))
   \<and> fst (snd (catch names (unique_violation [''email'']) url cid now))
       = fst (snd (catch names (ConflictException ''Email is already registered'') url cid now))"
  by (cases e) (simp_all add: catch_def Let_def resolvePrisma_status unique_violation_def exn_defs)

end
