(* ===== verification/Session.thy ===== *)
theory Session
  imports AuthService Http
begin

text \<open>
  The session in the browser: \<open>core/auth/token-storage.service.ts\<close>, \<open>services/auth.service.ts\<close>,
  \<open>interceptors/auth.interceptor.ts\<close>, \<open>interceptors/error.interceptor.ts\<close> and \<open>guards\<close>. The state
  holds what the module variables, the signals and \<open>localStorage\<close> hold, and what RxJS keeps for
  them: the requests in flight, the requests that wait for a refresh (the subscribers of
  \<open>refreshedToken$\<close>) and the refresh calls in flight. Every request of the application has a
  number; a request that was answered, well or badly, is in \<open>br_done\<close>. One operation is one
  callback, which JavaScript runs to its end before the next.
\<close>

datatype stage = First | Own_retry | Queued_retry

record flight =
  fl_id :: nat
  fl_url :: string
  fl_token :: "string option"
  fl_stage :: stage

record refresh_call =
  rf_id :: nat
  rf_url :: string
  rf_sent :: "string option"

record browser =
  br_access :: "string option"
  br_refresh :: "string option"
  br_user :: "auth_user_dto option"
  br_initialized :: bool
  br_refreshing :: bool
  br_refreshed :: "string option"
  br_queue :: "(nat \<times> string) list"
  br_flights :: "flight list"
  br_calls :: "refresh_call list"
  br_done :: "(nat \<times> bool) list"
  br_next :: nat
  br_location :: string

section \<open>Token storage and the auth service\<close>

definition setTokens :: "string \<Rightarrow> string \<Rightarrow> browser \<Rightarrow> browser" where
  "setTokens a r b = b\<lparr>br_access := Some a, br_refresh := Some r\<rparr>"

definition clear :: "browser \<Rightarrow> browser" where
  "clear b = b\<lparr>br_access := None, br_refresh := None\<rparr>"

text \<open>A stored token as a condition: \<open>null\<close> and the empty string are falsy.\<close>

fun present :: "string option \<Rightarrow> bool" where
  "present None = False"
| "present (Some t) = (t \<noteq> [])"

fun contains_str :: "string \<Rightarrow> string \<Rightarrow> bool" where
  "contains_str [] p = (p = [])"
| "contains_str (c # cs) p =
     (take (length p) (c # cs) = p \<or> contains_str cs p)"

definition AUTH_FREE_PATHS :: "string list" where
  "AUTH_FREE_PATHS = [''/auth/login'', ''/auth/register'', ''/auth/refresh'']"

definition isAuthFree :: "string \<Rightarrow> bool" where
  "isAuthFree url = list_ex (contains_str url) AUTH_FREE_PATHS"

text \<open>\<open>authInterceptor\<close> on the way out: the access token of this moment, unless the path is free.\<close>

definition send :: "string \<Rightarrow> browser \<Rightarrow> browser" where
  "send url b =
     b\<lparr>br_flights := br_flights b @ [\<lparr>fl_id = br_next b, fl_url = url,
         fl_token = (if present (br_access b) \<and> \<not> isAuthFree url then br_access b else None),
         fl_stage = First\<rparr>],
       br_next := Suc (br_next b)\<rparr>"

text \<open>\<open>logout\<close>: the revocation is sent with the tokens of this moment, then everything is cleared.\<close>

definition logout_browser :: "bool \<Rightarrow> browser \<Rightarrow> browser" where
  "logout_browser navigate b =
     (let b' = (if present (br_refresh b) then send ''/api/auth/logout'' b else b);
          c = (clear b')\<lparr>br_user := None\<rparr>
      in if navigate then c\<lparr>br_location := ''/auth/login''\<rparr> else c)"

definition applySession :: "string \<Rightarrow> string \<Rightarrow> auth_user_dto \<Rightarrow> browser \<Rightarrow> browser" where
  "applySession a r u b = (setTokens a r b)\<lparr>br_user := Some u\<rparr>"

definition refreshTokens :: "nat \<Rightarrow> string \<Rightarrow> browser \<Rightarrow> browser" where
  "refreshTokens i url b =
     b\<lparr>br_calls := br_calls b @ [\<lparr>rf_id = i, rf_url = url, rf_sent = br_refresh b\<rparr>]\<rparr>"

definition restoreSession :: "browser \<Rightarrow> browser" where
  "restoreSession b =
     (if \<not> present (br_access b) then b\<lparr>br_initialized := True\<rparr> else send ''/api/auth/me'' b)"

definition session_restored :: "auth_user_dto \<Rightarrow> browser \<Rightarrow> browser" where
  "session_restored u b = b\<lparr>br_user := Some u, br_initialized := True\<rparr>"

definition isAuthenticated :: "browser \<Rightarrow> bool" where
  "isAuthenticated b \<longleftrightarrow> br_user b \<noteq> None"

definition hasRole :: "role list \<Rightarrow> browser \<Rightarrow> bool" where
  "hasRole roles b = (case br_user b of None \<Rightarrow> False | Some u \<Rightarrow> aud_role u \<in> set roles)"

definition fullName :: "browser \<Rightarrow> string" where
  "fullName b = (case br_user b of None \<Rightarrow> []
     | Some u \<Rightarrow> aud_firstName u @ '' '' @ aud_lastName u)"

section \<open>The auth interceptor\<close>

definition retry :: "nat \<Rightarrow> string \<Rightarrow> string \<Rightarrow> stage \<Rightarrow> flight" where
  "retry i url token st = \<lparr>fl_id = i, fl_url = url, fl_token = Some token, fl_stage = st\<rparr>"

definition handle401 :: "nat \<Rightarrow> string \<Rightarrow> browser \<Rightarrow> browser" where
  "handle401 i url b =
     (if br_refreshing b
      then (case br_refreshed b of
              Some token \<Rightarrow> b\<lparr>br_flights := br_flights b @ [retry i url token Queued_retry]\<rparr>
            | None \<Rightarrow> b\<lparr>br_queue := br_queue b @ [(i, url)]\<rparr>)
      else refreshTokens i url (b\<lparr>br_refreshing := True, br_refreshed := None\<rparr>))"

definition landed :: "nat \<Rightarrow> browser \<Rightarrow> browser" where
  "landed i b = b\<lparr>br_flights := filter (\<lambda>f. fl_id f \<noteq> i) (br_flights b)\<rparr>"

definition finish :: "nat \<Rightarrow> bool \<Rightarrow> browser \<Rightarrow> browser" where
  "finish i ok b = b\<lparr>br_done := br_done b @ [(i, ok)]\<rparr>"

definition response_ok :: "flight \<Rightarrow> browser \<Rightarrow> browser" where
  "response_ok f b = finish (fl_id f) True (landed (fl_id f) b)"

text \<open>
  An error response. The outer \<open>catchError\<close> sees the first try only; an error of the retry of the
  request that started the refresh goes through the inner \<open>catchError\<close> of \<open>handle401\<close>.
\<close>

definition response_error :: "flight \<Rightarrow> nat \<Rightarrow> browser \<Rightarrow> browser" where
  "response_error f status b =
     (let b' = landed (fl_id f) b
      in case fl_stage f of
           First \<Rightarrow>
             if status = 401 \<and> \<not> isAuthFree (fl_url f) \<and> present (br_refresh b')
             then handle401 (fl_id f) (fl_url f) b'
             else finish (fl_id f) False b'
         | Own_retry \<Rightarrow>
             finish (fl_id f) False (logout_browser True (b'\<lparr>br_refreshing := False\<rparr>))
         | Queued_retry \<Rightarrow> finish (fl_id f) False b')"

definition call_over :: "nat \<Rightarrow> browser \<Rightarrow> browser" where
  "call_over i b = b\<lparr>br_calls := filter (\<lambda>c. rf_id c \<noteq> i) (br_calls b)\<rparr>"

text \<open>A refresh that succeeds: the waiting requests are retried first, then the one that started it.\<close>

definition refresh_ok :: "refresh_call \<Rightarrow> string \<Rightarrow> string \<Rightarrow> browser \<Rightarrow> browser" where
  "refresh_ok c access refreshTok b =
     (let b' = setTokens access refreshTok (call_over (rf_id c) b)
      in b'\<lparr>br_refreshing := False, br_refreshed := Some access,
            br_flights := br_flights b'
              @ map (\<lambda>(j, u). retry j u access Queued_retry) (br_queue b')
              @ [retry (rf_id c) (rf_url c) access Own_retry],
            br_queue := []\<rparr>)"

definition refresh_error :: "refresh_call \<Rightarrow> browser \<Rightarrow> browser" where
  "refresh_error c b =
     finish (rf_id c) False
       (logout_browser True ((call_over (rf_id c) b)\<lparr>br_refreshing := False\<rparr>))"

section \<open>The error interceptor and the guards\<close>

text \<open>\<open>extractMessage\<close>: \<open>None\<close> is an error body without a \<open>message\<close>.\<close>

definition extractMessage :: "nat \<Rightarrow> http_message option \<Rightarrow> string" where
  "extractMessage status message =
     (if status = 0 then ''Cannot reach the server. Check your connection and try again.''
      else let fallback = (if status = 401
             then ''Your session has expired. Please sign in again.''
             else ''Something went wrong. Please try again.'')
           in case message of
                Some (Msg m) \<Rightarrow> if m \<noteq> [] then m else fallback
              | Some (Msgs ms) \<Rightarrow> join_with '' '' ms
              | None \<Rightarrow> fallback)"

datatype navigation = Allow | RedirectTo string "string option"

definition authGuard :: "string \<Rightarrow> browser \<Rightarrow> navigation" where
  "authGuard url b =
     (if isAuthenticated b then Allow else RedirectTo ''/auth/login'' (Some url))"

definition roleGuard :: "role list option \<Rightarrow> browser \<Rightarrow> navigation" where
  "roleGuard roles b =
     (let allowed = (case roles of None \<Rightarrow> [] | Some rs \<Rightarrow> rs)
      in if allowed = [] \<or> hasRole allowed b then Allow else RedirectTo ''/dashboard'' None)"

section \<open>Histories of a browser\<close>

text \<open>
  \<open>Own_failed\<close> is the one event the proofs single out: the retry of a request that had started a
  refresh fails as well. \<open>Signed_in\<close> is the answer to a login or a registration.
\<close>

datatype event = Issued | Answered | Signed_in | Own_failed | Refreshed | Refused | Logged_out

inductive browser_step :: "event \<Rightarrow> browser \<Rightarrow> browser \<Rightarrow> bool" where
  issue: "browser_step Issued b (send url b)"
| restore: "browser_step Issued b (restoreSession b)"
| ok: "f \<in> set (br_flights b) \<Longrightarrow> browser_step Answered b (response_ok f b)"
| login: "f \<in> set (br_flights b) \<Longrightarrow>
    browser_step Signed_in b (applySession a r u (response_ok f b))"
| restored: "f \<in> set (br_flights b) \<Longrightarrow>
    browser_step Answered b (session_restored u (response_ok f b))"
| failed: "f \<in> set (br_flights b) \<Longrightarrow> fl_stage f \<noteq> Own_retry \<Longrightarrow>
    browser_step Answered b (response_error f status b)"
| own_failed: "f \<in> set (br_flights b) \<Longrightarrow> fl_stage f = Own_retry \<Longrightarrow>
    browser_step Own_failed b (response_error f status b)"
| refreshed: "c \<in> set (br_calls b) \<Longrightarrow> browser_step Refreshed b (refresh_ok c a r b)"
| refused: "c \<in> set (br_calls b) \<Longrightarrow> browser_step Refused b (refresh_error c b)"
| logout: "browser_step Logged_out b (logout_browser nav b)"

inductive_cases browser_stepE: "browser_step e b b'"

definition history :: "event set \<Rightarrow> browser \<Rightarrow> browser \<Rightarrow> bool" where
  "history E = (\<lambda>b b'. \<exists>e\<in>E. browser_step e b b')\<^sup>*\<^sup>*"

lemma history_induct [consumes 1, case_names start step]:
  assumes "history E b c" and "P b"
    and "\<And>x e y. history E b x \<Longrightarrow> P x \<Longrightarrow> e \<in> E \<Longrightarrow> browser_step e x y \<Longrightarrow> P y"
  shows "P c"
  using assms(1) unfolding history_def
proof (induction rule: rtranclp_induct)
  case base
  show ?case by (rule assms(2))
next
  case (step x y)
  then show ?case using assms(3) unfolding history_def by blast
qed

lemma history_step: "history E b x \<Longrightarrow> e \<in> E \<Longrightarrow> browser_step e x y \<Longrightarrow> history E b y"
  unfolding history_def by (rule rtranclp.rtrancl_into_rtrancl) auto

lemma history_refl [simp]: "history E b b"
  by (simp add: history_def)

definition fresh_browser :: "string option \<Rightarrow> string option \<Rightarrow> browser" where
  "fresh_browser a r = \<lparr>br_access = a, br_refresh = r, br_user = None, br_initialized = False,
     br_refreshing = False, br_refreshed = None, br_queue = [], br_flights = [], br_calls = [],
     br_done = [], br_next = 0, br_location = []\<rparr>"

text \<open>Where the requests are.\<close>

definition account :: "browser \<Rightarrow> nat multiset" where
  "account b = mset (map fl_id (br_flights b)) + mset (map fst (br_queue b))
     + mset (map rf_id (br_calls b)) + mset (map fst (br_done b))"

definition accounted :: "browser \<Rightarrow> bool" where
  "accounted b \<longleftrightarrow> account b = mset [0..<br_next b]"

lemma mset_filter_out:
  assumes "distinct (map k xs)" and "x \<in> set xs"
  shows "add_mset (k x) (mset (map k (filter (\<lambda>y. k y \<noteq> k x) xs))) = mset (map k xs)"
  using assms
proof (induction xs)
  case (Cons y ys)
  show ?case
  proof (cases "k y = k x")
    case True
    with Cons.prems have "k x \<notin> k ` set ys" by simp
    then have "\<forall>z\<in>set ys. k z \<noteq> k x" by (metis image_eqI)
    then have "filter (\<lambda>z. k z \<noteq> k x) ys = ys" by simp
    with True show ?thesis by simp
  next
    case False
    with Cons show ?thesis by auto
  qed
qed simp

lemma mset_upt_subset_distinct:
  assumes "mset ys \<subseteq># mset [0..<n]"
  shows "distinct ys"
proof -
  obtain Z where Z: "mset [0..<n] = mset ys + Z"
    using assms mset_subset_eq_exists_conv [of "mset ys"] by blast
  obtain zs where "mset zs = Z" using ex_mset [of Z] by blast
  with Z have "mset [0..<n] = mset (ys @ zs)" by (simp only: mset_append)
  then have "distinct (ys @ zs)"
    using mset_eq_imp_distinct_iff [of "[0..<n]" "ys @ zs"] distinct_upt by blast
  then show ?thesis by simp
qed

lemma account_parts:
  "mset (map fl_id (br_flights b)) \<subseteq># account b" "mset (map rf_id (br_calls b)) \<subseteq># account b"
  "mset (map fst (br_done b)) \<subseteq># account b"
  unfolding account_def
    apply (metis add.assoc mset_subset_eq_add_left)
   apply (metis add.assoc add.commute mset_subset_eq_add_left)
  by (metis mset_subset_eq_add_right)

lemma accounted_distinct:
  assumes "accounted b"
  shows "distinct (map fl_id (br_flights b))" and "distinct (map rf_id (br_calls b))"
    and "distinct (map fst (br_done b))"
  using account_parts [of b] assms unfolding accounted_def
  by (auto intro: mset_upt_subset_distinct simp del: mset_map mset_upt)

lemma account_landed:
  assumes "accounted b" and "f \<in> set (br_flights b)"
  shows "add_mset (fl_id f) (account (landed (fl_id f) b)) = account b"
  using mset_filter_out [OF accounted_distinct(1) [OF assms(1)] assms(2)]
  by (simp add: account_def landed_def flip: add_mset_add_single)

lemma account_call_over:
  assumes "accounted b" and "c \<in> set (br_calls b)"
  shows "add_mset (rf_id c) (account (call_over (rf_id c) b)) = account b"
  using mset_filter_out [OF accounted_distinct(2) [OF assms(1)] assms(2)]
  by (simp add: account_def call_over_def flip: add_mset_add_single)

lemma account_finish [simp]: "account (finish i ok b) = add_mset i (account b)"
  by (simp add: account_def finish_def)

lemma account_send: "account (send url b) = add_mset (br_next b) (account b)"
  by (simp add: account_def send_def)

lemma account_logout:
  "account (logout_browser nav b)
     = (if present (br_refresh b) then add_mset (br_next b) (account b) else account b)"
  by (simp add: logout_browser_def Let_def clear_def account_def send_def)

lemma account_handle401: "account (handle401 i url b) = add_mset i (account b)"
  by (simp add: handle401_def account_def refreshTokens_def retry_def split: option.split)

lemma next_counter [simp]:
  "br_next (landed i b) = br_next b" "br_next (call_over i b) = br_next b"
  "br_next (finish i ok b) = br_next b" "br_next (handle401 i url b) = br_next b"
  "br_next (send url b) = Suc (br_next b)"
  "br_next (logout_browser nav b)
     = (if present (br_refresh b) then Suc (br_next b) else br_next b)"
  by (simp_all add: landed_def call_over_def finish_def handle401_def refreshTokens_def send_def
      logout_browser_def clear_def Let_def split: option.split)

lemma account_session [simp]:
  "account (setTokens a r b) = account b" "br_next (setTokens a r b) = br_next b"
  "account (applySession a r u b) = account b" "br_next (applySession a r u b) = br_next b"
  "account (session_restored u b) = account b" "br_next (session_restored u b) = br_next b"
  "account (b\<lparr>br_refreshing := x\<rparr>) = account b" "account (b\<lparr>br_initialized := x\<rparr>) = account b"
  by (simp_all add: account_def setTokens_def applySession_def session_restored_def)

lemma mset_set_below_Suc [simp]: "add_mset n (mset_set {0..<n}) = mset_set {0..<Suc n}"
  by (simp add: atLeastLessThanSuc)

lemma accounted_send: "accounted b \<Longrightarrow> accounted (send url b)"
  by (simp add: accounted_def account_send)

lemma accounted_logout: "accounted b \<Longrightarrow> accounted (logout_browser nav b)"
  by (simp add: accounted_def account_logout)

lemma account_response_error:
  assumes "accounted b" and "f \<in> set (br_flights b)"
  shows "account (response_error f status b)
    = (if fl_stage f = Own_retry \<and> present (br_refresh b) then add_mset (br_next b) (account b)
       else account b)"
proof -
  note l = account_landed [OF assms]
  have r: "br_refresh (landed (fl_id f) b) = br_refresh b" by (simp add: landed_def)
  show ?thesis
    by (cases "fl_stage f")
      (simp_all add: response_error_def Let_def l account_handle401 account_logout r
        add_mset_commute [of "fl_id f"])
qed

lemma next_response_error:
  "br_next (response_error f status b)
    = (if fl_stage f = Own_retry \<and> present (br_refresh b) then Suc (br_next b) else br_next b)"
  by (cases "fl_stage f") (simp_all add: response_error_def Let_def landed_def
      handle401_def refreshTokens_def finish_def split: option.split)

lemma account_refresh_ok:
  assumes "accounted b" and "c \<in> set (br_calls b)"
  shows "account (refresh_ok c a r b) = account b"
proof -
  have "account (refresh_ok c a r b)
      = add_mset (rf_id c) (account (setTokens a r (call_over (rf_id c) b)))"
    by (simp add: refresh_ok_def account_def Let_def retry_def case_prod_beta comp_def)
  then show ?thesis using account_call_over [OF assms] by simp
qed

lemma accounted_step:
  assumes "browser_step e b b'" and "accounted b"
  shows "accounted b'"
  using assms
proof (cases rule: browser_step.cases)
  case (failed f status)
  with assms(2) show ?thesis
    using account_response_error [OF assms(2), of f status] next_response_error [of f status b]
    by (simp add: accounted_def)
next
  case (own_failed f status)
  with assms(2) show ?thesis
    using account_response_error [OF assms(2), of f status] next_response_error [of f status b]
    by (simp add: accounted_def)
next
  case (refreshed c a r)
  with assms(2) account_refresh_ok [OF assms(2), of c a r] show ?thesis
    by (simp add: accounted_def) (simp add: refresh_ok_def Let_def)
next
  case (refused c)
  have "account (refresh_error c b)
      = (if present (br_refresh b) then add_mset (br_next b) (account b) else account b)"
    using account_call_over [OF assms(2) refused(3)]
    by (simp add: refresh_error_def account_logout add_mset_commute [of "rf_id c"] call_over_def)
  with refused assms(2) show ?thesis
    by (simp add: accounted_def) (simp add: refresh_error_def call_over_def)
qed (simp_all add: account_send account_logout restoreSession_def response_ok_def
    account_landed accounted_def)

text \<open>
  C29. The interceptor loses no request and answers none twice. In every history of a browser,
  whatever the server answers and however often the session is refreshed, refused, ended or
  started again, each request the application sent is in exactly one place: in flight, waiting
  for a refresh, holding the refresh it started, or answered; so a request is answered at most
  once, and no request appears that was not sent.
\<close>

theorem every_request_accounted:
  assumes "history UNIV (fresh_browser a r) b"
  shows "mset (map fl_id (br_flights b)) + mset (map fst (br_queue b))
      + mset (map rf_id (br_calls b)) + mset (map fst (br_done b)) = mset [0..<br_next b]
    \<and> distinct (map fst (br_done b))"
proof -
  have "accounted b"
    using assms
  proof (induction rule: history_induct)
    case start
    show ?case by (simp add: accounted_def account_def fresh_browser_def)
  qed (rule accounted_step)
  then show ?thesis
    using accounted_distinct(3) [of b] unfolding accounted_def account_def by blast
qed

theorem every_request_accounted_witness:
  "mset [0] = mset [0..<1] \<and> distinct (map fst (br_done (response_ok
     \<lparr>fl_id = 0, fl_url = ''/api/tickets'', fl_token = Some ''T'', fl_stage = First\<rparr>
     (send ''/api/tickets'' (fresh_browser (Some ''T'') None)))))"
proof -
  let ?b = "send ''/api/tickets'' (fresh_browser (Some ''T'') None)"
  let ?f = "\<lparr>fl_id = 0, fl_url = ''/api/tickets'', fl_token = Some ''T'', fl_stage = First\<rparr>"
  have "?f \<in> set (br_flights ?b)"
    by (simp add: send_def fresh_browser_def isAuthFree_def AUTH_FREE_PATHS_def)
  then have "history UNIV (fresh_browser (Some ''T'') None) (response_ok ?f ?b)"
    using history_step [OF history_step [OF history_refl UNIV_I browser_step.issue] UNIV_I
        browser_step.ok] by blast
  from every_request_accounted [OF this]
  show ?thesis by (simp add: response_ok_def finish_def landed_def send_def fresh_browser_def)
qed

section \<open>One refresh at a time\<close>

definition single_flight :: "browser \<Rightarrow> bool" where
  "single_flight b \<longleftrightarrow> (if br_refreshing b then length (br_calls b) = 1 else br_calls b = [])
     \<and> (br_refreshing b \<longrightarrow> br_refreshed b = None)"

lemma refresh_state [simp]:
  "br_calls (send url b) = br_calls b" "br_refreshing (send url b) = br_refreshing b"
  "br_refreshed (send url b) = br_refreshed b"
  "br_calls (logout_browser nav b) = br_calls b"
  "br_refreshing (logout_browser nav b) = br_refreshing b"
  "br_refreshed (logout_browser nav b) = br_refreshed b"
  "br_calls (landed i b) = br_calls b" "br_refreshing (landed i b) = br_refreshing b"
  "br_refreshed (landed i b) = br_refreshed b"
  "br_calls (finish i ok b) = br_calls b" "br_refreshing (finish i ok b) = br_refreshing b"
  "br_refreshed (finish i ok b) = br_refreshed b"
  "br_calls (applySession a r u b) = br_calls b"
  "br_refreshing (applySession a r u b) = br_refreshing b"
  "br_refreshed (applySession a r u b) = br_refreshed b"
  "br_calls (session_restored u b) = br_calls b"
  "br_refreshing (session_restored u b) = br_refreshing b"
  "br_refreshed (session_restored u b) = br_refreshed b"
  by (simp_all add: send_def logout_browser_def Let_def clear_def landed_def finish_def
      applySession_def setTokens_def session_restored_def)

lemma single_flight_handle401: "single_flight b \<Longrightarrow> single_flight (handle401 i url b)"
  by (auto simp: single_flight_def handle401_def refreshTokens_def split: option.splits)

lemma single_call:
  assumes "single_flight b" and "c \<in> set (br_calls b)"
  shows "br_calls b = [c]" and "br_refreshing b"
    and "filter (\<lambda>x. rf_id x \<noteq> rf_id c) (br_calls b) = []"
  using assms by (auto simp: single_flight_def length_Suc_conv split: if_splits)

lemma single_flight_step:
  assumes "browser_step e b b'" and "e \<noteq> Own_failed" and "single_flight b"
  shows "single_flight b'"
  using assms
proof (cases rule: browser_step.cases)
  case (failed f status)
  have "single_flight (landed (fl_id f) b)" using assms(3) by (simp add: single_flight_def)
  then have "single_flight (handle401 i url (landed (fl_id f) b))" for i url
    by (rule single_flight_handle401)
  with failed assms(3) show ?thesis
    by (cases "fl_stage f") (simp_all add: response_error_def Let_def, auto simp: single_flight_def)
next
  case (refreshed c a r)
  with single_call [OF assms(3), of c] show ?thesis
    by (simp add: refresh_ok_def Let_def single_flight_def setTokens_def call_over_def)
next
  case (refused c)
  with single_call [OF assms(3), of c] show ?thesis
    by (simp add: refresh_error_def single_flight_def call_over_def)
qed (simp_all add: single_flight_def restoreSession_def response_ok_def)

text \<open>
  Concurrent 401s trigger one refresh. In every history in which no retried request of its
  own fails, at most one refresh call is in flight at any time, so the refresh token of the
  browser is presented once and the server's reuse detection is not set off; a refresh is marked
  as running exactly while its call is in flight. When it succeeds, every waiting request is sent
  again, with the new access token, and none waits any longer.
\<close>

theorem refresh_single_flight:
  assumes "history (- {Own_failed}) (fresh_browser a r) b"
  shows "length (br_calls b) \<le> 1 \<and> (br_refreshing b \<longleftrightarrow> br_calls b \<noteq> [])
    \<and> (\<forall>c\<in>set (br_calls b). br_queue (refresh_ok c access refreshTok b) = []
        \<and> br_calls (refresh_ok c access refreshTok b) = []
        \<and> (\<forall>(j, u)\<in>set (br_queue b). retry j u access Queued_retry
              \<in> set (br_flights (refresh_ok c access refreshTok b)))
        \<and> retry (rf_id c) (rf_url c) access Own_retry
            \<in> set (br_flights (refresh_ok c access refreshTok b)))"
proof -
  have inv: "single_flight b"
    using assms
  proof (induction rule: history_induct)
    case start
    show ?case by (simp add: single_flight_def fresh_browser_def)
  next
    case (step x e y)
    then show ?case by (auto intro: single_flight_step)
  qed
  have "br_queue (refresh_ok c access refreshTok b) = []
      \<and> br_calls (refresh_ok c access refreshTok b) = []
      \<and> (\<forall>(j, u)\<in>set (br_queue b). retry j u access Queued_retry
          \<in> set (br_flights (refresh_ok c access refreshTok b)))
      \<and> retry (rf_id c) (rf_url c) access Own_retry
          \<in> set (br_flights (refresh_ok c access refreshTok b))" if "c \<in> set (br_calls b)" for c
    using single_call [OF inv that]
    by (force simp: refresh_ok_def Let_def setTokens_def call_over_def)
  moreover have "length (br_calls b) \<le> 1 \<and> (br_refreshing b \<longleftrightarrow> br_calls b \<noteq> [])"
    using inv by (auto simp: single_flight_def split: if_splits)
  ultimately show ?thesis by blast
qed

text \<open>Two requests with an expired token, both refused: one refresh, one request waiting.\<close>

definition fx_expired :: browser where
  "fx_expired =
     (let b0 = send ''/api/users'' (send ''/api/tickets'' (fresh_browser (Some ''A1'') (Some ''R1'')));
          b1 = response_error (br_flights b0 ! 0) 401 b0
      in response_error (br_flights b1 ! 0) 401 b1)"

lemma fx_expired_history: "history (- {Own_failed}) (fresh_browser (Some ''A1'') (Some ''R1'')) fx_expired"
proof -
  let ?start = "fresh_browser (Some ''A1'') (Some ''R1'')"
  let ?sent = "send ''/api/users'' (send ''/api/tickets'' ?start)"
  let ?waiting = "response_error (br_flights ?sent ! 0) 401 ?sent"
  have issued: "history (- {Own_failed}) b (send url c)" if "history (- {Own_failed}) b c" for b c url
    by (rule history_step [OF that _ browser_step.issue]) simp
  have h0: "history (- {Own_failed}) ?start ?sent" by (intro issued history_refl)
  have f0: "br_flights ?sent ! 0 \<in> set (br_flights ?sent)" "fl_stage (br_flights ?sent ! 0) \<noteq> Own_retry"
    by (simp_all add: send_def fresh_browser_def)
  have h1: "history (- {Own_failed}) ?start ?waiting"
    by (rule history_step [OF h0 _ browser_step.failed [OF f0]]) simp
  have "br_flights ?waiting = [\<lparr>fl_id = 1, fl_url = ''/api/users'', fl_token = Some ''A1'',
      fl_stage = First\<rparr>]"
    by code_simp
  then have f1: "br_flights ?waiting ! 0 \<in> set (br_flights ?waiting)"
    "fl_stage (br_flights ?waiting ! 0) \<noteq> Own_retry" by simp_all
  have h2: "history (- {Own_failed}) ?start (response_error (br_flights ?waiting ! 0) 401 ?waiting)"
    by (rule history_step [OF h1 _ browser_step.failed [OF f1]]) simp
  have x: "fx_expired = response_error (br_flights ?waiting ! 0) 401 ?waiting"
    unfolding fx_expired_def Let_def ..
  show ?thesis unfolding x by (rule h2)
qed

theorem refresh_single_flight_witness:
  "br_queue fx_expired = [(1, ''/api/users'')]
   \<and> retry 1 ''/api/users'' ''A2'' Queued_retry
       \<in> set (br_flights (refresh_ok (br_calls fx_expired ! 0) ''A2'' ''R2'' fx_expired))"
proof -
  have q: "br_queue fx_expired = [(1, ''/api/users'')]" by code_simp
  have "length (br_calls fx_expired) = 1" by code_simp
  then have "br_calls fx_expired ! 0 \<in> set (br_calls fx_expired)" by (simp add: nth_mem)
  with refresh_single_flight [OF fx_expired_history, of "''A2''" "''R2''"] q
  show ?thesis by auto
qed

section \<open>How a session ends\<close>

lemma tokens_kept [simp]:
  "br_access (send url b) = br_access b" "br_access (landed i b) = br_access b"
  "br_access (finish i ok b) = br_access b" "br_access (handle401 i url b) = br_access b"
  "br_access (session_restored u b) = br_access b"
  "br_access (applySession a r u b) = Some a"
  "br_access (refresh_ok c a r b) = Some a"
  by (simp_all add: send_def landed_def finish_def handle401_def refreshTokens_def
      session_restored_def applySession_def setTokens_def refresh_ok_def Let_def split: option.split)

lemma session_cleared:
  "br_access (logout_browser nav b) = None" "br_refresh (logout_browser nav b) = None"
  "br_user (logout_browser nav b) = None"
  by (simp_all add: logout_browser_def Let_def clear_def)

lemma session_end_step:
  assumes "browser_step e b b'" and "br_access b \<noteq> None" and "br_access b' = None"
  shows "e \<in> {Logged_out, Refused, Own_failed}"
  using assms
proof (cases rule: browser_step.cases)
  case (failed f status)
  with assms(2,3) show ?thesis
    by (cases "fl_stage f") (auto simp: response_error_def Let_def split: if_splits)
qed (auto simp: restoreSession_def response_ok_def split: if_splits)

lemma queue_kept [simp]:
  "br_queue (send url b) = br_queue b" "br_queue (landed i b) = br_queue b"
  "br_queue (finish i ok b) = br_queue b" "br_queue (logout_browser nav b) = br_queue b"
  "br_queue (session_restored u b) = br_queue b" "br_queue (applySession a r u b) = br_queue b"
  "br_queue (call_over i b) = br_queue b"
  by (simp_all add: send_def landed_def finish_def logout_browser_def Let_def clear_def
      session_restored_def applySession_def setTokens_def call_over_def)

lemma queue_grows:
  assumes "browser_step e b b'" and "e \<noteq> Refreshed"
  shows "set (br_queue b) \<subseteq> set (br_queue b')"
  using assms(1)
proof (cases rule: browser_step.cases)
  case (failed f status)
  then show ?thesis
    by (cases "fl_stage f") (auto simp: response_error_def Let_def handle401_def refreshTokens_def
        split: option.splits)
next
  case (own_failed f status)
  then show ?thesis by (simp add: response_error_def Let_def)
qed (use assms(2) in \<open>simp_all add: restoreSession_def response_ok_def refresh_error_def\<close>)

text \<open>
  How a session ends, and who pays for it. The stored tokens disappear only by a logout, by
  a refused refresh, or because the retry of the request that started a refresh failed; the last
  happens for every error that retry meets, whatever its status (a 404 or a 409 of an ordinary
  request logs the user out although the refresh had succeeded). And a refused refresh answers
  only the request that started it: the requests that were waiting keep waiting, through any
  further history, until some later refresh succeeds, if one ever does, and are then sent with
  that session's token. A logout ends the session only as far as no refresh is in flight: the
  answer of a refresh that arrives after the logout stores its tokens all the same, and the next
  start of the application takes the session up again with them.
\<close>

theorem session_ends:
  "(\<forall>e b'. browser_step e b b' \<longrightarrow> br_access b \<noteq> None \<longrightarrow> br_access b' = None \<longrightarrow>
      e \<in> {Logged_out, Refused, Own_failed})
   \<and> (fl_stage f = Own_retry \<longrightarrow> br_access (response_error f status b) = None
        \<and> br_refresh (response_error f status b) = None
        \<and> br_user (response_error f status b) = None)
   \<and> (\<forall>b'. history (- {Refreshed}) (refresh_error c b) b' \<longrightarrow>
        set (br_queue b) \<subseteq> set (br_queue b'))
   \<and> (c \<in> set (br_calls b) \<longrightarrow> c \<in> set (br_calls (logout_browser nav b))
        \<and> br_access (refresh_ok c a r (logout_browser nav b)) = Some a
        \<and> br_user (refresh_ok c a r (logout_browser nav b)) = None
        \<and> (a \<noteq> [] \<longrightarrow> (\<exists>f\<in>set (br_flights (restoreSession (fresh_browser (Some a) (Some r)))).
              fl_url f = ''/api/auth/me'' \<and> fl_token f = Some a)))"
proof (intro conjI allI impI)
  fix e b' assume "browser_step e b b'" "br_access b \<noteq> None" "br_access b' = None"
  then show "e \<in> {Logged_out, Refused, Own_failed}" by (rule session_end_step)
next
  assume own: "fl_stage f = Own_retry"
  show "br_access (response_error f status b) = None"
    "br_refresh (response_error f status b) = None" "br_user (response_error f status b) = None"
    using own by (simp_all add: response_error_def Let_def session_cleared finish_def)
next
  fix b' assume "history (- {Refreshed}) (refresh_error c b) b'"
  then show "set (br_queue b) \<subseteq> set (br_queue b')"
  proof (induction rule: history_induct)
    case start
    show ?case by (simp add: refresh_error_def)
  next
    case (step x e y)
    then show ?case using queue_grows [of e x y] by blast
  qed
next
  assume c: "c \<in> set (br_calls b)"
  show "c \<in> set (br_calls (logout_browser nav b))"
    "br_access (refresh_ok c a r (logout_browser nav b)) = Some a"
    using c by simp_all
  show "br_user (refresh_ok c a r (logout_browser nav b)) = None"
    by (simp add: refresh_ok_def Let_def setTokens_def call_over_def session_cleared)
  show "\<exists>f\<in>set (br_flights (restoreSession (fresh_browser (Some a) (Some r)))).
      fl_url f = ''/api/auth/me'' \<and> fl_token f = Some a" if "a \<noteq> []"
    using that by (simp add: restoreSession_def send_def fresh_browser_def isAuthFree_def
        AUTH_FREE_PATHS_def)
qed

theorem session_ends_witness:
  "set (br_queue (send ''/api/x'' (refresh_error (br_calls fx_expired ! 0) fx_expired)))
     \<supseteq> {(1, ''/api/users'')}
   \<and> br_user (response_error \<lparr>fl_id = 0, fl_url = ''/api/tickets'', fl_token = None,
       fl_stage = Own_retry\<rparr> 404 fx_expired) = None"
proof -
  have q: "br_queue fx_expired = [(1, ''/api/users'')]" by code_simp
  have "history (- {Refreshed}) (refresh_error (br_calls fx_expired ! 0) fx_expired)
      (send ''/api/x'' (refresh_error (br_calls fx_expired ! 0) fx_expired))"
    by (rule history_step [OF history_refl _ browser_step.issue]) simp
  with session_ends [of fx_expired "\<lparr>fl_id = 0, fl_url = ''/api/tickets'', fl_token = None,
      fl_stage = Own_retry\<rparr>" 404 "br_calls fx_expired ! 0" True "''A2''" "''R2''"] q
  show ?thesis by auto
qed

end
