(* ===== verification/SessionServer.thy ===== *)
theory SessionServer
  imports Session
begin

text \<open>
  The browser and the server together: the tabs of one browser (\<open>Session\<close>) refresh and sign in
  against the token service (\<open>Tokens\<close>, \<open>AuthService\<close>). Every tab runs its own copy of the
  module variables of \<open>interceptors/auth.interceptor.ts\<close>, while \<open>localStorage\<close>, which
  \<open>core/auth/token-storage.service.ts\<close> reads at every use, belongs to all of them. A call and
  its answer take time: the server answers a call at one instant, and the answer reaches its tab
  at a later one or never.
\<close>

datatype reply =
    Refresh_reply refresh_call "exn + auth_tokens"
  | Login_reply flight auth_response

record site =
  si_world :: world
  si_tabs :: "browser list"
  si_replies :: "(nat \<times> reply) list"

section \<open>Steps\<close>

text \<open>The storage of one tab is the storage of all.\<close>

definition share :: "browser \<Rightarrow> browser \<Rightarrow> browser" where
  "share b t = t\<lparr>br_access := br_access b, br_refresh := br_refresh b\<rparr>"

definition put_tab :: "nat \<Rightarrow> browser \<Rightarrow> site \<Rightarrow> site" where
  "put_tab k b s = s\<lparr>si_tabs := map (share b) ((si_tabs s)[k := b])\<rparr>"

fun for_call :: "nat \<Rightarrow> refresh_call \<Rightarrow> nat \<times> reply \<Rightarrow> bool" where
  "for_call k c (j, Refresh_reply d r) = (j = k \<and> d = c)"
| "for_call k c (j, Login_reply f resp) = False"

fun for_flight :: "nat \<Rightarrow> flight \<Rightarrow> nat \<times> reply \<Rightarrow> bool" where
  "for_flight k f (j, Refresh_reply d r) = False"
| "for_flight k f (j, Login_reply g resp) = (j = k \<and> g = f)"

definition arrived :: "(nat \<times> reply \<Rightarrow> bool) \<Rightarrow> site \<Rightarrow> site" where
  "arrived P s = s\<lparr>si_replies := filter (\<lambda>m. \<not> P m) (si_replies s)\<rparr>"

text \<open>
  The server answers a refresh call (\<open>handle401\<close> starts one only when there is a token to send),
  and the answer arrives; a call that is lost, throttled or refused arrives as an error.
\<close>

definition serve ::
  "crypto \<Rightarrow> app_config \<Rightarrow> request_context \<Rightarrow> nat \<Rightarrow> refresh_call \<Rightarrow> string \<Rightarrow> site \<Rightarrow> site"
where
  "serve cr cfg ctx k c raw s =
     (let (r, w) = refresh cr cfg raw ctx (si_world s)
      in s\<lparr>si_world := w, si_replies := si_replies s @ [(k, Refresh_reply c r)]\<rparr>)"

definition deliver :: "nat \<Rightarrow> refresh_call \<Rightarrow> exn + auth_tokens \<Rightarrow> site \<Rightarrow> site" where
  "deliver k c r s =
     put_tab k
       (case r of
          Inr toks \<Rightarrow> refresh_ok c (accessToken toks) (refreshToken toks) (si_tabs s ! k)
        | Inl _ \<Rightarrow> refresh_error c (si_tabs s ! k))
       (arrived (for_call k c) s)"

text \<open>A login or a registration that succeeds at the server, and its answer.\<close>

definition signs_in ::
  "crypto \<Rightarrow> passwords \<Rightarrow> app_config \<Rightarrow> auth_response \<Rightarrow> world \<Rightarrow> world \<Rightarrow> bool" where
  "signs_in cr pw cfg resp w w' \<longleftrightarrow>
     (\<exists>dto ctx. login cr pw cfg dto ctx w = (Inr resp, w'))
   \<or> (\<exists>dto ctx. register cr pw cfg dto ctx w = (Inr resp, w'))"

definition session_opened :: "nat \<Rightarrow> flight \<Rightarrow> auth_response \<Rightarrow> site \<Rightarrow> site" where
  "session_opened k f resp s =
     put_tab k
       (applySession (accessToken (ar_tokens resp)) (refreshToken (ar_tokens resp)) (ar_user resp)
          (response_ok f (si_tabs s ! k)))
       (arrived (for_flight k f) s)"

section \<open>Refresh tokens on their way\<close>

definition unserved :: "nat \<Rightarrow> site \<Rightarrow> refresh_call list" where
  "unserved k s =
     filter (\<lambda>c. \<not> list_ex (for_call k c) (si_replies s)) (br_calls (si_tabs s ! k))"

fun granted :: "nat \<times> reply \<Rightarrow> string option" where
  "granted (_, Refresh_reply _ (Inr toks)) = Some (refreshToken toks)"
| "granted (_, Refresh_reply _ (Inl _)) = None"
| "granted (_, Login_reply _ resp) = Some (refreshToken (ar_tokens resp))"

text \<open>The tokens that calls carry to the server, and those that answers carry back.\<close>

definition on_the_way :: "site \<Rightarrow> string list" where
  "on_the_way s =
     concat (map (\<lambda>k. List.map_filter rf_sent (unserved k s)) [0..<length (si_tabs s)])
       @ List.map_filter granted (si_replies s)"

definition live_hash :: "string \<Rightarrow> world \<Rightarrow> bool" where
  "live_hash h w \<longleftrightarrow>
     (\<exists>r\<in>set (refresh_tokens (w_db w)). rt_tokenHash r = h \<and> rt_revokedAt r = None)"

text \<open>
  What the rest of the world does at the server revokes none of the tokens this browser has
  stored or under way. Among these steps are other people's sessions, the passing of time, and
  the revocations that this browser's own logouts ask for, as far as they concern earlier
  sessions.
\<close>

definition spares :: "crypto \<Rightarrow> site \<Rightarrow> world \<Rightarrow> bool" where
  "spares cr s w' \<longleftrightarrow> (\<forall>x. x \<in> set (on_the_way s) \<or> Some x \<in> br_refresh ` set (si_tabs s) \<longrightarrow>
     live_hash (sha256 cr x) (si_world s) \<longrightarrow> live_hash (sha256 cr x) w')"

inductive site_step ::
  "crypto \<Rightarrow> passwords \<Rightarrow> app_config \<Rightarrow> site \<Rightarrow> site \<Rightarrow> bool" for cr pw cfg where
  act: "k < length (si_tabs s) \<Longrightarrow> browser_step e (si_tabs s ! k) b \<Longrightarrow>
    e \<notin> {Refreshed, Refused, Signed_in} \<Longrightarrow> site_step cr pw cfg s (put_tab k b s)"
| answer: "k < length (si_tabs s) \<Longrightarrow> c \<in> set (unserved k s) \<Longrightarrow> rf_sent c = Some raw \<Longrightarrow>
    site_step cr pw cfg s (serve cr cfg ctx k c raw s)"
| refreshed: "k < length (si_tabs s) \<Longrightarrow> c \<in> set (br_calls (si_tabs s ! k)) \<Longrightarrow>
    (k, Refresh_reply c (Inr toks)) \<in> set (si_replies s) \<Longrightarrow>
    site_step cr pw cfg s (deliver k c (Inr toks) s)"
| refused: "k < length (si_tabs s) \<Longrightarrow> c \<in> set (br_calls (si_tabs s ! k)) \<Longrightarrow>
    site_step cr pw cfg s (deliver k c (Inl e) s)"
| sign_in: "k < length (si_tabs s) \<Longrightarrow> f \<in> set (br_flights (si_tabs s ! k)) \<Longrightarrow>
    \<not> list_ex (for_flight k f) (si_replies s) \<Longrightarrow> signs_in cr pw cfg resp (si_world s) w \<Longrightarrow>
    site_step cr pw cfg s
      (s\<lparr>si_world := w, si_replies := si_replies s @ [(k, Login_reply f resp)]\<rparr>)"
| opened: "k < length (si_tabs s) \<Longrightarrow> f \<in> set (br_flights (si_tabs s ! k)) \<Longrightarrow>
    (k, Login_reply f resp) \<in> set (si_replies s) \<Longrightarrow>
    site_step cr pw cfg s (session_opened k f resp s)"
| elsewhere: "token_step cr (cf_jwt cfg) (si_world s) w \<Longrightarrow> spares cr s w \<Longrightarrow>
    site_step cr pw cfg s (s\<lparr>si_world := w\<rparr>)"

section \<open>Hashes at the server\<close>

definition hashes :: "world \<Rightarrow> string list" where
  "hashes w = map rt_tokenHash (refresh_tokens (w_db w))"

definition reuse_detected :: exn where
  "reuse_detected = UnauthorizedException ''Refresh token reuse detected''"

lemma hashes_revoked [simp]:
  "map rt_tokenHash (update_many P (revoke_row t) rs) = map rt_tokenHash rs"
  by (simp add: map_update_many_same)

lemma hashes_same: "refresh_tokens (w_db w') = refresh_tokens (w_db w) \<Longrightarrow> hashes w' = hashes w"
  by (simp add: hashes_def)

lemma hashes_rotate_ok:
  assumes "rotate cr cfg raw ctx w = (Inr toks, w')"
  shows "hashes w' = hashes w @ [sha256 cr (refreshToken toks)]"
    and "sha256 cr (refreshToken toks) \<notin> set (hashes w)"
proof -
  obtain stored u where chk: "rotate_check cr cfg raw w = (Inr (stored, u), w)"
    and run: "rotate_commit cr cfg ctx (stored, u) w = (Inr toks, w')"
  proof -
    obtain c v where c: "rotate_check cr cfg raw w = (Inr c, v)"
      and run: "rotate_commit cr cfg ctx c v = (Inr toks, w')"
      using assms unfolding rotate_def by (rule andThen_okE)
    obtain stored u where "c = (stored, u)" by (cases c)
    with c run rotate_check_ok [of cr cfg raw w stored u v] that show thesis by simp
  qed
  have iss: "issueTokens cr cfg u ctx (Some (rt_familyId stored))
      (w\<lparr>w_db := consumed (rt_id stored) (w_now w) (w_db w)\<rparr>) = (Inr toks, w')"
    using run rotate_check_ok [OF chk] by (simp add: rotate_commit_run)
  have same: "map rt_tokenHash (refresh_tokens (consumed i t d)) = map rt_tokenHash (refresh_tokens d)"
    for i t d by (simp add: consumed_def update_row_many)
  show "hashes w' = hashes w @ [sha256 cr (refreshToken toks)]"
    by (rule issueTokens_ok [OF iss]) (simp add: hashes_def token_row_def same)
  have "sha256 cr (refreshToken toks)
      \<notin> set (map rt_tokenHash (refresh_tokens (consumed (rt_id stored) (w_now w) (w_db w))))"
    by (rule issueTokens_ok [OF iss]) auto
  then show "sha256 cr (refreshToken toks) \<notin> set (hashes w)" unfolding same hashes_def .
qed

lemma hashes_rotate_err:
  assumes "rotate cr cfg raw ctx w = (Inl e, w')"
  shows "hashes w' = hashes w"
  using rotate_errD [OF assms]
  by (auto simp: hashes_def family_revoked_def consumed_def update_row_many)

lemma hashes_step:
  assumes "token_step cr cfg w w'" and "distinct (hashes w)"
  shows "distinct (hashes w')"
  using assms(1)
proof cases
  case (step_issue u ctx r)
  show ?thesis
  proof (cases r)
    case (Inl e)
    with issueTokens_err [of cr cfg u ctx None w e w'] step_issue assms(2)
    show ?thesis by (simp add: hashes_def)
  next
    case (Inr toks)
    show ?thesis
      by (rule issueTokens_ok [OF step_issue [unfolded Inr]])
        (use assms(2) in \<open>auto simp: hashes_def token_row_def\<close>)
  qed
next
  case (step_rotate raw ctx r)
  show ?thesis
    by (cases r) (use step_rotate assms(2) hashes_rotate_err hashes_rotate_ok in \<open>auto\<close>)
next
  case (step_revoke raw r)
  with revoke_run [of cr cfg raw w] assms(2) show ?thesis
    by (auto simp: hashes_def split: option.splits)
next
  case step_other
  with assms(2) show ?thesis by (simp add: other_tables_def hashes_def)
qed

lemma live_in_hashes: "live_hash h w \<Longrightarrow> h \<in> set (hashes w)"
  by (auto simp: live_hash_def hashes_def)

text \<open>A rotation kills the token it exchanges and no other.\<close>

lemma consumed_spares:
  assumes "stored \<in> set (refresh_tokens d)" and "distinct (map rt_id (refresh_tokens d))"
    and "r \<in> set (refresh_tokens d)" and "rt_tokenHash r \<noteq> rt_tokenHash stored"
  shows "r \<in> set (refresh_tokens (consumed (rt_id stored) t d))"
proof -
  have "rt_id r \<noteq> rt_id stored"
    using assms by (metis distinct_map inj_on_eq_iff)
  then show ?thesis using assms(3) by (force simp: consumed_def update_row_def)
qed

lemma live_rotate_ok:
  assumes "rotate cr cfg raw ctx w = (Inr toks, w')" and "token_inv w"
  shows "live_hash (sha256 cr (refreshToken toks)) w'"
    and "live_hash h w \<Longrightarrow> h \<noteq> sha256 cr raw \<Longrightarrow> live_hash h w'"
proof -
  have d: "distinct (map rt_id (refresh_tokens (w_db w)))" using assms(2) by (simp add: token_inv_def)
  show "live_hash (sha256 cr (refreshToken toks)) w'"
    by (rule rotate_okD [OF assms(1)]) (simp add: live_hash_def token_row_def)
  show "live_hash h w'" if h: "live_hash h w" "h \<noteq> sha256 cr raw"
  proof (rule rotate_okD [OF assms(1)])
    fix stored usr
    assume st: "stored \<in> set (refresh_tokens (w_db w))" "rt_tokenHash stored = sha256 cr raw"
      and w': "w' = w\<lparr>w_next := Suc (w_next w), w_db := add_token
       (token_row cr cfg (to_subject usr) ctx (rt_familyId stored) (w_uuid w (w_next w)) (w_now w)
          (refreshToken toks)) (consumed (rt_id stored) (w_now w) (w_db w))\<rparr>"
    from h obtain r where r: "r \<in> set (refresh_tokens (w_db w))" "rt_tokenHash r = h"
      "rt_revokedAt r = None" by (auto simp: live_hash_def)
    from consumed_spares [OF st(1) d r(1)] r h(2) st(2) show ?thesis
      unfolding live_hash_def w' by auto
  qed
qed

lemma getOrThrow_fails: "getOrThrow k x w = (Inl e, w') \<Longrightarrow> e \<noteq> UnauthorizedException m"
  by (cases x) (auto simp: mrun exn_defs)

lemma issueTokens_not_reuse:
  "issueTokens cr cfg u ctx fam w = (Inl e, w') \<Longrightarrow> e \<noteq> reuse_detected"
  unfolding reuse_detected_def
  by (auto simp: issueTokens_def runs Let_def default_family_def refresh_token_insert_def
      dest: getOrThrow_fails split: option.splits if_splits)
    (simp_all add: exn_defs prisma_errors)

lemma rotate_reuse_only:
  assumes "rotate cr cfg raw ctx w = (Inl reuse_detected, w')"
  shows "\<exists>stored\<in>set (refresh_tokens (w_db w)). rt_tokenHash stored = sha256 cr raw
    \<and> rt_revokedAt stored \<noteq> None"
  using assms unfolding rotate_def
proof (cases rule: andThen_errE)
  case first
  then show ?thesis
    by (auto simp: rotate_check_def runs verify_refresh_def find_token_def revoke_family_run
        reuse_detected_def exn_defs prisma_errors split: option.splits if_splits dest!: find_by_Some)
next
  case (rest c v)
  obtain stored u where cu: "c = (stored, u)" by (cases c)
  note chk = rotate_check_ok [OF rest(1) [unfolded cu]]
  have "issueTokens cr cfg u ctx (Some (rt_familyId stored))
      (w\<lparr>w_db := consumed (rt_id stored) (w_now w) (w_db w)\<rparr>) = (Inl reuse_detected, w')"
    using rest(2) chk by (simp add: cu rotate_commit_run)
  then show ?thesis using issueTokens_not_reuse by blast
qed

lemma hash_row_unique:
  assumes "distinct (hashes w)" and "r \<in> set (refresh_tokens (w_db w))"
    and "q \<in> set (refresh_tokens (w_db w))" and "rt_tokenHash r = rt_tokenHash q"
  shows "r = q"
  using assms by (auto simp: hashes_def distinct_map inj_on_def)

text \<open>A live token is never mistaken for a reused one, and costs no other token its life.\<close>

lemma live_rotate_err:
  assumes "rotate cr cfg raw ctx w = (Inl e, w')" and "token_inv w" and "distinct (hashes w)"
    and "live_hash (sha256 cr raw) w"
  shows "e \<noteq> reuse_detected" and "live_hash h w \<Longrightarrow> h \<noteq> sha256 cr raw \<Longrightarrow> live_hash h w'"
proof -
  from assms(4) obtain q where q: "q \<in> set (refresh_tokens (w_db w))"
      "rt_tokenHash q = sha256 cr raw" "rt_revokedAt q = None" by (auto simp: live_hash_def)
  have one: "rt_revokedAt r = None" if "r \<in> set (refresh_tokens (w_db w))"
      "rt_tokenHash r = sha256 cr raw" for r
    using hash_row_unique [OF assms(3) that(1) q(1)] that q by simp
  show "e \<noteq> reuse_detected" using rotate_reuse_only [of cr cfg raw ctx w w'] assms(1) one by auto
  assume h: "live_hash h w" "h \<noteq> sha256 cr raw"
  have d: "distinct (map rt_id (refresh_tokens (w_db w)))" using assms(2) by (simp add: token_inv_def)
  from rotate_errD [OF assms(1)] one consider "w_db w' = w_db w"
    | stored where "stored \<in> set (refresh_tokens (w_db w))" "rt_tokenHash stored = sha256 cr raw"
      "w_db w' = consumed (rt_id stored) (w_now w) (w_db w)" by auto
  then show "live_hash h w'"
  proof cases
    case 1
    with h show ?thesis by (simp add: live_hash_def)
  next
    case (2 stored)
    from h obtain r where r: "r \<in> set (refresh_tokens (w_db w))" "rt_tokenHash r = h"
      "rt_revokedAt r = None" by (auto simp: live_hash_def)
    from consumed_spares [OF 2(1) d r(1)] r h(2) 2 show ?thesis
      unfolding live_hash_def by auto
  qed
qed

text \<open>A login or a registration issues one new token and leaves the others alone.\<close>

lemma signs_in_effect:
  assumes "signs_in cr pw cfg resp w w'"
  obtains v u ctx where "other_tables w v"
    "issueTokens cr (cf_jwt cfg) u (Some ctx) None v = (Inr (ar_tokens resp), w')"
proof -
  have iss: "issueTokens cr (cf_jwt cfg) (to_subject u) (Some ctx) None v = (Inr (ar_tokens resp), w')"
    if "buildAuthResponse cr cfg u ctx v = (Inr resp, w')" for u ctx v
    using that by (auto simp: buildAuthResponse_def runs)
  from assms consider dto ctx where "login cr pw cfg dto ctx w = (Inr resp, w')"
    | dto ctx where "register cr pw cfg dto ctx w = (Inr resp, w')" by (auto simp: signs_in_def)
  then show ?thesis
  proof cases
    case (1 dto ctx)
    then obtain u f x v where upd: "user_update (u_id u) f w = (Inr x, v)"
      and b: "buildAuthResponse cr cfg u ctx v = (Inr resp, w')"
      by (auto simp: login_def runs split: option.splits if_splits)
    have "other_tables w v" using upd by (auto simp: user_update_ok other_tables_def)
    then show ?thesis by (rule that [OF _ iss [OF b]])
  next
    case (2 dto ctx)
    then obtain e h fn ln r g u v where c: "prisma_user_create e h fn ln r g w = (Inr u, v)"
      and b: "buildAuthResponse cr cfg u ctx v = (Inr resp, w')"
      by (auto simp: register_def runs split: if_splits option.splits)
    have "other_tables w v"
      using c by (auto simp: prisma_user_create_def runs Let_def user_insert_ok other_tables_def)
    then show ?thesis by (rule that [OF _ iss [OF b]])
  qed
qed

section \<open>One tab\<close>

text \<open>What a tab does on its own to its calls and to the stored refresh token.\<close>

lemma act_effect:
  assumes "browser_step e b b'" and "e \<notin> {Refreshed, Refused, Signed_in}"
  shows "(br_calls b' = br_calls b \<and> (br_refresh b' = None
        \<or> br_refresh b' = br_refresh b \<and> br_refreshing b' = br_refreshing b))
    \<or> (\<exists>i url x. \<not> br_refreshing b \<and> br_refreshing b' \<and> br_refresh b = Some x
        \<and> br_calls b' = br_calls b @ [\<lparr>rf_id = i, rf_url = url, rf_sent = Some x\<rparr>])"
  using assms(1)
proof (cases rule: browser_step.cases)
  case (failed f status)
  have r: "present r \<Longrightarrow> \<exists>x. r = Some x" for r by (cases r) auto
  show ?thesis
    using failed r [of "br_refresh b"]
    by (cases "fl_stage f")
      (auto simp: response_error_def Let_def handle401_def refreshTokens_def landed_def finish_def
        split: option.splits)
next
  case (own_failed f status)
  then show ?thesis by (simp add: response_error_def Let_def session_cleared finish_def)
next
  case (logout nav)
  then show ?thesis by (simp add: session_cleared)
qed (use assms(2) in \<open>simp_all add: restoreSession_def send_def response_ok_def finish_def
    landed_def session_restored_def\<close>)

definition way :: "refresh_call list \<Rightarrow> (nat \<times> reply) list \<Rightarrow> string list" where
  "way cs ms = List.map_filter rf_sent (filter (\<lambda>c. \<not> list_ex (for_call 0 c) ms) cs)
     @ List.map_filter granted ms"

lemma on_the_way_single: "si_tabs s = [b] \<Longrightarrow> on_the_way s = way (br_calls b) (si_replies s)"
  by (simp add: on_the_way_def unserved_def way_def)

definition stock :: "crypto \<Rightarrow> world \<Rightarrow> string list \<Rightarrow> bool" where
  "stock cr w xs \<longleftrightarrow> distinct (map (sha256 cr) xs) \<and> (\<forall>x\<in>set xs. live_hash (sha256 cr x) w)"

definition spare :: "crypto \<Rightarrow> world \<Rightarrow> string list \<Rightarrow> string \<Rightarrow> bool" where
  "spare cr w xs x \<longleftrightarrow> live_hash (sha256 cr x) w \<and> sha256 cr x \<notin> sha256 cr ` set xs"

lemma stock_Cons: "stock cr w (x # xs) \<longleftrightarrow> spare cr w xs x \<and> stock cr w xs"
  by (auto simp: stock_def spare_def)

lemma distinct_sub_mset:
  assumes "mset ys \<subseteq># mset xs" and "distinct xs"
  shows "distinct ys"
proof -
  obtain Z where "mset xs = mset ys + Z" using assms(1) mset_subset_eq_exists_conv by blast
  moreover obtain zs where "mset zs = Z" using ex_mset [of Z] by blast
  ultimately have "mset xs = mset (ys @ zs)" by simp
  then have "distinct (ys @ zs)" using mset_eq_imp_distinct_iff assms(2) by blast
  then show ?thesis by simp
qed

lemma stock_mset:
  assumes "stock cr w xs" and "mset ys \<subseteq># mset xs"
  shows "stock cr w ys"
proof -
  have "mset (map (sha256 cr) ys) \<subseteq># mset (map (sha256 cr) xs)"
    using assms(2) by (simp add: image_mset_subseteq_mono)
  moreover have "set ys \<subseteq> set xs" using set_mset_mono [OF assms(2)] by simp
  ultimately show ?thesis
    using assms(1) distinct_sub_mset [of "map (sha256 cr) ys" "map (sha256 cr) xs"]
    by (auto simp: stock_def simp del: mset_map)
qed

lemma stock_perm: "mset ys = mset xs \<Longrightarrow> stock cr w ys = stock cr w xs"
  using stock_mset [of cr w xs ys] stock_mset [of cr w ys xs] by auto

lemma spare_subset: "spare cr w xs x \<Longrightarrow> set ys \<subseteq> set xs \<Longrightarrow> spare cr w ys x"
  by (auto simp: spare_def)

lemma map_filter_append:
  "List.map_filter f (xs @ ys) = List.map_filter f xs @ List.map_filter f ys"
  by (simp add: List.map_filter_def)

lemma map_filter_sub: "mset (List.map_filter f (filter P xs)) \<subseteq># mset (List.map_filter f xs)"
  by (induction xs) (auto simp: map_filter_simps split: option.split intro: subset_mset.order_trans)

lemma stock_new_call:
  assumes "stock cr w (way cs ms)" and "spare cr w (way cs ms) x" and "rf_sent c = Some x"
  shows "stock cr w (way (cs @ [c]) ms)"
proof -
  have "mset (way (cs @ [c]) ms) \<subseteq># mset (x # way cs ms)"
    using assms(3) by (simp add: way_def map_filter_append)
  moreover have "stock cr w (x # way cs ms)" using assms by (simp add: stock_Cons)
  ultimately show ?thesis by (rule stock_mset [rotated])
qed

text \<open>A reply that arrives leaves the way; a token it carries is spare from then on.\<close>

lemma for_call_others: "d \<noteq> c \<Longrightarrow> for_call 0 d m \<Longrightarrow> \<not> for_call 0 c m"
  by (cases m; cases "snd m") auto

lemma for_flight_call: "for_call 0 d m \<Longrightarrow> \<not> for_flight k f m"
  by (cases m; cases "snd m") auto

lemma way_arrived_call:
  "mset (way (filter (\<lambda>d. rf_id d \<noteq> rf_id c) cs) (filter (\<lambda>m. \<not> for_call 0 c m) ms))
     \<subseteq># mset (way cs ms)"
proof -
  have "list_ex (for_call 0 d) (filter (\<lambda>m. \<not> for_call 0 c m) ms) = list_ex (for_call 0 d) ms"
    if "rf_id d \<noteq> rf_id c" for d
    using that for_call_others [of d c] by (auto simp: list_ex_iff)
  then have "filter (\<lambda>d. \<not> list_ex (for_call 0 d) (filter (\<lambda>m. \<not> for_call 0 c m) ms))
        (filter (\<lambda>d. rf_id d \<noteq> rf_id c) cs)
      = filter (\<lambda>d. rf_id d \<noteq> rf_id c) (filter (\<lambda>d. \<not> list_ex (for_call 0 d) ms) cs)"
    by (induction cs) auto
  then show ?thesis unfolding way_def mset_append
    by (metis map_filter_sub subset_mset.add_mono)
qed

lemma way_arrived_flight:
  "mset (way cs (filter (\<lambda>m. \<not> for_flight k f m) ms)) \<subseteq># mset (way cs ms)"
proof -
  have "list_ex (for_call 0 d) (filter (\<lambda>m. \<not> for_flight k f m) ms) = list_ex (for_call 0 d) ms" for d
    using for_flight_call [of d _ k f] unfolding list_ex_iff set_filter by blast
  then show ?thesis by (simp add: way_def map_filter_sub)
qed

lemma map_filter_distinct:
  assumes "distinct (map g (List.map_filter f xs))" and "x \<in> set xs" and "y \<in> set xs"
    and "f x = Some a" and "f y = Some b" and "g a = g b"
  shows "x = y"
  using assms
proof (induction xs)
  case (Cons z zs)
  have in_zs: "v \<in> set zs \<Longrightarrow> f v = Some c \<Longrightarrow> g c \<in> g ` set (List.map_filter f zs)" for v c
    by (auto simp: map_filter_def image_iff)
  show ?case
    using Cons in_zs [of x a] in_zs [of y b] by (auto simp: map_filter_simps split: option.splits)
qed simp

lemma spare_arrived:
  assumes "stock cr w (A @ List.map_filter granted ms)" and "set B \<subseteq> set A"
    and "m \<in> set ms" and "P m" and "granted m = Some x"
  shows "spare cr w (B @ List.map_filter granted (filter (\<lambda>m. \<not> P m) ms)) x"
proof -
  have x: "x \<in> set (List.map_filter granted ms)"
    using assms(3,5) by (force simp: map_filter_def)
  have "sha256 cr x \<notin> sha256 cr ` set B" using assms(1,2) x by (auto simp: stock_def)
  moreover have "sha256 cr x \<notin> sha256 cr ` set (List.map_filter granted (filter (\<lambda>m. \<not> P m) ms))"
  proof
    assume "sha256 cr x \<in> sha256 cr ` set (List.map_filter granted (filter (\<lambda>m. \<not> P m) ms))"
    then obtain n y where n: "n \<in> set ms" "\<not> P n" "granted n = Some y" "sha256 cr x = sha256 cr y"
      by (auto simp: map_filter_def)
    have "distinct (map (sha256 cr) (List.map_filter granted ms))" using assms(1) by (simp add: stock_def)
    from map_filter_distinct [OF this assms(3) n(1) assms(5) n(3) n(4)] assms(4) n(2)
    show False by simp
  qed
  ultimately show ?thesis using assms(1) x by (auto simp: spare_def stock_def)
qed

text \<open>The server's answer to a call takes its token off the way and puts the new one on it.\<close>

lemma way_served:
  assumes "c \<in> set cs" and "\<not> list_ex (for_call 0 c) ms" and "rf_sent c = Some raw"
  shows "mset (raw # way cs (ms @ [(0, Refresh_reply c r)]))
    \<subseteq># mset ((case r of Inr toks \<Rightarrow> [refreshToken toks] | Inl _ \<Rightarrow> []) @ way cs ms)"
proof -
  let ?U = "filter (\<lambda>d. \<not> list_ex (for_call 0 d) ms) cs"
  have eq: "filter (\<lambda>d. \<not> list_ex (for_call 0 d) (ms @ [(0, Refresh_reply c r)])) cs
      = filter (\<lambda>d. d \<noteq> c) ?U"
    by (induction cs) auto
  have sub: "add_mset raw (mset (List.map_filter rf_sent (filter (\<lambda>d. d \<noteq> c) ds)))
      \<subseteq># mset (List.map_filter rf_sent ds)" if "c \<in> set ds" for ds
    using that
  proof (induction ds)
    case (Cons d ds)
    show ?case
    proof (cases "d = c")
      case True
      with assms(3) map_filter_sub [of rf_sent "\<lambda>d. d \<noteq> c" ds] show ?thesis
        by (simp add: map_filter_simps)
    next
      case False
      with Cons show ?thesis
        by (auto simp: map_filter_simps add_mset_commute split: option.split)
    qed
  qed simp
  have "add_mset raw (mset (List.map_filter rf_sent
        (filter (\<lambda>d. \<not> list_ex (for_call 0 d) (ms @ [(0, Refresh_reply c r)])) cs)))
      \<subseteq># mset (List.map_filter rf_sent ?U)"
    unfolding eq by (rule sub) (use assms(1,2) in simp)
  from subset_mset.add_mono [OF this subset_mset.order_refl
      [of "mset (List.map_filter granted (ms @ [(0, Refresh_reply c r)]))"]]
  show ?thesis unfolding way_def map_filter_append
    by (cases r) (simp_all add: add_mset_commute)
qed

fun reports_reuse :: "nat \<times> reply \<Rightarrow> bool" where
  "reports_reuse (_, Refresh_reply _ r) = (r = Inl reuse_detected)"
| "reports_reuse (_, Login_reply _ _) = False"

definition server_ok :: "world \<Rightarrow> bool" where
  "server_ok w \<longleftrightarrow> token_inv w \<and> distinct (hashes w)"

definition stored_ok :: "crypto \<Rightarrow> world \<Rightarrow> string list \<Rightarrow> browser \<Rightarrow> bool" where
  "stored_ok cr w xs b \<longleftrightarrow>
     br_refreshing b \<or> (\<forall>x. br_refresh b = Some x \<longrightarrow> spare cr w xs x)"

definition sound_tab :: "crypto \<Rightarrow> site \<Rightarrow> browser \<Rightarrow> bool" where
  "sound_tab cr s b \<longleftrightarrow> si_tabs s = [b] \<and> server_ok (si_world s)
     \<and> stock cr (si_world s) (way (br_calls b) (si_replies s))
     \<and> stored_ok cr (si_world s) (way (br_calls b) (si_replies s)) b
     \<and> (\<forall>m\<in>set (si_replies s). \<not> reports_reuse m)"

lemma share_self [simp]: "share b b = b"
  by (simp add: share_def)

lemma put_tab_single: "si_tabs s = [b] \<Longrightarrow> si_tabs (put_tab 0 b' s) = [b']"
  by (simp add: put_tab_def)

lemma put_tab_rest [simp]:
  "si_world (put_tab k b s) = si_world s" "si_replies (put_tab k b s) = si_replies s"
  by (simp_all add: put_tab_def)

lemma arrived_simps [simp]:
  "si_world (arrived P s) = si_world s" "si_tabs (arrived P s) = si_tabs s"
  "si_replies (arrived P s) = filter (\<lambda>m. \<not> P m) (si_replies s)"
  by (simp_all add: arrived_def)

lemma spare_live:
  assumes "spare cr w xs x" and "\<And>h. live_hash h w \<Longrightarrow> live_hash h w'"
  shows "spare cr w' xs x"
  using assms by (simp add: spare_def)

lemma sound_act:
  assumes "browser_step e b b'" and "e \<notin> {Refreshed, Refused, Signed_in}" and "sound_tab cr s b"
  shows "sound_tab cr (put_tab 0 b' s) b'"
proof -
  note snd = assms(3) [unfolded sound_tab_def]
  have tab: "si_tabs (put_tab 0 b' s) = [b']" using snd by (simp add: put_tab_single)
  from act_effect [OF assms(1,2)] show ?thesis
  proof (elim disjE conjE exE)
    fix i url x
    assume a: "\<not> br_refreshing b" "br_refreshing b'" "br_refresh b = Some x"
      "br_calls b' = br_calls b @ [\<lparr>rf_id = i, rf_url = url, rf_sent = Some x\<rparr>]"
    then have "spare cr (si_world s) (way (br_calls b) (si_replies s)) x"
      using snd by (simp add: stored_ok_def)
    with snd have "stock cr (si_world s) (way (br_calls b') (si_replies s))"
      unfolding a(4) by (intro stock_new_call) auto
    with snd a tab show ?thesis by (simp add: sound_tab_def stored_ok_def)
  qed (use snd tab in \<open>auto simp: sound_tab_def stored_ok_def\<close>)
qed

lemma way_arrival:
  assumes "sound_tab cr s b" and "mset (way cs (filter (\<lambda>m. \<not> P m) (si_replies s)))
      \<subseteq># mset (way (br_calls b) (si_replies s))" and "br_calls b' = cs"
    and "stored_ok cr (si_world s) (way cs (filter (\<lambda>m. \<not> P m) (si_replies s))) b'"
  shows "sound_tab cr (put_tab 0 b' (arrived P s)) b'"
proof -
  note snd = assms(1) [unfolded sound_tab_def]
  have "si_tabs (put_tab 0 b' (arrived P s)) = [b']" using snd by (simp add: put_tab_single)
  moreover have "stock cr (si_world s) (way cs (filter (\<lambda>m. \<not> P m) (si_replies s)))"
    using snd stock_mset assms(2) by blast
  ultimately show ?thesis using snd assms(3,4) by (simp add: sound_tab_def)
qed

lemma refresh_ok_state:
  "br_calls (refresh_ok c a r b) = filter (\<lambda>d. rf_id d \<noteq> rf_id c) (br_calls b)"
  "br_refresh (refresh_ok c a r b) = Some r"
  by (simp_all add: refresh_ok_def Let_def setTokens_def call_over_def)

lemma refresh_error_state:
  "br_calls (refresh_error c b) = filter (\<lambda>d. rf_id d \<noteq> rf_id c) (br_calls b)"
  "br_refresh (refresh_error c b) = None" "br_access (refresh_error c b) = None"
  "br_user (refresh_error c b) = None" "br_location (refresh_error c b) = ''/auth/login''"
  by (simp_all add: refresh_error_def finish_def logout_browser_def Let_def clear_def call_over_def
      send_def)

lemma sound_deliver:
  assumes "sound_tab cr s b"
    and "\<And>toks. r = Inr toks \<Longrightarrow> (0, Refresh_reply c (Inr toks)) \<in> set (si_replies s)"
  shows "\<exists>b'. sound_tab cr (deliver 0 c r s) b'"
proof -
  note snd = assms(1) [unfolded sound_tab_def]
  let ?b' = "case r of Inr toks \<Rightarrow> refresh_ok c (accessToken toks) (refreshToken toks) b
    | Inl _ \<Rightarrow> refresh_error c b"
  let ?cs = "filter (\<lambda>d. rf_id d \<noteq> rf_id c) (br_calls b)"
  let ?ms = "filter (\<lambda>m. \<not> for_call 0 c m) (si_replies s)"
  have d: "deliver 0 c r s = put_tab 0 ?b' (arrived (for_call 0 c) s)"
  proof -
    have "si_tabs s ! 0 = b" using snd by simp
    then show ?thesis unfolding deliver_def by (simp only:)
  qed
  have calls: "br_calls ?b' = ?cs"
    by (simp add: refresh_ok_state refresh_error_state split: sum.split)
  have "stored_ok cr (si_world s) (way ?cs ?ms) ?b'"
  proof (cases r)
    case (Inl e)
    then show ?thesis by (simp add: stored_ok_def refresh_error_state)
  next
    case (Inr toks)
    let ?A = "List.map_filter rf_sent
      (filter (\<lambda>d. \<not> list_ex (for_call 0 d) (si_replies s)) (br_calls b))"
    let ?B = "List.map_filter rf_sent (filter (\<lambda>d. \<not> list_ex (for_call 0 d) ?ms) ?cs)"
    have "list_ex (for_call 0 d) ?ms = list_ex (for_call 0 d) (si_replies s)" if "rf_id d \<noteq> rf_id c" for d
      using that for_call_others [of d c] by (auto simp: list_ex_iff)
    then have sub: "set ?B \<subseteq> set ?A" by (auto simp: List.map_filter_def)
    have "stock cr (si_world s) (?A @ List.map_filter granted (si_replies s))"
      using snd by (simp add: way_def)
    from spare_arrived [where P = "for_call 0 c", OF this sub assms(2) [OF Inr]]
    have "spare cr (si_world s) (way ?cs ?ms) (refreshToken toks)" by (simp add: way_def)
    with Inr show ?thesis by (simp add: stored_ok_def refresh_ok_state)
  qed
  with way_arrival [OF assms(1) way_arrived_call calls] show ?thesis unfolding d by blast
qed

lemma sound_opened:
  assumes "sound_tab cr s b" and "(0, Login_reply f resp) \<in> set (si_replies s)"
  shows "\<exists>b'. sound_tab cr (session_opened 0 f resp s) b'"
proof -
  note snd = assms(1) [unfolded sound_tab_def]
  let ?x = "refreshToken (ar_tokens resp)"
  let ?b' = "applySession (accessToken (ar_tokens resp)) ?x (ar_user resp) (response_ok f b)"
  let ?ms = "filter (\<lambda>m. \<not> for_flight 0 f m) (si_replies s)"
  have d: "session_opened 0 f resp s = put_tab 0 ?b' (arrived (for_flight 0 f) s)"
    using snd by (simp add: session_opened_def)
  have calls: "br_calls ?b' = br_calls b" by (simp add: response_ok_def)
  let ?A = "List.map_filter rf_sent
    (filter (\<lambda>d. \<not> list_ex (for_call 0 d) (si_replies s)) (br_calls b))"
  let ?B = "List.map_filter rf_sent (filter (\<lambda>d. \<not> list_ex (for_call 0 d) ?ms) (br_calls b))"
  have "list_ex (for_call 0 d) ?ms = list_ex (for_call 0 d) (si_replies s)" for d
    using for_flight_call [of d _ 0 f] unfolding list_ex_iff set_filter by blast
  then have sub: "set ?B \<subseteq> set ?A" by (auto simp: List.map_filter_def)
  have "stock cr (si_world s) (?A @ List.map_filter granted (si_replies s))"
    using snd by (simp add: way_def)
  from spare_arrived [where P = "for_flight 0 f", OF this sub assms(2)]
  have "spare cr (si_world s) (way (br_calls b) ?ms) ?x" by (simp add: way_def)
  then have "stored_ok cr (si_world s) (way (br_calls b) ?ms) ?b'"
    by (simp add: stored_ok_def applySession_def setTokens_def)
  with way_arrival [OF assms(1) way_arrived_flight calls] show ?thesis unfolding d by blast
qed

text \<open>The steps of the server.\<close>

lemma stock_served:
  assumes "stock cr w xs" and "mset (raw # ys) \<subseteq># mset (new @ xs)" and "raw \<in> set xs"
    and "distinct (map (sha256 cr) new)"
    and "\<And>x. x \<in> set new \<Longrightarrow> sha256 cr x \<notin> set (hashes w) \<and> live_hash (sha256 cr x) w'"
    and "\<And>h. live_hash h w \<Longrightarrow> h \<noteq> sha256 cr raw \<Longrightarrow> live_hash h w'"
  shows "stock cr w' ys" and "spare cr w xs x \<Longrightarrow> spare cr w' ys x"
proof -
  have known: "y \<in> set xs \<Longrightarrow> sha256 cr y \<in> set (hashes w)" for y
    using assms(1) live_in_hashes by (auto simp: stock_def)
  have "sha256 cr x \<noteq> sha256 cr y" if "x \<in> set new" "y \<in> set xs" for x y
    using assms(5) [OF that(1)] known [OF that(2)] by auto
  then have "distinct (map (sha256 cr) (new @ xs))"
    using assms(1,4) by (auto simp: stock_def)
  moreover have "mset (map (sha256 cr) (raw # ys)) \<subseteq># mset (map (sha256 cr) (new @ xs))"
    using image_mset_subseteq_mono [OF assms(2), of "sha256 cr"] by simp
  ultimately have d: "distinct (map (sha256 cr) (raw # ys))" using distinct_sub_mset by blast
  have sub: "set ys \<subseteq> set new \<union> set xs" using set_mset_mono [OF assms(2)] by simp
  have "live_hash (sha256 cr y) w'" if "y \<in> set ys" for y
  proof (cases "y \<in> set new")
    case True
    then show ?thesis using assms(5) by blast
  next
    case False
    with sub that have "y \<in> set xs" by blast
    moreover have "sha256 cr y \<noteq> sha256 cr raw" using d that by (auto simp: image_iff)
    ultimately show ?thesis using assms(1,6) by (simp add: stock_def)
  qed
  with d show "stock cr w' ys" by (simp add: stock_def)
  assume x: "spare cr w xs x"
  then have "sha256 cr x \<noteq> sha256 cr raw" using assms(3) by (auto simp: spare_def)
  moreover have "sha256 cr x \<in> set (hashes w)" using x live_in_hashes by (simp add: spare_def)
  ultimately show "spare cr w' ys x" using x sub assms(5,6) by (auto simp: spare_def)
qed

lemma stock_signed:
  assumes "stock cr w xs" and "sha256 cr x \<notin> set (hashes w)" and "live_hash (sha256 cr x) w'"
    and "\<And>h. live_hash h w \<Longrightarrow> live_hash h w'"
  shows "stock cr w' (x # xs)" and "spare cr w xs y \<Longrightarrow> spare cr w' (x # xs) y"
proof -
  show "stock cr w' (x # xs)"
    using assms live_in_hashes by (auto simp: stock_Cons stock_def spare_def)
  show "spare cr w xs y \<Longrightarrow> spare cr w' (x # xs) y"
    using assms live_in_hashes by (auto simp: spare_def)
qed

lemma server_step: "token_step cr cfg w w' \<Longrightarrow> server_ok w \<Longrightarrow> server_ok w'"
  using token_step_inv hashes_step by (auto simp: server_ok_def)

lemma sound_answer:
  assumes "sound_tab cr s b" and "c \<in> set (unserved 0 s)" and "rf_sent c = Some raw"
  shows "sound_tab cr (serve cr cfg ctx 0 c raw s) b"
proof -
  note snd = assms(1) [unfolded sound_tab_def]
  obtain r w' where run: "refresh cr cfg raw ctx (si_world s) = (r, w')" by fastforce
  then have rot: "rotate cr (cf_jwt cfg) raw (Some ctx) (si_world s) = (r, w')"
    by (simp add: refresh_def)
  have ok: "server_ok w'" using snd server_step [OF step_rotate [OF rot]] by blast
  let ?way = "way (br_calls b) (si_replies s)"
  let ?new = "case r of Inr toks \<Rightarrow> [refreshToken toks] | Inl _ \<Rightarrow> []"
  have c: "c \<in> set (br_calls b)" "\<not> list_ex (for_call 0 c) (si_replies s)"
    using assms(2) snd by (auto simp: unserved_def)
  have raw: "raw \<in> set ?way" using c assms(3) by (force simp: way_def List.map_filter_def)
  note inv = snd [THEN conjunct2, THEN conjunct1, unfolded server_ok_def]
  have live: "live_hash (sha256 cr raw) (si_world s)" using snd raw by (simp add: stock_def)
  have others: "live_hash h w'" if "live_hash h (si_world s)" "h \<noteq> sha256 cr raw" for h
    using that live_rotate_ok(2) live_rotate_err(2) rot inv live by (cases r) blast+
  have fresh: "sha256 cr x \<notin> set (hashes (si_world s)) \<and> live_hash (sha256 cr x) w'"
    if "x \<in> set ?new" for x
    using that rot inv hashes_rotate_ok(2) live_rotate_ok(1) by (cases r) auto
  have "r \<noteq> Inl reuse_detected" using live_rotate_err(1) rot inv live by (cases r) blast+
  moreover have "distinct (map (sha256 cr) ?new)" by (simp split: sum.split)
  note st = stock_served [OF _ way_served [OF c assms(3), of r] raw this fresh others]
  have "stock cr w' (way (br_calls b) (si_replies s @ [(0, Refresh_reply c r)]))"
    using snd by (intro st(1)) auto
  moreover have "stored_ok cr w' (way (br_calls b) (si_replies s @ [(0, Refresh_reply c r)])) b"
    using snd st(2) by (auto simp: stored_ok_def)
  ultimately show ?thesis using snd ok by (auto simp: sound_tab_def serve_def run)
qed

lemma sound_sign_in:
  assumes "sound_tab cr s b" and "signs_in cr pw cfg resp (si_world s) w'"
  shows "sound_tab cr
    (s\<lparr>si_world := w', si_replies := si_replies s @ [(0, Login_reply f resp)]\<rparr>) b"
proof -
  note snd = assms(1) [unfolded sound_tab_def]
  obtain v u ctx where v: "other_tables (si_world s) v"
    and iss: "issueTokens cr (cf_jwt cfg) u (Some ctx) None v = (Inr (ar_tokens resp), w')"
    using assms(2) by (rule signs_in_effect)
  have ok: "server_ok w'"
    using snd server_step [OF step_other [OF v]] server_step [OF step_issue [OF iss]] by blast
  let ?x = "refreshToken (ar_tokens resp)"
  have toks: "refresh_tokens (w_db v) = refresh_tokens (w_db (si_world s))"
    using v by (simp add: other_tables_def)
  have fresh: "sha256 cr ?x \<notin> set (hashes (si_world s))"
    by (rule issueTokens_ok [OF iss]) (auto simp: hashes_def toks)
  have new: "live_hash (sha256 cr ?x) w'"
    by (rule issueTokens_ok [OF iss]) (simp add: live_hash_def token_row_def)
  have others: "live_hash h w'" if "live_hash h (si_world s)" for h
    by (rule issueTokens_ok [OF iss]) (use that in \<open>auto simp: live_hash_def toks\<close>)
  let ?way = "way (br_calls b) (si_replies s)"
  let ?way' = "way (br_calls b) (si_replies s @ [(0, Login_reply f resp)])"
  have m: "mset ?way' = mset (?x # ?way)" by (simp add: way_def map_filter_append)
  then have same: "set ?way' = set (?x # ?way)" by (metis set_mset_mset)
  note st = stock_signed [OF _ fresh new others]
  have "stock cr w' ?way'" using st(1) snd stock_perm [OF m] by blast
  moreover have "stored_ok cr w' ?way' b"
    using snd st(2) same unfolding stored_ok_def spare_def by metis
  ultimately show ?thesis using snd ok by (simp add: sound_tab_def)
qed

lemma sound_elsewhere:
  assumes "sound_tab cr s b" and "token_step cr cfg (si_world s) w" and "spares cr s w"
  shows "sound_tab cr (s\<lparr>si_world := w\<rparr>) b"
proof -
  note snd = assms(1) [unfolded sound_tab_def]
  have way: "on_the_way s = way (br_calls b) (si_replies s)" using snd by (simp add: on_the_way_single)
  have "server_ok w" using snd server_step [OF assms(2)] by blast
  moreover have "stock cr w (way (br_calls b) (si_replies s))"
    using snd assms(3) by (simp add: stock_def spares_def way)
  moreover have "stored_ok cr w (way (br_calls b) (si_replies s)) b"
    using snd assms(3) by (auto simp: stored_ok_def spare_def spares_def image_iff)
  ultimately show ?thesis using snd by (simp add: sound_tab_def)
qed

lemma sound_step:
  assumes "site_step cr pw cfg s s'" and "sound_tab cr s b"
  shows "\<exists>b'. sound_tab cr s' b'"
proof -
  have tabs: "si_tabs s = [b]" using assms(2) by (simp add: sound_tab_def)
  show ?thesis
    using assms(1)
  proof cases
    case (act k e b')
    with tabs sound_act [OF _ _ assms(2)] show ?thesis by auto
  next
    case (answer k c raw ctx)
    with tabs have "k = 0" by simp
    with answer sound_answer [OF assms(2)] show ?thesis by blast
  next
    case (refreshed k c toks)
    with tabs sound_deliver [OF assms(2), of "Inr toks" c] show ?thesis by auto
  next
    case (refused k c e)
    with tabs sound_deliver [OF assms(2), of "Inl e"] show ?thesis by auto
  next
    case (sign_in k f resp w)
    with tabs have "k = 0" by simp
    with sign_in sound_sign_in [OF assms(2)] show ?thesis by blast
  next
    case (opened k f resp)
    with tabs sound_opened [OF assms(2)] show ?thesis by auto
  next
    case (elsewhere w)
    with sound_elsewhere [OF assms(2)] show ?thesis by auto
  qed
qed


section \<open>Two tabs\<close>

lemma reuse_run:
  assumes "rotate_check cr cfg raw w = (Inr (stored, u), w)" and "token_inv w"
    and "rotate cr cfg raw ctx w = (Inr toks, w1)"
  shows "rotate cr cfg raw ctx' w1 = (Inl reuse_detected,
      w1\<lparr>w_db := family_revoked (rt_familyId stored) (w_now w) (w_db w1)\<rparr>)"
    and "\<forall>r\<in>set (refresh_tokens (w_db w1)). rt_tokenHash r = sha256 cr (refreshToken toks)
      \<longrightarrow> rt_familyId r = rt_familyId stored"
proof -
  note chk = rotate_check_ok [OF assms(1)]
  from chk obtain p sec where sec: "jwt_refreshSecret cfg = Some sec"
    and p: "verifyRefresh cr sec (w_now w) raw = Some p" "rp_jti p = Some (rt_id stored)" by blast
  have iss: "issueTokens cr cfg u ctx (Some (rt_familyId stored))
      (w\<lparr>w_db := consumed (rt_id stored) (w_now w) (w_db w)\<rparr>) = (Inr toks, w1)"
    using assms(3) chk by (simp add: rotate_def andThen_def assms(1) rotate_commit_run)
  obtain row where now: "w_now w1 = w_now w" and w1: "w_db w1 = add_token row
      (consumed (rt_id stored) (w_now w) (w_db w))" and row: "rt_familyId row = rt_familyId stored"
    by (rule issueTokens_ok [OF iss], rule that [of "token_row cr cfg u ctx (rt_familyId stored)
        (w_uuid w (w_next w)) (w_now w) (refreshToken toks)"]) (simp_all add: token_row_def uuids_used_def)
  have d: "distinct (map rt_id (refresh_tokens (w_db w)))" using assms(2) by (simp add: token_inv_def)
  have "find_by rt_id (rt_id stored) (rs @ [row]) = Some (revoke_row t stored)"
    if "stored \<in> set qs" "distinct (map rt_id qs)"
      "rs = update_row rt_id (rt_id stored) (revoke_row t) qs" for rs qs t
    using that by (induction qs arbitrary: rs) (auto simp: find_by_def update_row_def image_iff)
  then have found: "find_by rt_id (rt_id stored) (refresh_tokens (w_db w1))
      = Some (revoke_row (w_now w) stored)"
    using chk d by (simp add: w1 consumed_def)
  have v: "verify_refresh cr cfg raw w1 = (Inr (Some p), w1)"
    using sec p(1) by (simp add: verify_refresh_def mrun meval now)
  have f: "find_token (rp_jti p) w1 = (Inr (Some (revoke_row (w_now w) stored)), w1)"
    using p(2) found by (simp add: find_token_def mrun)
  show "rotate cr cfg raw ctx' w1 = (Inl reuse_detected,
      w1\<lparr>w_db := family_revoked (rt_familyId stored) (w_now w) (w_db w1)\<rparr>)"
    using chk by (simp add: rotate_def rotate_check_def andThen_def v f revoke_family_run throw_def
        reuse_detected_def now)
  have "rt_tokenHash r \<noteq> sha256 cr (refreshToken toks)"
    if "r \<in> set (refresh_tokens (consumed (rt_id stored) (w_now w) (w_db w)))" for r
    by (rule issueTokens_ok [OF iss]) (use that in auto)
  then show "\<forall>r\<in>set (refresh_tokens (w_db w1)). rt_tokenHash r = sha256 cr (refreshToken toks)
      \<longrightarrow> rt_familyId r = rt_familyId stored"
    using row by (auto simp: w1)
qed

lemma dead_hash_refused:
  assumes "\<forall>r\<in>set (refresh_tokens (w_db w)). rt_tokenHash r = sha256 cr raw \<longrightarrow> rt_revokedAt r \<noteq> None"
  shows "\<not> succeeds (rotate cr cfg raw ctx) w"
proof
  assume "succeeds (rotate cr cfg raw ctx) w"
  then obtain toks w' where "rotate cr cfg raw ctx w = (Inr toks, w')" by (rule succeedsE)
  then show False by (rule rotate_okD) (use assms in auto)
qed

lemma deliver_storage:
  assumes "k < length (si_tabs s)"
  shows "t \<in> set (si_tabs (deliver k c (Inl e) s)) \<Longrightarrow> br_access t = None \<and> br_refresh t = None"
    and "t \<in> set (si_tabs (deliver k c (Inr toks) s)) \<Longrightarrow> br_refresh t = Some (refreshToken toks)"
    and "length (si_tabs (deliver k c r s)) = length (si_tabs s)"
    and "br_user (si_tabs (deliver k c (Inl e) s) ! k) = None"
    and "br_location (si_tabs (deliver k c (Inl e) s) ! k) = ''/auth/login''"
  using assms by (auto simp: deliver_def put_tab_def share_def refresh_error_state refresh_ok_state
      nth_list_update)

lemma second_refresh_refused:
  assumes "token_inv (si_world s)"
    and "refresh cr cfg raw ctx (si_world s) = (Inr toks, w1)"
  shows "si_replies (serve cr cfg ctx' k d raw (serve cr cfg ctx j c raw s))
      = si_replies s @ [(j, Refresh_reply c (Inr toks)), (k, Refresh_reply d (Inl reuse_detected))]"
    and "si_tabs (serve cr cfg ctx' k d raw (serve cr cfg ctx j c raw s)) = si_tabs s"
    and "\<not> succeeds (refresh cr cfg (refreshToken toks) cx)
      ((si_world (serve cr cfg ctx' k d raw (serve cr cfg ctx j c raw s)))\<lparr>w_now := t\<rparr>)"
proof -
  let ?w = "si_world s"
  have rot: "rotate cr (cf_jwt cfg) raw (Some ctx) ?w = (Inr toks, w1)"
    using assms(2) by (simp add: refresh_def)
  then obtain c' v where c': "rotate_check cr (cf_jwt cfg) raw ?w = (Inr c', v)"
    unfolding rotate_def by (rule andThen_okE)
  obtain stored u where cu: "c' = (stored, u)" by (cases c')
  have chk: "rotate_check cr (cf_jwt cfg) raw ?w = (Inr (stored, u), ?w)"
    using c' rotate_check_ok [OF c' [unfolded cu]] by (simp add: cu)
  let ?w2 = "w1\<lparr>w_db := family_revoked (rt_familyId stored) (w_now ?w) (w_db w1)\<rparr>"
  have second: "refresh cr cfg raw ctx' w1 = (Inl reuse_detected, ?w2)"
    using reuse_run(1) [OF chk assms(1) rot] by (simp add: refresh_def)
  show "si_replies (serve cr cfg ctx' k d raw (serve cr cfg ctx j c raw s))
      = si_replies s @ [(j, Refresh_reply c (Inr toks)), (k, Refresh_reply d (Inl reuse_detected))]"
    "si_tabs (serve cr cfg ctx' k d raw (serve cr cfg ctx j c raw s)) = si_tabs s"
    by (simp_all add: serve_def assms(2) second)
  have "rt_revokedAt r \<noteq> None" if "r \<in> set (refresh_tokens (w_db ?w2))"
      "rt_tokenHash r = sha256 cr (refreshToken toks)" for r
  proof -
    from that(1) obtain q where q: "q \<in> set (refresh_tokens (w_db w1))"
      and r: "r = (if live_in_family (rt_familyId stored) q then revoke_row (w_now ?w) q else q)"
      by (auto simp: family_revoked_def update_many_def)
    have "rt_tokenHash q = sha256 cr (refreshToken toks)" using that(2) r by (auto split: if_splits)
    with reuse_run(2) [OF chk assms(1) rot] q have "rt_familyId q = rt_familyId stored" by blast
    then show ?thesis using r by (auto simp: live_in_family_def)
  qed
  then show "\<not> succeeds (refresh cr cfg (refreshToken toks) cx)
      ((si_world (serve cr cfg ctx' k d raw (serve cr cfg ctx j c raw s)))\<lparr>w_now := t\<rparr>)"
    unfolding refresh_def by (intro dead_hash_refused) (simp add: serve_def assms(2) second)
qed

text \<open>The access token has expired: the first try of a request of tab \<open>k\<close> is answered 401.\<close>

definition access_expired :: "nat \<Rightarrow> flight \<Rightarrow> site \<Rightarrow> site" where
  "access_expired k f s = put_tab k (response_error f 401 (si_tabs s ! k)) s"

definition call_of :: "flight \<Rightarrow> string \<Rightarrow> refresh_call" where
  "call_of f raw = \<lparr>rf_id = fl_id f, rf_url = fl_url f, rf_sent = Some raw\<rparr>"

definition about_to_refresh :: "string \<Rightarrow> flight \<Rightarrow> browser \<Rightarrow> bool" where
  "about_to_refresh raw f b \<longleftrightarrow> f \<in> set (br_flights b) \<and> fl_stage f = First
     \<and> \<not> isAuthFree (fl_url f) \<and> \<not> br_refreshing b \<and> br_refresh b = Some raw \<and> raw \<noteq> []"

lemma starts_refresh:
  assumes "about_to_refresh raw f b"
  shows "br_calls (response_error f 401 b) = br_calls b @ [call_of f raw]"
    and "br_refresh (response_error f 401 b) = Some raw"
  using assms by (simp_all add: about_to_refresh_def response_error_def Let_def landed_def
      handle401_def refreshTokens_def call_of_def)

lemma both_start:
  assumes "j \<noteq> k" and "j < length (si_tabs s)" and "k < length (si_tabs s)"
    and "about_to_refresh raw f (si_tabs s ! j)" and "about_to_refresh raw g (si_tabs s ! k)"
  shows "call_of f raw \<in> set (br_calls (si_tabs (access_expired k g (access_expired j f s)) ! j))"
    and "call_of g raw \<in> set (br_calls (si_tabs (access_expired k g (access_expired j f s)) ! k))"
proof -
  let ?b = "response_error f 401 (si_tabs s ! j)"
  have s1: "si_tabs (access_expired j f s) = map (share ?b) ((si_tabs s)[j := ?b])"
    by (simp add: access_expired_def put_tab_def)
  have k: "si_tabs (access_expired j f s) ! k = share ?b (si_tabs s ! k)"
    using assms(1,3) by (simp add: s1)
  then have "about_to_refresh raw g (si_tabs (access_expired j f s) ! k)"
    using assms(4,5) starts_refresh(2) [OF assms(4)]
    by (simp add: about_to_refresh_def share_def)
  note g = starts_refresh [OF this]
  show "call_of f raw \<in> set (br_calls (si_tabs (access_expired k g (access_expired j f s)) ! j))"
    using assms(1-3) starts_refresh(1) [OF assms(4)]
    by (simp add: access_expired_def put_tab_def share_def)
  show "call_of g raw \<in> set (br_calls (si_tabs (access_expired k g (access_expired j f s)) ! k))"
    using assms(3) g(1) by (simp add: access_expired_def [of k] put_tab_def [of k])
      (simp add: share_def s1)
qed

text \<open>
  C34. Two tabs end each other's session. In two tabs of one browser a request is answered 401;
  each tab starts a refresh with the stored token, because its own copy of the flag says that
  none is running. The server would accept the token: it answers the first call with new tokens,
  takes the second for a stolen token, and with that the new tokens are dead as well, so that no
  later refresh with them succeeds. If the refusal arrives last, the storage is empty and the
  second tab is at the login page; if it arrives first, every tab is left with a refresh token
  that is already dead. The user did nothing but work in two tabs.
\<close>

theorem two_tabs_end_the_session:
  assumes "j \<noteq> k" and "j < length (si_tabs s)" and "k < length (si_tabs s)"
    and "about_to_refresh raw f (si_tabs s ! j)" and "about_to_refresh raw g (si_tabs s ! k)"
    and "token_inv (si_world s)" and "refresh cr cfg raw ctx (si_world s) = (Inr toks, w1)"
    and "s1 = access_expired k g (access_expired j f s)"
    and "s2 = serve cr cfg ctx' k (call_of g raw) raw (serve cr cfg ctx j (call_of f raw) raw s1)"
  shows "call_of f raw \<in> set (br_calls (si_tabs s1 ! j))
    \<and> call_of g raw \<in> set (br_calls (si_tabs s1 ! k))
    \<and> si_replies s2 = si_replies s @ [(j, Refresh_reply (call_of f raw) (Inr toks)),
        (k, Refresh_reply (call_of g raw) (Inl reuse_detected))]
    \<and> (\<forall>cx t. \<not> succeeds (refresh cr cfg (refreshToken toks) cx) ((si_world s2)\<lparr>w_now := t\<rparr>))
    \<and> (\<forall>t\<in>set (si_tabs (deliver k (call_of g raw) (Inl reuse_detected)
            (deliver j (call_of f raw) (Inr toks) s2))). br_access t = None \<and> br_refresh t = None)
    \<and> br_location (si_tabs (deliver k (call_of g raw) (Inl reuse_detected)
            (deliver j (call_of f raw) (Inr toks) s2)) ! k) = ''/auth/login''
    \<and> (\<forall>t\<in>set (si_tabs (deliver j (call_of f raw) (Inr toks)
            (deliver k (call_of g raw) (Inl reuse_detected) s2))).
         br_refresh t = Some (refreshToken toks))"
proof -
  have same: "si_world s1 = si_world s" "si_replies s1 = si_replies s"
    "length (si_tabs s1) = length (si_tabs s)"
    by (simp_all add: assms(8) access_expired_def) (simp_all add: put_tab_def)
  have inv: "token_inv (si_world s1)" and acc: "refresh cr cfg raw ctx (si_world s1) = (Inr toks, w1)"
    using assms(6,7) by (simp_all add: same)
  note out = second_refresh_refused [where ctx' = ctx' and k = k and d = "call_of g raw" and j = j
      and c = "call_of f raw", OF inv acc, folded assms(9)]
  have len: "j < length (si_tabs s2)" "k < length (si_tabs s2)"
    using assms(2,3) by (simp_all add: out same)
  let ?a = "deliver j (call_of f raw) (Inr toks) s2"
  let ?b = "deliver k (call_of g raw) (Inl reuse_detected) s2"
  have la: "k < length (si_tabs ?a)" and lb: "j < length (si_tabs ?b)"
    using len by (simp_all add: deliver_storage(3))
  show ?thesis
    using both_start [OF assms(1-5), folded assms(8)] out(1,3) same(2)
      deliver_storage(1,5) [OF la] deliver_storage(2) [OF lb] by (intro conjI) auto
qed

section \<open>Instances\<close>

text \<open>A tab with a valid session whose access token is refused.\<close>

definition fx_cfg :: app_config where
  "fx_cfg = configuration fx_env"

definition fx_get :: flight where
  "fx_get = \<lparr>fl_id = 0, fl_url = ''/api/tickets'', fl_token = Some ''A1'', fl_stage = First\<rparr>"

definition fx_tab :: browser where
  "fx_tab = send ''/api/tickets'' (fresh_browser (Some ''A1'') (Some ''R.b.F''))"

definition fx_site :: "browser list \<Rightarrow> site" where
  "fx_site tabs = \<lparr>si_world = fx_tokens, si_tabs = tabs, si_replies = []\<rparr>"

lemma fx_hashes: "distinct (hashes fx_tokens)" "live_hash (sha256 fx_crypto ''R.b.F'') fx_tokens"
  by (simp_all add: hashes_def live_hash_def token_fixtures)

lemma fx_about: "about_to_refresh ''R.b.F'' fx_get fx_tab"
  by (simp add: about_to_refresh_def fx_get_def fx_tab_def send_def fresh_browser_def
      isAuthFree_def AUTH_FREE_PATHS_def)

lemma fx_accepts: "succeeds (refresh fx_crypto fx_cfg ''R.b.F'' fx_context) fx_tokens"
  by code_simp

theorem two_tabs_end_the_session_witness:
  "\<exists>toks (s2 :: site). si_replies s2 = [(0, Refresh_reply (call_of fx_get ''R.b.F'') (Inr toks)),
       (1, Refresh_reply (call_of fx_get ''R.b.F'') (Inl reuse_detected))]
     \<and> \<not> succeeds (refresh fx_crypto fx_cfg (refreshToken toks) fx_context)
         ((si_world s2)\<lparr>w_now := 2000\<rparr>)"
proof -
  obtain toks w1 where acc: "refresh fx_crypto fx_cfg ''R.b.F'' fx_context fx_tokens = (Inr toks, w1)"
    using fx_accepts by (rule succeedsE)
  let ?s = "fx_site [fx_tab, fx_tab]"
  have w: "si_world ?s = fx_tokens" "si_replies ?s = []" by (simp_all add: fx_site_def)
  have tabs: "(0::nat) \<noteq> 1" "0 < length (si_tabs ?s)" "1 < length (si_tabs ?s)"
    "about_to_refresh ''R.b.F'' fx_get (si_tabs ?s ! 0)"
    "about_to_refresh ''R.b.F'' fx_get (si_tabs ?s ! 1)"
    using fx_about by (simp_all add: fx_site_def)
  obtain s1 where s1: "s1 = access_expired 1 fx_get (access_expired 0 fx_get ?s)" by simp
  obtain s2 where s2: "s2 = serve fx_crypto fx_cfg fx_context 1 (call_of fx_get ''R.b.F'') ''R.b.F''
      (serve fx_crypto fx_cfg fx_context 0 (call_of fx_get ''R.b.F'') ''R.b.F'' s1)" by simp
  note t = two_tabs_end_the_session [OF tabs fx_token_inv [folded w(1)] acc [folded w(1)] s1 s2]
  have "si_replies s2 = [(0, Refresh_reply (call_of fx_get ''R.b.F'') (Inr toks)),
      (1, Refresh_reply (call_of fx_get ''R.b.F'') (Inl reuse_detected))]"
    using t unfolding w append_Nil by blast
  moreover have "\<not> succeeds (refresh fx_crypto fx_cfg (refreshToken toks) fx_context)
      ((si_world s2)\<lparr>w_now := 2000\<rparr>)"
    using t by blast
  ultimately show ?thesis by blast
qed

definition fx_alone :: site where
  "fx_alone = fx_site [fresh_browser (Some ''A1'') (Some ''R.b.F'')]"

definition fx_waiting :: site where
  "fx_waiting = access_expired 0 fx_get (put_tab 0 fx_tab fx_alone)"

lemma fx_alone_simps:
  "si_tabs fx_alone = [fresh_browser (Some ''A1'') (Some ''R.b.F'')]" "si_replies fx_alone = []"
  "si_world fx_alone = fx_tokens"
  by (simp_all add: fx_alone_def fx_site_def)

lemma fx_waiting_simps:
  "si_tabs fx_waiting = [response_error fx_get 401 fx_tab]" "si_replies fx_waiting = []"
  "si_world fx_waiting = fx_tokens"
  by (simp_all add: fx_waiting_def access_expired_def put_tab_def fx_alone_simps)

lemma fx_path: "(site_step fx_crypto fx_passwords fx_cfg)\<^sup>*\<^sup>* fx_alone
    (serve fx_crypto fx_cfg fx_context 0 (call_of fx_get ''R.b.F'') ''R.b.F'' fx_waiting)"
proof -
  have 1: "site_step fx_crypto fx_passwords fx_cfg fx_alone (put_tab 0 fx_tab fx_alone)"
    unfolding fx_tab_def
    by (rule site_step.act [where e = Issued]) (simp_all add: fx_alone_simps browser_step.issue)
  have tab: "si_tabs (put_tab 0 fx_tab fx_alone) = [fx_tab]"
    by (simp add: put_tab_single fx_alone_simps)
  have "browser_step Answered fx_tab (response_error fx_get 401 fx_tab)"
    using fx_about by (intro browser_step.failed) (simp_all add: about_to_refresh_def)
  then have 2: "site_step fx_crypto fx_passwords fx_cfg (put_tab 0 fx_tab fx_alone) fx_waiting"
    unfolding fx_waiting_def access_expired_def
    by (intro site_step.act [where e = Answered]) (simp_all add: tab)
  have "call_of fx_get ''R.b.F'' \<in> set (unserved 0 fx_waiting)"
    by (simp add: unserved_def fx_waiting_simps starts_refresh [OF fx_about])
  then have "site_step fx_crypto fx_passwords fx_cfg fx_waiting
      (serve fx_crypto fx_cfg fx_context 0 (call_of fx_get ''R.b.F'') ''R.b.F'' fx_waiting)"
    by (intro site_step.answer) (simp_all add: fx_waiting_simps call_of_def)
  with 1 2 show ?thesis by (meson rtranclp.rtrancl_into_rtrancl rtranclp.rtrancl_refl)
qed


end
