(* ===== verification/Tickets.thy ===== *)
theory Tickets
  imports Pagination Messaging Guards Fixtures
begin

text \<open>
  \<open>tickets/tickets.service.ts\<close> with the DTOs of \<open>tickets/dto\<close>: creating, listing, reading,
  updating and assigning tickets. Each method is one operation of the \<open>world\<close>, its checks in
  the order of the code; the events it publishes are rows of the outbox written in the same
  transaction. The locale \<open>ticket_access\<close> is the access control the comments service reuses.
\<close>

section \<open>DTOs\<close>

record create_ticket_dto =
  ct_title :: string
  ct_description :: string
  ct_priority :: "ticket_priority field"
  ct_category :: "string field"

record update_ticket_dto =
  ut_title :: "string field"
  ut_description :: "string field"
  ut_status :: "ticket_status field"
  ut_priority :: "ticket_priority field"
  ut_category :: "string field"

record assign_ticket_dto =
  at_assigneeId :: string

record ticket_query =
  tq_page :: page_query
  tq_status :: "ticket_status option"
  tq_priority :: "ticket_priority option"
  tq_assignedToId :: "string option"

definition TICKET_SORTABLE :: "string list" where
  "TICKET_SORTABLE = [''createdAt'', ''updatedAt'', ''priority'', ''status'', ''reference'']"

section \<open>The Prisma calls on tickets\<close>

fun field_option :: "'a field \<Rightarrow> 'a option" where
  "field_option (Val x) = Some x"
| "field_option _ = None"

fun set_field :: "'a field \<Rightarrow> 'a \<Rightarrow> 'a" where
  "set_field (Val x) _ = x"
| "set_field _ old = old"

fun set_nullable :: "'a field \<Rightarrow> 'a option \<Rightarrow> 'a option" where
  "set_nullable (Val x) _ = Some x"
| "set_nullable Null _ = None"
| "set_nullable Undefined old = old"

record ticket_data =
  td_reference :: string
  td_title :: string
  td_description :: string
  td_priority :: "ticket_priority field"
  td_category :: "string field"
  td_organizationId :: string
  td_createdById :: string

definition new_ticket :: "string \<Rightarrow> time \<Rightarrow> ticket_data \<Rightarrow> ticket" where
  "new_ticket i t x =
     \<lparr>tk_id = i, tk_reference = td_reference x, tk_title = td_title x,
      tk_description = td_description x, tk_status = OPEN,
      tk_priority = nullish (td_priority x) MEDIUM, tk_category = field_option (td_category x),
      tk_organizationId = td_organizationId x, tk_createdById = td_createdById x,
      tk_assignedToId = None, tk_createdAt = t, tk_updatedAt = t, tk_closedAt = None\<rparr>"

definition prisma_ticket_create :: "ticket_data \<Rightarrow> ticket op" where
  "prisma_ticket_create x =
     (if td_priority x = Null then throw validation_error
      else andThen randomUUID (\<lambda>i.
           andThen current_time (\<lambda>t.
           andThen (write_db (ticket_insert (new_ticket i t x))) (\<lambda>_.
           ret (new_ticket i t x)))))"

section \<open>References\<close>

definition reference_of :: "nat \<Rightarrow> string" where
  "reference_of n = ''TKT-'' @ padStart 6 CHR ''0'' (show_nat n)"

definition nextReference :: "string op" where
  "nextReference =
     andThen (read_db (\<lambda>d. length (tickets d))) (\<lambda>count.
     ret (reference_of (count + 1)))"

lemma reference_of_inj [simp]: "reference_of m = reference_of n \<longleftrightarrow> m = n"
proof
  assume "reference_of m = reference_of n"
  then have "dec_value (padStart 6 CHR ''0'' (show_nat m))
    = dec_value (padStart 6 CHR ''0'' (show_nat n))"
    by (simp add: reference_of_def)
  then show "m = n" by simp
qed simp

section \<open>Create\<close>

definition ticket_created_payload :: "ticket \<Rightarrow> json" where
  "ticket_created_payload t =
     JObj [(''ticketId'', JStr (tk_id t)), (''reference'', JStr (tk_reference t)),
       (''title'', JStr (tk_title t)), (''status'', JStr (status_string (tk_status t))),
       (''priority'', JStr (priority_string (tk_priority t))),
       (''organizationId'', JStr (tk_organizationId t)),
       (''createdById'', JStr (tk_createdById t)),
       (''assignedToId'', nullable_json (tk_assignedToId t))]"

definition create_ticket ::
  "authenticated_user \<Rightarrow> create_ticket_dto \<Rightarrow> string option \<Rightarrow> ticket op" where
  "create_ticket actor dto correlationId =
     transaction (
       andThen (andThen nextReference (\<lambda>reference.
         prisma_ticket_create
           \<lparr>td_reference = reference, td_title = ct_title dto,
            td_description = ct_description dto, td_priority = ct_priority dto,
            td_category = ct_category dto, td_organizationId = au_organizationId actor,
            td_createdById = au_id actor\<rparr>)) (\<lambda>ticket.
       andThen (enqueue RK_TicketCreated (ticket_created_payload ticket) correlationId) (\<lambda>_.
       ret ticket)))"

section \<open>List and read\<close>

text \<open>\<open>ilike\<close> is the database's case-insensitive \<open>contains\<close>.\<close>

definition ticket_where ::
  "(string \<Rightarrow> string \<Rightarrow> bool) \<Rightarrow> authenticated_user \<Rightarrow> ticket_query \<Rightarrow> ticket \<Rightarrow> bool" where
  "ticket_where ilike actor q t \<longleftrightarrow>
     tk_organizationId t = au_organizationId actor
     \<and> (case tq_status q of None \<Rightarrow> True | Some s \<Rightarrow> tk_status t = s)
     \<and> (case tq_priority q of None \<Rightarrow> True | Some p \<Rightarrow> tk_priority t = p)
     \<and> (case tq_assignedToId q of None \<Rightarrow> True
        | Some a \<Rightarrow> if a = [] then True else tk_assignedToId t = Some a)
     \<and> (case q_search (tq_page q) of None \<Rightarrow> True
        | Some s \<Rightarrow> if s = [] then True else ilike (tk_title t) s \<or> ilike (tk_reference t) s)
     \<and> (if au_role actor = CUSTOMER then tk_createdById t = au_id actor else True)"

definition find_tickets ::
  "(order_by \<Rightarrow> ticket list \<Rightarrow> ticket list) \<Rightarrow> (string \<Rightarrow> string \<Rightarrow> bool)
    \<Rightarrow> authenticated_user \<Rightarrow> ticket_query \<Rightarrow> ticket paginated op"
where
  "find_tickets ord ilike actor q =
     read_db (\<lambda>d. list_page ord (ticket_where ilike actor q)
       (toPrismaOrderBy (q_sort (tq_page q)) TICKET_SORTABLE default_order)
       (tq_page q) (tickets d))"

definition find_ticket :: "authenticated_user \<Rightarrow> string \<Rightarrow> ticket op" where
  "find_ticket actor i =
     andThen (read_db (\<lambda>d. List.find
       (\<lambda>t. tk_id t = i \<and> tk_organizationId t = au_organizationId actor) (tickets d))) (\<lambda>r.
     case r of
       None \<Rightarrow> throw (NotFoundException ''Ticket not found'')
     | Some ticket \<Rightarrow>
         if au_role actor = CUSTOMER \<and> tk_createdById ticket \<noteq> au_id actor
         then throw (ForbiddenException ''You cannot access this ticket'')
         else ret ticket)"

section \<open>Update\<close>

text \<open>The DTO as the event payload carries it: absent properties are dropped.\<close>

definition changes_json :: "update_ticket_dto \<Rightarrow> json" where
  "changes_json dto = json_object
     [(''title'', field_json JStr (ut_title dto)),
      (''description'', field_json JStr (ut_description dto)),
      (''status'', field_json (\<lambda>s. JStr (status_string s)) (ut_status dto)),
      (''priority'', field_json (\<lambda>p. JStr (priority_string p)) (ut_priority dto)),
      (''category'', field_json JStr (ut_category dto))]"

definition null_in_required :: "update_ticket_dto \<Rightarrow> bool" where
  "null_in_required dto \<longleftrightarrow> ut_title dto = Null \<or> ut_description dto = Null
     \<or> ut_status dto = Null \<or> ut_priority dto = Null"

definition apply_changes :: "update_ticket_dto \<Rightarrow> bool \<Rightarrow> time \<Rightarrow> ticket \<Rightarrow> ticket" where
  "apply_changes dto willClose t k =
     k\<lparr>tk_title := set_field (ut_title dto) (tk_title k),
       tk_description := set_field (ut_description dto) (tk_description k),
       tk_status := set_field (ut_status dto) (tk_status k),
       tk_priority := set_field (ut_priority dto) (tk_priority k),
       tk_category := set_nullable (ut_category dto) (tk_category k),
       tk_closedAt := (if willClose then Some t else tk_closedAt k),
       tk_updatedAt := t\<rparr>"

definition prisma_ticket_update :: "string \<Rightarrow> update_ticket_dto \<Rightarrow> bool \<Rightarrow> ticket op" where
  "prisma_ticket_update i dto willClose =
     (if null_in_required dto then throw validation_error
      else andThen current_time (\<lambda>t. ticket_update i (apply_changes dto willClose t)))"

definition ticket_updated_payload :: "ticket \<Rightarrow> update_ticket_dto \<Rightarrow> string \<Rightarrow> json" where
  "ticket_updated_payload t dto actorId =
     JObj [(''ticketId'', JStr (tk_id t)), (''reference'', JStr (tk_reference t)),
       (''organizationId'', JStr (tk_organizationId t)), (''changes'', changes_json dto),
       (''updatedById'', JStr actorId)]"

definition ticket_closed_payload :: "ticket \<Rightarrow> string \<Rightarrow> time \<Rightarrow> json" where
  "ticket_closed_payload t actorId at =
     JObj [(''ticketId'', JStr (tk_id t)), (''reference'', JStr (tk_reference t)),
       (''organizationId'', JStr (tk_organizationId t)), (''closedById'', JStr actorId),
       (''closedAt'', JStr (toISOString (case tk_closedAt t of None \<Rightarrow> at | Some c \<Rightarrow> c)))]"

definition update_ticket ::
  "authenticated_user \<Rightarrow> string \<Rightarrow> update_ticket_dto \<Rightarrow> string option \<Rightarrow> ticket op" where
  "update_ticket actor i dto correlationId =
     andThen (find_ticket actor i) (\<lambda>existing.
     if au_role actor = CUSTOMER \<and> (is_val (ut_status dto) \<or> is_val (ut_priority dto))
     then throw (ForbiddenException ''Customers cannot change status or priority'')
     else
       let willClose = (ut_status dto = Val CLOSED \<and> tk_status existing \<noteq> CLOSED) in
       transaction (
         andThen (prisma_ticket_update i dto willClose) (\<lambda>ticket.
         andThen (enqueue RK_TicketUpdated (ticket_updated_payload ticket dto (au_id actor))
                    correlationId) (\<lambda>_.
         if willClose
         then andThen current_time (\<lambda>t.
              andThen (enqueue RK_TicketClosed (ticket_closed_payload ticket (au_id actor) t)
                         correlationId) (\<lambda>_.
              ret ticket))
         else ret ticket))))"

section \<open>Assign\<close>

definition assignable :: "authenticated_user \<Rightarrow> string \<Rightarrow> user \<Rightarrow> bool" where
  "assignable actor i u \<longleftrightarrow> u_id u = i \<and> u_organizationId u = au_organizationId actor
     \<and> u_isActive u \<and> u_role u \<in> {AGENT, ADMIN}"

definition apply_assign :: "string \<Rightarrow> time \<Rightarrow> ticket \<Rightarrow> ticket" where
  "apply_assign a t k =
     k\<lparr>tk_assignedToId := Some a, tk_status := IN_PROGRESS, tk_updatedAt := t\<rparr>"

definition ticket_assigned_payload :: "ticket \<Rightarrow> string \<Rightarrow> string \<Rightarrow> json" where
  "ticket_assigned_payload t assigneeId actorId =
     JObj [(''ticketId'', JStr (tk_id t)), (''reference'', JStr (tk_reference t)),
       (''organizationId'', JStr (tk_organizationId t)), (''assignedToId'', JStr assigneeId),
       (''assignedById'', JStr actorId)]"

definition assign_ticket ::
  "authenticated_user \<Rightarrow> string \<Rightarrow> assign_ticket_dto \<Rightarrow> string option \<Rightarrow> ticket op" where
  "assign_ticket actor i dto correlationId =
     andThen (find_ticket actor i) (\<lambda>_.
     andThen (read_db (\<lambda>d. List.find (assignable actor (at_assigneeId dto)) (users d)))
       (\<lambda>assignee.
     case assignee of
       None \<Rightarrow> throw (NotFoundException ''Assignee must be an active agent or admin'')
     | Some _ \<Rightarrow>
         transaction (
           andThen (andThen current_time (\<lambda>t.
             ticket_update i (apply_assign (at_assigneeId dto) t))) (\<lambda>ticket.
           andThen (enqueue RK_TicketAssigned
                      (ticket_assigned_payload ticket (at_assigneeId dto) (au_id actor))
                      correlationId) (\<lambda>_.
           ret ticket)))))"

section \<open>Access control\<close>

definition can_access :: "authenticated_user \<Rightarrow> ticket \<Rightarrow> bool" where
  "can_access actor t \<longleftrightarrow> tk_organizationId t = au_organizationId actor
     \<and> (au_role actor = CUSTOMER \<longrightarrow> tk_createdById t = au_id actor)"

locale ticket_access =
  fixes find_one :: "authenticated_user \<Rightarrow> string \<Rightarrow> ticket op"
  assumes find_one_pure: "find_one a i w = (r, w') \<Longrightarrow> w' = w"
    and find_one_sound: "find_one a i w = (Inr t, w') \<Longrightarrow>
      t \<in> set (tickets (w_db w)) \<and> tk_id t = i \<and> can_access a t"
begin

lemma guarded_ok:
  assumes "andThen (find_one a i) f w = (Inr y, w')"
  shows "\<exists>t\<in>set (tickets (w_db w)). tk_id t = i \<and> can_access a t \<and> f t w = (Inr y, w')"
  using assms find_one_pure find_one_sound by (fastforce simp: andThen_ok)

lemma guarded_err:
  assumes "andThen (find_one a i) f w = (Inl e, w')"
  shows "w' = w \<or> (\<exists>t. f t w = (Inl e, w'))"
  using assms find_one_pure by (fastforce simp: andThen_err)

lemma denied:
  assumes "\<forall>t\<in>set (tickets (w_db w)). tk_id t = i \<longrightarrow> \<not> can_access a t"
  shows "\<exists>e. andThen (find_one a i) f w = (Inl e, w)"
proof (cases "find_one a i w")
  case (Pair r v)
  with assms find_one_sound find_one_pure show ?thesis
    by (cases r) (fastforce simp: andThen_def)+
qed

end

lemma find_ticket_run:
  "find_ticket a i w =
     (case List.find (\<lambda>t. tk_id t = i \<and> tk_organizationId t = au_organizationId a)
        (tickets (w_db w)) of
        None \<Rightarrow> (Inl (NotFoundException ''Ticket not found''), w)
      | Some t \<Rightarrow>
          if can_access a t then (Inr t, w)
          else (Inl (ForbiddenException ''You cannot access this ticket''), w))"
  by (auto simp: find_ticket_def mrun meval can_access_def split: option.splits dest: find_SomeD)

interpretation tickets_service: ticket_access find_ticket
  by unfold_locales (auto simp: find_ticket_run split: option.splits if_splits dest: find_SomeD)

lemma find_ticket_ok:
  "distinct (map tk_id (tickets (w_db w))) \<Longrightarrow>
   find_ticket a i w = (Inr t, w') \<longleftrightarrow>
     w' = w \<and> t \<in> set (tickets (w_db w)) \<and> tk_id t = i \<and> can_access a t"
  (is "?d \<Longrightarrow> ?l \<longleftrightarrow> ?r")
proof
  assume ?l
  then show ?r using tickets_service.find_one_sound tickets_service.find_one_pure by blast
next
  assume ?d and ?r
  let ?P = "\<lambda>t. tk_id t = i \<and> tk_organizationId t = au_organizationId a"
  from \<open>?r\<close> have P: "?P t" "t \<in> set (tickets (w_db w))" by (auto simp: can_access_def)
  obtain t' where t': "List.find ?P (tickets (w_db w)) = Some t'"
    using P find_NoneD by (cases "List.find ?P (tickets (w_db w))") fastforce+
  with P \<open>?d\<close> have "t' = t"
    by (auto dest!: find_SomeD simp: distinct_map inj_on_def)
  with t' \<open>?r\<close> show ?l by (simp add: find_ticket_run)
qed

text \<open>
  C1. Reading a ticket (\<open>findOne\<close>) is tenant- and owner-safe: it never changes the state; it
  returns a ticket exactly when that ticket is stored under the id, belongs to the caller's
  organization and, for a customer, was created by the caller; a ticket of another organization
  is answered like a missing one (404), so its existence is not revealed; and the caller's own
  organization's ticket of someone else is answered 403 to a customer.
\<close>

theorem ticket_read_access:
  assumes "distinct (map tk_id (tickets (w_db w)))"
  shows "after (find_ticket a i) w = w
    \<and> (result (find_ticket a i) w = Inr t \<longleftrightarrow>
         t \<in> set (tickets (w_db w)) \<and> tk_id t = i \<and> can_access a t)
    \<and> (result (find_ticket a i) w = Inl (NotFoundException ''Ticket not found'') \<longleftrightarrow>
         \<not> (\<exists>t\<in>set (tickets (w_db w)). tk_id t = i \<and> tk_organizationId t = au_organizationId a))
    \<and> (result (find_ticket a i) w = Inl (ForbiddenException ''You cannot access this ticket'')
       \<longleftrightarrow> (\<exists>t\<in>set (tickets (w_db w)). tk_id t = i \<and> tk_organizationId t = au_organizationId a
              \<and> au_role a = CUSTOMER \<and> tk_createdById t \<noteq> au_id a))"
proof -
  let ?P = "\<lambda>t. tk_id t = i \<and> tk_organizationId t = au_organizationId a"
  have ok: "result (find_ticket a i) w = Inr t \<longleftrightarrow>
      t \<in> set (tickets (w_db w)) \<and> tk_id t = i \<and> can_access a t"
    using find_ticket_ok [OF assms, of a i t] tickets_service.find_one_pure
    by (metis prod.collapse result_def fst_conv)
  show ?thesis
  proof (cases "List.find ?P (tickets (w_db w))")
    case None
    then have "\<not> (\<exists>t\<in>set (tickets (w_db w)). ?P t)" by (auto dest: find_NoneD)
    with None ok show ?thesis
      by (auto simp: find_ticket_run result_def after_def exn_defs)
  next
    case (Some t')
    then have t': "t' \<in> set (tickets (w_db w))" "?P t'" by (auto dest: find_SomeD)
    have u: "t = t'" if "t \<in> set (tickets (w_db w))" "?P t" for t
      using t' that assms by (auto simp: distinct_map inj_on_def)
    have ex: "(\<exists>t\<in>set (tickets (w_db w)). tk_id t = i \<and> tk_organizationId t = au_organizationId a
        \<and> au_role a = CUSTOMER \<and> tk_createdById t \<noteq> au_id a) \<longleftrightarrow> \<not> can_access a t'"
      using t' u unfolding can_access_def by blast
    have "\<exists>t\<in>set (tickets (w_db w)). tk_id t = i \<and> tk_organizationId t = au_organizationId a"
      using t' by blast
    then show ?thesis unfolding ok ex using Some
      by (cases "can_access a t'") (simp_all add: find_ticket_run result_def after_def exn_defs)
  qed
qed

theorem ticket_read_access_witness:
  "result (find_ticket carol ''t1'') (fx_world fx_db)
     = Inr (fx_ticket ''t1'' ''TKT-000001'' ''acme'' ''carol'')
   \<and> result (find_ticket carol ''t2'') (fx_world fx_db)
     = Inl (ForbiddenException ''You cannot access this ticket'')
   \<and> result (find_ticket gus ''t1'') (fx_world fx_db)
     = Inl (NotFoundException ''Ticket not found'')"
proof -
  have d: "distinct (map tk_id (tickets (w_db (fx_world fx_db))))" by (simp add: fixtures)
  show ?thesis
    using ticket_read_access [OF d, of carol "''t1''"
        "fx_ticket ''t1'' ''TKT-000001'' ''acme'' ''carol''"]
      ticket_read_access [OF d, of carol "''t2''"] ticket_read_access [OF d, of gus "''t1''"]
    by (simp add: fixtures can_access_def)
qed

section \<open>Listing\<close>

definition ticket_filters ::
  "(string \<Rightarrow> string \<Rightarrow> bool) \<Rightarrow> ticket_query \<Rightarrow> ticket \<Rightarrow> bool" where
  "ticket_filters ilike q t \<longleftrightarrow>
     (\<forall>s. tq_status q = Some s \<longrightarrow> tk_status t = s)
     \<and> (\<forall>p. tq_priority q = Some p \<longrightarrow> tk_priority t = p)
     \<and> (\<forall>a. tq_assignedToId q = Some a \<and> a \<noteq> [] \<longrightarrow> tk_assignedToId t = Some a)
     \<and> (\<forall>s. q_search (tq_page q) = Some s \<and> s \<noteq> [] \<longrightarrow>
          ilike (tk_title t) s \<or> ilike (tk_reference t) s)"

lemma ticket_where_iff:
  "ticket_where ilike a q t \<longleftrightarrow> can_access a t \<and> ticket_filters ilike q t"
  by (auto simp: ticket_where_def can_access_def ticket_filters_def split: option.splits)

lemma ticket_where_eq:
  "ticket_where ilike a q = (\<lambda>t. can_access a t \<and> ticket_filters ilike q t)"
  by (rule ext) (rule ticket_where_iff)

text \<open>
  C14. The list endpoint and the read endpoint agree. Whatever the filters, the sort and the
  page, every ticket \<open>findAll\<close> returns is one that \<open>findOne\<close> returns to the same caller and
  passes the filters; \<open>meta.total\<close> counts exactly the tickets the caller may read that pass
  them (so a customer never learns even the number of other people's tickets); a page holds at
  most 100; and listing changes nothing.
\<close>

theorem ticket_list_access:
  assumes "distinct (map tk_id (tickets (w_db w)))" and "permutes_rows ord"
    and "valid_page_query (tq_page q)"
  shows "\<exists>page. find_tickets ord ilike a q w = (Inr page, w)
    \<and> (\<forall>t\<in>set (items page). find_ticket a (tk_id t) w = (Inr t, w) \<and> ticket_filters ilike q t)
    \<and> m_total (meta page)
        = length (filter (\<lambda>t. can_access a t \<and> ticket_filters ilike q t) (tickets (w_db w)))
    \<and> length (items page) \<le> 100"
proof -
  let ?o = "toPrismaOrderBy (q_sort (tq_page q)) TICKET_SORTABLE default_order"
  let ?page = "list_page ord (ticket_where ilike a q) ?o (tq_page q) (tickets (w_db w))"
  have "find_tickets ord ilike a q w = (Inr ?page, w)"
    by (simp add: find_tickets_def mrun)
  moreover have "find_ticket a (tk_id t) w = (Inr t, w) \<and> ticket_filters ilike q t"
    if "t \<in> set (items ?page)" for t
    using list_page_sound [OF assms(2) that] find_ticket_ok [OF assms(1)]
    by (simp add: ticket_where_iff)
  moreover have "m_total (meta ?page)
      = length (filter (\<lambda>t. can_access a t \<and> ticket_filters ilike q t) (tickets (w_db w)))"
    by (simp add: list_page_total ticket_where_eq)
  moreover have "length (items ?page) \<le> 100" by (rule list_page_size [OF assms(3)])
  ultimately show ?thesis by blast
qed

definition fx_query :: ticket_query where
  "fx_query = \<lparr>tq_page = \<lparr>q_page = None, q_limit = None, q_sort = None, q_search = None\<rparr>,
     tq_status = Some OPEN, tq_priority = None, tq_assignedToId = None\<rparr>"

theorem ticket_list_access_witness:
  "\<exists>page. find_tickets (\<lambda>_ xs. rev xs) (=) carol fx_query (fx_world fx_db)
       = (Inr page, fx_world fx_db) \<and> m_total (meta page) = 1"
proof -
  have d: "distinct (map tk_id (tickets (w_db (fx_world fx_db))))" by (simp add: fixtures)
  have p: "permutes_rows (\<lambda>_ (xs :: ticket list). rev xs)" by (simp add: permutes_rows_def)
  have q: "valid_page_query (tq_page fx_query)"
    by (simp add: fx_query_def valid_page_query_def query_page_def query_limit_def)
  have n: "length (filter (\<lambda>t. can_access carol t \<and> ticket_filters (=) fx_query t)
      (tickets (w_db (fx_world fx_db)))) = 1"
    by (simp add: fixtures can_access_def ticket_filters_def fx_query_def)
  show ?thesis using ticket_list_access [OF d p q, of "(=)" carol] unfolding n by blast
qed

section \<open>Creating\<close>

lemma prisma_ticket_create_run:
  "td_priority x \<noteq> Null \<Longrightarrow> prisma_ticket_create x w =
     (case ticket_insert (new_ticket (w_uuid w (w_next w)) (w_now w) x) (w_db w) of
        Inl e \<Rightarrow> (Inl e, w\<lparr>w_next := Suc (w_next w)\<rparr>)
      | Inr d \<Rightarrow> (Inr (new_ticket (w_uuid w (w_next w)) (w_now w) x),
                  w\<lparr>w_next := Suc (w_next w), w_db := d\<rparr>))"
  by (simp add: prisma_ticket_create_def mrun meval split: sum.splits)

lemma ticket_insert_ok:
  "ticket_insert t d = Inr d' \<longleftrightarrow> \<not> ticket_exists d (tk_id t)
     \<and> (\<forall>r\<in>set (tickets d). tk_reference r \<noteq> tk_reference t)
     \<and> organization_exists d (tk_organizationId t) \<and> user_exists d (tk_createdById t)
     \<and> assignee_ok d t \<and> d' = d\<lparr>tickets := tickets d @ [t]\<rparr>"
  by (auto simp: ticket_insert_def list_ex_iff)

lemma prisma_ticket_create_ok:
  "prisma_ticket_create x w = (Inr t, w') \<Longrightarrow>
     t = new_ticket (w_uuid w (w_next w)) (w_now w) x
   \<and> \<not> ticket_exists (w_db w) (tk_id t)
   \<and> (\<forall>r\<in>set (tickets (w_db w)). tk_reference r \<noteq> tk_reference t)
   \<and> w_db w' = (w_db w)\<lparr>tickets := tickets (w_db w) @ [t]\<rparr>"
  by (cases "td_priority x = Null", simp add: prisma_ticket_create_def mrun)
    (auto simp: prisma_ticket_create_run ticket_insert_ok split: sum.splits)

definition create_data ::
  "authenticated_user \<Rightarrow> create_ticket_dto \<Rightarrow> nat \<Rightarrow> ticket_data" where
  "create_data actor dto n =
     \<lparr>td_reference = reference_of n, td_title = ct_title dto,
      td_description = ct_description dto, td_priority = ct_priority dto,
      td_category = ct_category dto, td_organizationId = au_organizationId actor,
      td_createdById = au_id actor\<rparr>"

lemma create_ticket_eq:
  "create_ticket actor dto c w =
     transaction (andThen (prisma_ticket_create
         (create_data actor dto (length (tickets (w_db w)) + 1))) (\<lambda>t.
       andThen (enqueue RK_TicketCreated (ticket_created_payload t) c) (\<lambda>_. ret t))) w"
  by (simp add: create_ticket_def nextReference_def create_data_def transaction_def andThen_def
      read_db_def ret_def)

lemma create_ticket_errD: "create_ticket actor dto c w = (Inl e, w') \<Longrightarrow> w_db w' = w_db w"
  by (auto simp: create_ticket_eq dest: transaction_rollback)

lemma create_ticket_okD:
  assumes "create_ticket actor dto c w = (Inr t, w')"
  shows "t = new_ticket (w_uuid w (w_next w)) (w_now w)
             (create_data actor dto (length (tickets (w_db w)) + 1))
    \<and> \<not> ticket_exists (w_db w) (tk_id t)
    \<and> (\<forall>r\<in>set (tickets (w_db w)). tk_reference r \<noteq> tk_reference t)
    \<and> (\<exists>row. w_db w' = (w_db w)\<lparr>tickets := tickets (w_db w) @ [t],
              outbox := outbox (w_db w) @ [row]\<rparr>
            \<and> pending_row RK_TicketCreated (ticket_created_payload t) c row)"
proof -
  from assms obtain v row where
    m: "prisma_ticket_create (create_data actor dto (length (tickets (w_db w)) + 1)) w = (Inr t, v)"
    and w': "w_db w' = (w_db v)\<lparr>outbox := outbox (w_db v) @ [row]\<rparr>"
      "pending_row RK_TicketCreated (ticket_created_payload t) c row"
    unfolding create_ticket_eq by (auto dest: publisher.committed_put)
  note p = prisma_ticket_create_ok [OF m]
  then have "w_db w' = (w_db w)\<lparr>tickets := tickets (w_db w) @ [t], outbox := outbox (w_db w) @ [row]\<rparr>"
    by (simp add: w'(1))
  with p w'(2) show ?thesis by blast
qed

text \<open>
  Creating a ticket is all or nothing. On success exactly one ticket is added (the one
  returned: status OPEN, the caller's organization and id, priority MEDIUM when none was given,
  the next reference) together with exactly one PENDING outbox row that carries its
  \<open>ticket.created\<close> payload and the correlation id; on any exception the database is unchanged,
  so no ticket exists without its event and no event without its ticket.
\<close>

theorem create_ticket_atomic:
  "case create_ticket actor dto c w of
     (Inl e, w') \<Rightarrow> w_db w' = w_db w
   | (Inr t, w') \<Rightarrow>
       t = new_ticket (w_uuid w (w_next w)) (w_now w)
             (create_data actor dto (length (tickets (w_db w)) + 1))
       \<and> tk_status t = OPEN \<and> tk_organizationId t = au_organizationId actor
       \<and> tk_createdById t = au_id actor \<and> tk_priority t = nullish (ct_priority dto) MEDIUM
       \<and> (\<exists>row. w_db w' = (w_db w)\<lparr>tickets := tickets (w_db w) @ [t],
              outbox := outbox (w_db w) @ [row]\<rparr>
            \<and> pending_row RK_TicketCreated (ticket_created_payload t) c row)"
proof (cases "create_ticket actor dto c w")
  case (Pair r w')
  then show ?thesis
    by (cases r) (auto simp: new_ticket_def create_data_def
        dest: create_ticket_errD create_ticket_okD)
qed

definition refs_sequential :: "db \<Rightarrow> bool" where
  "refs_sequential d \<longleftrightarrow>
     map tk_reference (tickets d) = map reference_of [1..<length (tickets d) + 1]"

lemma refs_sequential_fresh:
  "refs_sequential d \<Longrightarrow> r \<in> set (tickets d) \<Longrightarrow>
   tk_reference r \<noteq> reference_of (length (tickets d) + 1)"
proof -
  assume "refs_sequential d" and "r \<in> set (tickets d)"
  then have "tk_reference r \<in> set (map reference_of [1..<length (tickets d) + 1])"
    unfolding refs_sequential_def by (metis image_eqI list.set_map)
  then show ?thesis by auto
qed

text \<open>The two random ids the operation draws collide with nothing stored.\<close>

definition create_ids_fresh :: "world \<Rightarrow> bool" where
  "create_ids_fresh w \<longleftrightarrow> \<not> ticket_exists (w_db w) (w_uuid w (w_next w))
     \<and> (\<forall>r\<in>set (outbox (w_db w)). ob_id r \<noteq> w_uuid w (Suc (w_next w)))"

lemma create_ticket_run:
  assumes "create_ids_fresh w" and "ct_priority dto \<noteq> Null"
    and "organization_exists (w_db w) (au_organizationId actor)"
    and "user_exists (w_db w) (au_id actor)"
    and "\<forall>r\<in>set (tickets (w_db w)).
      tk_reference r \<noteq> reference_of (length (tickets (w_db w)) + 1)"
  shows "\<exists>t w'. create_ticket actor dto c w = (Inr t, w')
    \<and> tk_reference t = reference_of (length (tickets (w_db w)) + 1)
    \<and> tickets (w_db w') = tickets (w_db w) @ [t]"
proof -
  let ?x = "create_data actor dto (length (tickets (w_db w)) + 1)"
  let ?t = "new_ticket (w_uuid w (w_next w)) (w_now w) ?x"
  let ?d = "(w_db w)\<lparr>tickets := tickets (w_db w) @ [?t]\<rparr>"
  have "ticket_insert ?t (w_db w) = Inr ?d"
    using assms
    by (simp add: ticket_insert_ok new_ticket_def create_data_def create_ids_fresh_def
        assignee_ok_def)
  then have 1: "prisma_ticket_create ?x w
      = (Inr ?t, w\<lparr>w_next := Suc (w_next w), w_db := ?d\<rparr>)" (is "_ = (_, ?v)")
    using assms(2) by (simp add: prisma_ticket_create_run create_data_def)
  have "\<exists>w'. enqueue RK_TicketCreated (ticket_created_payload ?t) c ?v = (Inr (), w')
      \<and> tickets (w_db w') = tickets ?d"
    using assms(1) by (subst enqueue_fresh) (simp_all add: create_ids_fresh_def)
  with 1 have "\<exists>w'. create_ticket actor dto c w = (Inr ?t, w') \<and> tickets (w_db w') = tickets ?d"
    unfolding create_ticket_eq by (auto simp: transaction_ok andThen_ok mrun)
  then show ?thesis by (auto simp: new_ticket_def create_data_def)
qed

text \<open>
  While no ticket was ever removed, references are TKT-000001, TKT-000002, \<dots> in creation
  order, and a member of an existing organization can always create the next ticket: the call
  returns, uses the next number, and the property holds again afterwards.
\<close>

theorem create_ticket_succeeds:
  assumes "refs_sequential (w_db w)" and "create_ids_fresh w" and "ct_priority dto \<noteq> Null"
    and "organization_exists (w_db w) (au_organizationId actor)"
    and "user_exists (w_db w) (au_id actor)"
  shows "\<exists>t w'. create_ticket actor dto c w = (Inr t, w')
    \<and> tk_reference t = reference_of (length (tickets (w_db w)) + 1) \<and> refs_sequential (w_db w')"
proof -
  have "\<forall>r\<in>set (tickets (w_db w)).
      tk_reference r \<noteq> reference_of (length (tickets (w_db w)) + 1)"
    using refs_sequential_fresh [OF assms(1)] by blast
  with create_ticket_run [OF assms(2-5)] obtain t w' where
    "create_ticket actor dto c w = (Inr t, w')"
    "tk_reference t = reference_of (length (tickets (w_db w)) + 1)"
    "tickets (w_db w') = tickets (w_db w) @ [t]" by blast
  with assms(1) show ?thesis by (auto simp: refs_sequential_def)
qed

definition fx_create :: create_ticket_dto where
  "fx_create = \<lparr>ct_title = ''Printer'', ct_description = ''No paper'', ct_priority = Undefined,
     ct_category = Val ''hw''\<rparr>"

lemma reference_examples:
  "reference_of 1 = ''TKT-000001''" "reference_of (Suc 0) = ''TKT-000001''"
  "reference_of 2 = ''TKT-000002''" "reference_of (Suc (Suc 0)) = ''TKT-000002''"
  by code_simp+

lemma fx_refs: "refs_sequential fx_db"
  by (simp add: refs_sequential_def fixtures reference_examples upt_rec)

lemma fx_ids_fresh: "create_ids_fresh (fx_world fx_db)"
  by (simp add: create_ids_fresh_def fixtures ticket_exists_def)

theorem create_ticket_succeeds_witness:
  "\<exists>t w'. create_ticket carol fx_create None (fx_world fx_db) = (Inr t, w')
    \<and> tk_reference t = reference_of 3 \<and> refs_sequential (w_db w')"
proof -
  let ?w = "fx_world fx_db"
  have 1: "refs_sequential (w_db ?w)" by (simp add: fx_world_def fx_refs)
  have 2: "ct_priority fx_create \<noteq> Null" by (simp add: fx_create_def)
  have 3: "organization_exists (w_db ?w) (au_organizationId carol)"
    and 4: "user_exists (w_db ?w) (au_id carol)"
    by (simp_all add: fixtures organization_exists_def user_exists_def)
  have n: "length (tickets (w_db ?w)) + 1 = 3" by (simp add: fixtures)
  show ?thesis using create_ticket_succeeds [OF 1 fx_ids_fresh 2 3 4, of None] unfolding n .
qed

text \<open>The rest of the transaction of \<open>create\<close> once it has counted \<open>n\<close> tickets.\<close>

definition create_after_count ::
  "authenticated_user \<Rightarrow> create_ticket_dto \<Rightarrow> string option \<Rightarrow> nat \<Rightarrow> ticket op" where
  "create_after_count actor dto c n =
     transaction (andThen (prisma_ticket_create (create_data actor dto (n + 1))) (\<lambda>t.
       andThen (enqueue RK_TicketCreated (ticket_created_payload t) c) (\<lambda>_. ret t)))"

lemma create_ticket_counted:
  "create_ticket actor dto c w = create_after_count actor dto c (length (tickets (w_db w))) w"
  by (simp add: create_ticket_eq create_after_count_def)

lemma create_after_count_taken:
  assumes "reference_of (n + 1) \<in> tk_reference ` set (tickets (w_db w))"
    and "\<not> ticket_exists (w_db w) (w_uuid w (w_next w))" and "ct_priority dto \<noteq> Null"
  shows "\<exists>w'. create_after_count actor dto c n w = (Inl (unique_violation [''reference'']), w')
    \<and> w_db w' = w_db w"
proof -
  let ?x = "create_data actor dto (n + 1)"
  let ?t = "new_ticket (w_uuid w (w_next w)) (w_now w) ?x"
  have "list_ex (\<lambda>r. tk_reference r = tk_reference ?t) (tickets (w_db w))"
    using assms(1) by (auto simp: list_ex_iff new_ticket_def create_data_def)
  then have "ticket_insert ?t (w_db w) = Inl (unique_violation [''reference''])"
    using assms(2) by (simp add: ticket_insert_def new_ticket_def create_data_def)
  then have "prisma_ticket_create ?x w
      = (Inl (unique_violation [''reference'']), w\<lparr>w_next := Suc (w_next w)\<rparr>)"
    using assms(3) by (simp add: prisma_ticket_create_run create_data_def)
  then show ?thesis unfolding create_after_count_def by (simp add: meval)
qed

text \<open>
  The next reference is the number of stored tickets plus one, read before the insert. A
  creation that counted \<open>n\<close> fails, with the unique violation of \<open>reference\<close> and without any
  effect, whenever the reference \<open>n + 1\<close> is already in use: so of two concurrent creations that
  counted the same \<open>n\<close> the second fails, and once rows were removed such that the reference of
  the count is in use, every creation by anyone fails, again and again.
\<close>

theorem create_ticket_conflict:
  assumes "reference_of (n + 1) \<in> tk_reference ` set (tickets (w_db w))"
    and "\<not> ticket_exists (w_db w) (w_uuid w (w_next w))" and "ct_priority dto \<noteq> Null"
  shows "(\<exists>w'. create_after_count actor dto c n w
        = (Inl (unique_violation [''reference'']), w') \<and> w_db w' = w_db w)
    \<and> (n = length (tickets (w_db w)) \<longrightarrow>
        create_ticket actor dto c w = create_after_count actor dto c n w)"
  using create_after_count_taken [OF assms]
  by (simp add: create_ticket_eq create_after_count_def)

text \<open>Two tickets existed and the first was removed: the count is one, the reference 2 in use.\<close>

definition fx_db_after_delete :: db where
  "fx_db_after_delete = fx_db\<lparr>tickets := [fx_ticket ''t2'' ''TKT-000002'' ''acme'' ''ada'']\<rparr>"

theorem create_ticket_conflict_witness:
  "\<exists>w'. create_ticket carol fx_create None (fx_world fx_db_after_delete)
      = (Inl (unique_violation [''reference'']), w') \<and> w_db w' = fx_db_after_delete"
proof -
  let ?w = "fx_world fx_db_after_delete"
  have 1: "reference_of (1 + 1) \<in> tk_reference ` set (tickets (w_db ?w))"
    by (simp add: fixtures fx_db_after_delete_def reference_examples)
  have 2: "\<not> ticket_exists (w_db ?w) (w_uuid ?w (w_next ?w))"
    by (simp add: fixtures fx_db_after_delete_def ticket_exists_def)
  have 3: "ct_priority fx_create \<noteq> Null" by (simp add: fx_create_def)
  have 4: "w_db ?w = fx_db_after_delete" and 5: "1 = length (tickets (w_db ?w))"
    by (simp_all add: fx_world_def fx_db_after_delete_def)
  show ?thesis
    using create_ticket_conflict [OF 1 2 3, of carol None] 5 unfolding 4 by auto
qed

section \<open>Updating and closing\<close>

lemma find_ticket_keeps: "find_ticket a i w = (r, w') \<Longrightarrow> w' = w"
  by (rule tickets_service.find_one_pure)

definition closing :: "update_ticket_dto \<Rightarrow> ticket \<Rightarrow> bool" where
  "closing dto t \<longleftrightarrow> ut_status dto = Val CLOSED \<and> tk_status t \<noteq> CLOSED"

lemma prisma_ticket_update_ok:
  "prisma_ticket_update i dto b w = (Inr t, w') \<longleftrightarrow> \<not> null_in_required dto
     \<and> ticket_update i (apply_changes dto b (w_now w)) w = (Inr t, w')"
  by (auto simp: prisma_ticket_update_def mok mrun)

lemma find_by_find_ticket:
  assumes "distinct (map tk_id (tickets (w_db w)))" and "find_ticket a i w = (Inr t, w')"
  shows "find_by tk_id i (tickets (w_db w)) = Some t"
  using assms find_ticket_ok [OF assms(1)] find_by_mem [OF assms(1), of t] by auto

definition ticket_set :: "string \<Rightarrow> ticket \<Rightarrow> db \<Rightarrow> db" where
  "ticket_set i t d = d\<lparr>tickets := update_row tk_id i (\<lambda>_. t) (tickets d)\<rparr>"

lemma update_row_found:
  assumes "distinct (map k rows)" and "find_by k i rows = Some r"
  shows "update_row k i f rows = update_row k i (\<lambda>_. f r) rows"
proof -
  have "x = r" if "x \<in> set rows" "k x = i" for x
    using that assms find_by_mem [OF assms(1) that(1)] by simp
  then show ?thesis by (auto simp: update_row_def)
qed

lemma ticket_update_set:
  assumes "distinct (map tk_id (tickets (w_db w)))" and "find_by tk_id i (tickets (w_db w)) = Some old"
    and "ticket_update i f w = (Inr k, v)"
  shows "k = f old \<and> w_db v = ticket_set i k (w_db w) \<and> w_now v = w_now w"
  using assms(2,3) update_row_found [OF assms(1,2), of f]
  by (simp add: ticket_update_ok ticket_set_def)

lemma update_events:
  assumes "andThen (enqueue RK_TicketUpdated p c) (\<lambda>_. if b
      then andThen current_time (\<lambda>s. andThen (enqueue RK_TicketClosed (q s) c) (\<lambda>_. ret k))
      else ret k) v = (Inr t, w')"
  shows "t = k \<and> (\<exists>rows. w_db w' = (w_db v)\<lparr>outbox := outbox (w_db v) @ rows\<rparr>
    \<and> list_all2 (\<lambda>(k, p) r. pending_row k p c r)
        ((RK_TicketUpdated, p) # (if b then [(RK_TicketClosed, q (w_now v))] else [])) rows)"
proof -
  from assms obtain u v1 where 1: "enqueue RK_TicketUpdated p c v = (Inr u, v1)"
    and rest: "(if b then andThen current_time
        (\<lambda>s. andThen (enqueue RK_TicketClosed (q s) c) (\<lambda>_. ret k)) else ret k) v1 = (Inr t, w')"
    by (rule andThen_okE)
  obtain r where r: "w_db v1 = (w_db v)\<lparr>outbox := outbox (w_db v) @ [r]\<rparr>"
      "pending_row RK_TicketUpdated p c r"
    using publisher.put_ok [OF 1] by blast
  have now: "w_now v1 = w_now v" using enqueue_now [OF 1] .
  show ?thesis
  proof (cases b)
    case True
    with rest obtain u' where 2: "enqueue RK_TicketClosed (q (w_now v1)) c v1 = (Inr u', w')"
      and "t = k" by (auto simp: andThen_ok mrun)
    obtain r' where "w_db w' = (w_db v1)\<lparr>outbox := outbox (w_db v1) @ [r']\<rparr>"
        "pending_row RK_TicketClosed (q (w_now v1)) c r'"
      using publisher.put_ok [OF 2] by blast
    with r True now \<open>t = k\<close> show ?thesis
      by (intro conjI exI [of _ "[r, r']"]) simp_all
  next
    case False
    with rest r show ?thesis
      by (intro conjI exI [of _ "[r]"]) (simp_all add: mrun)
  qed
qed

text \<open>The events an update announces, each with its payload.\<close>

definition update_announces ::
  "authenticated_user \<Rightarrow> update_ticket_dto \<Rightarrow> bool \<Rightarrow> time \<Rightarrow> ticket \<Rightarrow> (string \<times> json) list" where
  "update_announces actor dto closes now t =
     (RK_TicketUpdated, ticket_updated_payload t dto (au_id actor))
     # (if closes then [(RK_TicketClosed, ticket_closed_payload t (au_id actor) now)] else [])"

definition update_body ::
  "authenticated_user \<Rightarrow> string \<Rightarrow> update_ticket_dto \<Rightarrow> string option \<Rightarrow> bool \<Rightarrow> ticket op" where
  "update_body actor i dto c b =
     andThen (prisma_ticket_update i dto b) (\<lambda>ticket.
       andThen (enqueue RK_TicketUpdated (ticket_updated_payload ticket dto (au_id actor)) c)
         (\<lambda>_. if b
            then andThen current_time (\<lambda>t.
              andThen (enqueue RK_TicketClosed (ticket_closed_payload ticket (au_id actor) t) c)
                (\<lambda>_. ret ticket))
            else ret ticket))"

definition customer_forbidden :: "authenticated_user \<Rightarrow> update_ticket_dto \<Rightarrow> bool" where
  "customer_forbidden actor dto \<longleftrightarrow>
     au_role actor = CUSTOMER \<and> (is_val (ut_status dto) \<or> is_val (ut_priority dto))"

lemma update_ticket_eq:
  "update_ticket actor i dto c = andThen (find_ticket actor i) (\<lambda>old.
     if customer_forbidden actor dto
     then throw (ForbiddenException ''Customers cannot change status or priority'')
     else transaction (update_body actor i dto c (closing dto old)))"
  unfolding update_ticket_def update_body_def closing_def customer_forbidden_def Let_def ..

lemma update_ticket_errD:
  assumes "update_ticket actor i dto c w = (Inl e, w')"
  shows "w_db w' = w_db w"
proof -
  from assms [unfolded update_ticket_eq] show ?thesis
  proof (cases rule: andThen_errE)
    case first
    then show ?thesis by (auto dest: find_ticket_keeps)
  next
    case (rest old v)
    then have "v = w" by (auto dest: find_ticket_keeps)
    with rest(2) show ?thesis
      by (auto simp: mrun split: if_splits dest: transaction_rollback)
  qed
qed

lemma update_body_okD:
  assumes "distinct (map tk_id (tickets (w_db w)))"
    and "find_by tk_id i (tickets (w_db w)) = Some cur"
    and "update_body actor i dto c b w = (Inr t, w')"
  shows "\<exists>rows. \<not> null_in_required dto \<and> t = apply_changes dto b (w_now w) cur
    \<and> w_db w' = (ticket_set i t (w_db w))\<lparr>outbox := outbox (w_db w) @ rows\<rparr>
    \<and> list_all2 (\<lambda>(k, p) r. pending_row k p c r) (update_announces actor dto b (w_now w) t) rows"
proof -
  obtain k v where upd: "prisma_ticket_update i dto b w = (Inr k, v)"
    and rest: "andThen (enqueue RK_TicketUpdated (ticket_updated_payload k dto (au_id actor)) c)
         (\<lambda>_. if b
            then andThen current_time (\<lambda>t.
              andThen (enqueue RK_TicketClosed (ticket_closed_payload k (au_id actor) t) c)
                (\<lambda>_. ret k))
            else ret k) v = (Inr t, w')"
    using assms(3) [unfolded update_body_def] by (rule andThen_okE)
  have k: "k = apply_changes dto b (w_now w) cur" "\<not> null_in_required dto"
    and v: "w_db v = ticket_set i k (w_db w)" and now: "w_now v = w_now w"
    using ticket_update_set [OF assms(1,2)] upd unfolding prisma_ticket_update_ok by blast+
  obtain rows where "t = k" "w_db w' = (w_db v)\<lparr>outbox := outbox (w_db v) @ rows\<rparr>"
    and rows: "list_all2 (\<lambda>(k, p) r. pending_row k p c r)
        (update_announces actor dto b (w_now w) k) rows"
    using update_events [OF rest] unfolding now update_announces_def by blast
  then have "w_db w' = (ticket_set i t (w_db w))\<lparr>outbox := outbox (w_db w) @ rows\<rparr>"
    by (simp add: v ticket_set_def)
  with k rows show ?thesis unfolding \<open>t = k\<close> by blast
qed

lemma update_ticket_okD:
  assumes "distinct (map tk_id (tickets (w_db w)))" and "update_ticket actor i dto c w = (Inr t, w')"
  shows "\<exists>old rows.
       find_ticket actor i w = (Inr old, w) \<and> \<not> customer_forbidden actor dto
       \<and> t = apply_changes dto (closing dto old) (w_now w) old
       \<and> w_db w' = (ticket_set i t (w_db w))\<lparr>outbox := outbox (w_db w) @ rows\<rparr>
       \<and> list_all2 (\<lambda>(k, p) r. pending_row k p c r)
           (update_announces actor dto (closing dto old) (w_now w) t) rows"
proof -
  from assms(2) [unfolded update_ticket_eq] obtain old v0 where
    f: "find_ticket actor i w = (Inr old, v0)"
    and run: "(if customer_forbidden actor dto
      then throw (ForbiddenException ''Customers cannot change status or priority'')
      else transaction (update_body actor i dto c (closing dto old))) v0 = (Inr t, w')"
    by (rule andThen_okE)
  from f have v0: "v0 = w" by (rule find_ticket_keeps)
  note old = f [unfolded v0]
  from run have role: "\<not> customer_forbidden actor dto"
    and body: "update_body actor i dto c (closing dto old) w = (Inr t, w')"
    by (auto simp: v0 mrun transaction_ok split: if_splits)
  from old role update_body_okD [OF assms(1) find_by_find_ticket [OF assms(1) old] body]
  show ?thesis by blast
qed

text \<open>
  C2. \<open>update\<close>, branch by branch. A success means: the caller can read the ticket, a customer
  sent neither a status nor a priority, the stored ticket is exactly the old one with the sent
  fields applied, and the outbox grew by a PENDING \<open>ticket.updated\<close> row with its payload, followed
  by a \<open>ticket.closed\<close> row if and only if the ticket went from another status to CLOSED; nothing
  else of the database changed. Any exception leaves the database as it was.
\<close>

theorem update_ticket_effect:
  assumes "distinct (map tk_id (tickets (w_db w)))"
  shows "case update_ticket actor i dto c w of
     (Inl e, w') \<Rightarrow> w_db w' = w_db w
   | (Inr t, w') \<Rightarrow> \<exists>old rows.
       find_ticket actor i w = (Inr old, w) \<and> \<not> customer_forbidden actor dto
       \<and> t = apply_changes dto (closing dto old) (w_now w) old
       \<and> w_db w' = (ticket_set i t (w_db w))\<lparr>outbox := outbox (w_db w) @ rows\<rparr>
       \<and> list_all2 (\<lambda>(k, p) r. pending_row k p c r)
           (update_announces actor dto (closing dto old) (w_now w) t) rows"
proof (cases "update_ticket actor i dto c w")
  case (Pair r w')
  show ?thesis
  proof (cases r)
    case (Inl e)
    with Pair update_ticket_errD show ?thesis by fastforce
  next
    case (Inr t)
    with update_ticket_okD [OF assms Pair [unfolded Inr]] Pair show ?thesis by (simp only: prod.case sum.case)
  qed
qed

definition fx_close :: update_ticket_dto where
  "fx_close = \<lparr>ut_title = Undefined, ut_description = Undefined, ut_status = Val CLOSED,
     ut_priority = Undefined, ut_category = Val ''hw''\<rparr>"

theorem update_ticket_effect_witness:
  "\<exists>t w' rows. update_ticket ada ''t1'' fx_close None (fx_world fx_db) = (Inr t, w')
     \<and> tk_closedAt t = Some 1000
     \<and> w_db w' = (ticket_set ''t1'' t fx_db)\<lparr>outbox := rows\<rparr>
     \<and> map ob_routingKey rows = [RK_TicketUpdated, RK_TicketClosed]"
proof -
  have ok: "\<exists>t w'. update_ticket ada ''t1'' fx_close None (fx_world fx_db) = (Inr t, w')"
  proof (cases "update_ticket ada ''t1'' fx_close None (fx_world fx_db)")
    case (Pair r w')
    moreover have "case fst (update_ticket ada ''t1'' fx_close None (fx_world fx_db)) of
        Inl _ \<Rightarrow> False | Inr _ \<Rightarrow> True" by code_simp
    ultimately show ?thesis by (cases r) auto
  qed
  then obtain t w' where r: "update_ticket ada ''t1'' fx_close None (fx_world fx_db) = (Inr t, w')"
    by blast
  have f: "find_ticket ada ''t1'' (fx_world fx_db)
      = (Inr (fx_ticket ''t1'' ''TKT-000001'' ''acme'' ''carol''), fx_world fx_db)"
    by (simp add: fixtures find_ticket_run can_access_def)
  show ?thesis
    using update_ticket_effect [OF fx_ticket_ids, of ada "''t1''" fx_close None] r f
    by (auto simp: fx_world_def closing_def fx_close_def fx_ticket_def apply_changes_def
        fx_db_def empty_db_def update_announces_def list_all2_Cons1 pending_row_def)
qed

section \<open>Assigning\<close>

lemma assign_ticket_errD:
  assumes "assign_ticket actor i dto c w = (Inl e, w')"
  shows "w_db w' = w_db w"
proof -
  from assms [unfolded assign_ticket_def] show ?thesis
  proof (cases rule: andThen_errE)
    case first
    then show ?thesis by (auto dest: find_ticket_keeps)
  next
    case (rest old v)
    then have "v = w" by (auto dest: find_ticket_keeps)
    with rest(2) show ?thesis
      by (auto simp: andThen_err [where m = "read_db _"] mrun split: option.splits
          dest: transaction_rollback)
  qed
qed

definition assign_body ::
  "authenticated_user \<Rightarrow> string \<Rightarrow> assign_ticket_dto \<Rightarrow> string option \<Rightarrow> ticket op" where
  "assign_body actor i dto c =
     andThen (andThen current_time (\<lambda>t. ticket_update i (apply_assign (at_assigneeId dto) t))) (\<lambda>ticket.
       andThen (enqueue RK_TicketAssigned
                  (ticket_assigned_payload ticket (at_assigneeId dto) (au_id actor)) c) (\<lambda>_. ret ticket))"

lemma assign_ticket_eq:
  "assign_ticket actor i dto c = andThen (find_ticket actor i) (\<lambda>_.
     andThen (read_db (\<lambda>d. List.find (assignable actor (at_assigneeId dto)) (users d))) (\<lambda>assignee.
     case assignee of
       None \<Rightarrow> throw (NotFoundException ''Assignee must be an active agent or admin'')
     | Some _ \<Rightarrow> transaction (assign_body actor i dto c)))"
  unfolding assign_ticket_def assign_body_def ..

lemma assign_body_okD:
  assumes "distinct (map tk_id (tickets (w_db w)))"
    and "find_by tk_id i (tickets (w_db w)) = Some cur"
    and "transaction (assign_body actor i dto c) w = (Inr t, w')"
  shows "\<exists>row. t = apply_assign (at_assigneeId dto) (w_now w) cur
    \<and> w_db w' = (ticket_set i t (w_db w))\<lparr>outbox := outbox (w_db w) @ [row]\<rparr>
    \<and> pending_row RK_TicketAssigned
        (ticket_assigned_payload t (at_assigneeId dto) (au_id actor)) c row"
proof -
  obtain v row where
    upd: "andThen current_time (\<lambda>t. ticket_update i (apply_assign (at_assigneeId dto) t)) w
      = (Inr t, v)"
    and row: "w_db w' = (w_db v)\<lparr>outbox := outbox (w_db v) @ [row]\<rparr>"
      "pending_row RK_TicketAssigned
         (ticket_assigned_payload t (at_assigneeId dto) (au_id actor)) c row"
    using publisher.committed_put [OF assms(3) [unfolded assign_body_def]] by blast
  have "ticket_update i (apply_assign (at_assigneeId dto) (w_now w)) w = (Inr t, v)"
    using upd by (simp add: andThen_ok mrun)
  from ticket_update_set [OF assms(1,2) this]
  have t: "t = apply_assign (at_assigneeId dto) (w_now w) cur" and v: "w_db v = ticket_set i t (w_db w)"
    by simp_all
  have "w_db w' = (ticket_set i t (w_db w))\<lparr>outbox := outbox (w_db w) @ [row]\<rparr>"
    using row(1) by (simp add: v ticket_set_def)
  with t row(2) show ?thesis by blast
qed

lemma assign_ticket_okD:
  assumes "distinct (map tk_id (tickets (w_db w)))" and "assign_ticket actor i dto c w = (Inr t, w')"
  shows "\<exists>old u row.
       find_ticket actor i w = (Inr old, w)
       \<and> u \<in> set (users (w_db w)) \<and> assignable actor (at_assigneeId dto) u
       \<and> t = old\<lparr>tk_assignedToId := Some (u_id u), tk_status := IN_PROGRESS,
                 tk_updatedAt := w_now w\<rparr>
       \<and> w_db w' = (ticket_set i t (w_db w))\<lparr>outbox := outbox (w_db w) @ [row]\<rparr>
       \<and> pending_row RK_TicketAssigned
           (ticket_assigned_payload t (at_assigneeId dto) (au_id actor)) c row"
proof -
  from assms(2) [unfolded assign_ticket_eq] obtain old v0 where
    f: "find_ticket actor i w = (Inr old, v0)"
    and run: "andThen (read_db (\<lambda>d. List.find (assignable actor (at_assigneeId dto)) (users d)))
     (\<lambda>assignee. case assignee of
       None \<Rightarrow> throw (NotFoundException ''Assignee must be an active agent or admin'')
     | Some _ \<Rightarrow> transaction (assign_body actor i dto c)) v0 = (Inr t, w')"
    by (rule andThen_okE)
  from f have v0: "v0 = w" by (rule find_ticket_keeps)
  note old = f [unfolded v0]
  from run obtain u where
    u: "List.find (assignable actor (at_assigneeId dto)) (users (w_db w)) = Some u"
    and tx: "transaction (assign_body actor i dto c) w = (Inr t, w')"
    by (auto simp: v0 andThen_ok [where m = "read_db _"] mrun split: option.splits)
  obtain row where t: "t = apply_assign (at_assigneeId dto) (w_now w) old"
    and w': "w_db w' = (ticket_set i t (w_db w))\<lparr>outbox := outbox (w_db w) @ [row]\<rparr>"
    and row: "pending_row RK_TicketAssigned
        (ticket_assigned_payload t (at_assigneeId dto) (au_id actor)) c row"
    using assign_body_okD [OF assms(1) find_by_find_ticket [OF assms(1) old] tx] by blast
  have as: "u \<in> set (users (w_db w))" "assignable actor (at_assigneeId dto) u"
    using find_SomeD [OF u] by simp_all
  then have "t = old\<lparr>tk_assignedToId := Some (u_id u), tk_status := IN_PROGRESS,
               tk_updatedAt := w_now w\<rparr>"
    by (simp add: t apply_assign_def assignable_def)
  with old as w' row show ?thesis by blast
qed

text \<open>
  \<open>assign\<close>: a success means the caller can read the ticket and the assignee is an active
  agent or admin of the caller's organization; the ticket then is assigned, IN_PROGRESS, and
  otherwise unchanged, one \<open>ticket.assigned\<close> row is enqueued, and nothing else changes. If no
  such assignee exists the answer is 404; any exception leaves the database as it was.
\<close>

theorem assign_ticket_effect:
  assumes "distinct (map tk_id (tickets (w_db w)))"
  shows "case assign_ticket actor i dto c w of
     (Inl e, w') \<Rightarrow> w_db w' = w_db w
   | (Inr t, w') \<Rightarrow> \<exists>old u row.
       find_ticket actor i w = (Inr old, w)
       \<and> u \<in> set (users (w_db w)) \<and> assignable actor (at_assigneeId dto) u
       \<and> t = old\<lparr>tk_assignedToId := Some (u_id u), tk_status := IN_PROGRESS,
                 tk_updatedAt := w_now w\<rparr>
       \<and> w_db w' = (ticket_set i t (w_db w))\<lparr>outbox := outbox (w_db w) @ [row]\<rparr>
       \<and> pending_row RK_TicketAssigned
           (ticket_assigned_payload t (at_assigneeId dto) (au_id actor)) c row"
proof (cases "assign_ticket actor i dto c w")
  case (Pair r w')
  show ?thesis
  proof (cases r)
    case (Inl e)
    with Pair assign_ticket_errD show ?thesis by fastforce
  next
    case (Inr t)
    with assign_ticket_okD [OF assms Pair [unfolded Inr]] Pair show ?thesis by (simp only: prod.case sum.case)
  qed
qed

definition fx_assign :: assign_ticket_dto where
  "fx_assign = \<lparr>at_assigneeId = ''alex''\<rparr>"

theorem assign_ticket_effect_witness:
  "\<exists>t w' row. assign_ticket ada ''t1'' fx_assign (Some ''cid'') (fx_world fx_db) = (Inr t, w')
     \<and> w_db w' = (ticket_set ''t1'' t fx_db)\<lparr>outbox := [row]\<rparr>
     \<and> ob_routingKey row = RK_TicketAssigned \<and> ob_correlationId row = Some ''cid''"
proof (cases "assign_ticket ada ''t1'' fx_assign (Some ''cid'') (fx_world fx_db)")
  case (Pair r w')
  moreover have "case fst (assign_ticket ada ''t1'' fx_assign (Some ''cid'') (fx_world fx_db)) of
      Inl _ \<Rightarrow> False | Inr _ \<Rightarrow> True" by code_simp
  ultimately obtain t where r: "r = Inr t" by (cases r) auto
  with assign_ticket_effect [OF fx_ticket_ids, of ada "''t1''" fx_assign "Some ''cid''"] Pair
  show ?thesis by (auto simp: pending_row_def fx_world_def fx_db_def empty_db_def)
qed

section \<open>Histories of tickets\<close>

text \<open>
  \<open>ticket_step\<close>: any caller runs any of the writing operations with any input, successfully or
  not, or time passes.
\<close>

inductive ticket_step :: "world \<Rightarrow> world \<Rightarrow> bool" where
  step_create: "create_ticket actor dto c w = (r, w') \<Longrightarrow> ticket_step w w'"
| step_update: "update_ticket actor i dto c w = (r, w') \<Longrightarrow> ticket_step w w'"
| step_assign: "assign_ticket actor i dto c w = (r, w') \<Longrightarrow> ticket_step w w'"
| step_time: "ticket_step w (w\<lparr>w_now := t\<rparr>)"

definition tickets_ok :: "db \<Rightarrow> bool" where
  "tickets_ok d \<longleftrightarrow> distinct (map tk_id (tickets d)) \<and> distinct (map tk_reference (tickets d))
     \<and> (\<forall>t\<in>set (tickets d). tk_status t = CLOSED \<longrightarrow> tk_closedAt t \<noteq> None)"

text \<open>What a ticket keeps for life.\<close>

definition ticket_identity :: "ticket \<Rightarrow> string \<times> string \<times> string \<times> string \<times> time" where
  "ticket_identity t = (tk_id t, tk_reference t, tk_organizationId t, tk_createdById t,
     tk_createdAt t)"

definition identities :: "db \<Rightarrow> (string \<times> string \<times> string \<times> string \<times> time) list" where
  "identities d = map ticket_identity (tickets d)"

lemma distinct_identities:
  assumes "identities d' = identities d"
  shows "map tk_id (tickets d') = map tk_id (tickets d)"
    and "map tk_reference (tickets d') = map tk_reference (tickets d)"
  using assms unfolding identities_def
  by (auto simp: ticket_identity_def list_eq_iff_nth_eq dest: map_eq_imp_length_eq)

lemma ticket_set_step:
  assumes ok: "tickets_ok (w_db w)"
    and found: "find_by tk_id i (tickets (w_db w)) = Some old"
    and same: "ticket_identity t = ticket_identity old"
    and closed: "tk_status t = CLOSED \<Longrightarrow> tk_closedAt old \<noteq> None \<or> tk_status old \<noteq> CLOSED
      \<Longrightarrow> tk_closedAt t \<noteq> None"
    and d: "w_db w' = (ticket_set i t (w_db w))\<lparr>outbox := os\<rparr>"
  shows "tickets_ok (w_db w') \<and> identities (w_db w') = identities (w_db w)"
proof -
  have dist: "distinct (map tk_id (tickets (w_db w)))" using ok by (simp add: tickets_ok_def)
  have old: "old \<in> set (tickets (w_db w))" "tk_id old = i"
    using find_by_Some [OF found] by simp_all
  have only: "x = old" if "x \<in> set (tickets (w_db w))" "tk_id x = i" for x
    using that old dist by (auto simp: distinct_map inj_on_def)
  have ts: "tickets (w_db w') = map (\<lambda>x. if tk_id x = i then t else x) (tickets (w_db w))"
    by (simp add: d ticket_set_def update_row_def)
  have idn: "identities (w_db w') = identities (w_db w)"
    unfolding identities_def ts using same only by auto
  have "tk_closedAt t \<noteq> None" if "tk_status t = CLOSED"
    using closed [OF that] old(1) ok by (auto simp: tickets_ok_def)
  then have "\<forall>x\<in>set (tickets (w_db w')). tk_status x = CLOSED \<longrightarrow> tk_closedAt x \<noteq> None"
    using ok by (auto simp: ts tickets_ok_def)
  with idn ok distinct_identities [OF idn] show ?thesis by (simp add: tickets_ok_def)
qed

text \<open>A step keeps the identities, or it is a creation and adds one.\<close>

lemma ticket_step_adds:
  assumes "ticket_step w w'" and "tickets_ok (w_db w)"
  shows "tickets_ok (w_db w') \<and> (identities (w_db w') = identities (w_db w)
    \<or> (\<exists>actor dto c t. create_ticket actor dto c w = (Inr t, w')
        \<and> identities (w_db w') = identities (w_db w) @ [ticket_identity t]))"
  using assms
proof (cases rule: ticket_step.cases)
  case (step_create actor dto c r)
  show ?thesis
  proof (cases r)
    case (Inl e)
    with step_create create_ticket_errD assms(2) show ?thesis by fastforce
  next
    case (Inr t)
    from create_ticket_okD [OF step_create [unfolded Inr]] obtain os where
      t: "tk_status t = OPEN" "\<not> ticket_exists (w_db w) (tk_id t)"
        "\<forall>r\<in>set (tickets (w_db w)). tk_reference r \<noteq> tk_reference t"
      and ts: "tickets (w_db w') = tickets (w_db w) @ [t]"
      by (auto simp: new_ticket_def)
    have "tickets_ok (w_db w')"
      using assms(2) t by (auto simp: tickets_ok_def ts ticket_exists_iff)
    moreover have "identities (w_db w') = identities (w_db w) @ [ticket_identity t]"
      by (simp add: identities_def ts)
    ultimately show ?thesis using step_create Inr by blast
  qed
next
  case (step_update actor i dto c r)
  show ?thesis
  proof (cases r)
    case (Inl e)
    with step_update update_ticket_errD assms(2) show ?thesis by fastforce
  next
    case (Inr t)
    have dist: "distinct (map tk_id (tickets (w_db w)))" using assms(2) by (simp add: tickets_ok_def)
    from update_ticket_okD [OF dist step_update [unfolded Inr]] obtain old rows where
      old: "find_ticket actor i w = (Inr old, w)"
      and t: "t = apply_changes dto (closing dto old) (w_now w) old"
      and d: "w_db w' = (ticket_set i t (w_db w))\<lparr>outbox := outbox (w_db w) @ rows\<rparr>" by blast
    have "ticket_identity t = ticket_identity old"
      by (simp add: t ticket_identity_def apply_changes_def)
    moreover have "tk_closedAt t \<noteq> None"
      if "tk_status t = CLOSED" "tk_closedAt old \<noteq> None \<or> tk_status old \<noteq> CLOSED"
      using that by (cases "ut_status dto") (auto simp: t apply_changes_def closing_def)
    ultimately show ?thesis using ticket_set_step [OF assms(2) find_by_find_ticket [OF dist old] _ _ d] by simp
  qed
next
  case (step_assign actor i dto c r)
  show ?thesis
  proof (cases r)
    case (Inl e)
    with step_assign assign_ticket_errD assms(2) show ?thesis by fastforce
  next
    case (Inr t)
    have dist: "distinct (map tk_id (tickets (w_db w)))" using assms(2) by (simp add: tickets_ok_def)
    from assign_ticket_okD [OF dist step_assign [unfolded Inr]] obtain old and u :: user and row where
      old: "find_ticket actor i w = (Inr old, w)"
      and t: "t = old\<lparr>tk_assignedToId := Some (u_id u), tk_status := IN_PROGRESS,
                 tk_updatedAt := w_now w\<rparr>"
      and d: "w_db w' = (ticket_set i t (w_db w))\<lparr>outbox := outbox (w_db w) @ [row]\<rparr>" by blast
    have "ticket_identity t = ticket_identity old" by (simp add: t ticket_identity_def)
    moreover have "tk_status t \<noteq> CLOSED" by (simp add: t)
    ultimately show ?thesis using ticket_set_step [OF assms(2) find_by_find_ticket [OF dist old] _ _ d] by simp
  qed
next
  case (step_time t)
  with assms(2) show ?thesis by simp
qed

lemma ticket_step_ok:
  assumes "ticket_step w w'" and "tickets_ok (w_db w)"
  shows "tickets_ok (w_db w') \<and> (\<exists>new. identities (w_db w') = identities (w_db w) @ new)"
  using ticket_step_adds [OF assms] by auto

text \<open>
  Whatever sequence of create, update and assign calls is made, by whomever and with
  whatever input: ids and references stay unique, every CLOSED ticket has its closing time, no
  ticket disappears, and a ticket never changes its id, reference, organization, creator or
  creation time.
\<close>

theorem ticket_histories:
  assumes "ticket_step\<^sup>*\<^sup>* w w'" and "tickets_ok (w_db w)"
  shows "tickets_ok (w_db w') \<and> (\<exists>new. identities (w_db w') = identities (w_db w) @ new)"
  using assms(1)
proof (induction rule: rtranclp_induct)
  case base
  with assms(2) show ?case by simp
next
  case (step v w')
  with ticket_step_ok [OF step.hyps(2)] show ?case by auto
qed

theorem ticket_histories_witness:
  "tickets_ok (db_after (update_ticket ada ''t1'' fx_close None) (fx_world fx_db))
   \<and> (\<exists>new. identities (db_after (update_ticket ada ''t1'' fx_close None) (fx_world fx_db))
        = identities fx_db @ new)"
proof -
  let ?m = "update_ticket ada ''t1'' fx_close None"
  have "ticket_step (fx_world fx_db) (snd (?m (fx_world fx_db)))"
    by (rule step_update) (rule prod.collapse [symmetric])
  then have "ticket_step\<^sup>*\<^sup>* (fx_world fx_db) (snd (?m (fx_world fx_db)))" by blast
  from ticket_histories [OF this]
  show ?thesis by (simp add: db_after_def fx_world_def tickets_ok_def fx_db_def fx_ticket_def)
qed

end
