(* ===== verification/Comments.thy ===== *)
theory Comments
  imports Tickets
begin

text \<open>
  \<open>comments/comments.service.ts\<close>: comments on a ticket the caller can read, internal notes that
  customers neither write nor see, and the \<open>comment.created\<close> event. Access control is the
  tickets service's \<open>findOne\<close>, used through the interface \<open>ticket_access\<close>.
\<close>

record create_comment_dto =
  cc_body :: string
  cc_isInternal :: "bool field"

definition new_comment ::
  "string \<Rightarrow> time \<Rightarrow> string \<Rightarrow> string \<Rightarrow> string \<Rightarrow> bool \<Rightarrow> comment" where
  "new_comment i t ticketId authorId body isInternal =
     \<lparr>cm_id = i, cm_ticketId = ticketId, cm_authorId = authorId, cm_body = body,
      cm_isInternal = isInternal, cm_createdAt = t, cm_updatedAt = t\<rparr>"

definition prisma_comment_create ::
  "string \<Rightarrow> string \<Rightarrow> string \<Rightarrow> bool \<Rightarrow> comment op" where
  "prisma_comment_create ticketId authorId body isInternal =
     andThen randomUUID (\<lambda>i.
     andThen current_time (\<lambda>t.
     let c = new_comment i t ticketId authorId body isInternal
     in andThen (write_db (comment_insert c)) (\<lambda>_. ret c)))"

definition comment_created_payload :: "comment \<Rightarrow> authenticated_user \<Rightarrow> json" where
  "comment_created_payload c actor =
     JObj [(''commentId'', JStr (cm_id c)), (''ticketId'', JStr (cm_ticketId c)),
       (''organizationId'', JStr (au_organizationId actor)), (''authorId'', JStr (au_id actor)),
       (''isInternal'', JBool (cm_isInternal c))]"

definition internal_flag :: "authenticated_user \<Rightarrow> create_comment_dto \<Rightarrow> bool" where
  "internal_flag actor dto =
     (if au_role actor = CUSTOMER then False else nullish (cc_isInternal dto) False)"

definition create_comment ::
  "authenticated_user \<Rightarrow> string \<Rightarrow> create_comment_dto \<Rightarrow> string option \<Rightarrow> comment op" where
  "create_comment actor ticketId dto correlationId =
     andThen (find_ticket actor ticketId) (\<lambda>_.
     let isInternal = internal_flag actor dto
     in transaction (
          andThen (prisma_comment_create ticketId (au_id actor) (cc_body dto) isInternal) (\<lambda>c.
          andThen (enqueue RK_CommentCreated (comment_created_payload c actor) correlationId) (\<lambda>_.
          ret c))))"

definition comments_where :: "authenticated_user \<Rightarrow> string \<Rightarrow> comment \<Rightarrow> bool" where
  "comments_where actor ticketId c \<longleftrightarrow> cm_ticketId c = ticketId
     \<and> (if au_role actor = CUSTOMER then \<not> cm_isInternal c else True)"

definition comments_for_ticket ::
  "(order_by \<Rightarrow> comment list \<Rightarrow> comment list) \<Rightarrow> authenticated_user \<Rightarrow> string \<Rightarrow> page_query
    \<Rightarrow> comment paginated op"
where
  "comments_for_ticket ord actor ticketId q =
     andThen (find_ticket actor ticketId) (\<lambda>_.
     read_db (\<lambda>d. list_page ord (comments_where actor ticketId) (''createdAt'', Asc) q (comments d)))"

section \<open>Reading\<close>

text \<open>
  C26. Reading a conversation: the request succeeds only for a caller who may read the ticket;
  then every comment returned belongs to that ticket, none returned to a customer is internal,
  and \<open>meta.total\<close> counts exactly the visible ones, so a customer cannot tell that internal
  notes exist; staff see all comments of the ticket. Nothing is written.
\<close>

theorem comments_visibility:
  assumes "permutes_rows ord" and "comments_for_ticket ord actor i q w = (Inr page, w')"
  shows "w' = w
    \<and> (\<exists>t\<in>set (tickets (w_db w)). tk_id t = i \<and> can_access actor t)
    \<and> (\<forall>c\<in>set (items page). c \<in> set (comments (w_db w)) \<and> cm_ticketId c = i
         \<and> (au_role actor = CUSTOMER \<longrightarrow> \<not> cm_isInternal c))
    \<and> m_total (meta page) = (if au_role actor = CUSTOMER
         then length (filter (\<lambda>c. cm_ticketId c = i \<and> \<not> cm_isInternal c) (comments (w_db w)))
         else length (filter (\<lambda>c. cm_ticketId c = i) (comments (w_db w))))"
proof -
  let ?page = "list_page ord (comments_where actor i) (''createdAt'', Asc) q (comments (w_db w))"
  obtain t where t: "t \<in> set (tickets (w_db w))" "tk_id t = i" "can_access actor t"
    and run: "read_db (\<lambda>d. list_page ord (comments_where actor i) (''createdAt'', Asc) q
        (comments d)) w = (Inr page, w')"
    using tickets_service.guarded_ok [OF assms(2) [unfolded comments_for_ticket_def]] by blast
  then have page: "page = ?page" and w': "w' = w" by (auto simp: run_basic)
  have "c \<in> set (comments (w_db w)) \<and> cm_ticketId c = i
      \<and> (au_role actor = CUSTOMER \<longrightarrow> \<not> cm_isInternal c)" if "c \<in> set (items page)" for c
    using list_page_sound [OF assms(1) that [unfolded page]]
    by (auto simp: comments_where_def split: if_splits)
  moreover have "comments_where actor i = (if au_role actor = CUSTOMER
      then (\<lambda>c. cm_ticketId c = i \<and> \<not> cm_isInternal c) else (\<lambda>c. cm_ticketId c = i))"
    by (rule ext) (simp add: comments_where_def)
  then have "m_total (meta page) = (if au_role actor = CUSTOMER
         then length (filter (\<lambda>c. cm_ticketId c = i \<and> \<not> cm_isInternal c) (comments (w_db w)))
         else length (filter (\<lambda>c. cm_ticketId c = i) (comments (w_db w))))"
    by (simp add: page list_page_total)
  ultimately show ?thesis using t w' by blast
qed

definition fx_comment :: "string \<Rightarrow> bool \<Rightarrow> comment" where
  "fx_comment i b = new_comment i 0 ''t1'' ''alex'' ''hello'' b"

definition fx_talk :: world where
  "fx_talk = fx_world (fx_db\<lparr>comments := [fx_comment ''c1'' False, fx_comment ''c2'' True]\<rparr>)"

definition fx_first_page :: page_query where
  "fx_first_page = \<lparr>q_page = None, q_limit = None, q_sort = None, q_search = None\<rparr>"

theorem comments_visibility_witness:
  "\<exists>page. comments_for_ticket (\<lambda>_ xs. xs) carol ''t1'' fx_first_page fx_talk = (Inr page, fx_talk)
     \<and> m_total (meta page) = 1 \<and> (\<forall>c\<in>set (items page). \<not> cm_isInternal c)"
proof -
  have p: "permutes_rows (\<lambda>_ (xs :: comment list). xs)" by (simp add: permutes_rows_def)
  have "succeeds (comments_for_ticket (\<lambda>_ xs. xs) carol ''t1'' fx_first_page) fx_talk" by code_simp
  then obtain page where r: "comments_for_ticket (\<lambda>_ xs. xs) carol ''t1'' fx_first_page fx_talk
      = (Inr page, snd (comments_for_ticket (\<lambda>_ xs. xs) carol ''t1'' fx_first_page fx_talk))"
    by (rule succeedsE)
  have c: "au_role carol = CUSTOMER" by (simp add: fixtures)
  have n: "length (filter (\<lambda>c. cm_ticketId c = ''t1'' \<and> \<not> cm_isInternal c)
      (comments (w_db fx_talk))) = 1"
    by (simp add: fx_talk_def fx_comment_def new_comment_def fixtures)
  note v = comments_visibility [OF p r]
  then have "comments_for_ticket (\<lambda>_ xs. xs) carol ''t1'' fx_first_page fx_talk = (Inr page, fx_talk)"
    using r by simp
  with v c n show ?thesis by auto
qed

section \<open>Writing\<close>

lemma prisma_comment_create_ok:
  "prisma_comment_create i a b f w = (Inr c, w') \<Longrightarrow>
     c = new_comment (w_uuid w (w_next w)) (w_now w) i a b f
   \<and> w_db w' = (w_db w)\<lparr>comments := comments (w_db w) @ [c]\<rparr>"
  by (auto simp: prisma_comment_create_def runs Let_def comment_insert_def split: if_splits)

lemma create_comment_errD:
  assumes "create_comment actor i dto c w = (Inl e, w')"
  shows "w_db w' = w_db w"
  using assms unfolding create_comment_def
proof (cases rule: andThen_errE)
  case first
  then show ?thesis by (auto dest: find_ticket_keeps)
next
  case (rest t v)
  then have "v = w" by (auto dest: find_ticket_keeps)
  with rest(2) show ?thesis by (auto simp: Let_def dest: transaction_rollback)
qed

lemma create_comment_okD:
  assumes "create_comment actor i dto cid w = (Inr c, w')"
  shows "(\<exists>t\<in>set (tickets (w_db w)). tk_id t = i \<and> can_access actor t)
       \<and> cm_ticketId c = i \<and> cm_authorId c = au_id actor \<and> cm_body c = cc_body dto
       \<and> cm_isInternal c = internal_flag actor dto
       \<and> \<not> (au_role actor = CUSTOMER \<and> cm_isInternal c)
       \<and> (\<exists>row. w_db w' = (w_db w)\<lparr>comments := comments (w_db w) @ [c],
              outbox := outbox (w_db w) @ [row]\<rparr>
            \<and> pending_row RK_CommentCreated (comment_created_payload c actor) cid row)"
proof -
  obtain t where t: "t \<in> set (tickets (w_db w))" "tk_id t = i" "can_access actor t"
    and tx: "(let isInternal = internal_flag actor dto in transaction (
        andThen (prisma_comment_create i (au_id actor) (cc_body dto) isInternal) (\<lambda>c.
        andThen (enqueue RK_CommentCreated (comment_created_payload c actor) cid) (\<lambda>_.
        ret c)))) w = (Inr c, w')"
    using tickets_service.guarded_ok [OF assms [unfolded create_comment_def]] by blast
  obtain v row where
    m: "prisma_comment_create i (au_id actor) (cc_body dto) (internal_flag actor dto) w = (Inr c, v)"
    and row: "w_db w' = (w_db v)\<lparr>outbox := outbox (w_db v) @ [row]\<rparr>"
      "pending_row RK_CommentCreated (comment_created_payload c actor) cid row"
    using publisher.committed_put [OF tx [unfolded Let_def]] by blast
  note c = prisma_comment_create_ok [OF m]
  have "w_db w' = (w_db w)\<lparr>comments := comments (w_db w) @ [c], outbox := outbox (w_db w) @ [row]\<rparr>"
    using c row(1) by simp
  moreover have "cm_ticketId c = i \<and> cm_authorId c = au_id actor \<and> cm_body c = cc_body dto
      \<and> cm_isInternal c = internal_flag actor dto"
    using c by (simp add: new_comment_def)
  moreover have "\<not> (au_role actor = CUSTOMER \<and> internal_flag actor dto)"
    by (simp add: internal_flag_def)
  ultimately show ?thesis using t row(2) by auto
qed

text \<open>
  Writing a comment: a success means the caller may read the ticket; exactly one comment, by
  the caller, on that ticket, is added together with exactly one \<open>comment.created\<close> row that
  carries its internal flag; the flag is the requested one for staff and false for a customer,
  whatever the customer sent. A failure changes nothing.
\<close>

theorem create_comment_effect:
  "case create_comment actor i dto cid w of
     (Inl e, w') \<Rightarrow> w_db w' = w_db w
   | (Inr c, w') \<Rightarrow>
       (\<exists>t\<in>set (tickets (w_db w)). tk_id t = i \<and> can_access actor t)
       \<and> cm_ticketId c = i \<and> cm_authorId c = au_id actor \<and> cm_body c = cc_body dto
       \<and> cm_isInternal c = internal_flag actor dto
       \<and> \<not> (au_role actor = CUSTOMER \<and> cm_isInternal c)
       \<and> (\<exists>row. w_db w' = (w_db w)\<lparr>comments := comments (w_db w) @ [c],
              outbox := outbox (w_db w) @ [row]\<rparr>
            \<and> pending_row RK_CommentCreated (comment_created_payload c actor) cid row)"
proof (cases "create_comment actor i dto cid w")
  case (Pair r w')
  show ?thesis
  proof (cases r)
    case (Inl e)
    with Pair create_comment_errD [of actor i dto cid w e w'] show ?thesis by simp
  next
    case (Inr c)
    show ?thesis unfolding Pair Inr prod.case sum.case
      by (rule create_comment_okD [OF Pair [unfolded Inr]])
  qed
qed

definition fx_note :: create_comment_dto where
  "fx_note = \<lparr>cc_body = ''psst'', cc_isInternal = Val True\<rparr>"

theorem create_comment_effect_witness:
  "\<exists>c w'. create_comment carol ''t1'' fx_note None fx_talk = (Inr c, w') \<and> \<not> cm_isInternal c
     \<and> length (outbox (w_db w')) = 1"
proof -
  have "succeeds (create_comment carol ''t1'' fx_note None) fx_talk" by code_simp
  then obtain c where r: "create_comment carol ''t1'' fx_note None fx_talk
      = (Inr c, snd (create_comment carol ''t1'' fx_note None fx_talk))" by (rule succeedsE)
  have s: "au_role carol = CUSTOMER" "outbox (w_db fx_talk) = []"
    by (simp_all add: fixtures fx_talk_def)
  show ?thesis
    using create_comment_effect [where actor = carol and i = "''t1''" and dto = fx_note
        and cid = None and w = fx_talk] s
    by (subst (asm) r) (rule exI [of _ c], rule exI, rule conjI [OF r], auto)
qed

end
