(* ===== verification/OutboxRelay.thy ===== *)
theory OutboxRelay
  imports Messaging Fixtures
begin

text \<open>
  \<open>messaging/outbox-relay.service.ts\<close>: the poller that publishes PENDING outbox rows. A tick works
  on the service's two flags, the database, and the list of messages the broker accepted. What
  the broker and the database answer is an input: \<open>io\<close> gives, for each row, the error of the
  publish, of the update to DISPATCHED and of the update that records a failure (\<open>None\<close> is
  success). The rows the database orders first are chosen by \<open>ord\<close>, of which the properties
  assume only that it permutes the rows.
\<close>

record relay_config =
  rl_exchange :: string
  rl_batchSize :: nat
  rl_maxAttempts :: nat

record publication =
  pb_exchange :: string
  pb_routingKey :: string
  pb_event :: domain_event
  pb_messageId :: string
  pb_correlationId :: "string option"

record row_io =
  io_publish :: "string option"
  io_update :: "string option"
  io_record :: "string option"

record relay_state =
  rs_world :: world
  rs_sent :: "publication list"
  rs_running :: bool
  rs_stopped :: bool

definition onModuleDestroy :: "relay_state \<Rightarrow> relay_state" where
  "onModuleDestroy s = s\<lparr>rs_stopped := True\<rparr>"

definition event_of :: "event_outbox \<Rightarrow> time \<Rightarrow> domain_event" where
  "event_of row t = \<lparr>ev_eventId = ob_id row, ev_routingKey = ob_routingKey row,
     ev_occurredAt = toISOString t, ev_correlationId = ob_correlationId row,
     ev_payload = ob_payload row\<rparr>"

definition publication_of :: "relay_config \<Rightarrow> event_outbox \<Rightarrow> time \<Rightarrow> publication" where
  "publication_of cfg row t = \<lparr>pb_exchange = rl_exchange cfg, pb_routingKey = ob_routingKey row,
     pb_event = event_of row t, pb_messageId = ob_id row, pb_correlationId = ob_correlationId row\<rparr>"

definition outbox_set :: "string \<Rightarrow> (event_outbox \<Rightarrow> event_outbox) \<Rightarrow> relay_state \<Rightarrow> relay_state" where
  "outbox_set i f s = s\<lparr>rs_world := (rs_world s)\<lparr>w_db := (w_db (rs_world s))\<lparr>outbox :=
     update_row ob_id i f (outbox (w_db (rs_world s)))\<rparr>\<rparr>\<rparr>"

text \<open>\<open>prisma.eventOutbox.update\<close>: fails as \<open>err\<close> says, or with P2025 when the row is missing.\<close>

definition prisma_outbox_update ::
  "string option \<Rightarrow> string \<Rightarrow> (event_outbox \<Rightarrow> event_outbox) \<Rightarrow> relay_state
    \<Rightarrow> string option \<times> relay_state"
where
  "prisma_outbox_update err i f s =
     (case err of
        Some m \<Rightarrow> (Some m, s)
      | None \<Rightarrow>
          (case find_by ob_id i (outbox (w_db (rs_world s))) of
             None \<Rightarrow> (Some ''P2025'', s)
           | Some _ \<Rightarrow> (None, outbox_set i f s)))"

definition mark_dispatched :: "time \<Rightarrow> event_outbox \<Rightarrow> event_outbox" where
  "mark_dispatched t r = r\<lparr>ob_status := Outbox_DISPATCHED, ob_dispatchedAt := Some t\<rparr>"

definition mark_failure :: "nat \<Rightarrow> bool \<Rightarrow> string \<Rightarrow> event_outbox \<Rightarrow> event_outbox" where
  "mark_failure attempts exhausted m r =
     r\<lparr>ob_attempts := attempts,
       ob_status := (if exhausted then Outbox_FAILED else Outbox_PENDING),
       ob_lastError := Some m\<rparr>"

text \<open>The result is the error that escapes \<open>publishRow\<close>, if any.\<close>

definition publishRow ::
  "relay_config \<Rightarrow> row_io \<Rightarrow> event_outbox \<Rightarrow> relay_state \<Rightarrow> string option \<times> relay_state" where
  "publishRow cfg io row s =
     (let t = w_now (rs_world s);
          (err, s') =
            (case io_publish io of
               Some m \<Rightarrow> (Some m, s)
             | None \<Rightarrow>
                 prisma_outbox_update (io_update io) (ob_id row) (mark_dispatched t)
                   (s\<lparr>rs_sent := rs_sent s @ [publication_of cfg row t]\<rparr>))
      in case err of
           None \<Rightarrow> (None, s')
         | Some m \<Rightarrow>
             (let attempts = ob_attempts row + 1; exhausted = (rl_maxAttempts cfg \<le> attempts)
              in prisma_outbox_update (io_record io) (ob_id row) (mark_failure attempts exhausted m) s'))"

fun publish_rows ::
  "relay_config \<Rightarrow> (string \<Rightarrow> row_io) \<Rightarrow> event_outbox list \<Rightarrow> relay_state \<Rightarrow> relay_state" where
  "publish_rows cfg io [] s = s"
| "publish_rows cfg io (row # rows) s =
     (case publishRow cfg (io (ob_id row)) row s of
        (None, s') \<Rightarrow> publish_rows cfg io rows s'
      | (Some _, s') \<Rightarrow> s')"

definition pending_rows :: "db \<Rightarrow> event_outbox list" where
  "pending_rows d = filter (\<lambda>r. ob_status r = Outbox_PENDING) (outbox d)"

definition dispatchPending ::
  "relay_config \<Rightarrow> (event_outbox list \<Rightarrow> event_outbox list) \<Rightarrow> bool \<Rightarrow> (string \<Rightarrow> row_io)
    \<Rightarrow> relay_state \<Rightarrow> relay_state"
where
  "dispatchPending cfg ord find_fails io s =
     (if rs_running s \<or> rs_stopped s then s
      else if find_fails then s
      else (let pending = take (rl_batchSize cfg) (ord (pending_rows (w_db (rs_world s))))
            in publish_rows cfg io pending (s\<lparr>rs_running := True\<rparr>))\<lparr>rs_running := False\<rparr>)"

definition permutes_outbox :: "(event_outbox list \<Rightarrow> event_outbox list) \<Rightarrow> bool" where
  "permutes_outbox ord \<longleftrightarrow> (\<forall>rows. mset (ord rows) = mset rows)"

lemma permutes_outbox_set: "permutes_outbox ord \<Longrightarrow> set (ord rows) = set rows"
  by (metis permutes_outbox_def set_mset_mset)

section \<open>Rows\<close>

definition relay_outbox :: "relay_state \<Rightarrow> event_outbox list" where
  "relay_outbox s = outbox (w_db (rs_world s))"

lemma outbox_set_simps [simp]:
  "relay_outbox (outbox_set i f s) = update_row ob_id i f (relay_outbox s)"
  "rs_sent (outbox_set i f s) = rs_sent s" "rs_running (outbox_set i f s) = rs_running s"
  "rs_stopped (outbox_set i f s) = rs_stopped s"
  "w_now (rs_world (outbox_set i f s)) = w_now (rs_world s)"
  by (simp_all add: outbox_set_def relay_outbox_def)

lemma relay_outbox_upd [simp]:
  "relay_outbox (s\<lparr>rs_sent := x\<rparr>) = relay_outbox s"
  "relay_outbox (s\<lparr>rs_running := b\<rparr>) = relay_outbox s"
  by (simp_all add: relay_outbox_def)

lemma mark_simps [simp]:
  "ob_id (mark_dispatched t r) = ob_id r" "ob_status (mark_dispatched t r) = Outbox_DISPATCHED"
  "ob_attempts (mark_dispatched t r) = ob_attempts r"
  "ob_id (mark_failure n b m r) = ob_id r" "ob_attempts (mark_failure n b m r) = n"
  "ob_status (mark_failure n b m r) = (if b then Outbox_FAILED else Outbox_PENDING)"
  by (simp_all add: mark_dispatched_def mark_failure_def)

text \<open>What one call of \<open>publishRow\<close> can do to the table and to the broker.\<close>

lemma publishRow_cases:
  assumes "publishRow cfg io row s = (err, s')" and "ob_id row \<in> ob_id ` set (relay_outbox s)"
  obtains
    (dispatched) "err = None" "io_publish io = None" "io_update io = None"
      "relay_outbox s' = update_row ob_id (ob_id row) (mark_dispatched (w_now (rs_world s)))
         (relay_outbox s)"
      "rs_sent s' = rs_sent s @ [publication_of cfg row (w_now (rs_world s))]"
  | (failed) m where "err = None"
      "relay_outbox s' = update_row ob_id (ob_id row) (mark_failure (ob_attempts row + 1)
         (rl_maxAttempts cfg \<le> ob_attempts row + 1) m) (relay_outbox s)"
      "rs_sent s' = rs_sent s \<or> rs_sent s' = rs_sent s @ [publication_of cfg row (w_now (rs_world s))]"
  | (aborted) "err \<noteq> None" "relay_outbox s' = relay_outbox s"
      "rs_sent s' = rs_sent s \<or> rs_sent s' = rs_sent s @ [publication_of cfg row (w_now (rs_world s))]"
proof -
  let ?t = "w_now (rs_world s)"
  let ?sent = "s\<lparr>rs_sent := rs_sent s @ [publication_of cfg row ?t]\<rparr>"
  have found: "find_by ob_id (ob_id row) (outbox (w_db (rs_world s))) \<noteq> None"
    using assms(2) by (auto simp: find_by_None relay_outbox_def)
  then obtain r where r: "find_by ob_id (ob_id row) (outbox (w_db (rs_world s))) = Some r" by blast
  show ?thesis
  proof (cases "io_publish io = None \<and> io_update io = None")
    case True
    then have "publishRow cfg io row s = (None, outbox_set (ob_id row) (mark_dispatched ?t) ?sent)"
      by (simp add: publishRow_def prisma_outbox_update_def r Let_def)
    with assms(1) True show ?thesis by (intro dispatched) auto
  next
    case False
    then obtain m s1 where s1: "s1 = s \<or> s1 = ?sent"
      and run: "publishRow cfg io row s = prisma_outbox_update (io_record io) (ob_id row)
        (mark_failure (ob_attempts row + 1) (rl_maxAttempts cfg \<le> ob_attempts row + 1) m) s1"
      by (cases "io_publish io"; cases "io_update io")
        (auto simp: publishRow_def prisma_outbox_update_def Let_def)
    have r1: "find_by ob_id (ob_id row) (outbox (w_db (rs_world s1))) = Some r"
      using s1 r by auto
    show ?thesis
    proof (cases "io_record io")
      case None
      with run r1 assms(1) have "err = None" "s' = outbox_set (ob_id row)
          (mark_failure (ob_attempts row + 1) (rl_maxAttempts cfg \<le> ob_attempts row + 1) m) s1"
        by (simp_all add: prisma_outbox_update_def)
      with s1 show ?thesis by (intro failed [of m]) auto
    next
      case (Some e)
      with run assms(1) have "err = Some e" "s' = s1" by (simp_all add: prisma_outbox_update_def)
      with s1 show ?thesis by (intro aborted) auto
    qed
  qed
qed

section \<open>What a tick keeps\<close>

definition content :: "event_outbox \<Rightarrow> string \<times> string \<times> json \<times> string option" where
  "content r = (ob_id r, ob_routingKey r, ob_payload r, ob_correlationId r)"

lemma content_marks [simp]:
  "content (mark_dispatched t r) = content r" "content (mark_failure n b m r) = content r"
  by (simp_all add: content_def mark_dispatched_def mark_failure_def)

lemma content_update_row [simp]:
  "map content (update_row ob_id i (mark_dispatched t) rs) = map content rs"
  "map content (update_row ob_id i (mark_failure n b m) rs) = map content rs"
  by (simp_all add: map_update_row_same)

lemma publication_content:
  "content r = content row \<Longrightarrow> publication_of cfg r t = publication_of cfg row t"
  by (simp add: content_def publication_of_def event_of_def)

definition row_ok :: "relay_config \<Rightarrow> publication list \<Rightarrow> event_outbox \<Rightarrow> bool" where
  "row_ok cfg sent r \<longleftrightarrow>
     (case ob_status r of
        Outbox_PENDING \<Rightarrow> ob_attempts r < rl_maxAttempts cfg
      | Outbox_DISPATCHED \<Rightarrow> ob_attempts r \<le> rl_maxAttempts cfg
          \<and> (\<exists>t. publication_of cfg r t \<in> set sent)
      | Outbox_FAILED \<Rightarrow> ob_attempts r = rl_maxAttempts cfg)"

definition relay_ok :: "relay_config \<Rightarrow> relay_state \<Rightarrow> bool" where
  "relay_ok cfg s \<longleftrightarrow> distinct (map ob_id (relay_outbox s))
     \<and> (\<forall>r\<in>set (relay_outbox s). row_ok cfg (rs_sent s) r)"

lemma row_ok_mono: "row_ok cfg sent r \<Longrightarrow> row_ok cfg (sent @ new) r"
  by (auto simp: row_ok_def split: outbox_status.splits)

lemma relay_ok_update:
  assumes "relay_ok cfg s" and "relay_outbox s' = update_row ob_id i f (relay_outbox s)"
    and "rs_sent s' = rs_sent s @ new" and "\<And>r. ob_id (f r) = ob_id r"
    and "\<And>r. r \<in> set (relay_outbox s) \<Longrightarrow> ob_id r = i \<Longrightarrow> row_ok cfg (rs_sent s) r
      \<Longrightarrow> row_ok cfg (rs_sent s') (f r)"
  shows "relay_ok cfg s'"
proof -
  have "distinct (map ob_id (relay_outbox s'))"
    using assms(1,2,4) by (simp add: relay_ok_def map_update_row_same)
  moreover have "row_ok cfg (rs_sent s') x" if "x \<in> set (relay_outbox s')" for x
    using that assms(1,5) row_ok_mono [of cfg "rs_sent s" _ new] assms(3)
    by (auto simp: assms(2) set_update_row relay_ok_def)
  ultimately show ?thesis by (simp add: relay_ok_def)
qed

text \<open>A snapshot row as the tick read it: pending, and still described by the table.\<close>

definition snapshot_of :: "relay_config \<Rightarrow> relay_state \<Rightarrow> event_outbox \<Rightarrow> bool" where
  "snapshot_of cfg s row \<longleftrightarrow> content row \<in> content ` set (relay_outbox s)
     \<and> ob_attempts row < rl_maxAttempts cfg"

definition extends :: "relay_state \<Rightarrow> relay_state \<Rightarrow> nat \<Rightarrow> bool" where
  "extends s s' n \<longleftrightarrow> map content (relay_outbox s') = map content (relay_outbox s)
     \<and> (\<exists>new. rs_sent s' = rs_sent s @ new \<and> length new \<le> n)"

lemma publishRow_ok:
  assumes run: "publishRow cfg io row s = (err, s')" and ok: "relay_ok cfg s"
    and snap: "snapshot_of cfg s row"
  shows "relay_ok cfg s' \<and> extends s s' 1"
proof -
  have mem: "ob_id row \<in> ob_id ` set (relay_outbox s)"
    using snap by (auto simp: snapshot_of_def content_def)
  have same: "publication_of cfg r t = publication_of cfg row t"
    if "r \<in> set (relay_outbox s)" "ob_id r = ob_id row" for r t
  proof -
    obtain x where x: "x \<in> set (relay_outbox s)" "content x = content row"
      using snap by (auto simp: snapshot_of_def)
    then have "r = x"
      using ok that by (auto simp: relay_ok_def content_def distinct_map inj_on_def)
    with x show ?thesis using publication_content by blast
  qed
  from run mem show ?thesis
  proof (cases rule: publishRow_cases)
    case dispatched
    have "relay_ok cfg s'"
    proof (rule relay_ok_update [OF ok dispatched(4,5)])
      fix r
      assume r: "r \<in> set (relay_outbox s)" "ob_id r = ob_id row" "row_ok cfg (rs_sent s) r"
      have "ob_attempts r \<le> rl_maxAttempts cfg"
        using r(3) by (auto simp: row_ok_def split: outbox_status.splits)
      moreover have "publication_of cfg (mark_dispatched (w_now (rs_world s)) r) (w_now (rs_world s))
          = publication_of cfg row (w_now (rs_world s))"
        using same [OF r(1,2)] publication_content [OF content_marks(1)] by simp
      ultimately show "row_ok cfg (rs_sent s') (mark_dispatched (w_now (rs_world s)) r)"
        unfolding row_ok_def dispatched(5) by (auto intro!: exI [of _ "w_now (rs_world s)"])
    qed simp
    with dispatched show ?thesis by (auto simp: extends_def)
  next
    case (failed m)
    then obtain new where new: "rs_sent s' = rs_sent s @ new" "length new \<le> 1" by auto
    have "relay_ok cfg s'"
    proof (rule relay_ok_update [OF ok failed(2) new(1)])
      fix r
      assume "r \<in> set (relay_outbox s)" "ob_id r = ob_id row" "row_ok cfg (rs_sent s) r"
      show "row_ok cfg (rs_sent s') (mark_failure (ob_attempts row + 1)
          (rl_maxAttempts cfg \<le> ob_attempts row + 1) m r)"
        using snap by (auto simp: row_ok_def snapshot_of_def)
    qed simp
    with failed new show ?thesis by (auto simp: extends_def)
  next
    case aborted
    then obtain new where new: "rs_sent s' = rs_sent s @ new" "length new \<le> 1" by auto
    with aborted ok row_ok_mono [of cfg "rs_sent s" _ new] show ?thesis
      by (auto simp: relay_ok_def extends_def)
  qed
qed

lemma extends_refl: "extends s s 0"
  by (simp add: extends_def)

lemma extends_trans: "extends s s1 m \<Longrightarrow> extends s1 s2 n \<Longrightarrow> extends s s2 (m + n)"
  by (fastforce simp: extends_def)

lemma extends_mono: "extends s s' m \<Longrightarrow> m \<le> n \<Longrightarrow> extends s s' n"
  by (auto simp: extends_def)

lemma snapshot_extends:
  assumes "extends s s' n" and "snapshot_of cfg s row"
  shows "snapshot_of cfg s' row"
proof -
  have "content ` set (relay_outbox s') = content ` set (relay_outbox s)"
    using assms(1) unfolding extends_def by (metis list.set_map)
  with assms(2) show ?thesis by (simp add: snapshot_of_def)
qed

lemma publish_rows_ok:
  assumes "relay_ok cfg s" and "\<forall>row\<in>set rows. snapshot_of cfg s row"
  shows "relay_ok cfg (publish_rows cfg io rows s)
    \<and> extends s (publish_rows cfg io rows s) (length rows)"
  using assms
proof (induction rows arbitrary: s)
  case Nil
  then show ?case by (simp add: extends_refl)
next
  case (Cons row rows)
  obtain err s' where run: "publishRow cfg (io (ob_id row)) row s = (err, s')"
    by (cases "publishRow cfg (io (ob_id row)) row s")
  have 1: "relay_ok cfg s'" "extends s s' 1"
    using publishRow_ok [OF run Cons.prems(1)] Cons.prems(2) by auto
  show ?case
  proof (cases err)
    case None
    have "\<forall>row\<in>set rows. snapshot_of cfg s' row"
      using snapshot_extends [OF 1(2)] Cons.prems(2) by simp
    with Cons.IH [OF 1(1)] extends_trans [OF 1(2)] show ?thesis by (simp add: run None)
  next
    case (Some m)
    with 1 show ?thesis by (auto simp: run intro: extends_mono)
  qed
qed

lemma dispatch_ok:
  assumes "relay_ok cfg s" and "permutes_outbox ord"
  shows "relay_ok cfg (dispatchPending cfg ord ff io s)
    \<and> extends s (dispatchPending cfg ord ff io s) (rl_batchSize cfg)"
proof (cases "rs_running s \<or> rs_stopped s \<or> ff")
  case True
  then have "dispatchPending cfg ord ff io s = s" by (auto simp: dispatchPending_def)
  with assms(1) extends_mono [OF extends_refl] show ?thesis by simp
next
  case False
  let ?rows = "take (rl_batchSize cfg) (ord (pending_rows (w_db (rs_world s))))"
  let ?s = "s\<lparr>rs_running := True\<rparr>"
  have pend: "row \<in> set (relay_outbox s) \<and> ob_status row = Outbox_PENDING"
    if "row \<in> set ?rows" for row
    using in_set_takeD [OF that] permutes_outbox_set [OF assms(2)]
    by (auto simp: pending_rows_def relay_outbox_def)
  have ok: "relay_ok cfg ?s" using assms(1) by (simp add: relay_ok_def)
  have "\<forall>row\<in>set ?rows. snapshot_of cfg ?s row"
  proof
    fix row
    assume "row \<in> set ?rows"
    note p = pend [OF this]
    then have "row_ok cfg (rs_sent s) row" using assms(1) by (simp add: relay_ok_def)
    with p show "snapshot_of cfg ?s row" by (auto simp: snapshot_of_def row_ok_def)
  qed
  from publish_rows_ok [OF ok this, of io]
  have "relay_ok cfg (publish_rows cfg io ?rows ?s)"
      "extends ?s (publish_rows cfg io ?rows ?s) (rl_batchSize cfg)"
    by (auto intro: extends_mono)
  then show ?thesis
    using False by (simp add: dispatchPending_def Let_def relay_ok_def extends_def)
qed

section \<open>Histories of the outbox\<close>

text \<open>
  Steps: a tick, with whatever the broker and the database answer; a service enqueues events
  (rows are appended, PENDING, never tried, under new ids); anything that leaves the outbox
  table alone; shutdown.
\<close>

inductive relay_step ::
  "relay_config \<Rightarrow> (event_outbox list \<Rightarrow> event_outbox list) \<Rightarrow> relay_state \<Rightarrow> relay_state \<Rightarrow> bool"
  for cfg ord
where
  tick: "relay_step cfg ord s (dispatchPending cfg ord ff io s)"
| enqueued: "relay_outbox s' = relay_outbox s @ rows \<Longrightarrow> rs_sent s' = rs_sent s \<Longrightarrow>
    distinct (map ob_id (relay_outbox s')) \<Longrightarrow>
    \<forall>r\<in>set rows. ob_status r = Outbox_PENDING \<and> ob_attempts r = 0 \<Longrightarrow> relay_step cfg ord s s'"
| shutdown: "relay_step cfg ord s (onModuleDestroy s)"

lemma relay_step_ok:
  assumes "relay_step cfg ord s s'" and "relay_ok cfg s" and "permutes_outbox ord"
    and "0 < rl_maxAttempts cfg"
  shows "relay_ok cfg s' \<and> (\<exists>new rows. rs_sent s' = rs_sent s @ new
    \<and> map content (relay_outbox s') = map content (relay_outbox s) @ rows)"
  using assms(1)
proof cases
  case (tick ff io)
  with dispatch_ok [OF assms(2,3), of ff io] show ?thesis by (auto simp: extends_def)
next
  case (enqueued rows)
  have "row_ok cfg (rs_sent s') r" if "r \<in> set rows" for r
    using that enqueued(4) assms(4) by (simp add: row_ok_def)
  with enqueued assms(2) show ?thesis by (auto simp: relay_ok_def)
next
  case shutdown
  with assms(2) show ?thesis by (simp add: relay_ok_def onModuleDestroy_def relay_outbox_def)
qed

text \<open>
  C3. Whatever the broker and the database do, in every history of enqueues and ticks: no
  outbox row is ever dropped or altered in its id, key, payload or correlation id, and nothing
  sent is unsent; a row is DISPATCHED only if its event (its id as event id, its payload) was
  accepted by the broker; a PENDING row was tried fewer than \<open>maxAttempts\<close> times, no row more
  than \<open>maxAttempts\<close> times, and a FAILED row exactly that often.
\<close>

theorem outbox_histories:
  assumes "(relay_step cfg ord)\<^sup>*\<^sup>* s s'" and "relay_ok cfg s" and "permutes_outbox ord"
    and "0 < rl_maxAttempts cfg"
  shows "relay_ok cfg s' \<and> (\<exists>new rows. rs_sent s' = rs_sent s @ new
    \<and> map content (relay_outbox s') = map content (relay_outbox s) @ rows)"
  using assms(1)
proof (induction rule: rtranclp_induct)
  case base
  with assms(2) show ?case by simp
next
  case (step v s')
  with relay_step_ok [OF step.hyps(2) _ assms(3,4)] show ?case by fastforce
qed

definition fx_relay :: relay_config where
  "fx_relay = \<lparr>rl_exchange = EXCHANGE, rl_batchSize = 2, rl_maxAttempts = 3\<rparr>"

definition fx_outbox :: relay_state where
  "fx_outbox = \<lparr>rs_world = fx_world (fx_db\<lparr>outbox :=
       [outbox_row ''e1'' 1 RK_TicketCreated (JObj []) None,
        outbox_row ''e2'' 2 RK_TicketAssigned (JObj []) (Some ''cid''),
        outbox_row ''e3'' 3 RK_TicketClosed (JObj []) None]\<rparr>),
     rs_sent = [], rs_running = False, rs_stopped = False\<rparr>"

definition all_fine :: row_io where
  "all_fine = \<lparr>io_publish = None, io_update = None, io_record = None\<rparr>"

lemma fx_relay_ok: "relay_ok fx_relay fx_outbox"
  by (simp add: relay_ok_def relay_outbox_def fx_outbox_def fx_relay_def fx_world_def outbox_row_def
      row_ok_def)

lemma fx_permutes: "permutes_outbox (\<lambda>xs. xs)"
  by (simp add: permutes_outbox_def)

definition fx_broker_down :: "string \<Rightarrow> row_io" where
  "fx_broker_down i = \<lparr>io_publish = Some ''down'', io_update = None, io_record = None\<rparr>"

theorem outbox_histories_witness:
  "relay_ok fx_relay (dispatchPending fx_relay (\<lambda>xs. xs) False fx_broker_down fx_outbox)
   \<and> map ob_attempts (relay_outbox
        (dispatchPending fx_relay (\<lambda>xs. xs) False fx_broker_down fx_outbox)) = [1, 1, 0]"
proof -
  have s: "(relay_step fx_relay (\<lambda>xs. xs))\<^sup>*\<^sup>* fx_outbox
      (dispatchPending fx_relay (\<lambda>xs. xs) False fx_broker_down fx_outbox)"
    by (rule r_into_rtranclp) (rule tick)
  have m: "0 < rl_maxAttempts fx_relay" by (simp add: fx_relay_def)
  have a: "map ob_attempts (relay_outbox
      (dispatchPending fx_relay (\<lambda>xs. xs) False fx_broker_down fx_outbox)) = [1, 1, 0]"
    by code_simp
  show ?thesis using outbox_histories [OF s fx_relay_ok fx_permutes m] a by blast
qed

section \<open>Draining\<close>

definition io_fine :: "(string \<Rightarrow> row_io) \<Rightarrow> bool" where
  "io_fine io \<longleftrightarrow> (\<forall>i. io_publish (io i) = None \<and> io_update (io i) = None)"

definition dispatch_ids :: "string set \<Rightarrow> time \<Rightarrow> event_outbox list \<Rightarrow> event_outbox list" where
  "dispatch_ids ids t rs = map (\<lambda>r. if ob_id r \<in> ids then mark_dispatched t r else r) rs"

lemma publish_rows_fine:
  assumes "io_fine io" and "ob_id ` set rows \<subseteq> ob_id ` set (relay_outbox s)"
  shows "relay_outbox (publish_rows cfg io rows s)
        = dispatch_ids (ob_id ` set rows) (w_now (rs_world s)) (relay_outbox s)
    \<and> rs_sent (publish_rows cfg io rows s)
        = rs_sent s @ map (\<lambda>r. publication_of cfg r (w_now (rs_world s))) rows
    \<and> rs_running (publish_rows cfg io rows s) = rs_running s
    \<and> rs_stopped (publish_rows cfg io rows s) = rs_stopped s
    \<and> w_now (rs_world (publish_rows cfg io rows s)) = w_now (rs_world s)"
  using assms(2)
proof (induction rows arbitrary: s)
  case Nil
  then show ?case by (simp add: dispatch_ids_def)
next
  case (Cons row rows)
  let ?t = "w_now (rs_world s)"
  let ?s = "outbox_set (ob_id row) (mark_dispatched ?t)
    (s\<lparr>rs_sent := rs_sent s @ [publication_of cfg row ?t]\<rparr>)"
  have "find_by ob_id (ob_id row) (outbox (w_db (rs_world s))) \<noteq> None"
    using Cons.prems by (auto simp: find_by_None relay_outbox_def)
  then have run: "publishRow cfg (io (ob_id row)) row s = (None, ?s)"
    using assms(1) by (auto simp: publishRow_def prisma_outbox_update_def io_fine_def Let_def)
  have ids: "ob_id ` set (relay_outbox ?s) = ob_id ` set (relay_outbox s)"
    by (simp only: outbox_set_simps relay_outbox_upd) (metis list.set_map map_update_row_same mark_simps(1))
  have "dispatch_ids (ob_id ` set rows) ?t (update_row ob_id (ob_id row) (mark_dispatched ?t) rs)
      = dispatch_ids (ob_id ` set (row # rows)) ?t rs" for rs
    by (induction rs) (auto simp: dispatch_ids_def update_row_def mark_dispatched_def)
  with Cons.IH [of ?s] Cons.prems show ?case by (simp add: run ids [simplified])
qed

lemma filter_dispatch_ids:
  assumes "distinct (map ob_id rs)" and "\<forall>x\<in>X. x \<in> set rs"
  shows "filter (\<lambda>r. ob_status r = Outbox_PENDING) (dispatch_ids (ob_id ` X) t rs)
    = filter (\<lambda>r. r \<notin> X) (filter (\<lambda>r. ob_status r = Outbox_PENDING) rs)"
proof -
  have iff: "ob_id r \<in> ob_id ` X \<longleftrightarrow> r \<in> X" if "r \<in> set rs" for r
    using that assms by (auto simp: distinct_map inj_on_def)
  have "filter (\<lambda>r. ob_status r = Outbox_PENDING) (dispatch_ids (ob_id ` X) t ys)
      = filter (\<lambda>r. r \<notin> X) (filter (\<lambda>r. ob_status r = Outbox_PENDING) ys)"
    if "set ys \<subseteq> set rs" for ys
    using that iff by (induction ys) (auto simp: dispatch_ids_def)
  then show ?thesis by simp
qed

lemma filter_not_taken:
  assumes "distinct xs"
  shows "filter (\<lambda>r. r \<notin> set (take n xs)) (take n xs @ drop n xs) = drop n xs"
proof -
  have "set (take n xs) \<inter> set (drop n xs) = {}"
    by (rule set_take_disj_set_drop_if_distinct [OF assms]) simp
  then have "filter (\<lambda>r. r \<notin> set (take n xs)) (drop n xs) = drop n xs"
    by (intro filter_True) blast
  moreover have "filter (\<lambda>r. r \<notin> set (take n xs)) (take n xs) = []"
    by (simp only: filter_empty_conv) simp
  ultimately show ?thesis by (simp only: filter_append) simp
qed

definition idle :: "relay_state \<Rightarrow> bool" where
  "idle s \<longleftrightarrow> \<not> rs_running s \<and> \<not> rs_stopped s"

definition pending_of :: "relay_state \<Rightarrow> event_outbox list" where
  "pending_of s = pending_rows (w_db (rs_world s))"

lemma tick_fine:
  assumes "io_fine io" and "permutes_outbox ord" and "idle s"
    and "distinct (map ob_id (relay_outbox s))" and s'_def: "s' = dispatchPending cfg ord False io s"
  shows "idle s' \<and> distinct (map ob_id (relay_outbox s'))
    \<and> w_now (rs_world s') = w_now (rs_world s)
    \<and> (\<exists>done. mset (pending_of s) = mset done + mset (pending_of s')
        \<and> length done = min (rl_batchSize cfg) (length (pending_of s))
        \<and> rs_sent s' = rs_sent s @ map (\<lambda>r. publication_of cfg r (w_now (rs_world s))) done)"
proof -
  let ?p = "pending_of s"
  let ?done = "take (rl_batchSize cfg) (ord ?p)"
  let ?s = "s\<lparr>rs_running := True\<rparr>"
  have p: "set ?p \<subseteq> set (relay_outbox s)" by (auto simp: pending_of_def pending_rows_def relay_outbox_def)
  have so: "set (ord ?p) = set ?p" by (rule permutes_outbox_set [OF assms(2)])
  have sub: "set ?done \<subseteq> set (relay_outbox s)" using p so set_take_subset [of "rl_batchSize cfg" "ord ?p"] by blast
  have mo: "mset (ord ?p) = mset ?p" using assms(2) by (simp add: permutes_outbox_def)
  have s': "s' = (publish_rows cfg io ?done ?s)\<lparr>rs_running := False\<rparr>"
    using assms(3) by (simp add: s'_def dispatchPending_def idle_def pending_of_def Let_def)
  have run: "relay_outbox s' = dispatch_ids (ob_id ` set ?done) (w_now (rs_world s)) (relay_outbox s)"
    "rs_sent s' = rs_sent s @ map (\<lambda>r. publication_of cfg r (w_now (rs_world s))) ?done"
    "\<not> rs_running s'" "rs_stopped s' = rs_stopped s" "w_now (rs_world s') = w_now (rs_world s)"
    using publish_rows_fine [OF assms(1), of ?done ?s cfg] sub by (auto simp: s')
  have dp: "distinct ?p"
    using assms(4) by (simp add: pending_of_def pending_rows_def relay_outbox_def distinct_map)
  then have do: "distinct (ord ?p)" by (metis mo mset_eq_imp_distinct_iff)
  have f: "filter (\<lambda>r. ob_status r = Outbox_PENDING) (relay_outbox x) = pending_of x" for x
    by (simp add: pending_of_def pending_rows_def relay_outbox_def)
  have "pending_of s' = filter (\<lambda>r. r \<notin> set ?done) ?p"
    unfolding f [symmetric] run(1)
    by (rule filter_dispatch_ids [OF assms(4)]) (use sub f [of s] in \<open>simp add: subset_iff\<close>)
  then have "mset (pending_of s') = filter_mset (\<lambda>r. r \<notin> set ?done) (mset (ord ?p))"
    by (simp add: mo)
  also have "\<dots> = mset (filter (\<lambda>r. r \<notin> set ?done) (take (rl_batchSize cfg) (ord ?p)
      @ drop (rl_batchSize cfg) (ord ?p)))"
    by simp
  also have "filter (\<lambda>r. r \<notin> set ?done) (take (rl_batchSize cfg) (ord ?p)
      @ drop (rl_batchSize cfg) (ord ?p)) = drop (rl_batchSize cfg) (ord ?p)"
    by (rule filter_not_taken [OF do])
  finally have "mset ?p = mset ?done + mset (pending_of s')"
    by (metis append_take_drop_id mo mset_append)
  moreover have "distinct (map ob_id (relay_outbox s'))"
    using assms(4) by (simp add: run(1) dispatch_ids_def comp_def if_distrib cong: if_cong)
  moreover have "length ?done = min (rl_batchSize cfg) (length ?p)"
    by (metis length_take min.commute mo size_mset)
  moreover have "idle s'" using run(3,4) assms(3) by (simp add: idle_def)
  ultimately show ?thesis using run(2,5) by blast
qed

definition ticks ::
  "relay_config \<Rightarrow> (event_outbox list \<Rightarrow> event_outbox list) \<Rightarrow> (string \<Rightarrow> row_io) \<Rightarrow> nat
    \<Rightarrow> relay_state \<Rightarrow> relay_state"
where
  "ticks cfg ord io n s = (dispatchPending cfg ord False io ^^ n) s"

lemma ticks_fine:
  assumes "io_fine io" and "permutes_outbox ord" and "idle s"
    and "distinct (map ob_id (relay_outbox s))"
  shows "idle (ticks cfg ord io n s) \<and> distinct (map ob_id (relay_outbox (ticks cfg ord io n s)))
    \<and> length (pending_of (ticks cfg ord io n s)) = length (pending_of s) - n * rl_batchSize cfg
    \<and> (\<exists>new. rs_sent (ticks cfg ord io n s) = rs_sent s @ new
         \<and> mset (map pb_messageId new) + mset (map ob_id (pending_of (ticks cfg ord io n s)))
           = mset (map ob_id (pending_of s)))"
proof (induction n)
  case 0
  with assms(3,4) show ?case by (simp add: ticks_def)
next
  case (Suc n)
  let ?s = "ticks cfg ord io n s" and ?s' = "ticks cfg ord io (Suc n) s"
  have s': "?s' = dispatchPending cfg ord False io ?s" by (simp add: ticks_def)
  from Suc.IH obtain new where new: "rs_sent ?s = rs_sent s @ new"
    "mset (map pb_messageId new) + mset (map ob_id (pending_of ?s)) = mset (map ob_id (pending_of s))"
    by blast
  from tick_fine [OF assms(1,2) _ _ s'] Suc.IH obtain sent_rows where
    d: "mset (pending_of ?s) = mset sent_rows + mset (pending_of ?s')"
      "length sent_rows = min (rl_batchSize cfg) (length (pending_of ?s))"
      "rs_sent ?s' = rs_sent ?s @ map (\<lambda>r. publication_of cfg r (w_now (rs_world ?s))) sent_rows"
    and i: "idle ?s'" "distinct (map ob_id (relay_outbox ?s'))" by blast
  have "size (mset (pending_of ?s)) = size (mset sent_rows) + size (mset (pending_of ?s'))"
    by (simp only: d(1) size_union)
  then have "length (pending_of ?s') = length (pending_of s) - Suc n * rl_batchSize cfg"
    using d(2) Suc.IH by (simp add: min_def split: if_splits)
  moreover have "mset (map ob_id (pending_of ?s)) = mset (map ob_id sent_rows) + mset (map ob_id (pending_of ?s'))"
    by (metis d(1) image_mset_union mset_map)
  moreover have "pb_messageId \<circ> (\<lambda>r. publication_of cfg r (w_now (rs_world ?s))) = ob_id"
    by (rule ext) (simp add: publication_of_def)
  ultimately show ?case
    using i new d(3)
    by (intro conjI exI [of _ "new @ map (\<lambda>r. publication_of cfg r (w_now (rs_world ?s))) sent_rows"])
      (simp_all add: ac_simps)
qed

text \<open>
  The outbox drains. While the broker and the database answer, each tick of an idle relay
  publishes \<open>batchSize\<close> pending rows (or all that are left) and marks them, and leaves the
  relay idle; so after enough ticks (\<open>n * batchSize\<close> at least the number pending) no row is
  PENDING, and every row that was pending has been sent, exactly once each.
\<close>

theorem outbox_drains:
  assumes "io_fine io" and "permutes_outbox ord" and "idle s"
    and "distinct (map ob_id (relay_outbox s))" and "length (pending_of s) \<le> n * rl_batchSize cfg"
  shows "pending_of (ticks cfg ord io n s) = [] \<and> idle (ticks cfg ord io n s)
    \<and> (\<exists>new. rs_sent (ticks cfg ord io n s) = rs_sent s @ new
         \<and> mset (map pb_messageId new) = mset (map ob_id (pending_of s)))"
proof -
  note t = ticks_fine [OF assms(1-4), of cfg n]
  then have "length (pending_of (ticks cfg ord io n s)) = 0" using assms(5) by simp
  then have "pending_of (ticks cfg ord io n s) = []" by blast
  with t show ?thesis by simp
qed

theorem outbox_drains_witness:
  "pending_of (ticks fx_relay (\<lambda>xs. xs) (\<lambda>_. all_fine) 2 fx_outbox) = []"
proof -
  have 1: "io_fine (\<lambda>_. all_fine)" by (simp add: io_fine_def all_fine_def)
  have 2: "idle fx_outbox" by (simp add: idle_def fx_outbox_def)
  have 3: "distinct (map ob_id (relay_outbox fx_outbox))" using fx_relay_ok by (simp add: relay_ok_def)
  have 4: "length (pending_of fx_outbox) \<le> 2 * rl_batchSize fx_relay"
    by (simp add: pending_of_def pending_rows_def fx_outbox_def fx_world_def fx_relay_def outbox_row_def)
  show ?thesis using outbox_drains [OF 1 fx_permutes 2 3 4] by blast
qed

section \<open>At least once\<close>

text \<open>
  Delivery is at least once, not exactly once: when the broker accepts the message but the
  update to DISPATCHED fails, the row goes back to PENDING (below the limit of tries), and the
  next tick that succeeds sends the same event, with the same event id, a second time. A tick
  that starts while another one runs does nothing.
\<close>

theorem relay_resends:
  assumes "relay_outbox s = [row]" and "ob_status row = Outbox_PENDING" and "idle s"
    and "permutes_outbox ord" and "0 < rl_batchSize cfg"
    and "ob_attempts row + 1 < rl_maxAttempts cfg"
    and "io (ob_id row) = \<lparr>io_publish = None, io_update = Some m, io_record = None\<rparr>"
    and "io_fine io'"
  shows "map pb_messageId (rs_sent (dispatchPending cfg ord False io'
             (dispatchPending cfg ord False io s)))
        = map pb_messageId (rs_sent s) @ [ob_id row, ob_id row]
    \<and> (rs_running v \<longrightarrow> dispatchPending cfg ord ff io v = v)"
proof -
  have one: "ord [r] = [r]" for r
    using assms(4) unfolding permutes_outbox_def by (metis mset_single_iff mset.simps(2) mset.simps(1)
        add_mset_eq_single mset_eq_length length_Suc_conv length_0_conv list.size)
  let ?r = "mark_failure (ob_attempts row + 1) False m row"
  have ob: "outbox (w_db (rs_world s)) = [row]" using assms(1) by (simp add: relay_outbox_def)
  define s1 where "s1 = dispatchPending cfg ord False io s"
  have s1: "relay_outbox s1 = [?r]" "idle s1"
      "map pb_messageId (rs_sent s1) = map pb_messageId (rs_sent s) @ [ob_id row]"
    using assms one
    by (auto simp: s1_def dispatchPending_def idle_def pending_rows_def ob publishRow_def
        prisma_outbox_update_def outbox_set_def relay_outbox_def update_row_def Let_def
        publication_of_def take_Cons')
  have "pending_of s1 = [?r]" using s1(1) by (simp add: pending_of_def pending_rows_def relay_outbox_def)
  moreover have "distinct (map ob_id (relay_outbox s1))" by (simp add: s1(1))
  ultimately obtain sent_rows where "mset [?r] = mset sent_rows + mset (pending_of
        (dispatchPending cfg ord False io' s1))" "length sent_rows = 1"
      "rs_sent (dispatchPending cfg ord False io' s1)
        = rs_sent s1 @ map (\<lambda>r. publication_of cfg r (w_now (rs_world s1))) sent_rows"
    using tick_fine [OF assms(8,4) s1(2) _ refl, of cfg] assms(5) by force
  then have "sent_rows = [?r]" by (cases sent_rows) auto
  with \<open>rs_sent (dispatchPending cfg ord False io' s1)
      = rs_sent s1 @ map (\<lambda>r. publication_of cfg r (w_now (rs_world s1))) sent_rows\<close> s1(3)
  show ?thesis by (simp add: s1_def publication_of_def dispatchPending_def)
qed

definition fx_one_row :: relay_state where
  "fx_one_row = \<lparr>rs_world = fx_world (fx_db\<lparr>outbox :=
       [outbox_row ''e1'' 1 RK_TicketCreated (JObj []) None]\<rparr>),
     rs_sent = [], rs_running = False, rs_stopped = False\<rparr>"

definition fx_update_fails :: "string \<Rightarrow> row_io" where
  "fx_update_fails i = \<lparr>io_publish = None, io_update = Some ''timeout'', io_record = None\<rparr>"

theorem relay_resends_witness:
  "map pb_messageId (rs_sent (dispatchPending fx_relay (\<lambda>xs. xs) False (\<lambda>_. all_fine)
     (dispatchPending fx_relay (\<lambda>xs. xs) False fx_update_fails fx_one_row))) = [''e1'', ''e1'']"
proof -
  let ?row = "outbox_row ''e1'' 1 RK_TicketCreated (JObj []) None"
  have 1: "relay_outbox fx_one_row = [?row]"
    by (simp add: relay_outbox_def fx_one_row_def fx_world_def)
  have 2: "ob_status ?row = Outbox_PENDING" "idle fx_one_row" "0 < rl_batchSize fx_relay"
    "ob_attempts ?row + 1 < rl_maxAttempts fx_relay" "ob_id ?row = ''e1''" "rs_sent fx_one_row = []"
    by (simp_all add: outbox_row_def idle_def fx_one_row_def fx_relay_def)
  have 3: "fx_update_fails (ob_id ?row)
      = \<lparr>io_publish = None, io_update = Some ''timeout'', io_record = None\<rparr>"
    by (simp add: fx_update_fails_def)
  have 4: "io_fine (\<lambda>_. all_fine)" by (simp add: io_fine_def all_fine_def)
  show ?thesis
    using relay_resends [where io = fx_update_fails, OF 1 2(1,2) fx_permutes 2(3,4) 3 4] by (simp add: 2(5,6))
qed

end
