(* ===== verification/ConsumerRunner.thy ===== *)
theory ConsumerRunner
  imports Messaging Fixtures
begin

text \<open>
  \<open>consumers/idempotency.service.ts\<close> and \<open>consumers/consumer-runner.service.ts\<close>: a projection runs
  at most once per event and consumer; a failing delivery is republished to its own queue with a
  counter, a bounded number of times, and then dead-lettered. The locale \<open>projector\<close> is what the
  wrapper needs of a consumer's projection, \<open>view_projector\<close> what makes its table a fold over the
  events; both are interpreted on the consumers in the theory Projections.
\<close>

section \<open>\<open>runOnce\<close>\<close>

definition processed_event_create :: "string \<Rightarrow> string \<Rightarrow> unit op" where
  "processed_event_create eventId consumer =
     andThen randomUUID (\<lambda>i.
     andThen current_time (\<lambda>t.
     write_db (processed_event_insert
       \<lparr>pe_id = i, pe_eventId = eventId, pe_consumer = consumer, pe_processedAt = t\<rparr>)))"

fun is_unique_violation :: "exn \<Rightarrow> bool" where
  "is_unique_violation (PrismaKnown code _) = (code = ''P2002'')"
| "is_unique_violation _ = False"

definition runOnce :: "string \<Rightarrow> string \<Rightarrow> unit op \<Rightarrow> bool op" where
  "runOnce consumer eventId work w =
     (case transaction (andThen (processed_event_create eventId consumer) (\<lambda>_. work)) w of
        (Inr _, w') \<Rightarrow> (Inr True, w')
      | (Inl e, w') \<Rightarrow> if is_unique_violation e then (Inr False, w') else (Inl e, w'))"

section \<open>The runner\<close>

record raw_message =
  raw_headers :: "(string \<times> json) list option"
  raw_messageId :: "string option"
  raw_correlationId :: "string option"

datatype message_body =
    EventBody domain_event
  | DeadLetterBody (dl_originQueue: string) (dl_error: string) (dl_failedAt: string)
      (dl_event: domain_event)

record out_message =
  om_exchange :: string
  om_routingKey :: string
  om_body :: message_body
  om_headers :: "(string \<times> json) list option"
  om_messageId :: "string option"
  om_correlationId :: "string option"

text \<open>
  \<open>Number(v)\<close>; \<open>None\<close> is NaN. Of the strings only decimal integers are converted: the header is
  written by this code alone, as a number.
\<close>

fun js_number :: "json \<Rightarrow> int option" where
  "js_number JNull = Some 0"
| "js_number (JBool b) = Some (if b then 1 else 0)"
| "js_number (JNum n) = Some n"
| "js_number (JStr s) =
     (if s = [] then Some 0 else if list_all is_digit s then Some (int (dec_value s)) else None)"
| "js_number (JArr xs) = (if xs = [] then Some 0 else None)"
| "js_number (JObj _) = None"

fun set_prop :: "string \<Rightarrow> json \<Rightarrow> (string \<times> json) list \<Rightarrow> (string \<times> json) list" where
  "set_prop k v [] = [(k, v)]"
| "set_prop k v ((x, y) # kvs) = (if x = k then (x, v) # kvs else (x, y) # set_prop k v kvs)"

definition headers_of :: "raw_message \<Rightarrow> (string \<times> json) list" where
  "headers_of raw = (case raw_headers raw of None \<Rightarrow> [] | Some h \<Rightarrow> h)"

definition retry_attempt :: "raw_message \<Rightarrow> int option" where
  "retry_attempt raw =
     (case map_of (headers_of raw) RETRY_HEADER of
        None \<Rightarrow> Some 0 | Some JNull \<Rightarrow> Some 0 | Some v \<Rightarrow> js_number v)"

text \<open>
  The message \<open>retryOrDeadLetter\<close> publishes. A NaN counter is not below the limit.
\<close>

definition retryOrDeadLetter ::
  "int \<Rightarrow> string \<Rightarrow> domain_event \<Rightarrow> raw_message \<Rightarrow> string \<Rightarrow> time \<Rightarrow> out_message" where
  "retryOrDeadLetter maxRetries queue event raw msg t =
     (case retry_attempt raw of
        Some attempt \<Rightarrow>
          if attempt < maxRetries
          then \<lparr>om_exchange = [], om_routingKey = queue, om_body = EventBody event,
                om_headers = Some (set_prop LAST_ERROR_HEADER (JStr msg)
                   (set_prop RETRY_HEADER (JNum (attempt + 1)) (headers_of raw))),
                om_messageId = raw_messageId raw, om_correlationId = raw_correlationId raw\<rparr>
          else \<lparr>om_exchange = DEAD_LETTER_EXCHANGE, om_routingKey = queue,
                om_body = DeadLetterBody queue msg (toISOString t) event, om_headers = None,
                om_messageId = raw_messageId raw, om_correlationId = None\<rparr>
      | None \<Rightarrow> \<lparr>om_exchange = DEAD_LETTER_EXCHANGE, om_routingKey = queue,
                om_body = DeadLetterBody queue msg (toISOString t) event, om_headers = None,
                om_messageId = raw_messageId raw, om_correlationId = None\<rparr>)"

text \<open>
  \<open>handle\<close>: the messages published, and the world after. \<open>err_msg\<close> is the \<open>message\<close> property of
  an error (Prisma's texts are its own).
\<close>

definition handle ::
  "(exn \<Rightarrow> string) \<Rightarrow> int \<Rightarrow> string \<Rightarrow> string \<Rightarrow> (domain_event \<Rightarrow> unit op) \<Rightarrow> domain_event
    \<Rightarrow> raw_message \<Rightarrow> world \<Rightarrow> out_message list \<times> world"
where
  "handle err_msg maxRetries consumer queue project event raw w =
     (case runOnce consumer (ev_eventId event) (project event) w of
        (Inr _, w') \<Rightarrow> ([], w')
      | (Inl e, w') \<Rightarrow>
          ([retryOrDeadLetter maxRetries queue event raw (err_msg e) (w_now w')], w'))"

section \<open>Exactly once\<close>

definition processed :: "string \<Rightarrow> string \<Rightarrow> db \<Rightarrow> bool" where
  "processed consumer i d \<longleftrightarrow> (i, consumer) \<in> pe_key ` set (processed_events d)"

lemma processed_event_create_run:
  "processed_event_create i c w =
     (if processed c i (w_db w)
      then (Inl (unique_violation [''eventId'', ''consumer'']), w\<lparr>w_next := Suc (w_next w)\<rparr>)
      else (Inr (), w\<lparr>w_next := Suc (w_next w), w_db := (w_db w)\<lparr>processed_events :=
        processed_events (w_db w) @ [\<lparr>pe_id = w_uuid w (w_next w), pe_eventId = i,
          pe_consumer = c, pe_processedAt = w_now w\<rparr>]\<rparr>\<rparr>))"
  by (auto simp: processed_event_create_def mrun meval processed_event_insert_def processed_def
      list_ex_iff pe_key_def image_iff)

definition mark_processed :: "string \<Rightarrow> string \<Rightarrow> world \<Rightarrow> world" where
  "mark_processed c i w = snd (processed_event_create i c w)"

lemma runOnce_duplicate:
  "processed c i (w_db w) \<Longrightarrow> runOnce c i work w = (Inr False, w\<lparr>w_next := Suc (w_next w)\<rparr>)"
  by (simp add: runOnce_def processed_event_create_run transaction_def andThen_def
      unique_violation_def)

lemma runOnce_fresh:
  assumes "\<not> processed c i (w_db w)"
  shows "runOnce c i work w =
    (case work (mark_processed c i w) of
       (Inr _, w') \<Rightarrow> (Inr True, w')
     | (Inl e, w') \<Rightarrow> if is_unique_violation e then (Inr False, w'\<lparr>w_db := w_db w\<rparr>)
                      else (Inl e, w'\<lparr>w_db := w_db w\<rparr>))"
  using assms
  by (auto simp: runOnce_def processed_event_create_run mark_processed_def transaction_def
      andThen_def split: prod.splits sum.splits)

lemma mark_processed_simps:
  assumes "\<not> processed c i (w_db w)"
  shows "processed c i (w_db (mark_processed c i w))"
    and "w_db (mark_processed c i w) = (w_db w)\<lparr>processed_events :=
      processed_events (w_db (mark_processed c i w))\<rparr>"
    and "set (processed_events (w_db w)) \<subseteq> set (processed_events (w_db (mark_processed c i w)))"
    and "processed c' j (w_db (mark_processed c i w)) \<longleftrightarrow> processed c' j (w_db w) \<or> (c' = c \<and> j = i)"
    and "w_now (mark_processed c i w) = w_now w"
  using assms
  by (auto simp: mark_processed_def processed_event_create_run processed_def pe_key_def)

locale projector =
  fixes project :: "domain_event \<Rightarrow> unit op" and consumer :: string
  assumes project_frame: "project ev w = (r, w') \<Longrightarrow>
    processed_events (w_db w') = processed_events (w_db w)"
begin

lemma applied:
  assumes "runOnce consumer (ev_eventId ev) (project ev) w = (Inr True, w')"
  shows "\<not> processed consumer (ev_eventId ev) (w_db w)
    \<and> project ev (mark_processed consumer (ev_eventId ev) w) = (Inr (), w')
    \<and> processed consumer (ev_eventId ev) (w_db w')"
proof -
  have n: "\<not> processed consumer (ev_eventId ev) (w_db w)"
    using assms runOnce_duplicate by fastforce
  with assms have p: "project ev (mark_processed consumer (ev_eventId ev) w) = (Inr (), w')"
    by (auto simp: runOnce_fresh split: prod.splits sum.splits if_splits)
  have "processed_events (w_db w')
      = processed_events (w_db (mark_processed consumer (ev_eventId ev) w))"
    by (rule project_frame [OF p])
  with n p mark_processed_simps(1) [OF n] show ?thesis by (simp add: processed_def)
qed

lemma not_applied:
  assumes "runOnce consumer i (project ev) w = (r, w')" and "r \<noteq> Inr True"
  shows "w_db w' = w_db w"
proof (cases "processed consumer i (w_db w)")
  case True
  with assms(1) show ?thesis by (auto simp: runOnce_duplicate)
next
  case False
  with assms show ?thesis
    by (auto simp: runOnce_fresh split: prod.splits sum.splits if_splits)
qed

lemma once:
  assumes "runOnce consumer (ev_eventId ev) (project ev) w = (Inr True, w')"
    and "\<forall>i. processed consumer i (w_db w') \<longrightarrow> processed consumer i (w_db v)"
  shows "fst (runOnce consumer (ev_eventId ev) (project ev') v) = Inr False
    \<and> w_db (snd (runOnce consumer (ev_eventId ev) (project ev') v)) = w_db v"
  using applied [OF assms(1)] assms(2) by (simp add: runOnce_duplicate)

end

section \<open>Bounded retries\<close>

lemma map_of_set_prop: "map_of (set_prop k v kvs) j = (if j = k then Some v else map_of kvs j)"
  by (induction kvs) auto

lemma retry_header_distinct [simp]: "RETRY_HEADER \<noteq> LAST_ERROR_HEADER"
  by (simp add: RETRY_HEADER_def LAST_ERROR_HEADER_def)

text \<open>What the broker hands out when a republished message comes back to the queue.\<close>

definition redelivered :: "out_message \<Rightarrow> raw_message" where
  "redelivered m = \<lparr>raw_headers = om_headers m, raw_messageId = om_messageId m,
     raw_correlationId = om_correlationId m\<rparr>"

text \<open>
  The life of one message on a queue: deliveries go on while the handler republishes to the
  default exchange; between two deliveries the rest of the system moves on (\<open>others\<close>). The
  result is the number of deliveries, the messages published, and the final world.
\<close>

fun deliver ::
  "nat \<Rightarrow> (raw_message \<Rightarrow> world \<Rightarrow> out_message list \<times> world) \<Rightarrow> (nat \<Rightarrow> world \<Rightarrow> world)
    \<Rightarrow> raw_message \<Rightarrow> world \<Rightarrow> (nat \<times> out_message list \<times> world) option"
where
  "deliver 0 h others raw w = None"
| "deliver (Suc n) h others raw w =
     (case h raw w of
        ([], w') \<Rightarrow> Some (1, [], w')
      | (m # _, w') \<Rightarrow>
          if om_exchange m = []
          then map_option (\<lambda>(k, ms, v). (Suc k, m # ms, v))
            (deliver n h others (redelivered m) (others n w'))
          else Some (1, [m], w'))"

definition requeue :: "string \<Rightarrow> domain_event \<Rightarrow> out_message \<Rightarrow> bool" where
  "requeue queue ev m \<longleftrightarrow> om_exchange m = [] \<and> om_routingKey m = queue \<and> om_body m = EventBody ev"

definition dead_letter :: "string \<Rightarrow> domain_event \<Rightarrow> out_message \<Rightarrow> bool" where
  "dead_letter queue ev m \<longleftrightarrow> om_exchange m = DEAD_LETTER_EXCHANGE \<and> om_routingKey m = queue
     \<and> (\<exists>e t. om_body m = DeadLetterBody queue e t ev)"

lemma retry_requeue:
  assumes "retry_attempt raw = Some a" and "a < M"
  shows "requeue queue ev (retryOrDeadLetter M queue ev raw msg t)
    \<and> retry_attempt (redelivered (retryOrDeadLetter M queue ev raw msg t)) = Some (a + 1)"
  using assms
  by (simp add: retryOrDeadLetter_def requeue_def redelivered_def retry_attempt_def headers_of_def
      map_of_set_prop)

lemma retry_dead_letter:
  assumes "retry_attempt raw = None \<or> (\<exists>a. retry_attempt raw = Some a \<and> M \<le> a)"
  shows "dead_letter queue ev (retryOrDeadLetter M queue ev raw msg t)"
  using assms by (auto simp: retryOrDeadLetter_def dead_letter_def)

lemma handle_cases:
  obtains (done_) x w' where "handle em M c q project ev raw w = ([], w')"
      "runOnce c (ev_eventId ev) (project ev) w = (Inr x, w')"
  | (failed) msg t w' e where "handle em M c q project ev raw w
        = ([retryOrDeadLetter M q ev raw msg t], w')"
      "runOnce c (ev_eventId ev) (project ev) w = (Inl e, w')"
proof (cases "runOnce c (ev_eventId ev) (project ev) w")
  case (Pair r w')
  then show ?thesis by (cases r) (auto simp: handle_def intro: that)
qed

lemma exchange_nonempty [simp]: "DEAD_LETTER_EXCHANGE \<noteq> []"
  by (simp add: DEAD_LETTER_EXCHANGE_def)

definition always_fails :: "(domain_event \<Rightarrow> unit op) \<Rightarrow> domain_event \<Rightarrow> bool" where
  "always_fails project ev \<longleftrightarrow> (\<forall>w. \<exists>e w'. project ev w = (Inl e, w') \<and> \<not> is_unique_violation e)"

definition not_marked :: "string \<Rightarrow> string \<Rightarrow> (nat \<Rightarrow> world \<Rightarrow> world) \<Rightarrow> bool" where
  "not_marked c i others \<longleftrightarrow>
     (\<forall>n w. \<not> processed c i (w_db w) \<longrightarrow> \<not> processed c i (w_db (others n w)))"

lemma poison_runOnce:
  assumes "always_fails project ev" and "\<not> processed c (ev_eventId ev) (w_db w)"
  shows "\<exists>e w'. runOnce c (ev_eventId ev) (project ev) w = (Inl e, w') \<and> w_db w' = w_db w"
proof -
  obtain e w' where "project ev (mark_processed c (ev_eventId ev) w) = (Inl e, w')"
      "\<not> is_unique_violation e"
    using assms(1) unfolding always_fails_def by blast
  then have "runOnce c (ev_eventId ev) (project ev) w = (Inl e, w'\<lparr>w_db := w_db w\<rparr>)"
    using assms(2) by (simp add: runOnce_fresh)
  then show ?thesis by (intro exI conjI) (assumption, simp)
qed

lemma deliver_bounded:
  assumes "retry_attempt raw = Some a"
  shows "\<exists>k ms v. deliver (Suc (nat (M - a))) (handle em M c q project ev) others raw w
      = Some (k, ms, v)
    \<and> k \<le> Suc (nat (M - a)) \<and> (\<forall>m\<in>set ms. requeue q ev m \<or> dead_letter q ev m)
    \<and> length (filter (dead_letter q ev) ms) \<le> 1
    \<and> (always_fails project ev \<and> not_marked c (ev_eventId ev) others
         \<and> \<not> processed c (ev_eventId ev) (w_db w) \<longrightarrow>
        k = Suc (nat (M - a)) \<and> length (filter (dead_letter q ev) ms) = 1)"
  using assms
proof (induction "nat (M - a)" arbitrary: a raw w)
  case 0
  show ?case
  proof (cases rule: handle_cases [of em M c q project ev raw w])
    case (done_ x w')
    then have "\<not> (always_fails project ev \<and> \<not> processed c (ev_eventId ev) (w_db w))"
      using poison_runOnce [of project ev c w] by auto
    with done_ 0 show ?thesis by auto
  next
    case (failed msg t w' e)
    have dl: "dead_letter q ev (retryOrDeadLetter M q ev raw msg t)"
      using 0 by (intro retry_dead_letter) auto
    then have "om_exchange (retryOrDeadLetter M q ev raw msg t) \<noteq> []"
      by (simp add: dead_letter_def)
    with failed 0 dl show ?thesis by simp
  qed
next
  case (Suc n)
  then have lt: "a < M" and n: "n = nat (M - (a + 1))" "nat (M - a) = Suc n" by auto
  show ?case
  proof (cases rule: handle_cases [of em M c q project ev raw w])
    case (done_ x w')
    then have "\<not> (always_fails project ev \<and> \<not> processed c (ev_eventId ev) (w_db w))"
      using poison_runOnce [of project ev c w] by auto
    with done_ show ?thesis by auto
  next
    case (failed msg t w' e)
    let ?m = "retryOrDeadLetter M q ev raw msg t" and ?w = "others (Suc n) w'"
    have m: "requeue q ev ?m" "retry_attempt (redelivered ?m) = Some (a + 1)"
      using retry_requeue [OF Suc.prems lt] by auto
    then have ex: "om_exchange ?m = []" "\<not> dead_letter q ev ?m"
      by (auto simp: requeue_def dead_letter_def)
    obtain k ms v where r:
      "deliver (Suc n) (handle em M c q project ev) others (redelivered ?m) ?w = Some (k, ms, v)"
      "k \<le> Suc n" "\<forall>m\<in>set ms. requeue q ev m \<or> dead_letter q ev m"
      "length (filter (dead_letter q ev) ms) \<le> 1"
      "always_fails project ev \<and> not_marked c (ev_eventId ev) others
         \<and> \<not> processed c (ev_eventId ev) (w_db ?w) \<longrightarrow>
          k = Suc n \<and> length (filter (dead_letter q ev) ms) = 1"
      using Suc.hyps(1) [OF n(1) m(2), of ?w] unfolding n(1) [symmetric] by blast
    have run: "deliver (Suc (nat (M - a))) (handle em M c q project ev) others raw w
        = Some (Suc k, ?m # ms, v)"
      unfolding n(2) using failed(1) ex(1) r(1) by (subst deliver.simps) simp
    have fl: "filter (dead_letter q ev) (?m # ms) = filter (dead_letter q ev) ms"
      using ex(2) by simp
    have nm: "\<not> processed c (ev_eventId ev) (w_db ?w)"
      if "always_fails project ev" "not_marked c (ev_eventId ev) others"
        "\<not> processed c (ev_eventId ev) (w_db w)"
      using that poison_runOnce [OF that(1,3)] failed(2) by (auto simp: not_marked_def)
    show ?thesis
    proof (intro exI conjI)
      show "deliver (Suc (nat (M - a))) (handle em M c q project ev) others raw w
          = Some (Suc k, ?m # ms, v)" by (rule run)
      show "Suc k \<le> Suc (nat (M - a))" using r(2) n(2) by simp
      show "\<forall>x\<in>set (?m # ms). requeue q ev x \<or> dead_letter q ev x" using r(3) m(1) by simp
      show "length (filter (dead_letter q ev) (?m # ms)) \<le> 1" unfolding fl by (rule r(4))
      show "always_fails project ev \<and> not_marked c (ev_eventId ev) others
         \<and> \<not> processed c (ev_eventId ev) (w_db w) \<longrightarrow>
        Suc k = Suc (nat (M - a)) \<and> length (filter (dead_letter q ev) (?m # ms)) = 1"
        unfolding fl n(2) using r(5) nm by blast
    qed
  qed
qed

text \<open>
  C18. Retries are bounded and isolated. A message that carries no counter yet is delivered at
  most \<open>maxRetries + 1\<close> times, whatever the projection does at each delivery and whatever else
  happens in between; everything published on its behalf is either the same event for the same
  queue, through the default exchange, or one dead letter that names the queue and contains the
  event. A message whose projection always fails takes exactly \<open>maxRetries + 1\<close> deliveries and
  leaves exactly one dead letter: it is neither lost nor retried forever.
\<close>

theorem retries_bounded:
  assumes "retry_attempt raw = Some 0" and "0 \<le> M"
  shows "\<exists>k ms v. deliver (nat M + 1) (handle em M c q project ev) others raw w = Some (k, ms, v)
    \<and> k \<le> nat M + 1 \<and> (\<forall>m\<in>set ms. requeue q ev m \<or> dead_letter q ev m)
    \<and> length (filter (dead_letter q ev) ms) \<le> 1
    \<and> (always_fails project ev \<and> not_marked c (ev_eventId ev) others
         \<and> \<not> processed c (ev_eventId ev) (w_db w) \<longrightarrow>
        k = nat M + 1 \<and> length (filter (dead_letter q ev) ms) = 1)"
  using deliver_bounded [OF assms(1), where M = M] by simp

definition fx_event :: "string \<Rightarrow> string \<Rightarrow> json \<Rightarrow> domain_event" where
  "fx_event i k p = \<lparr>ev_eventId = i, ev_routingKey = k, ev_occurredAt = [], ev_correlationId = None,
     ev_payload = p\<rparr>"

definition fx_raw :: raw_message where
  "fx_raw = \<lparr>raw_headers = None, raw_messageId = Some ''e1'', raw_correlationId = None\<rparr>"

definition fx_poison :: "domain_event \<Rightarrow> unit op" where
  "fx_poison ev = throw (OtherError ''boom'')"

theorem retries_bounded_witness:
  "\<exists>k ms v. deliver 4 (handle (\<lambda>_. ''boom'') 3 ''audit'' Q_Audit fx_poison
       (fx_event ''e1'' ''x'' JNull)) (\<lambda>_ w. w) fx_raw (fx_world fx_db) = Some (k, ms, v)
     \<and> k = 4 \<and> length (filter (dead_letter Q_Audit (fx_event ''e1'' ''x'' JNull)) ms) = 1"
proof -
  have 1: "retry_attempt fx_raw = Some 0"
    by (simp add: retry_attempt_def headers_of_def fx_raw_def)
  have 2: "(0::int) \<le> 3" by simp
  have n: "nat 3 + 1 = (4::nat)" by simp
  have 3: "always_fails fx_poison (fx_event ''e1'' ''x'' JNull)"
    by (simp add: always_fails_def fx_poison_def run_basic)
  have 4: "not_marked ''audit'' (ev_eventId (fx_event ''e1'' ''x'' JNull)) (\<lambda>_ w. w)"
    by (simp add: not_marked_def)
  have 5: "\<not> processed ''audit'' (ev_eventId (fx_event ''e1'' ''x'' JNull)) (w_db (fx_world fx_db))"
    by (simp add: processed_def fixtures)
  show ?thesis
    using retries_bounded [OF 1 2, where em = "\<lambda>_. ''boom''" and c = "''audit''" and q = Q_Audit
        and project = fx_poison and ev = "fx_event ''e1'' ''x'' JNull" and others = "\<lambda>_ w. w"
        and w = "fx_world fx_db"] 3 4 5 unfolding n by blast
qed

section \<open>Projections as folds\<close>

text \<open>A consumer working through its queue: the deliveries in order, duplicates included.\<close>

fun consume ::
  "(exn \<Rightarrow> string) \<Rightarrow> int \<Rightarrow> string \<Rightarrow> string \<Rightarrow> (domain_event \<Rightarrow> unit op)
    \<Rightarrow> (domain_event \<times> raw_message) list \<Rightarrow> world \<Rightarrow> world"
where
  "consume em M consumer queue project [] w = w"
| "consume em M consumer queue project ((ev, raw) # ms) w =
     consume em M consumer queue project ms
       (snd (handle em M consumer queue project ev raw w))"

text \<open>The events not seen before, each at its first delivery.\<close>

fun first_new :: "(string \<Rightarrow> bool) \<Rightarrow> domain_event list \<Rightarrow> domain_event list" where
  "first_new seen [] = []"
| "first_new seen (ev # evs) =
     (if seen (ev_eventId ev) then first_new seen evs
      else ev # first_new (seen(ev_eventId ev := True)) evs)"

locale view_projector = projector +
  fixes view :: "db \<Rightarrow> 'v" and step :: "domain_event \<Rightarrow> time \<Rightarrow> 'v \<Rightarrow> 'v"
    and good :: "domain_event \<Rightarrow> db \<Rightarrow> bool"
  assumes view_frame: "view (d\<lparr>processed_events := p\<rparr>) = view d"
    and good_frame: "good ev (d\<lparr>processed_events := p\<rparr>) = good ev d"
    and project_good: "good ev (w_db w) \<Longrightarrow>
      \<exists>w'. project ev w = (Inr (), w') \<and> view (w_db w') = step ev (w_now w) (view (w_db w))
         \<and> w_now w' = w_now w \<and> (\<forall>ev'. good ev' (w_db w) \<longrightarrow> good ev' (w_db w'))"
begin

lemma handle_view:
  assumes "good ev (w_db w)"
  shows "view (w_db (snd (handle em M consumer q project ev raw w)))
      = (if processed consumer (ev_eventId ev) (w_db w) then view (w_db w)
         else step ev (w_now w) (view (w_db w)))
    \<and> w_now (snd (handle em M consumer q project ev raw w)) = w_now w
    \<and> (\<forall>i. processed consumer i (w_db (snd (handle em M consumer q project ev raw w)))
         \<longleftrightarrow> processed consumer i (w_db w) \<or> i = ev_eventId ev)
    \<and> (\<forall>ev'. good ev' (w_db w) \<longrightarrow> good ev' (w_db (snd (handle em M consumer q project ev raw w))))"
proof (cases "processed consumer (ev_eventId ev) (w_db w)")
  case True
  then have "snd (handle em M consumer q project ev raw w) = w\<lparr>w_next := Suc (w_next w)\<rparr>"
    by (simp add: handle_def runOnce_duplicate)
  with True show ?thesis by auto
next
  case False
  let ?v = "mark_processed consumer (ev_eventId ev) w"
  note m = mark_processed_simps [OF False]
  obtain p where db: "w_db ?v = (w_db w)\<lparr>processed_events := p\<rparr>" using m(2) by blast
  have "good ev (w_db ?v)" using assms by (simp add: db good_frame)
  then obtain w' where w': "project ev ?v = (Inr (), w')"
      "view (w_db w') = step ev (w_now ?v) (view (w_db ?v))" "w_now w' = w_now ?v"
      "\<forall>ev'. good ev' (w_db ?v) \<longrightarrow> good ev' (w_db w')"
    using project_good by blast
  have "runOnce consumer (ev_eventId ev) (project ev) w = (Inr True, w')"
    using False w'(1) by (simp add: runOnce_fresh)
  then have h: "snd (handle em M consumer q project ev raw w) = w'" by (simp add: handle_def)
  have pe: "processed_events (w_db w') = processed_events (w_db ?v)"
    by (rule project_frame [OF w'(1)])
  have "processed consumer i (w_db w') \<longleftrightarrow> processed consumer i (w_db w) \<or> i = ev_eventId ev" for i
    using m(4) [of consumer i] by (simp add: processed_def pe)
  with w' False show ?thesis unfolding h by (simp add: db view_frame good_frame m(5))
qed

lemma consume_view:
  assumes "\<forall>ev\<in>set (map fst ms). good ev (w_db w)"
  shows "view (w_db (consume em M consumer q project ms w))
    = fold (\<lambda>ev. step ev (w_now w))
        (first_new (\<lambda>i. processed consumer i (w_db w)) (map fst ms)) (view (w_db w))"
  using assms
proof (induction ms arbitrary: w)
  case (Cons m ms)
  obtain ev raw where m: "m = (ev, raw)" by (cases m)
  let ?w = "snd (handle em M consumer q project ev raw w)"
  have g: "good ev (w_db w)" using Cons.prems by (simp add: m)
  note h = handle_view [OF g, of em M q raw]
  have seen: "(\<lambda>i. processed consumer i (w_db ?w))
      = (\<lambda>i. processed consumer i (w_db w))(ev_eventId ev := True)"
    using h by auto
  have now: "w_now ?w = w_now w" using h by blast
  have goods: "\<forall>ev\<in>set (map fst ms). good ev (w_db ?w)" using h Cons.prems by (simp add: m)
  note ih = Cons.IH [OF goods, unfolded now]
  show ?case
  proof (cases "processed consumer (ev_eventId ev) (w_db w)")
    case True
    then have "(\<lambda>i. processed consumer i (w_db ?w)) = (\<lambda>i. processed consumer i (w_db w))"
      using seen by (simp add: fun_upd_idem)
    with ih h True show ?thesis by (simp add: m)
  next
    case False
    with ih h seen show ?thesis by (simp add: m)
  qed
qed simp

end

end
