(* ===== verification/Projections.thy ===== *)
theory Projections
  imports ConsumerRunner
begin

text \<open>
  The consumers of \<open>backend/src/consumers\<close>: the audit trail (\<open>audit.consumer.ts\<close>), the daily
  metrics (\<open>analytics.consumer.ts\<close>), the notifications (\<open>notification.consumer.ts\<close>) and the
  dead-letter sink. A payload is JSON: reading a property of \<open>null\<close> raises, and a value of the
  wrong type is refused by the client library when it is written (\<open>validation_error\<close>).
\<close>

definition read_prop :: "json \<Rightarrow> string \<Rightarrow> exn + json option" where
  "read_prop p k = (case property p k of None \<Rightarrow> Inl (OtherError ''TypeError'') | Some v \<Rightarrow> Inr v)"

definition lift :: "exn + 'a \<Rightarrow> 'a op" where
  "lift r = (case r of Inl e \<Rightarrow> throw e | Inr x \<Rightarrow> ret x)"

fun required_string :: "json option \<Rightarrow> exn + string" where
  "required_string (Some (JStr s)) = Inr s"
| "required_string _ = Inl validation_error"

fun nullable_string :: "json option \<Rightarrow> exn + string option" where
  "nullable_string None = Inr None"
| "nullable_string (Some JNull) = Inr None"
| "nullable_string (Some (JStr s)) = Inr (Some s)"
| "nullable_string _ = Inl validation_error"

lemma lift_run [mrun]:
  "lift (Inl e) w = (Inl e, w)" "lift (Inr x) w = (Inr x, w)"
  by (simp_all add: lift_def run_basic)

lemma lift_ok: "lift r w = (Inr x, w') \<longleftrightarrow> r = Inr x \<and> w' = w"
  by (cases r) (auto simp: lift_def run_basic)

lemma lift_err: "lift r w = (Inl e, w') \<longleftrightarrow> r = Inl e \<and> w' = w"
  by (cases r) (auto simp: lift_def run_basic)

section \<open>Audit\<close>

record audit_descriptor =
  ad_entityType :: string
  ad_entityId :: "json option"
  ad_actorId :: "json option"
  ad_organizationId :: "json option"

definition descriptor :: "string \<Rightarrow> string \<Rightarrow> string \<Rightarrow> json \<Rightarrow> exn + audit_descriptor" where
  "descriptor entity idKey actorKey p =
     (case read_prop p idKey of Inl e \<Rightarrow> Inl e | Inr i \<Rightarrow>
      (case read_prop p actorKey of Inl e \<Rightarrow> Inl e | Inr a \<Rightarrow>
       (case read_prop p ''organizationId'' of Inl e \<Rightarrow> Inl e | Inr g \<Rightarrow>
          Inr \<lparr>ad_entityType = entity, ad_entityId = i, ad_actorId = a, ad_organizationId = g\<rparr>)))"

definition describe :: "domain_event \<Rightarrow> exn + audit_descriptor" where
  "describe ev =
     (let k = ev_routingKey ev; p = ev_payload ev
      in if k = RK_TicketCreated then descriptor ''Ticket'' ''ticketId'' ''createdById'' p
         else if k = RK_TicketUpdated then descriptor ''Ticket'' ''ticketId'' ''updatedById'' p
         else if k = RK_TicketAssigned then descriptor ''Ticket'' ''ticketId'' ''assignedById'' p
         else if k = RK_TicketClosed then descriptor ''Ticket'' ''ticketId'' ''closedById'' p
         else if k = RK_CommentCreated then descriptor ''Comment'' ''commentId'' ''authorId'' p
         else Inr \<lparr>ad_entityType = ''Unknown'', ad_entityId = Some (JStr (ev_eventId ev)),
                   ad_actorId = Some JNull, ad_organizationId = Some JNull\<rparr>)"

definition audit_row ::
  "string \<Rightarrow> time \<Rightarrow> domain_event \<Rightarrow> string \<Rightarrow> string \<Rightarrow> string option \<Rightarrow> string option \<Rightarrow> audit_log"
where
  "audit_row i t ev entityType entityId actor org =
     \<lparr>al_id = i, al_action = ev_routingKey ev, al_entityType = entityType, al_entityId = entityId,
      al_actorId = actor, al_organizationId = org, al_metadata = Some (ev_payload ev),
      al_correlationId = ev_correlationId ev, al_createdAt = t\<rparr>"

definition audit_project :: "domain_event \<Rightarrow> unit op" where
  "audit_project ev =
     andThen (lift (describe ev)) (\<lambda>d.
     andThen (lift (required_string (ad_entityId d))) (\<lambda>entityId.
     andThen (lift (nullable_string (ad_actorId d))) (\<lambda>actor.
     andThen (lift (nullable_string (ad_organizationId d))) (\<lambda>org.
     andThen randomUUID (\<lambda>i.
     andThen current_time (\<lambda>t.
     write_db (audit_log_insert (audit_row i t ev (ad_entityType d) entityId actor org))))))))"

section \<open>Analytics\<close>

datatype metric = TicketsCreated | TicketsAssigned | TicketsClosed

definition startOfUtcDay :: "time \<Rightarrow> time" where
  "startOfUtcDay t = date_UTC (getUTCFullYear t) (getUTCMonth t) (getUTCDate t)"

fun increment :: "metric \<Rightarrow> ticket_metric_daily \<Rightarrow> ticket_metric_daily" where
  "increment TicketsCreated r = r\<lparr>tm_ticketsCreated := tm_ticketsCreated r + 1\<rparr>"
| "increment TicketsAssigned r = r\<lparr>tm_ticketsAssigned := tm_ticketsAssigned r + 1\<rparr>"
| "increment TicketsClosed r = r\<lparr>tm_ticketsClosed := tm_ticketsClosed r + 1\<rparr>"

definition new_metric :: "string \<Rightarrow> string \<Rightarrow> time \<Rightarrow> time \<Rightarrow> metric \<Rightarrow> ticket_metric_daily" where
  "new_metric i g day t f =
     \<lparr>tm_id = i, tm_organizationId = g, tm_date = day,
      tm_ticketsCreated = (if f = TicketsCreated then 1 else 0),
      tm_ticketsClosed = (if f = TicketsClosed then 1 else 0),
      tm_ticketsAssigned = (if f = TicketsAssigned then 1 else 0), tm_updatedAt = t\<rparr>"

definition metric_upsert :: "string \<Rightarrow> time \<Rightarrow> metric \<Rightarrow> unit op" where
  "metric_upsert g day f =
     andThen randomUUID (\<lambda>i.
     andThen current_time (\<lambda>t.
     write_db (\<lambda>d.
       if list_ex (\<lambda>r. tm_key r = (g, day)) (ticket_metrics d)
       then Inr (d\<lparr>ticket_metrics := map (\<lambda>r. if tm_key r = (g, day)
              then (increment f r)\<lparr>tm_updatedAt := t\<rparr> else r) (ticket_metrics d)\<rparr>)
       else if organization_exists d g
       then Inr (d\<lparr>ticket_metrics := ticket_metrics d @ [new_metric i g day t f]\<rparr>)
       else Inl foreign_key_violation)))"

definition metric_of :: "string \<Rightarrow> metric option" where
  "metric_of k =
     (if k = RK_TicketCreated then Some TicketsCreated
      else if k = RK_TicketAssigned then Some TicketsAssigned
      else if k = RK_TicketClosed then Some TicketsClosed else None)"

definition analytics_project :: "domain_event \<Rightarrow> unit op" where
  "analytics_project ev =
     (case metric_of (ev_routingKey ev) of
        None \<Rightarrow> ret ()
      | Some f \<Rightarrow>
          andThen (lift (read_prop (ev_payload ev) ''organizationId'')) (\<lambda>org.
          andThen current_time (\<lambda>t.
          andThen (lift (required_string org)) (\<lambda>g.
          metric_upsert g (startOfUtcDay t) f))))"

section \<open>Audit: the refinement\<close>

interpretation audit: projector audit_project Consumer_Audit
  by unfold_locales
    (auto simp: audit_project_def andThen_def lift_def run_basic write_db_def audit_log_insert_def
      split: sum.splits prod.splits if_splits)

type_synonym audit_entry =
  "string \<times> string \<times> string \<times> string option \<times> string option \<times> json option \<times> string option"

definition entry_of :: "audit_log \<Rightarrow> audit_entry" where
  "entry_of r = (al_action r, al_entityType r, al_entityId r, al_actorId r, al_organizationId r,
     al_metadata r, al_correlationId r)"

definition trail :: "db \<Rightarrow> audit_entry list" where
  "trail d = map entry_of (audit_logs d)"

text \<open>The entry an event calls for, when its payload has the shape the producers give it.\<close>

definition audit_entry_of :: "domain_event \<Rightarrow> audit_entry option" where
  "audit_entry_of ev =
     (case describe ev of Inl _ \<Rightarrow> None | Inr d \<Rightarrow>
      (case (required_string (ad_entityId d), nullable_string (ad_actorId d),
             nullable_string (ad_organizationId d)) of
         (Inr i, Inr a, Inr g) \<Rightarrow> Some (ev_routingKey ev, ad_entityType d, i, a, g,
            Some (ev_payload ev), ev_correlationId ev)
       | _ \<Rightarrow> None))"

definition auditable :: "domain_event \<Rightarrow> db \<Rightarrow> bool" where
  "auditable ev d = (case audit_entry_of ev of
       None \<Rightarrow> False
     | Some (_, _, _, a, g, _, _) \<Rightarrow>
         (case a of None \<Rightarrow> True | Some u \<Rightarrow> user_exists d u)
         \<and> (case g of None \<Rightarrow> True | Some o' \<Rightarrow> organization_exists d o'))"

lemma auditable_cong:
  assumes "users d' = users d" and "organizations d' = organizations d"
  shows "auditable ev d' = auditable ev d"
proof -
  have "user_exists d' = user_exists d" "organization_exists d' = organization_exists d"
    using assms by (simp_all add: fun_eq_iff user_exists_def organization_exists_def)
  then show ?thesis unfolding auditable_def by metis
qed

definition audit_step :: "domain_event \<Rightarrow> time \<Rightarrow> audit_entry list \<Rightarrow> audit_entry list" where
  "audit_step ev t v = (case audit_entry_of ev of None \<Rightarrow> v | Some e \<Rightarrow> v @ [e])"

lemma audit_project_good:
  assumes "auditable ev (w_db w)"
  shows "\<exists>w'. audit_project ev w = (Inr (), w')
    \<and> trail (w_db w') = audit_step ev (w_now w) (trail (w_db w)) \<and> w_now w' = w_now w
    \<and> (\<forall>ev'. auditable ev' (w_db w) \<longrightarrow> auditable ev' (w_db w'))"
proof -
  obtain d i a g where d: "describe ev = Inr d" "required_string (ad_entityId d) = Inr i"
      "nullable_string (ad_actorId d) = Inr a" "nullable_string (ad_organizationId d) = Inr g"
    and e: "audit_entry_of ev = Some (ev_routingKey ev, ad_entityType d, i, a, g,
      Some (ev_payload ev), ev_correlationId ev)"
    using assms by (auto simp: auditable_def audit_entry_of_def split: sum.splits option.splits)
  let ?row = "audit_row (w_uuid w (w_next w)) (w_now w) ev (ad_entityType d) i a g"
  have "audit_log_insert ?row (w_db w)
      = Inr ((w_db w)\<lparr>audit_logs := audit_logs (w_db w) @ [?row]\<rparr>)"
    using assms by (simp add: auditable_def e audit_log_insert_def audit_row_def)
  then have "audit_project ev w = (Inr (), w\<lparr>w_next := Suc (w_next w),
      w_db := (w_db w)\<lparr>audit_logs := audit_logs (w_db w) @ [?row]\<rparr>\<rparr>)"
    by (simp add: audit_project_def andThen_def d mrun)
  moreover have "auditable ev' ((w_db w)\<lparr>audit_logs := audit_logs (w_db w) @ [?row]\<rparr>)
      = auditable ev' (w_db w)" for ev'
    by (rule auditable_cong) simp_all
  ultimately show ?thesis
    by (intro exI [of _ "w\<lparr>w_next := Suc (w_next w),
      w_db := (w_db w)\<lparr>audit_logs := audit_logs (w_db w) @ [?row]\<rparr>\<rparr>"])
      (simp add: trail_def audit_step_def e entry_of_def audit_row_def)
qed

interpretation audit_trail:
  view_projector audit_project Consumer_Audit trail audit_step auditable
proof unfold_locales
  show "trail (d\<lparr>processed_events := p\<rparr>) = trail d" for d p by (simp add: trail_def)
  show "auditable ev (d\<lparr>processed_events := p\<rparr>) = auditable ev d" for ev d p
    by (rule auditable_cong) simp_all
  show "\<exists>w'. audit_project ev w = (Inr (), w')
      \<and> trail (w_db w') = audit_step ev (w_now w) (trail (w_db w)) \<and> w_now w' = w_now w
      \<and> (\<forall>ev'. auditable ev' (w_db w) \<longrightarrow> auditable ev' (w_db w'))"
    if "auditable ev (w_db w)" for ev w
    by (rule audit_project_good [OF that])
qed

lemma fold_audit_step:
  "\<forall>ev\<in>set evs. audit_entry_of ev \<noteq> None \<Longrightarrow>
   fold (\<lambda>ev. audit_step ev t) evs v = v @ map (\<lambda>ev. the (audit_entry_of ev)) evs"
  by (induction evs arbitrary: v) (auto simp: audit_step_def)

lemma first_new_subset: "set (first_new P evs) \<subseteq> set evs"
proof (induction evs arbitrary: P)
  case (Cons e evs)
  have "set (first_new P evs) \<subseteq> set evs"
      "set (first_new (P(ev_eventId e := True)) evs) \<subseteq> set evs" by (rule Cons.IH)+
  then show ?case unfolding first_new.simps set_simps by auto
qed simp

text \<open>
  The audit trail is complete and free of duplicates. Whatever the order and however often
  the broker delivers the events of a queue, after the consumer has worked through it the trail
  has grown by exactly one entry for each event not recorded before, in the order of their first
  delivery, with the event's key, entity, actor, organization, payload and correlation id.
\<close>

theorem audit_trail_exact:
  assumes "\<forall>ev\<in>set (map fst ms). auditable ev (w_db w)"
  shows "trail (w_db (consume em M Consumer_Audit Q_Audit audit_project ms w))
    = trail (w_db w) @ map (\<lambda>ev. the (audit_entry_of ev))
        (first_new (\<lambda>i. processed Consumer_Audit i (w_db w)) (map fst ms))"
proof -
  have some: "auditable ev d \<Longrightarrow> audit_entry_of ev \<noteq> None" for ev d
    by (cases "audit_entry_of ev") (simp_all add: auditable_def)
  have "\<forall>ev\<in>set (first_new P (map fst ms)). audit_entry_of ev \<noteq> None" for P
    using assms first_new_subset [of P "map fst ms"] some by blast
  then show ?thesis by (simp add: audit_trail.consume_view [OF assms] fold_audit_step)
qed

definition fx_created :: "string \<Rightarrow> domain_event" where
  "fx_created i = fx_event i RK_TicketCreated (JObj [(''ticketId'', JStr ''t1''),
     (''reference'', JStr ''TKT-000001''), (''title'', JStr ''Broken''),
     (''organizationId'', JStr ''acme''), (''createdById'', JStr ''carol''),
     (''assignedToId'', JNull)])"

definition fx_deliveries :: "(domain_event \<times> raw_message) list" where
  "fx_deliveries = [(fx_created ''e1'', fx_raw), (fx_created ''e2'', fx_raw),
     (fx_created ''e1'', fx_raw)]"

theorem audit_trail_exact_witness:
  "length (trail (w_db (consume (\<lambda>_. []) 3 Consumer_Audit Q_Audit audit_project fx_deliveries
     (fx_world fx_db)))) = 2"
proof -
  have 1: "\<forall>ev\<in>set (map fst fx_deliveries). auditable ev (w_db (fx_world fx_db))" by code_simp
  have 2: "trail (w_db (fx_world fx_db)) = []" by (simp add: trail_def fixtures)
  have 3: "length (first_new (\<lambda>i. processed Consumer_Audit i (w_db (fx_world fx_db)))
      (map fst fx_deliveries)) = 2" by code_simp
  show ?thesis using audit_trail_exact [OF 1, of "\<lambda>_. []" 3] 2 3 by simp
qed

section \<open>Analytics: the refinement\<close>

interpretation analytics: projector analytics_project Consumer_Analytics
  by unfold_locales
    (auto simp: analytics_project_def metric_upsert_def andThen_def lift_def run_basic write_db_def
      split: sum.splits prod.splits if_splits option.splits)

type_synonym counts = "metric \<Rightarrow> nat"

fun metric_value :: "ticket_metric_daily \<Rightarrow> counts" where
  "metric_value r TicketsCreated = tm_ticketsCreated r"
| "metric_value r TicketsAssigned = tm_ticketsAssigned r"
| "metric_value r TicketsClosed = tm_ticketsClosed r"

definition metric_counts :: "db \<Rightarrow> string \<times> time \<Rightarrow> counts" where
  "metric_counts d key = (case List.find (\<lambda>r. tm_key r = key) (ticket_metrics d) of
     None \<Rightarrow> (\<lambda>_. 0) | Some r \<Rightarrow> metric_value r)"

definition countable_event :: "domain_event \<Rightarrow> db \<Rightarrow> bool" where
  "countable_event ev d = (case metric_of (ev_routingKey ev) of
       None \<Rightarrow> True
     | Some _ \<Rightarrow>
         (case property (ev_payload ev) ''organizationId'' of
            Some (Some (JStr g)) \<Rightarrow> organization_exists d g | _ \<Rightarrow> False))"

definition event_org :: "domain_event \<Rightarrow> string" where
  "event_org ev = (case property (ev_payload ev) ''organizationId'' of
     Some (Some (JStr g)) \<Rightarrow> g | _ \<Rightarrow> [])"

definition count_step ::
  "domain_event \<Rightarrow> time \<Rightarrow> (string \<times> time \<Rightarrow> counts) \<Rightarrow> string \<times> time \<Rightarrow> counts" where
  "count_step ev t v = (case metric_of (ev_routingKey ev) of
       None \<Rightarrow> v
     | Some f \<Rightarrow> (let key = (event_org ev, startOfUtcDay t)
                 in v(key := (v key)(f := v key f + 1))))"

lemma increment_simps [simp]:
  "tm_key ((increment f r)\<lparr>tm_updatedAt := t\<rparr>) = tm_key r"
  "metric_value ((increment f r)\<lparr>tm_updatedAt := t\<rparr>) = (metric_value r)(f := metric_value r f + 1)"
proof -
  show "tm_key ((increment f r)\<lparr>tm_updatedAt := t\<rparr>) = tm_key r"
    by (cases f) (simp_all add: tm_key_def)
  show "metric_value ((increment f r)\<lparr>tm_updatedAt := t\<rparr>)
      = (metric_value r)(f := metric_value r f + 1)"
  proof
    fix g
    show "metric_value ((increment f r)\<lparr>tm_updatedAt := t\<rparr>) g
        = ((metric_value r)(f := metric_value r f + 1)) g"
      by (cases f; cases g) simp_all
  qed
qed

lemma new_metric_simps [simp]:
  "tm_key (new_metric i g day t f) = (g, day)"
  "metric_value (new_metric i g day t f) = (\<lambda>_. 0)(f := 1)"
proof -
  show "tm_key (new_metric i g day t f) = (g, day)" by (simp add: new_metric_def tm_key_def)
  show "metric_value (new_metric i g day t f) = (\<lambda>_. 0)(f := 1)"
  proof
    fix h
    show "metric_value (new_metric i g day t f) h = ((\<lambda>_. 0)(f := 1)) h"
      by (cases f; cases h) (simp_all add: new_metric_def)
  qed
qed

definition metric_rows_after ::
  "string \<Rightarrow> time \<Rightarrow> string \<Rightarrow> time \<Rightarrow> metric \<Rightarrow> ticket_metric_daily list \<Rightarrow> ticket_metric_daily list"
where
  "metric_rows_after i t g day f rs =
     (if list_ex (\<lambda>r. tm_key r = (g, day)) rs
      then map (\<lambda>r. if tm_key r = (g, day) then (increment f r)\<lparr>tm_updatedAt := t\<rparr> else r) rs
      else rs @ [new_metric i g day t f])"

lemma find_metric_after:
  "(case List.find (\<lambda>r. tm_key r = key) (metric_rows_after i t g day f rs) of
      None \<Rightarrow> (\<lambda>_. 0) | Some r \<Rightarrow> metric_value r)
   = (let v = (\<lambda>key. case List.find (\<lambda>r. tm_key r = key) rs of
                 None \<Rightarrow> (\<lambda>_. 0) | Some r \<Rightarrow> metric_value r)
      in (v((g, day) := (v (g, day))(f := v (g, day) f + 1))) key)"
proof (cases "list_ex (\<lambda>r. tm_key r = (g, day)) rs")
  case True
  let ?u = "\<lambda>r. if tm_key r = (g, day) then (increment f r)\<lparr>tm_updatedAt := t\<rparr> else r"
  have f: "List.find (\<lambda>r. tm_key r = key) (map ?u rs)
      = map_option ?u (List.find (\<lambda>r. tm_key r = key) rs)"
    by (rule find_map_upd) simp
  show ?thesis
  proof (cases "List.find (\<lambda>r. tm_key r = key) rs")
    case None
    then have "key \<noteq> (g, day)" using True by (auto simp: find_None_iff list_ex_iff)
    with True f None show ?thesis by (simp add: metric_rows_after_def)
  next
    case (Some r)
    then have "tm_key r = key" by (auto dest: find_SomeD)
    with True f Some show ?thesis by (auto simp: metric_rows_after_def Let_def)
  qed
next
  case False
  then have n: "List.find (\<lambda>r. tm_key r = (g, day)) rs = None"
    by (auto simp: find_None_iff list_ex_iff)
  show ?thesis
  proof (cases "key = (g, day)")
    case True
    with False n show ?thesis by (simp add: metric_rows_after_def find_append Let_def)
  next
    case neq: False
    with False show ?thesis
      by (auto simp: metric_rows_after_def find_append Let_def split: option.split)
  qed
qed

lemma metric_upsert_run:
  assumes "organization_exists (w_db w) g"
  shows "metric_upsert g day f w = (Inr (), w\<lparr>w_next := Suc (w_next w),
    w_db := (w_db w)\<lparr>ticket_metrics := metric_rows_after (w_uuid w (w_next w)) (w_now w) g day f
      (ticket_metrics (w_db w))\<rparr>\<rparr>)"
  using assms
  by (simp add: metric_upsert_def andThen_def run_basic write_db_def metric_rows_after_def)

lemma countable_cong:
  "organizations d' = organizations d \<Longrightarrow> countable_event ev d' = countable_event ev d"
proof -
  assume "organizations d' = organizations d"
  then have "organization_exists d' = organization_exists d"
    by (simp add: fun_eq_iff organization_exists_def)
  then show ?thesis unfolding countable_event_def by metis
qed

lemma analytics_project_good:
  assumes "countable_event ev (w_db w)"
  shows "\<exists>w'. analytics_project ev w = (Inr (), w')
    \<and> metric_counts (w_db w') = count_step ev (w_now w) (metric_counts (w_db w))
    \<and> w_now w' = w_now w
    \<and> (\<forall>ev'. countable_event ev' (w_db w) \<longrightarrow> countable_event ev' (w_db w'))"
proof (cases "metric_of (ev_routingKey ev)")
  case None
  then show ?thesis by (simp add: analytics_project_def run_basic count_step_def)
next
  case (Some f)
  with assms obtain g where g: "property (ev_payload ev) ''organizationId'' = Some (Some (JStr g))"
      "organization_exists (w_db w) g"
    by (auto simp: countable_event_def split: option.splits json.splits)
  let ?rows = "metric_rows_after (w_uuid w (w_next w)) (w_now w) g (startOfUtcDay (w_now w)) f
    (ticket_metrics (w_db w))"
  let ?w = "w\<lparr>w_next := Suc (w_next w), w_db := (w_db w)\<lparr>ticket_metrics := ?rows\<rparr>\<rparr>"
  have "analytics_project ev w = (Inr (), ?w)"
    using g by (simp add: analytics_project_def Some andThen_def read_prop_def lift_def run_basic
        metric_upsert_run)
  moreover have "metric_counts (w_db ?w) = count_step ev (w_now w) (metric_counts (w_db w))"
  proof
    fix key
    show "metric_counts (w_db ?w) key = count_step ev (w_now w) (metric_counts (w_db w)) key"
      using find_metric_after [of key "w_uuid w (w_next w)" "w_now w" g "startOfUtcDay (w_now w)" f
          "ticket_metrics (w_db w)"]
      unfolding count_step_def Some option.case event_org_def g(1) json.case Let_def
        metric_counts_def by simp
  qed
  moreover have "countable_event ev' (w_db ?w) = countable_event ev' (w_db w)" for ev'
    by (rule countable_cong) simp
  ultimately show ?thesis by (intro exI [of _ ?w]) simp
qed

interpretation daily_metrics:
  view_projector analytics_project Consumer_Analytics metric_counts count_step countable_event
proof unfold_locales
  show "metric_counts (d\<lparr>processed_events := p\<rparr>) = metric_counts d" for d p
    by (simp add: fun_eq_iff metric_counts_def)
  show "countable_event ev (d\<lparr>processed_events := p\<rparr>) = countable_event ev d" for ev d p
    by (rule countable_cong) simp
  show "\<exists>w'. analytics_project ev w = (Inr (), w')
      \<and> metric_counts (w_db w') = count_step ev (w_now w) (metric_counts (w_db w))
      \<and> w_now w' = w_now w
      \<and> (\<forall>ev'. countable_event ev' (w_db w) \<longrightarrow> countable_event ev' (w_db w'))"
    if "countable_event ev (w_db w)" for ev w
    by (rule analytics_project_good [OF that])
qed

definition counts_towards :: "string \<Rightarrow> metric \<Rightarrow> domain_event \<Rightarrow> bool" where
  "counts_towards g f ev \<longleftrightarrow> metric_of (ev_routingKey ev) = Some f \<and> event_org ev = g"

lemma fold_count_step:
  "fold (\<lambda>ev. count_step ev t) evs v (g, day) f
    = v (g, day) f + (if day = startOfUtcDay t then length (filter (counts_towards g f) evs) else 0)"
proof (induction evs arbitrary: v)
  case (Cons ev evs)
  have "count_step ev t v (g, day) f
      = v (g, day) f + (if day = startOfUtcDay t \<and> counts_towards g f ev then 1 else 0)"
    by (auto simp: count_step_def counts_towards_def Let_def split: option.split)
  with Cons show ?case by simp
qed simp

text \<open>
  C24. The daily metrics count each event once. However often and in whatever order the events
  of a queue are delivered, the consumer adds to an organization's row of the current day, for
  each metric, exactly the number of distinct new events of that kind for that organization, and
  leaves the rows of every other day as they were.
\<close>

theorem daily_metrics_exact:
  assumes "\<forall>ev\<in>set (map fst ms). countable_event ev (w_db w)"
  shows "metric_counts (w_db (consume em M Consumer_Analytics Q_Analytics analytics_project ms w))
      (g, day) f
    = metric_counts (w_db w) (g, day) f
      + (if day = startOfUtcDay (w_now w)
         then length (filter (counts_towards g f)
           (first_new (\<lambda>i. processed Consumer_Analytics i (w_db w)) (map fst ms)))
         else 0)"
  by (simp add: daily_metrics.consume_view [OF assms] fold_count_step)

theorem daily_metrics_exact_witness:
  "metric_counts (w_db (consume (\<lambda>_. []) 3 Consumer_Analytics Q_Analytics analytics_project
     fx_deliveries (fx_world fx_db))) (''acme'', startOfUtcDay 1000) TicketsCreated = 2"
proof -
  have 1: "\<forall>ev\<in>set (map fst fx_deliveries). countable_event ev (w_db (fx_world fx_db))"
    by code_simp
  have 2: "length (filter (counts_towards ''acme'' TicketsCreated)
      (first_new (\<lambda>i. processed Consumer_Analytics i (w_db (fx_world fx_db)))
        (map fst fx_deliveries))) = 2" by code_simp
  have 3: "metric_counts (w_db (fx_world fx_db)) (''acme'', startOfUtcDay 1000) TicketsCreated = 0"
    "w_now (fx_world fx_db) = 1000"
    by (simp_all add: metric_counts_def fixtures)
  show ?thesis using daily_metrics_exact [OF 1, where g = "''acme''" and f = TicketsCreated
        and day = "startOfUtcDay 1000" and em = "\<lambda>_. []" and M = 3] 2 3 by simp
qed

section \<open>Notifications\<close>

text \<open>Two punctuation marks of the messages, as UTF-8 bytes.\<close>

definition em_dash :: string where "em_dash = [CHR 0xE2, CHR 0x80, CHR 0x94]"
definition right_arrow :: string where "right_arrow = [CHR 0xE2, CHR 0x86, CHR 0x92]"

text \<open>\<open>unique\<close>: the truthy ids, each once, in order of first occurrence (\<open>Set\<close>).\<close>

fun unique_acc :: "json list \<Rightarrow> json option list \<Rightarrow> json list" where
  "unique_acc acc [] = rev acc"
| "unique_acc acc (x # xs) =
     (case x of
        None \<Rightarrow> unique_acc acc xs
      | Some v \<Rightarrow>
          if truthy (Some v) \<and> v \<notin> set acc then unique_acc (v # acc) xs else unique_acc acc xs)"

definition unique :: "json option list \<Rightarrow> json list" where
  "unique xs = unique_acc [] xs"

definition entries :: "json \<Rightarrow> (string \<times> json) list" where
  "entries v = (case v of JObj kvs \<Rightarrow> kvs
     | JArr xs \<Rightarrow> zip (map show_nat [0..<length xs]) xs | _ \<Rightarrow> [])"

definition describeChanges :: "json option \<Rightarrow> exn + string" where
  "describeChanges v = (case v of
       None \<Rightarrow> Inl (OtherError ''TypeError'')
     | Some JNull \<Rightarrow> Inl (OtherError ''TypeError'')
     | Some c \<Rightarrow> Inr (join_with '', ''
         (map (\<lambda>(k, x). k @ '' '' @ right_arrow @ '' '' @ js_string x) (entries c))))"

fun all_strings :: "json list \<Rightarrow> exn + string list" where
  "all_strings [] = Inr []"
| "all_strings (JStr s # xs) = (case all_strings xs of Inl e \<Rightarrow> Inl e | Inr ss \<Rightarrow> Inr (s # ss))"
| "all_strings (_ # xs) = Inl validation_error"

fun notification_rows ::
  "string list \<Rightarrow> notification_type \<Rightarrow> string \<Rightarrow> string \<Rightarrow> string option \<Rightarrow> notification list op" where
  "notification_rows [] ty title msg tid = ret []"
| "notification_rows (u # us) ty title msg tid =
     andThen randomUUID (\<lambda>i.
     andThen current_time (\<lambda>t.
     andThen (notification_rows us ty title msg tid) (\<lambda>rows.
     ret (\<lparr>nt_id = i, nt_userId = u, nt_type = ty, nt_title = title, nt_message = msg,
           nt_ticketId = tid, nt_isRead = False, nt_readAt = None, nt_createdAt = t\<rparr> # rows))))"

definition notify ::
  "json list \<Rightarrow> notification_type \<Rightarrow> string \<Rightarrow> string \<Rightarrow> json option \<Rightarrow> unit op" where
  "notify userIds ty title msg ticketId =
     (if userIds = [] then ret ()
      else andThen (lift (all_strings userIds)) (\<lambda>us.
           andThen (lift (nullable_string ticketId)) (\<lambda>tid.
           andThen (notification_rows us ty title msg tid) (\<lambda>rows.
           write_db (notifications_insert rows)))))"

definition find_ticket_row :: "json option \<Rightarrow> ticket option op" where
  "find_ticket_row ticketId =
     andThen (lift (required_string ticketId)) (\<lambda>i.
     read_db (\<lambda>d. find_by tk_id i (tickets d)))"

definition parties :: "ticket \<Rightarrow> json option list" where
  "parties t = [Some (JStr (tk_createdById t)), map_option JStr (tk_assignedToId t)]"

definition without :: "json option \<Rightarrow> json list \<Rightarrow> json list" where
  "without actor ids = filter (\<lambda>i. Some i \<noteq> actor) ids"

definition project_created :: "json \<Rightarrow> unit op" where
  "project_created p =
     andThen (lift (read_prop p ''createdById'')) (\<lambda>creator.
     andThen (lift (read_prop p ''assignedToId'')) (\<lambda>assignee.
     andThen (lift (read_prop p ''reference'')) (\<lambda>ref.
     andThen (lift (read_prop p ''title'')) (\<lambda>title.
     andThen (lift (read_prop p ''ticketId'')) (\<lambda>tid.
     notify (unique [creator, assignee]) TICKET_CREATED ''Ticket created''
       (''Ticket '' @ template ref @ '' '' @ em_dash @ '' \"'' @ template title
         @ ''\" was created.'') tid)))))"

definition project_assigned :: "json \<Rightarrow> unit op" where
  "project_assigned p =
     andThen (lift (read_prop p ''assignedToId'')) (\<lambda>assignee.
     andThen (lift (read_prop p ''assignedById'')) (\<lambda>actor.
     andThen (lift (read_prop p ''reference'')) (\<lambda>ref.
     andThen (lift (read_prop p ''ticketId'')) (\<lambda>tid.
     notify (without actor (unique [assignee])) TICKET_ASSIGNED ''Ticket assigned to you''
       (''Ticket '' @ template ref @ '' was assigned to you.'') tid))))"

definition project_updated :: "json \<Rightarrow> unit op" where
  "project_updated p =
     andThen (lift (read_prop p ''ticketId'')) (\<lambda>tid.
     andThen (find_ticket_row tid) (\<lambda>found.
     case found of
       None \<Rightarrow> ret ()
     | Some ticket \<Rightarrow>
         andThen (lift (read_prop p ''changes'')) (\<lambda>changes.
         andThen (lift (describeChanges changes)) (\<lambda>summary.
         andThen (lift (read_prop p ''updatedById'')) (\<lambda>actor.
         andThen (lift (read_prop p ''reference'')) (\<lambda>ref.
         notify (without actor (unique (parties ticket))) TICKET_UPDATED ''Ticket updated''
           (''Ticket '' @ template ref @ '' was updated''
             @ (if summary = [] then [] else '': '' @ summary) @ ''.'') tid))))))"

definition project_closed :: "json \<Rightarrow> unit op" where
  "project_closed p =
     andThen (lift (read_prop p ''ticketId'')) (\<lambda>tid.
     andThen (find_ticket_row tid) (\<lambda>found.
     case found of
       None \<Rightarrow> ret ()
     | Some ticket \<Rightarrow>
         andThen (lift (read_prop p ''closedById'')) (\<lambda>actor.
         andThen (lift (read_prop p ''reference'')) (\<lambda>ref.
         notify (without actor (unique (parties ticket))) TICKET_CLOSED ''Ticket closed''
           (''Ticket '' @ template ref @ '' has been closed.'') tid))))"

definition project_comment :: "json \<Rightarrow> unit op" where
  "project_comment p =
     andThen (lift (read_prop p ''ticketId'')) (\<lambda>tid.
     andThen (find_ticket_row tid) (\<lambda>found.
     case found of
       None \<Rightarrow> ret ()
     | Some ticket \<Rightarrow>
         andThen (lift (read_prop p ''isInternal'')) (\<lambda>internal.
         andThen (lift (read_prop p ''authorId'')) (\<lambda>author.
         let candidates = (if truthy internal then [map_option JStr (tk_assignedToId ticket)]
               else parties ticket)
         in notify (without author (unique candidates)) COMMENT_ADDED ''New comment''
              (''A new comment was added to ticket '' @ tk_reference ticket @ ''.'') tid))))"

definition notification_project :: "domain_event \<Rightarrow> unit op" where
  "notification_project ev =
     (let k = ev_routingKey ev; p = ev_payload ev
      in if k = RK_TicketCreated then project_created p
         else if k = RK_TicketAssigned then project_assigned p
         else if k = RK_TicketUpdated then project_updated p
         else if k = RK_TicketClosed then project_closed p
         else if k = RK_CommentCreated then project_comment p
         else ret ())"

lemma unique_acc_props:
  "distinct acc \<Longrightarrow> distinct (unique_acc acc xs)"
  "set (unique_acc acc xs) = set acc \<union> {v. Some v \<in> set xs \<and> truthy (Some v)}"
  by (induction xs arbitrary: acc) (auto split: option.splits)

lemma unique_props:
  "distinct (unique xs)" "set (unique xs) = {v. Some v \<in> set xs \<and> truthy (Some v)}"
  by (simp_all add: unique_def unique_acc_props)

lemma all_strings_ok: "all_strings xs = Inr ss \<Longrightarrow> xs = map JStr ss"
  by (induction xs arbitrary: ss rule: all_strings.induct) (auto split: sum.splits)

lemma notification_rows_ok:
  "notification_rows us ty title msg tid w = (Inr rows, w') \<Longrightarrow>
     map nt_userId rows = us \<and> w_db w' = w_db w
   \<and> (\<forall>r\<in>set rows. nt_type r = ty \<and> nt_message r = msg \<and> \<not> nt_isRead r \<and> nt_ticketId r = tid)"
  by (induction us arbitrary: w rows w') (auto simp: runs)

lemma notify_ok:
  assumes "notify ids ty title msg tid w = (Inr u, w')"
  shows "\<exists>rows. w_db w' = (w_db w)\<lparr>notifications := notifications (w_db w) @ rows\<rparr>
    \<and> map (JStr \<circ> nt_userId) rows = ids
    \<and> (\<forall>r\<in>set rows. nt_type r = ty \<and> \<not> nt_isRead r)"
proof (cases "ids = []")
  case True
  with assms show ?thesis by (auto simp: notify_def run_basic intro!: exI [of _ "[]"])
next
  case False
  with assms obtain us t rows v where "all_strings ids = Inr us"
    and rows: "notification_rows us ty title msg t w = (Inr rows, v)"
    and ins: "notifications_insert rows (w_db v) = Inr (w_db w')"
    by (auto simp: notify_def runs lift_ok)
  then have ids: "ids = map JStr us" by (simp add: all_strings_ok)
  note r = notification_rows_ok [OF rows]
  have "w_db w' = (w_db w)\<lparr>notifications := notifications (w_db w) @ rows\<rparr>"
    using ins r by (auto simp: notifications_insert_def split: if_splits)
  moreover have "map (JStr \<circ> nt_userId) rows = ids"
    using r by (metis ids map_map)
  ultimately show ?thesis using r by blast
qed

text \<open>The projection leaves everything but the notifications alone.\<close>

definition ignores_notifications :: "(world \<Rightarrow> bool) \<Rightarrow> bool" where
  "ignores_notifications I \<longleftrightarrow> (\<forall>w n ns. I w \<longrightarrow>
     I (w\<lparr>w_next := n\<rparr>) \<and> I (w\<lparr>w_db := (w_db w)\<lparr>notifications := ns\<rparr>\<rparr>))"

lemma keeps_lift [keeping]: "keeps I (lift r)"
  by (cases r) (simp_all add: lift_def keeps_pure)

lemma keeps_notifying:
  assumes "ignores_notifications I"
  shows "keeps I (notification_rows us ty title msg t)" and "keeps I (notify ids ty title msg tid)"
    and "keeps I (find_ticket_row tid)"
proof -
  have uuid: "keeps I randomUUID" using assms by (simp add: keeps_def run_basic ignores_notifications_def)
  show rows: "keeps I (notification_rows us ty title msg t)" for us t
    by (induction us) (auto intro!: keeping uuid)
  have wr: "keeps I (write_db (notifications_insert rs))" for rs
    using assms
    by (auto simp: keeps_def ignores_notifications_def write_db_def notifications_insert_def split: if_splits)
  show "keeps I (notify ids ty title msg tid)"
    unfolding notify_def by (intro keeping rows wr)
  show "keeps I (find_ticket_row tid)"
    unfolding find_ticket_row_def by (intro keeping)
qed

lemma notification_frame:
  "ignores_notifications I \<Longrightarrow> keeps I (notification_project ev)"
  unfolding notification_project_def project_created_def project_assigned_def project_updated_def
    project_closed_def project_comment_def Let_def
  by (intro keeping keeps_notifying)

lemma notification_project_keeps:
  assumes "notification_project ev w = (r, w')" and "\<And>d ns. f (d\<lparr>notifications := ns\<rparr>) = f d"
  shows "f (w_db w') = f (w_db w)"
proof -
  have "ignores_notifications (\<lambda>v. f (w_db v) = f (w_db w))"
    using assms(2) by (simp add: ignores_notifications_def)
  from keepsD [OF notification_frame [OF this] refl assms(1)] show ?thesis .
qed

interpretation notifications_consumer: projector notification_project Consumer_Notification
  by unfold_locales (erule notification_project_keeps, simp)

definition actor_key :: "string \<Rightarrow> string" where
  "actor_key k = (if k = RK_TicketUpdated then ''updatedById''
     else if k = RK_TicketClosed then ''closedById'' else ''authorId'')"

text \<open>Who is to hear of an event on a ticket.\<close>

definition internal_comment :: "domain_event \<Rightarrow> bool" where
  "internal_comment ev \<longleftrightarrow> ev_routingKey ev = RK_CommentCreated
     \<and> truthy (map_of (case ev_payload ev of JObj kvs \<Rightarrow> kvs | _ \<Rightarrow> []) ''isInternal'')"

definition audience :: "domain_event \<Rightarrow> ticket \<Rightarrow> string set" where
  "audience ev t = (if internal_comment ev then set_option (tk_assignedToId t)
     else insert (tk_createdById t) (set_option (tk_assignedToId t)))"

lemma notify_recipients:
  assumes "notify (without (Some (JStr a)) (unique cs)) ty title msg tid w = (Inr u, w')"
    and "{s. Some (JStr s) \<in> set cs} = A" and "\<forall>v\<in>set cs. case v of None \<Rightarrow> True | Some j \<Rightarrow> j \<in> range JStr"
  shows "\<exists>rows. w_db w' = (w_db w)\<lparr>notifications := notifications (w_db w) @ rows\<rparr>
    \<and> distinct (map nt_userId rows) \<and> nt_userId ` set rows = A - {a, []}
    \<and> (\<forall>r\<in>set rows. nt_type r = ty \<and> \<not> nt_isRead r)"
proof -
  from notify_ok [OF assms(1)] obtain rows where
    rows: "w_db w' = (w_db w)\<lparr>notifications := notifications (w_db w) @ rows\<rparr>"
      "map (JStr \<circ> nt_userId) rows = without (Some (JStr a)) (unique cs)"
      "\<forall>r\<in>set rows. nt_type r = ty \<and> \<not> nt_isRead r" by blast
  have "distinct (map (JStr \<circ> nt_userId) rows)"
    unfolding rows(2) without_def by (intro distinct_filter unique_props)
  then have d: "distinct (map nt_userId rows)" by (simp add: distinct_map inj_on_def)
  have "JStr ` (nt_userId ` set rows) = set (without (Some (JStr a)) (unique cs))"
    unfolding rows(2) [symmetric] by (simp add: image_comp)
  also have "\<dots> = {v. Some v \<in> set cs \<and> truthy (Some v) \<and> v \<noteq> JStr a}"
    by (auto simp: without_def unique_props)
  also have "\<dots> = JStr ` (A - {a, []})"
    using assms(2,3) by (force simp: image_iff split: option.splits)
  finally have "nt_userId ` set rows = A - {a, []}" by (simp add: inj_image_eq_iff inj_def)
  with rows d show ?thesis by blast
qed

text \<open>
  C25. Who is notified. When an update, a closing or a comment of a ticket is projected, exactly
  the parties of the ticket (creator and assignee) except the one who acted get one unread
  notification each, never two; of an internal comment only the assignee hears, so a customer who
  opened the ticket learns nothing of internal notes.
\<close>

theorem notification_audience:
  assumes "notification_project ev w = (Inr u, w')"
    and "ev_routingKey ev \<in> {RK_TicketUpdated, RK_TicketClosed, RK_CommentCreated}"
    and "ev_payload ev = JObj kvs" and "map_of kvs ''ticketId'' = Some (JStr i)"
    and "find_by tk_id i (tickets (w_db w)) = Some t"
    and "map_of kvs (actor_key (ev_routingKey ev)) = Some (JStr a)"
  shows "\<exists>rows. w_db w' = (w_db w)\<lparr>notifications := notifications (w_db w) @ rows\<rparr>
    \<and> distinct (map nt_userId rows) \<and> nt_userId ` set rows = audience ev t - {a, []}
    \<and> (\<forall>r\<in>set rows. \<not> nt_isRead r)"
proof -
  have p1: "{s. Some (JStr s) \<in> set (parties t)} = insert (tk_createdById t) (set_option (tk_assignedToId t))"
    by (cases "tk_assignedToId t") (auto simp: parties_def)
  have p2: "\<forall>v\<in>set (parties t). case v of None \<Rightarrow> True | Some j \<Rightarrow> j \<in> range JStr"
    by (cases "tk_assignedToId t") (auto simp: parties_def)
  have q1: "{s. Some (JStr s) \<in> set [map_option JStr (tk_assignedToId t)]} = set_option (tk_assignedToId t)"
    by (cases "tk_assignedToId t") auto
  have q2: "\<forall>v\<in>set [map_option JStr (tk_assignedToId t)].
      case v of None \<Rightarrow> True | Some j \<Rightarrow> j \<in> range JStr"
    by (cases "tk_assignedToId t") auto
  let ?k = "ev_routingKey ev"
  note props = assms(3-6) read_prop_def lift_run
  consider "?k = RK_TicketUpdated" | "?k = RK_TicketClosed" | "?k = RK_CommentCreated"
    using assms(2) by blast
  then show ?thesis
  proof cases
    case 1
    then have "\<exists>title msg. notify (without (Some (JStr a)) (unique (parties t))) TICKET_UPDATED
        title msg (Some (JStr i)) w = (Inr u, w')"
      using assms(1) props
      by (auto simp: notification_project_def project_updated_def find_ticket_row_def runs lift_ok
          actor_key_def split: sum.splits)
    with 1 notify_recipients [OF _ p1 p2] show ?thesis
      by (fastforce simp: audience_def internal_comment_def)
  next
    case 2
    then have "\<exists>title msg. notify (without (Some (JStr a)) (unique (parties t))) TICKET_CLOSED
        title msg (Some (JStr i)) w = (Inr u, w')"
      using assms(1) props
      by (auto simp: notification_project_def project_closed_def find_ticket_row_def runs lift_ok
          actor_key_def)
    with 2 notify_recipients [OF _ p1 p2] show ?thesis
      by (fastforce simp: audience_def internal_comment_def)
  next
    case 3
    let ?cs = "if truthy (map_of kvs ''isInternal'') then [map_option JStr (tk_assignedToId t)]
      else parties t"
    have "notification_project ev w = notify (without (Some (JStr a)) (unique ?cs)) COMMENT_ADDED
        ''New comment'' (''A new comment was added to ticket '' @ tk_reference t @ ''.'')
        (Some (JStr i)) w"
      using assms(3-6) 3
      by (simp add: lift_run read_prop_def notification_project_def project_comment_def find_ticket_row_def andThen_def
          run_basic actor_key_def Let_def)
    then have "\<exists>title msg. notify (without (Some (JStr a)) (unique ?cs)) COMMENT_ADDED
        title msg (Some (JStr i)) w = (Inr u, w')"
      using assms(1) by metis
    then obtain title msg where n: "notify (without (Some (JStr a)) (unique ?cs)) COMMENT_ADDED
        title msg (Some (JStr i)) w = (Inr u, w')" by blast
    show ?thesis
    proof (cases "truthy (map_of kvs ''isInternal'')")
      case True
      then have "audience ev t = set_option (tk_assignedToId t)"
        using 3 by (simp add: audience_def internal_comment_def assms(3))
      with notify_recipients [OF n [unfolded if_P [OF True]] q1 q2] show ?thesis
        by (metis (no_types, lifting))
    next
      case False
      then have "audience ev t = insert (tk_createdById t) (set_option (tk_assignedToId t))"
        by (simp add: audience_def internal_comment_def assms(3))
      with notify_recipients [OF n [unfolded if_not_P [OF False]] p1 p2] show ?thesis
        by (metis (no_types, lifting))
    qed
  qed
qed

definition fx_internal_comment :: domain_event where
  "fx_internal_comment = fx_event ''e9'' RK_CommentCreated (JObj [(''commentId'', JStr ''c9''),
     (''ticketId'', JStr ''t1''), (''organizationId'', JStr ''acme''), (''authorId'', JStr ''ada''),
     (''isInternal'', JBool True)])"

definition fx_assigned_world :: world where
  "fx_assigned_world = fx_world (fx_db\<lparr>tickets := [(fx_ticket ''t1'' ''TKT-000001'' ''acme'' ''carol'')
     \<lparr>tk_assignedToId := Some ''alex''\<rparr>]\<rparr>)"

theorem notification_audience_witness:
  "\<exists>rows. w_db (snd (notification_project fx_internal_comment fx_assigned_world))
      = (w_db fx_assigned_world)\<lparr>notifications := rows\<rparr> \<and> nt_userId ` set rows = {''alex''}"
proof -
  let ?kvs = "[(''commentId'', JStr ''c9''), (''ticketId'', JStr ''t1''),
     (''organizationId'', JStr ''acme''), (''authorId'', JStr ''ada''), (''isInternal'', JBool True)]"
  let ?t = "(fx_ticket ''t1'' ''TKT-000001'' ''acme'' ''carol'')\<lparr>tk_assignedToId := Some ''alex''\<rparr>"
  have "succeeds (notification_project fx_internal_comment) fx_assigned_world" by code_simp
  then have 1: "notification_project fx_internal_comment fx_assigned_world
      = (Inr (), snd (notification_project fx_internal_comment fx_assigned_world))"
    by (rule succeedsE) simp
  have 2: "ev_routingKey fx_internal_comment
      \<in> {RK_TicketUpdated, RK_TicketClosed, RK_CommentCreated}"
    and 3: "ev_payload fx_internal_comment = JObj ?kvs"
    and 4: "map_of ?kvs ''ticketId'' = Some (JStr ''t1'')"
    by (simp_all add: fx_internal_comment_def fx_event_def)
  have 5: "find_by tk_id ''t1'' (tickets (w_db fx_assigned_world)) = Some ?t"
    and e: "notifications (w_db fx_assigned_world) = []"
    by (simp_all add: fx_assigned_world_def fixtures)
  have 6: "map_of ?kvs (actor_key (ev_routingKey fx_internal_comment)) = Some (JStr ''ada'')"
    by (simp add: fx_internal_comment_def fx_event_def actor_key_def)
  have a: "audience fx_internal_comment ?t - {''ada'', []} = {''alex''}"
    by (simp add: audience_def internal_comment_def fx_internal_comment_def fx_event_def)
  show ?thesis
    using notification_audience [OF 1 2 3 4 5 6] unfolding a e by auto
qed

section \<open>Outcomes of a delivery\<close>

text \<open>
  C17. What one delivery can do to the database, for any projection. A duplicate changes nothing
  and publishes nothing. A first delivery whose projection succeeds commits the projection and
  the record that the event was processed together. One whose projection fails leaves no trace,
  not even the record, and is requeued or dead-lettered, with one exception: when the failure is
  a unique violation raised inside the projection itself, it is taken for a duplicate, so the
  message is acknowledged, nothing is published, and the event, never recorded, is lost.
\<close>

theorem delivery_outcomes:
  "(processed c (ev_eventId ev) (w_db w) \<longrightarrow>
      fst (handle em M c q project ev raw w) = []
      \<and> w_db (snd (handle em M c q project ev raw w)) = w_db w)
   \<and> (\<not> processed c (ev_eventId ev) (w_db w) \<longrightarrow>
      (case project ev (mark_processed c (ev_eventId ev) w) of
         (Inr _, w') \<Rightarrow> handle em M c q project ev raw w = ([], w')
       | (Inl e, w') \<Rightarrow>
           w_db (snd (handle em M c q project ev raw w)) = w_db w
           \<and> (if is_unique_violation e then fst (handle em M c q project ev raw w) = []
              else fst (handle em M c q project ev raw w)
                = [retryOrDeadLetter M q ev raw (em e) (w_now w')])))"
  by (auto simp: handle_def runOnce_duplicate runOnce_fresh split: prod.splits sum.splits)

definition fx_conflicting :: "domain_event \<Rightarrow> unit op" where
  "fx_conflicting ev = throw (unique_violation [''organizationId'', ''date''])"

theorem delivery_outcomes_witness:
  "fst (handle (\<lambda>_. []) 3 Consumer_Analytics Q_Analytics fx_conflicting (fx_created ''e1'') fx_raw
      (fx_world fx_db)) = []
   \<and> w_db (snd (handle (\<lambda>_. []) 3 Consumer_Analytics Q_Analytics fx_conflicting (fx_created ''e1'')
      fx_raw (fx_world fx_db))) = fx_db"
proof -
  have 1: "\<not> processed Consumer_Analytics (ev_eventId (fx_created ''e1'')) (w_db (fx_world fx_db))"
    by (simp add: processed_def fixtures)
  have 2: "fx_conflicting (fx_created ''e1'') v
      = (Inl (unique_violation [''organizationId'', ''date'']), v)" for v
    by (simp add: fx_conflicting_def run_basic)
  have 3: "is_unique_violation (unique_violation [''organizationId'', ''date''])"
    by (simp add: unique_violation_def)
  have 4: "w_db (fx_world fx_db) = fx_db" by (simp add: fx_world_def)
  show ?thesis
    using delivery_outcomes [where c = Consumer_Analytics and ev = "fx_created ''e1''"
        and w = "fx_world fx_db" and em = "\<lambda>_. []" and M = 3 and q = Q_Analytics
        and project = fx_conflicting and raw = fx_raw] 1 3
    by (simp add: 2 4)
qed

section \<open>The dead-letter sink\<close>

text \<open>\<open>DeadLetterConsumer.onDeadLetter\<close>: the line it logs; it changes nothing.
  \<open>stringify\<close> is \<open>JSON.stringify\<close>.\<close>

definition onDeadLetter :: "(message_body \<Rightarrow> string) \<Rightarrow> message_body \<Rightarrow> raw_message \<Rightarrow> string" where
  "onDeadLetter stringify message raw =
     ''Dead-lettered message '' @ (case raw_messageId raw of None \<Rightarrow> ''unknown'' | Some i \<Rightarrow> i)
       @ '': '' @ take 1000 (stringify message)"

end
