(* ===== verification/EventTypes.thy ===== *)
theory EventTypes
  imports Comments OutboxRelay Projections
begin

text \<open>
  \<open>messaging/contracts/event-payloads.ts\<close>: the payload types as predicates on JSON. TypeScript
  checks them where a producer calls \<open>enqueue\<close> and forgets them in the outbox, from which a consumer
  casts the payload back. The properties say that the cast is safe: what the services write has
  the type its key promises and names stored users and organizations, and such an event is
  projected by every consumer.
\<close>

section \<open>Payload types\<close>

fun is_string :: "json \<Rightarrow> bool" where
  "is_string (JStr _) = True"
| "is_string _ = False"

fun is_boolean :: "json \<Rightarrow> bool" where
  "is_boolean (JBool _) = True"
| "is_boolean _ = False"

definition string_or_null :: "json \<Rightarrow> bool" where
  "string_or_null v \<longleftrightarrow> v = JNull \<or> is_string v"

definition one_of :: "string list \<Rightarrow> json \<Rightarrow> bool" where
  "one_of ss v \<longleftrightarrow> v \<in> JStr ` set ss"

definition TicketStatus :: "json \<Rightarrow> bool" where
  "TicketStatus = one_of (map status_string [OPEN, IN_PROGRESS, PENDING, RESOLVED, CLOSED])"

definition TicketPriority :: "json \<Rightarrow> bool" where
  "TicketPriority = one_of (map priority_string [LOW, MEDIUM, HIGH, URGENT])"

text \<open>A property of the given type: required, and optional (\<open>Partial\<close>).\<close>

definition has :: "string \<Rightarrow> (json \<Rightarrow> bool) \<Rightarrow> json \<Rightarrow> bool" where
  "has k P p \<longleftrightarrow> (case property p k of Some (Some v) \<Rightarrow> P v | _ \<Rightarrow> False)"

definition may_have :: "string \<Rightarrow> (json \<Rightarrow> bool) \<Rightarrow> json \<Rightarrow> bool" where
  "may_have k P p \<longleftrightarrow> (case property p k of None \<Rightarrow> False | Some None \<Rightarrow> True | Some (Some v) \<Rightarrow> P v)"

definition TicketCreatedPayload :: "json \<Rightarrow> bool" where
  "TicketCreatedPayload p \<longleftrightarrow> has ''ticketId'' is_string p \<and> has ''reference'' is_string p
     \<and> has ''title'' is_string p \<and> has ''status'' TicketStatus p
     \<and> has ''priority'' TicketPriority p \<and> has ''organizationId'' is_string p
     \<and> has ''createdById'' is_string p \<and> has ''assignedToId'' string_or_null p"

definition TicketChanges :: "json \<Rightarrow> bool" where
  "TicketChanges p \<longleftrightarrow> may_have ''status'' TicketStatus p
     \<and> may_have ''priority'' TicketPriority p
     \<and> may_have ''title'' is_string p \<and> may_have ''category'' string_or_null p"

definition TicketUpdatedPayload :: "json \<Rightarrow> bool" where
  "TicketUpdatedPayload p \<longleftrightarrow> has ''ticketId'' is_string p \<and> has ''reference'' is_string p
     \<and> has ''organizationId'' is_string p \<and> has ''changes'' TicketChanges p
     \<and> has ''updatedById'' is_string p"

definition TicketAssignedPayload :: "json \<Rightarrow> bool" where
  "TicketAssignedPayload p \<longleftrightarrow> has ''ticketId'' is_string p \<and> has ''reference'' is_string p
     \<and> has ''organizationId'' is_string p \<and> has ''assignedToId'' is_string p
     \<and> has ''assignedById'' is_string p"

definition TicketClosedPayload :: "json \<Rightarrow> bool" where
  "TicketClosedPayload p \<longleftrightarrow> has ''ticketId'' is_string p \<and> has ''reference'' is_string p
     \<and> has ''organizationId'' is_string p \<and> has ''closedById'' is_string p
     \<and> has ''closedAt'' is_string p"

definition CommentCreatedPayload :: "json \<Rightarrow> bool" where
  "CommentCreatedPayload p \<longleftrightarrow> has ''commentId'' is_string p \<and> has ''ticketId'' is_string p
     \<and> has ''organizationId'' is_string p \<and> has ''authorId'' is_string p
     \<and> has ''isInternal'' is_boolean p"

lemmas payload_types = TicketCreatedPayload_def TicketUpdatedPayload_def TicketAssignedPayload_def
  TicketClosedPayload_def CommentCreatedPayload_def

text \<open>The type a consumer casts the payload of a key to.\<close>

definition typed_event :: "string \<Rightarrow> json \<Rightarrow> bool" where
  "typed_event k p \<longleftrightarrow>
     k = RK_TicketCreated \<and> TicketCreatedPayload p
   \<or> k = RK_TicketUpdated \<and> TicketUpdatedPayload p
   \<or> k = RK_TicketAssigned \<and> TicketAssignedPayload p
   \<or> k = RK_TicketClosed \<and> TicketClosedPayload p
   \<or> k = RK_CommentCreated \<and> CommentCreatedPayload p"

section \<open>What the services write\<close>

text \<open>The rows an event refers to: its organization, who acted, and an assignee it names.\<close>

definition acting :: "string \<Rightarrow> string" where
  "acting k = (if k = RK_TicketCreated then ''createdById''
     else if k = RK_TicketAssigned then ''assignedById'' else actor_key k)"

fun names_user :: "db \<Rightarrow> json \<Rightarrow> bool" where
  "names_user d (JStr u) = user_exists d u"
| "names_user d v = (v = JNull)"

fun names_organization :: "db \<Rightarrow> json \<Rightarrow> bool" where
  "names_organization d (JStr g) = organization_exists d g"
| "names_organization d v = False"

definition refers :: "db \<Rightarrow> string \<Rightarrow> json \<Rightarrow> bool" where
  "refers d k p \<longleftrightarrow> has ''organizationId'' (names_organization d) p
     \<and> has (acting k) (names_user d) p \<and> may_have ''assignedToId'' (names_user d) p"

definition sound_event :: "db \<Rightarrow> string \<Rightarrow> json \<Rightarrow> bool" where
  "sound_event d k p \<longleftrightarrow> typed_event k p \<and> refers d k p"

definition live_actor :: "authenticated_user \<Rightarrow> db \<Rightarrow> bool" where
  "live_actor a d \<longleftrightarrow> user_exists d (au_id a) \<and> organization_exists d (au_organizationId a)"

lemma has_obj [simp]:
  "has k P (JObj kvs) \<longleftrightarrow> (case map_of kvs k of None \<Rightarrow> False | Some v \<Rightarrow> P v)"
  "may_have k P (JObj kvs) \<longleftrightarrow> (case map_of kvs k of None \<Rightarrow> True | Some v \<Rightarrow> P v)"
  by (simp_all add: has_def may_have_def split: option.split)

lemma typed_status [simp]: "TicketStatus (JStr (status_string s))"
  by (cases s) (simp_all add: TicketStatus_def one_of_def)

lemma typed_priority [simp]: "TicketPriority (JStr (priority_string q))"
  by (cases q) (simp_all add: TicketPriority_def one_of_def)

lemma string_or_null_simps [simp]: "string_or_null JNull" "string_or_null (JStr s)"
  by (simp_all add: string_or_null_def)

lemma typed_changes:
  assumes "\<not> null_in_required dto"
  shows "TicketChanges (changes_json dto)"
proof -
  have f: "may_have k P (changes_json dto) \<longleftrightarrow>
      (case map_of [(''title'', field_json JStr (ut_title dto)),
      (''description'', field_json JStr (ut_description dto)),
      (''status'', field_json (\<lambda>s. JStr (status_string s)) (ut_status dto)),
      (''priority'', field_json (\<lambda>p. JStr (priority_string p)) (ut_priority dto)),
      (''category'', field_json JStr (ut_category dto))] k of Some (Some v) \<Rightarrow> P v | _ \<Rightarrow> True)" for k P
    unfolding may_have_def changes_json_def by (subst property_json_object) (auto split: option.split)
  show ?thesis using assms unfolding TicketChanges_def f null_in_required_def
    by (cases "ut_title dto"; cases "ut_status dto"; cases "ut_priority dto"; cases "ut_category dto")
      simp_all
qed

lemma created_typed: "typed_event RK_TicketCreated (ticket_created_payload t)"
  by (cases "tk_assignedToId t") (simp_all add: typed_event_def payload_types ticket_created_payload_def)

lemma assigned_typed: "typed_event RK_TicketAssigned (ticket_assigned_payload t a u)"
  by (simp add: typed_event_def payload_types ticket_assigned_payload_def)

lemma closed_typed: "typed_event RK_TicketClosed (ticket_closed_payload t u at)"
  by (simp add: typed_event_def payload_types ticket_closed_payload_def)

lemma comment_typed: "typed_event RK_CommentCreated (comment_created_payload c a)"
  by (simp add: typed_event_def payload_types comment_created_payload_def)

lemma updated_typed:
  "\<not> null_in_required dto \<Longrightarrow> typed_event RK_TicketUpdated (ticket_updated_payload t dto u)"
  by (simp add: typed_event_def payload_types ticket_updated_payload_def typed_changes)

lemma update_ticket_no_null:
  "update_ticket actor i dto c w = (Inr t, w') \<Longrightarrow> \<not> null_in_required dto"
  unfolding update_ticket_eq update_body_def prisma_ticket_update_def
  by (auto simp: runs split: if_splits)

text \<open>
  One call of a service that announces something, by a caller who is stored (which
  \<open>JwtStrategy.validate\<close> has checked), or anything else that neither writes the tables of the
  pipeline nor deletes users or organizations.
\<close>

definition undisturbed :: "db \<Rightarrow> db \<Rightarrow> bool" where
  "undisturbed d d' \<longleftrightarrow> outbox d' = outbox d \<and> processed_events d' = processed_events d
     \<and> audit_logs d' = audit_logs d \<and> tickets d' = tickets d
     \<and> (\<forall>r\<in>set (users d). user_exists d' (u_id r))
     \<and> (\<forall>r\<in>set (organizations d). organization_exists d' (org_id r))"

inductive service_step :: "world \<Rightarrow> world \<Rightarrow> bool" where
  creates: "live_actor actor (w_db w) \<Longrightarrow> create_ticket actor dto c w = (r, w') \<Longrightarrow>
    service_step w w'"
| updates: "live_actor actor (w_db w) \<Longrightarrow> update_ticket actor i udto c w = (r, w') \<Longrightarrow>
    service_step w w'"
| assigns: "live_actor actor (w_db w) \<Longrightarrow> assign_ticket actor i adto c w = (r, w') \<Longrightarrow>
    service_step w w'"
| comments_on: "live_actor actor (w_db w) \<Longrightarrow> create_comment actor i cdto c w = (rc, w') \<Longrightarrow>
    service_step w w'"
| elsewhere: "undisturbed (w_db w) (w_db w') \<Longrightarrow> service_step w w'"

definition tickets_known :: "db \<Rightarrow> bool" where
  "tickets_known d \<longleftrightarrow> distinct (map tk_id (tickets d))
     \<and> (\<forall>t\<in>set (tickets d). user_exists d (tk_createdById t) \<and> assignee_ok d t)"

definition grows :: "db \<Rightarrow> db \<Rightarrow> bool" where
  "grows d d' \<longleftrightarrow> (\<forall>i. user_exists d i \<longrightarrow> user_exists d' i)
     \<and> (\<forall>i. organization_exists d i \<longrightarrow> organization_exists d' i)"

lemma undisturbed_grows: "undisturbed d d' \<Longrightarrow> grows d d'"
  by (fastforce simp: undisturbed_def grows_def user_exists_def organization_exists_def list_ex_iff)

lemma grows_same: "users d' = users d \<Longrightarrow> organizations d' = organizations d \<Longrightarrow> grows d d'"
  by (simp add: grows_def user_exists_def organization_exists_def)

lemma exists_same:
  assumes "users d' = users d"
  shows "user_exists d' = user_exists d" and "assignee_ok d' = assignee_ok d"
proof -
  show u: "user_exists d' = user_exists d" using assms by (simp add: fun_eq_iff user_exists_def)
  show "assignee_ok d' = assignee_ok d"
    by (rule ext) (simp add: assignee_ok_def u split: option.split)
qed

lemma has_mono: "has k P p \<Longrightarrow> (\<And>v. P v \<Longrightarrow> Q v) \<Longrightarrow> has k Q p"
  by (auto simp: has_def split: option.splits)

lemma may_have_mono: "may_have k P p \<Longrightarrow> (\<And>v. P v \<Longrightarrow> Q v) \<Longrightarrow> may_have k Q p"
  by (auto simp: may_have_def split: option.splits)

lemma refers_mono:
  assumes "refers d k p" and "grows d d'"
  shows "refers d' k p"
proof -
  have "names_user d' v" if "names_user d v" for v
    using that assms(2) by (cases v) (auto simp: grows_def)
  moreover have "names_organization d' v" if "names_organization d v" for v
    using that assms(2) by (cases v) (auto simp: grows_def)
  ultimately show ?thesis using assms(1) unfolding refers_def by (blast intro: has_mono may_have_mono)
qed

lemma sound_event_mono: "sound_event d k p \<Longrightarrow> grows d d' \<Longrightarrow> sound_event d' k p"
  by (auto simp: sound_event_def intro: refers_mono)

lemma tickets_known_mono:
  "tickets_known d \<Longrightarrow> grows d d' \<Longrightarrow> tickets d' = tickets d \<Longrightarrow> tickets_known d'"
  by (auto simp: tickets_known_def grows_def assignee_ok_def split: option.splits)

definition fresh_row :: "db \<Rightarrow> event_outbox \<Rightarrow> bool" where
  "fresh_row d r \<longleftrightarrow> ob_status r = Outbox_PENDING \<and> ob_attempts r = 0
     \<and> sound_event d (ob_routingKey r) (ob_payload r)"

text \<open>The effect of a step on what the pipeline depends on.\<close>

definition announces :: "db \<Rightarrow> db \<Rightarrow> event_outbox list \<Rightarrow> bool" where
  "announces d d' rows \<longleftrightarrow> grows d d' \<and> processed_events d' = processed_events d
     \<and> audit_logs d' = audit_logs d \<and> outbox d' = outbox d @ rows
     \<and> list_all (fresh_row d) rows \<and> tickets_known d'"

lemma announces_none:
  "d' = d \<Longrightarrow> tickets_known d \<Longrightarrow> announces d d' []"
  by (simp add: announces_def grows_def)

lemma actor_refers:
  assumes "live_actor a d"
  shows "tk_organizationId t = au_organizationId a \<Longrightarrow> tk_createdById t = au_id a \<Longrightarrow>
      tk_assignedToId t = None \<Longrightarrow> refers d RK_TicketCreated (ticket_created_payload t)"
    and "tk_organizationId t = au_organizationId a \<Longrightarrow>
      refers d RK_TicketUpdated (ticket_updated_payload t dto (au_id a))"
    and "tk_organizationId t = au_organizationId a \<Longrightarrow>
      refers d RK_TicketClosed (ticket_closed_payload t (au_id a) at)"
    and "tk_organizationId t = au_organizationId a \<Longrightarrow> user_exists d u \<Longrightarrow>
      refers d RK_TicketAssigned (ticket_assigned_payload t u (au_id a))"
    and "refers d RK_CommentCreated (comment_created_payload c a)"
  using assms
  by (simp_all add: refers_def acting_def actor_key_def live_actor_def ticket_created_payload_def
      ticket_updated_payload_def ticket_closed_payload_def ticket_assigned_payload_def
      comment_created_payload_def)

lemmas produced = sound_event_def created_typed updated_typed closed_typed assigned_typed comment_typed

lemma pending_fresh:
  "pending_row k p c r \<Longrightarrow> sound_event d k p \<Longrightarrow> fresh_row d r"
  by (simp add: pending_row_def fresh_row_def)

lemma announces_ticket_set:
  assumes "tickets_known d" and "d' = (ticket_set i t d)\<lparr>outbox := outbox d @ rows\<rparr>"
    and "tk_id t = i" and "user_exists d (tk_createdById t)" and "assignee_ok d t"
    and "list_all (fresh_row d) rows"
  shows "announces d d' rows"
proof -
  have s: "users d' = users d" "organizations d' = organizations d" by (simp_all add: assms(2) ticket_set_def)
  note e = exists_same [OF s(1)]
  have "map tk_id (tickets d') = map tk_id (tickets d)"
    using assms(3) by (simp add: assms(2) ticket_set_def update_row_def)
  then have "tickets_known d'"
    using assms(1,4,5) by (auto simp: tickets_known_def e)
      (auto simp: assms(2) ticket_set_def update_row_def split: if_splits)
  then show ?thesis using assms(6) grows_same [OF s]
    by (simp add: announces_def assms(2) ticket_set_def)
qed

lemma find_ticket_known:
  assumes "tickets_known (w_db w)" and "find_ticket actor i w = (Inr old, w)"
  shows "tk_id old = i" "tk_organizationId old = au_organizationId actor"
    "user_exists (w_db w) (tk_createdById old)" "assignee_ok (w_db w) old"
  using assms find_ticket_ok [of w actor i old w]
  by (auto simp: tickets_known_def can_access_def)

lemma service_step_announces:
  assumes "service_step w w'" and known: "tickets_known (w_db w)"
  shows "\<exists>rows. announces (w_db w) (w_db w') rows"
  using assms(1)
proof cases
  case (creates actor dto c r)
  show ?thesis
  proof (cases r)
    case (Inl e)
    with creates create_ticket_errD announces_none known show ?thesis by metis
  next
    case (Inr t)
    from create_ticket_okD [OF creates(2) [unfolded Inr]] obtain row where
      t: "tk_organizationId t = au_organizationId actor" "tk_createdById t = au_id actor"
         "tk_assignedToId t = None" "\<not> ticket_exists (w_db w) (tk_id t)"
      and d: "w_db w' = (w_db w)\<lparr>tickets := tickets (w_db w) @ [t], outbox := outbox (w_db w) @ [row]\<rparr>"
      and row: "pending_row RK_TicketCreated (ticket_created_payload t) c row"
      by (auto simp: new_ticket_def create_data_def)
    have s: "users (w_db w') = users (w_db w)" "organizations (w_db w') = organizations (w_db w)"
      by (simp_all add: d)
    note e = exists_same [OF s(1)]
    have "tickets_known (w_db w')"
      using known t creates(1) by (auto simp: tickets_known_def e live_actor_def)
        (auto simp: d ticket_exists_iff assignee_ok_def)
    moreover have "fresh_row (w_db w) row"
      by (rule pending_fresh [OF row]) (simp add: produced actor_refers(1) [OF creates(1) t(1-3)])
    ultimately show ?thesis using grows_same [OF s] by (auto simp: announces_def d)
  qed
next
  case (updates actor i udto c r)
  show ?thesis
  proof (cases r)
    case (Inl e)
    with updates update_ticket_errD announces_none known show ?thesis by metis
  next
    case (Inr t)
    note run = updates(2) [unfolded Inr]
    have dist: "distinct (map tk_id (tickets (w_db w)))" using known by (simp add: tickets_known_def)
    from update_ticket_okD [OF dist run] obtain old rows where
      old: "find_ticket actor i w = (Inr old, w)"
      and t: "t = apply_changes udto (closing udto old) (w_now w) old"
      and d: "w_db w' = (ticket_set i t (w_db w))\<lparr>outbox := outbox (w_db w) @ rows\<rparr>"
      and rows: "list_all2 (\<lambda>(k, p) r. pending_row k p c r)
        (update_announces actor udto (closing udto old) (w_now w) t) rows" by blast
    note k = find_ticket_known [OF known old]
    have "tk_organizationId t = au_organizationId actor" using k by (simp add: t apply_changes_def)
    note sound = actor_refers(2,3) [OF updates(1) this]
    have "list_all (fresh_row (w_db w)) rows"
      using rows
      by (auto simp: update_announces_def list_all2_Cons1 split: if_splits
          intro!: pending_fresh simp: produced sound update_ticket_no_null [OF run])
    moreover have "tk_id t = i" "user_exists (w_db w) (tk_createdById t)" "assignee_ok (w_db w) t"
      using k by (simp_all add: t apply_changes_def assignee_ok_def)
    ultimately show ?thesis using announces_ticket_set [OF known d] by blast
  qed
next
  case (assigns actor i adto c r)
  show ?thesis
  proof (cases r)
    case (Inl e)
    with assigns assign_ticket_errD announces_none known show ?thesis by metis
  next
    case (Inr t)
    have dist: "distinct (map tk_id (tickets (w_db w)))" using known by (simp add: tickets_known_def)
    from assign_ticket_okD [OF dist assigns(2) [unfolded Inr]] obtain old and u :: user and row where
      old: "find_ticket actor i w = (Inr old, w)"
      and u: "u \<in> set (users (w_db w))" "assignable actor (at_assigneeId adto) u"
      and t: "t = old\<lparr>tk_assignedToId := Some (u_id u), tk_status := IN_PROGRESS,
                 tk_updatedAt := w_now w\<rparr>"
      and d: "w_db w' = (ticket_set i t (w_db w))\<lparr>outbox := outbox (w_db w) @ [row]\<rparr>"
      and row: "pending_row RK_TicketAssigned
           (ticket_assigned_payload t (at_assigneeId adto) (au_id actor)) c row" by blast
    note k = find_ticket_known [OF known old]
    have ue: "user_exists (w_db w) (u_id u)" using u(1) by (auto simp: user_exists_def list_ex_iff)
    have a: "at_assigneeId adto = u_id u" using u(2) by (simp add: assignable_def)
    have "tk_organizationId t = au_organizationId actor" using k by (simp add: t)
    then have "fresh_row (w_db w) row"
      by (intro pending_fresh [OF row]) (simp add: produced a actor_refers(4) [OF assigns(1) _ ue])
    moreover have "tk_id t = i" "user_exists (w_db w) (tk_createdById t)" "assignee_ok (w_db w) t"
      using k ue by (simp_all add: t assignee_ok_def)
    ultimately show ?thesis by (intro exI [of _ "[row]"] announces_ticket_set [OF known d]) simp_all
  qed
next
  case (comments_on actor i cdto c rc)
  show ?thesis
  proof (cases rc)
    case (Inl e)
    with comments_on create_comment_errD announces_none known show ?thesis by metis
  next
    case (Inr cm)
    from create_comment_okD [OF comments_on(2) [unfolded Inr]] obtain row where
      d: "w_db w' = (w_db w)\<lparr>comments := comments (w_db w) @ [cm], outbox := outbox (w_db w) @ [row]\<rparr>"
      and row: "pending_row RK_CommentCreated (comment_created_payload cm actor) c row" by blast
    have s: "users (w_db w') = users (w_db w)" "organizations (w_db w') = organizations (w_db w)"
      "tickets (w_db w') = tickets (w_db w)"
      by (simp_all add: d)
    have "fresh_row (w_db w) row"
      by (rule pending_fresh [OF row]) (simp add: produced actor_refers(5) [OF comments_on(1)])
    moreover note tickets_known_mono [OF known grows_same [OF s(1,2)] s(3)]
    ultimately show ?thesis using grows_same [OF s(1,2)] by (auto simp: announces_def d)
  qed
next
  case elsewhere
  then have "announces (w_db w) (w_db w') []"
    using undisturbed_grows [OF elsewhere] tickets_known_mono [OF known]
    by (simp add: announces_def undisturbed_def)
  then show ?thesis by blast
qed

text \<open>The ids of the outbox stay unique, because \<open>enqueue\<close> fails on one that is taken.\<close>

definition outbox_ids_distinct :: "world \<Rightarrow> bool" where
  "outbox_ids_distinct w \<longleftrightarrow> distinct (map ob_id (outbox (w_db w)))"

lemma keeps_outbox_ids [keeping]:
  "keeps outbox_ids_distinct (enqueue k p c)"
  "keeps outbox_ids_distinct (prisma_ticket_create x)"
  "keeps outbox_ids_distinct (prisma_ticket_update i udto b)"
  "keeps outbox_ids_distinct (prisma_comment_create i u body f)"
  "keeps outbox_ids_distinct (ticket_update i g)"
  "keeps outbox_ids_distinct (find_ticket actor i)"
  by (auto simp: keeps_def outbox_ids_distinct_def enqueue_def prisma_ticket_create_def
      prisma_ticket_update_def prisma_comment_create_def find_ticket_def ticket_update_def mrun meval
      outbox_insert_def outbox_row_def ticket_insert_def comment_insert_def list_ex_iff Let_def
      split: option.split)

lemma keeps_outbox_transaction [keeping]:
  "keeps outbox_ids_distinct m \<Longrightarrow> keeps outbox_ids_distinct (transaction m)"
  by (rule keeps_transaction_db) (simp_all add: outbox_ids_distinct_def)

lemma services_keep_ids:
  "keeps outbox_ids_distinct (create_ticket actor dto c)"
  "keeps outbox_ids_distinct (update_ticket actor i udto c)"
  "keeps outbox_ids_distinct (assign_ticket actor i adto c)"
  "keeps outbox_ids_distinct (create_comment actor i cdto c)"
  unfolding create_ticket_def update_ticket_def assign_ticket_def create_comment_def
    nextReference_def Let_def
  by (intro keeping)+

lemma service_step_ids:
  assumes "service_step w w'" and "outbox_ids_distinct w"
  shows "outbox_ids_distinct w'"
  using assms(1)
proof cases
  case creates
  then show ?thesis using keepsD [OF services_keep_ids(1) assms(2)] by blast
next
  case updates
  then show ?thesis using keepsD [OF services_keep_ids(2) assms(2)] by blast
next
  case assigns
  then show ?thesis using keepsD [OF services_keep_ids(3) assms(2)] by blast
next
  case comments_on
  then show ?thesis using keepsD [OF services_keep_ids(4) assms(2)] by blast
next
  case elsewhere
  with assms(2) show ?thesis by (simp add: undisturbed_def outbox_ids_distinct_def)
qed

definition outbox_sound :: "db \<Rightarrow> bool" where
  "outbox_sound d \<longleftrightarrow> tickets_known d
     \<and> (\<forall>r\<in>set (outbox d). sound_event d (ob_routingKey r) (ob_payload r))"

lemma announces_sound:
  assumes "announces d d' rows" and "outbox_sound d"
  shows "outbox_sound d'"
  using assms sound_event_mono [of d _ _ d']
  by (auto simp: announces_def outbox_sound_def fresh_row_def list_all_iff)

lemma service_steps_sound:
  assumes "service_step\<^sup>*\<^sup>* w w'" and "outbox_sound (w_db w)"
  shows "outbox_sound (w_db w')"
  using assms(1)
proof (induction rule: rtranclp_induct)
  case base
  with assms(2) show ?case .
next
  case (step v w')
  then have "tickets_known (w_db v)" by (simp add: outbox_sound_def)
  with service_step_announces [OF step.hyps(2)] announces_sound step.IH show ?case by blast
qed

text \<open>
  C7. The payloads keep their types across the outbox. However tickets and comments are created,
  updated and assigned, every row of the outbox carries a payload of the type that
  \<open>event-payloads.ts\<close> gives its routing key (so the casts of the consumers are safe), an
  organization that is stored, and the id of a stored user as the one who acted.
\<close>

theorem payloads_typed:
  assumes "service_step\<^sup>*\<^sup>* w w'" and "outbox_sound (w_db w)" and "r \<in> set (outbox (w_db w'))"
  shows "typed_event (ob_routingKey r) (ob_payload r)
    \<and> refers (w_db w') (ob_routingKey r) (ob_payload r)"
  using service_steps_sound [OF assms(1,2)] assms(3) by (simp add: outbox_sound_def sound_event_def)

section \<open>What the consumers make of it\<close>

text \<open>What a read of a property of the given type returns.\<close>

lemma has_read: "has k P p \<Longrightarrow> \<exists>v. read_prop p k = Inr (Some v) \<and> P v"
  by (auto simp: has_def read_prop_def split: option.splits)

lemma read_string: "has k is_string p \<Longrightarrow> \<exists>s. read_prop p k = Inr (Some (JStr s))"
  by (drule has_read) (auto elim: is_string.elims)

lemma read_organization:
  "has k (names_organization d) p \<Longrightarrow>
   \<exists>g. read_prop p k = Inr (Some (JStr g)) \<and> property p k = Some (Some (JStr g)) \<and> organization_exists d g"
  by (auto simp: has_def read_prop_def split: option.splits elim: names_organization.elims)

lemma read_user:
  "has k (names_user d) p \<Longrightarrow> \<exists>u. read_prop p k = Inr (Some u) \<and> names_user d u"
  by (rule has_read)

lemma read_optional:
  "may_have k P p \<Longrightarrow> \<exists>v. read_prop p k = Inr v \<and> (case v of None \<Rightarrow> True | Some x \<Rightarrow> P x)"
  by (auto simp: may_have_def read_prop_def split: option.splits)

lemma typed_key:
  assumes "typed_event k p"
  obtains "k = RK_TicketCreated" "TicketCreatedPayload p"
  | "k = RK_TicketUpdated" "TicketUpdatedPayload p"
  | "k = RK_TicketAssigned" "TicketAssignedPayload p"
  | "k = RK_TicketClosed" "TicketClosedPayload p"
  | "k = RK_CommentCreated" "CommentCreatedPayload p"
  using assms unfolding typed_event_def by blast

lemma sound_auditable:
  assumes "sound_event d (ev_routingKey ev) (ev_payload ev)"
  shows "auditable ev d"
proof -
  let ?k = "ev_routingKey ev" and ?p = "ev_payload ev"
  have t: "typed_event ?k ?p" and r: "refers d ?k ?p" using assms by (simp_all add: sound_event_def)
  obtain g where g: "read_prop ?p ''organizationId'' = Inr (Some (JStr g))" "organization_exists d g"
    using read_organization r unfolding refers_def by blast
  obtain u where u: "read_prop ?p (acting ?k) = Inr (Some u)" "names_user d u"
    using read_user r unfolding refers_def by blast
  have "\<exists>e i. describe ev = Inr \<lparr>ad_entityType = e, ad_entityId = Some (JStr i), ad_actorId = Some u,
      ad_organizationId = Some (JStr g)\<rparr>"
    using t
  proof (cases rule: typed_key)
    case 5
    then obtain i where "read_prop ?p ''commentId'' = Inr (Some (JStr i))"
      using read_string unfolding payload_types by blast
    with 5 g(1) u(1) show ?thesis
      by (simp add: describe_def descriptor_def acting_def actor_key_def Let_def)
  qed (use g(1) u(1) read_string [of "''ticketId''" ?p] in
      \<open>auto simp: describe_def descriptor_def acting_def actor_key_def Let_def payload_types\<close>)
  with g(2) u(2) show ?thesis
    by (cases u) (auto simp: auditable_def audit_entry_of_def)
qed

lemma sound_countable:
  assumes "sound_event d (ev_routingKey ev) (ev_payload ev)"
  shows "countable_event ev d"
proof -
  from assms have "has ''organizationId'' (names_organization d) (ev_payload ev)"
    by (simp add: sound_event_def refers_def)
  then obtain g where "property (ev_payload ev) ''organizationId'' = Some (Some (JStr g))"
      "organization_exists d g"
    using read_organization by blast
  then show ?thesis by (simp add: countable_event_def split: option.split)
qed

lemma all_strings_map: "all_strings (map JStr us) = Inr us"
  by (induction us) simp_all

lemma notification_rows_total:
  "\<exists>rows w'. notification_rows us ty title msg t w = (Inr rows, w')"
proof (induction us arbitrary: w)
  case (Cons u us)
  obtain rows w' where "notification_rows us ty title msg t (w\<lparr>w_next := Suc (w_next w)\<rparr>) = (Inr rows, w')"
    using Cons.IH by blast
  then show ?case by (simp add: mrun meval)
qed (simp add: mrun)

lemma notify_succeeds:
  assumes "\<forall>v\<in>set ids. v \<noteq> JNull \<and> names_user (w_db w) v" and "nullable_string tid = Inr t"
  shows "succeeds (notify ids ty title msg tid) w"
proof (cases "ids = []")
  case False
  have "\<forall>v\<in>set ids. \<exists>u. v = JStr u" using assms(1) by (metis names_user.elims(2))
  then obtain us where us: "ids = map JStr us" by (metis ex_map_conv)
  obtain rows v where rows: "notification_rows us ty title msg t w = (Inr rows, v)"
    using notification_rows_total by blast
  note r = notification_rows_ok [OF rows]
  have "\<forall>u\<in>set us. user_exists (w_db w) u" using assms(1) by (simp add: us)
  then have "list_all (\<lambda>r. user_exists (w_db v) (nt_userId r)) rows"
    using r by (auto simp: list_all_iff)
  then show ?thesis
    using False rows assms(2)
    by (simp add: succeeds_def notify_def us all_strings_map mrun meval notifications_insert_def)
qed (simp add: succeeds_def notify_def mrun)

lemma unique_users:
  assumes "\<forall>v\<in>set vs. case v of None \<Rightarrow> True | Some x \<Rightarrow> names_user d x"
  shows "\<forall>v\<in>set (unique vs). v \<noteq> JNull \<and> names_user d v"
    and "\<forall>v\<in>set (without a (unique vs)). v \<noteq> JNull \<and> names_user d v"
  using assms by (fastforce simp: unique_props without_def)+

lemma parties_users:
  "tickets_known d \<Longrightarrow> t \<in> set (tickets d) \<Longrightarrow>
   \<forall>v\<in>set (parties t). case v of None \<Rightarrow> True | Some x \<Rightarrow> names_user d x"
  by (auto simp: parties_def tickets_known_def assignee_ok_def split: option.split)

lemma find_row_run:
  "read_prop p ''ticketId'' = Inr (Some (JStr i)) \<Longrightarrow>
   find_ticket_row (Some (JStr i)) w = (Inr (find_by tk_id i (tickets (w_db w))), w)"
  by (simp add: find_ticket_row_def mrun meval)

lemma after_lift: "andThen (lift (Inr x)) f = f x"
  by (rule ext) (simp add: mrun meval)

lemma after_find:
  "succeeds (andThen (find_ticket_row (Some (JStr i))) f) w
    \<longleftrightarrow> succeeds (f (find_by tk_id i (tickets (w_db w)))) w"
  by (simp add: succeeds_def find_ticket_row_def mrun meval)

lemma ret_succeeds: "succeeds (ret x) w"
  by (simp add: succeeds_def mrun)

lemma describes_changes:
  assumes "has ''changes'' TicketChanges p"
  shows "\<exists>c. read_prop p ''changes'' = Inr c \<and> (\<exists>s. describeChanges c = Inr s)"
proof -
  from assms obtain v where v: "read_prop p ''changes'' = Inr (Some v)" "TicketChanges v"
    using has_read by blast
  have "v \<noteq> JNull" using v(2) by (auto simp: TicketChanges_def may_have_def)
  with v(1) show ?thesis by (cases v) (auto simp: describeChanges_def)
qed

lemma reads:
  "TicketCreatedPayload p \<Longrightarrow> (\<exists>i. read_prop p ''ticketId'' = Inr (Some (JStr i)))
     \<and> (\<exists>s. read_prop p ''reference'' = Inr (Some (JStr s)))
     \<and> (\<exists>m. read_prop p ''title'' = Inr (Some (JStr m)))"
  "TicketUpdatedPayload p \<Longrightarrow> (\<exists>i. read_prop p ''ticketId'' = Inr (Some (JStr i)))
     \<and> (\<exists>s. read_prop p ''reference'' = Inr (Some (JStr s)))
     \<and> (\<exists>c. read_prop p ''changes'' = Inr c \<and> (\<exists>s. describeChanges c = Inr s))"
  "TicketAssignedPayload p \<Longrightarrow> (\<exists>i. read_prop p ''ticketId'' = Inr (Some (JStr i)))
     \<and> (\<exists>s. read_prop p ''reference'' = Inr (Some (JStr s)))"
  "TicketClosedPayload p \<Longrightarrow> (\<exists>i. read_prop p ''ticketId'' = Inr (Some (JStr i)))
     \<and> (\<exists>s. read_prop p ''reference'' = Inr (Some (JStr s)))"
  "CommentCreatedPayload p \<Longrightarrow> (\<exists>i. read_prop p ''ticketId'' = Inr (Some (JStr i)))
     \<and> (\<exists>v. read_prop p ''isInternal'' = Inr (Some v))"
  unfolding payload_types by (auto simp: read_string describes_changes dest: has_read)

lemma sound_notifies:
  assumes "sound_event (w_db w) (ev_routingKey ev) (ev_payload ev)" and known: "tickets_known (w_db w)"
  shows "succeeds (notification_project ev) w"
proof -
  let ?k = "ev_routingKey ev" and ?p = "ev_payload ev"
  have t: "typed_event ?k ?p" and r: "refers (w_db w) ?k ?p"
    using assms by (simp_all add: sound_event_def)
  note notify = notify_succeeds [OF _ nullable_string.simps(3)]
  have user: "\<exists>u. read_prop ?p (acting ?k) = Inr (Some u) \<and> names_user (w_db w) u"
    using read_user r unfolding refers_def by blast
  have assignee: "\<exists>v. read_prop ?p ''assignedToId'' = Inr v
      \<and> (case v of None \<Rightarrow> True | Some x \<Rightarrow> names_user (w_db w) x)"
    using read_optional r unfolding refers_def by blast
  have row: "\<forall>v\<in>set (parties x). case v of None \<Rightarrow> True | Some y \<Rightarrow> names_user (w_db w) y"
    if "find_by tk_id i (tickets (w_db w)) = Some x" for i x
    using parties_users [OF known] find_by_Some [OF that] by blast
  show ?thesis
    using t
  proof (cases rule: typed_key)
    case 1
    then obtain u v i s m where
      "read_prop ?p ''createdById'' = Inr (Some u)" and u: "names_user (w_db w) u"
      and "read_prop ?p ''assignedToId'' = Inr v" and v: "case v of None \<Rightarrow> True | Some x \<Rightarrow> names_user (w_db w) x"
      and "read_prop ?p ''ticketId'' = Inr (Some (JStr i))"
      and "read_prop ?p ''reference'' = Inr (Some (JStr s))"
      and "read_prop ?p ''title'' = Inr (Some (JStr m))"
      using user assignee reads(1) [OF 1(2)] by (auto simp: acting_def)
    then show ?thesis
      using 1 unique_users(1) [of "[Some u, v]" "w_db w"] u v
      by (simp add: notification_project_def project_created_def after_lift notify)
  next
    case 2
    then obtain i u s c m where
      p: "read_prop ?p ''ticketId'' = Inr (Some (JStr i))" "read_prop ?p ''updatedById'' = Inr (Some u)"
        "read_prop ?p ''reference'' = Inr (Some (JStr s))" "read_prop ?p ''changes'' = Inr c"
        "describeChanges c = Inr m"
      using user reads(2) [OF 2(2)] by (auto simp: acting_def actor_key_def)
    then show ?thesis
      using 2 unique_users(2) [OF row]
      by (auto simp: notification_project_def project_updated_def after_lift after_find ret_succeeds
          intro!: notify split: option.split)
  next
    case 3
    then obtain u v i s where
      "read_prop ?p ''assignedById'' = Inr (Some u)"
      and "read_prop ?p ''assignedToId'' = Inr v" and v: "case v of None \<Rightarrow> True | Some x \<Rightarrow> names_user (w_db w) x"
      and "read_prop ?p ''ticketId'' = Inr (Some (JStr i))"
      and "read_prop ?p ''reference'' = Inr (Some (JStr s))"
      using user assignee reads(3) [OF 3(2)] by (auto simp: acting_def)
    then show ?thesis
      using 3 unique_users(2) [of "[v]" "w_db w"] v
      by (simp add: notification_project_def project_assigned_def after_lift notify)
  next
    case 4
    then obtain i u s where
      p: "read_prop ?p ''ticketId'' = Inr (Some (JStr i))" "read_prop ?p ''closedById'' = Inr (Some u)"
        "read_prop ?p ''reference'' = Inr (Some (JStr s))"
      using user reads(4) [OF 4(2)] by (auto simp: acting_def actor_key_def)
    then show ?thesis
      using 4 unique_users(2) [OF row]
      by (auto simp: notification_project_def project_closed_def after_lift after_find ret_succeeds
          intro!: notify split: option.split)
  next
    case 5
    then obtain i u v where
      p: "read_prop ?p ''ticketId'' = Inr (Some (JStr i))" "read_prop ?p ''authorId'' = Inr (Some u)"
        "read_prop ?p ''isInternal'' = Inr (Some v)"
      using user reads(5) [OF 5(2)] by (auto simp: acting_def actor_key_def)
    have one: "\<forall>v\<in>set [map_option JStr (tk_assignedToId x)].
        case v of None \<Rightarrow> True | Some y \<Rightarrow> names_user (w_db w) y"
      if "find_by tk_id i (tickets (w_db w)) = Some x" for x
      using row [OF that] by (simp add: parties_def)
    show ?thesis
    proof (cases "find_by tk_id i (tickets (w_db w))")
      case None
      with 5 p show ?thesis
        by (simp add: notification_project_def project_comment_def after_lift after_find ret_succeeds)
    next
      case (Some x)
      with 5 p unique_users(2) [OF row [OF Some], of "Some u"]
        unique_users(2) [OF one [OF Some], of "Some u"] show ?thesis
        by (simp add: notification_project_def project_comment_def after_lift after_find Let_def notify)
    qed
  qed
qed

lemma sound_projected:
  assumes "sound_event (w_db w) (ev_routingKey ev) (ev_payload ev)" and "tickets_known (w_db w)"
  shows "succeeds (audit_project ev) w" and "succeeds (analytics_project ev) w"
    and "succeeds (notification_project ev) w"
  using audit_project_good [OF sound_auditable [OF assms(1)]]
    analytics_project_good [OF sound_countable [OF assms(1)]] sound_notifies [OF assms]
  by (auto simp: succeeds_def)

text \<open>
  C8. No event of the platform is poison. Every event that the services have written, whenever
  and however often it is delivered, is projected without an exception by each of the three
  consumers: no property read of a missing object, no value of the wrong type, no dangling
  reference. So retries and dead letters are left to failures of the infrastructure.
\<close>

theorem events_projectable:
  assumes "service_step\<^sup>*\<^sup>* w w'" and "outbox_sound (w_db w)" and "r \<in> set (outbox (w_db w'))"
  shows "succeeds (audit_project (event_of r t)) w'
    \<and> succeeds (analytics_project (event_of r t)) w'
    \<and> succeeds (notification_project (event_of r t)) w'"
proof -
  have "outbox_sound (w_db w')" by (rule service_steps_sound [OF assms(1,2)])
  with assms(3) have "sound_event (w_db w') (ob_routingKey r) (ob_payload r)" "tickets_known (w_db w')"
    by (simp_all add: outbox_sound_def)
  with sound_projected [of w' "event_of r t"] show ?thesis by (simp add: event_of_def)
qed

text \<open>The history of the witnesses: a customer opens a ticket, an agent closes it.\<close>

definition fx_opened :: world where
  "fx_opened = snd (create_ticket carol fx_create None (fx_world fx_db))"

definition fx_history :: world where
  "fx_history = snd (update_ticket ada ''t1'' fx_close (Some ''cid'') fx_opened)"

lemma fx_history_steps: "service_step\<^sup>*\<^sup>* (fx_world fx_db) fx_history"
proof -
  have 1: "service_step (fx_world fx_db) fx_opened"
  proof (rule creates)
    show "live_actor carol (w_db (fx_world fx_db))" by code_simp
    show "create_ticket carol fx_create None (fx_world fx_db)
      = (fst (create_ticket carol fx_create None (fx_world fx_db)), fx_opened)"
      by (simp add: fx_opened_def)
  qed
  have 2: "service_step fx_opened fx_history"
  proof (rule updates)
    show "live_actor ada (w_db fx_opened)" by code_simp
    show "update_ticket ada ''t1'' fx_close (Some ''cid'') fx_opened
      = (fst (update_ticket ada ''t1'' fx_close (Some ''cid'') fx_opened), fx_history)"
      by (simp add: fx_history_def)
  qed
  from 1 2 show ?thesis by (meson rtranclp.simps)
qed

lemma fx_db_sound: "outbox_sound (w_db (fx_world fx_db))"
  by code_simp

theorem payloads_typed_witness:
  "\<exists>r. outbox (w_db fx_history) = [hd (outbox (w_db fx_history)), r, last (outbox (w_db fx_history))]
     \<and> ob_routingKey r = RK_TicketUpdated \<and> TicketUpdatedPayload (ob_payload r)"
proof -
  have n: "length (outbox (w_db fx_history)) = 3" by code_simp
  then obtain a r b where o3: "outbox (w_db fx_history) = [a, r, b]"
    by (metis (no_types, lifting) length_0_conv length_Suc_conv numeral_3_eq_3)
  have "ob_routingKey (outbox (w_db fx_history) ! 1) = RK_TicketUpdated" by code_simp
  then have k: "ob_routingKey r = RK_TicketUpdated" by (simp add: o3)
  have "r \<in> set (outbox (w_db fx_history))" by (simp add: o3)
  from payloads_typed [OF fx_history_steps fx_db_sound this] k
  have "TicketUpdatedPayload (ob_payload r)" by (simp add: typed_event_def)
  with o3 k show ?thesis by simp
qed

theorem events_projectable_witness:
  "succeeds (notification_project (event_of (last (outbox (w_db fx_history))) 7)) fx_history"
proof -
  have "outbox (w_db fx_history) \<noteq> []" by code_simp
  then show ?thesis
    using events_projectable [OF fx_history_steps fx_db_sound last_in_set, of 7] by blast
qed

end
