(* ===== verification/Users.thy ===== *)
theory Users
  imports AuthService Pagination
begin

text \<open>
  \<open>users/users.service.ts\<close> with the DTOs of \<open>users/dto\<close>: administration of the users of an
  organization. The responses are the \<open>userSelect\<close> projection, which has no password hash.
\<close>

record create_user_dto =
  cu_email :: string
  cu_password :: string
  cu_firstName :: string
  cu_lastName :: string
  cu_role :: role
  cu_organizationId :: string

record update_user_dto =
  uu_email :: "string field"
  uu_firstName :: "string field"
  uu_lastName :: "string field"
  uu_role :: "role field"
  uu_isActive :: "bool field"

record user_query =
  uq_page :: page_query
  uq_role :: "role option"

record user_response =
  ur_id :: string
  ur_email :: string
  ur_firstName :: string
  ur_lastName :: string
  ur_role :: role
  ur_organizationId :: string
  ur_isActive :: bool
  ur_lastLoginAt :: "time option"
  ur_createdAt :: time

definition USERS_SORTABLE :: "string list" where
  "USERS_SORTABLE = [''firstName'', ''lastName'', ''email'', ''createdAt'']"

definition userSelect :: "user \<Rightarrow> user_response" where
  "userSelect u = \<lparr>ur_id = u_id u, ur_email = u_email u, ur_firstName = u_firstName u,
     ur_lastName = u_lastName u, ur_role = u_role u, ur_organizationId = u_organizationId u,
     ur_isActive = u_isActive u, ur_lastLoginAt = u_lastLoginAt u, ur_createdAt = u_createdAt u\<rparr>"

definition create_user :: "passwords \<Rightarrow> app_config \<Rightarrow> create_user_dto \<Rightarrow> user_response op" where
  "create_user pw cfg dto =
     andThen (read_db (\<lambda>d. find_by u_email (cu_email dto) (users d))) (\<lambda>existing.
     if existing \<noteq> None then throw (ConflictException ''Email is already registered'')
     else andThen (prisma_user_create (cu_email dto)
            (bcrypt_hash pw (cu_password dto) (sec_bcryptSaltRounds (cf_security cfg)))
            (cu_firstName dto) (cu_lastName dto) (cu_role dto) (cu_organizationId dto)) (\<lambda>u.
     ret (userSelect u)))"

definition users_where ::
  "(string \<Rightarrow> string \<Rightarrow> bool) \<Rightarrow> string \<Rightarrow> user_query \<Rightarrow> user \<Rightarrow> bool" where
  "users_where ilike organizationId q u \<longleftrightarrow>
     u_organizationId u = organizationId
     \<and> (case uq_role q of None \<Rightarrow> True | Some r \<Rightarrow> u_role u = r)
     \<and> (case q_search (uq_page q) of None \<Rightarrow> True
        | Some s \<Rightarrow> if s = [] then True
            else ilike (u_firstName u) s \<or> ilike (u_lastName u) s \<or> ilike (u_email u) s)"

definition find_users ::
  "(order_by \<Rightarrow> user list \<Rightarrow> user list) \<Rightarrow> (string \<Rightarrow> string \<Rightarrow> bool) \<Rightarrow> string \<Rightarrow> user_query
    \<Rightarrow> user_response paginated op"
where
  "find_users ord ilike organizationId q =
     read_db (\<lambda>d.
       let found = find_many ord (users_where ilike organizationId q)
             (toPrismaOrderBy (q_sort (uq_page q)) USERS_SORTABLE default_order)
             (toPrismaPage (uq_page q)) (users d);
           n = length (filter (users_where ilike organizationId q) (users d))
       in buildPaginatedResult (map userSelect found) n (uq_page q))"

definition in_org :: "string \<Rightarrow> string \<Rightarrow> user \<Rightarrow> bool" where
  "in_org g i u \<longleftrightarrow> u_id u = i \<and> u_organizationId u = g"

definition find_user :: "string \<Rightarrow> string \<Rightarrow> user_response op" where
  "find_user organizationId i =
     andThen (read_db (\<lambda>d. List.find (in_org organizationId i) (users d))) (\<lambda>u.
     case u of None \<Rightarrow> throw (NotFoundException ''User not found'') | Some x \<Rightarrow> ret (userSelect x))"

fun user_field :: "'a field \<Rightarrow> 'a \<Rightarrow> 'a" where
  "user_field (Val x) _ = x"
| "user_field _ old = old"

definition user_null_in_required :: "update_user_dto \<Rightarrow> bool" where
  "user_null_in_required dto \<longleftrightarrow> uu_email dto = Null \<or> uu_firstName dto = Null
     \<or> uu_lastName dto = Null \<or> uu_role dto = Null \<or> uu_isActive dto = Null"

definition apply_user_changes :: "update_user_dto \<Rightarrow> time \<Rightarrow> user \<Rightarrow> user" where
  "apply_user_changes dto t u =
     u\<lparr>u_email := user_field (uu_email dto) (u_email u),
       u_firstName := user_field (uu_firstName dto) (u_firstName u),
       u_lastName := user_field (uu_lastName dto) (u_lastName u),
       u_role := user_field (uu_role dto) (u_role u),
       u_isActive := user_field (uu_isActive dto) (u_isActive u),
       u_updatedAt := t\<rparr>"

definition update_user :: "string \<Rightarrow> string \<Rightarrow> update_user_dto \<Rightarrow> user_response op" where
  "update_user organizationId i dto =
     andThen (find_user organizationId i) (\<lambda>_.
     if user_null_in_required dto then throw validation_error
     else andThen current_time (\<lambda>t.
          andThen (user_update i (apply_user_changes dto t)) (\<lambda>u. ret (userSelect u))))"

definition deactivate_user :: "string \<Rightarrow> string \<Rightarrow> unit op" where
  "deactivate_user organizationId i =
     andThen (find_user organizationId i) (\<lambda>_.
     andThen current_time (\<lambda>t.
     andThen (user_update i (\<lambda>u. u\<lparr>u_isActive := False, u_updatedAt := t\<rparr>)) (\<lambda>_. ret ())))"

section \<open>Scope\<close>

lemma find_user_ok:
  "find_user g i w = (Inr x, w') \<Longrightarrow>
     w' = w \<and> (\<exists>u\<in>set (users (w_db w)). in_org g i u \<and> x = userSelect u)"
  by (auto simp: find_user_def runs split: option.splits dest!: find_SomeD)

lemma find_user_err: "find_user g i w = (Inl e, w') \<Longrightarrow>
    w' = w \<and> e = NotFoundException ''User not found''"
  by (auto simp: find_user_def runs split: option.splits)

lemma find_user_missing:
  "\<forall>u\<in>set (users (w_db w)). \<not> in_org g i u \<Longrightarrow>
   find_user g i w = (Inl (NotFoundException ''User not found''), w)"
  by (cases "List.find (in_org g i) (users (w_db w))")
    (auto simp: find_user_def andThen_def run_basic dest: find_SomeD)

text \<open>
  User administration stays in the organization: for an id that is not a user of the given
  organization, reading, updating and deactivating answer 404 and change nothing; a successful
  update changes exactly the row of that user, as the sent fields say, and never its id,
  password hash or organization.
\<close>

theorem users_scoped:
  "((\<forall>u\<in>set (users (w_db w)). \<not> in_org g i u) \<longrightarrow>
      find_user g i w = (Inl (NotFoundException ''User not found''), w)
      \<and> update_user g i dto w = (Inl (NotFoundException ''User not found''), w)
      \<and> deactivate_user g i w = (Inl (NotFoundException ''User not found''), w))
   \<and> (\<forall>x w'. update_user g i dto w = (Inr x, w') \<longrightarrow>
      w_db w' = (w_db w)\<lparr>users := update_row u_id i (apply_user_changes dto (w_now w))
                                  (users (w_db w))\<rparr>
      \<and> (\<exists>u\<in>set (users (w_db w)). in_org g i u)
      \<and> map (\<lambda>u. (u_id u, u_passwordHash u, u_organizationId u)) (users (w_db w'))
          = map (\<lambda>u. (u_id u, u_passwordHash u, u_organizationId u)) (users (w_db w)))"
proof (intro conjI impI allI)
  assume none: "\<forall>u\<in>set (users (w_db w)). \<not> in_org g i u"
  show "find_user g i w = (Inl (NotFoundException ''User not found''), w)"
    by (rule find_user_missing [OF none])
  then show "update_user g i dto w = (Inl (NotFoundException ''User not found''), w)"
    and "deactivate_user g i w = (Inl (NotFoundException ''User not found''), w)"
    by (simp_all add: update_user_def deactivate_user_def andThen_def)
next
  fix x w'
  assume run: "update_user g i dto w = (Inr x, w')"
  then obtain y u where f: "find_user g i w = (Inr y, w)"
    and upd: "user_update i (apply_user_changes dto (w_now w)) w = (Inr u, w')"
    by (auto simp: update_user_def runs dest: find_user_ok split: if_splits)
  show d: "w_db w' = (w_db w)\<lparr>users := update_row u_id i (apply_user_changes dto (w_now w))
      (users (w_db w))\<rparr>"
    using upd by (auto simp: user_update_ok)
  show "\<exists>u\<in>set (users (w_db w)). in_org g i u" using find_user_ok [OF f] by blast
  show "map (\<lambda>u. (u_id u, u_passwordHash u, u_organizationId u)) (users (w_db w'))
      = map (\<lambda>u. (u_id u, u_passwordHash u, u_organizationId u)) (users (w_db w))"
    by (simp add: d map_update_row_same apply_user_changes_def)
qed

definition fx_promote :: update_user_dto where
  "fx_promote = \<lparr>uu_email = Undefined, uu_firstName = Undefined, uu_lastName = Undefined,
     uu_role = Val ADMIN, uu_isActive = Undefined\<rparr>"

theorem users_scoped_witness:
  "update_user ''acme'' ''gus'' fx_promote (fx_world fx_db)
     = (Inl (NotFoundException ''User not found''), fx_world fx_db)
   \<and> (\<exists>x w'. update_user ''acme'' ''alex'' fx_promote (fx_world fx_db) = (Inr x, w')
        \<and> w_db w' = fx_db\<lparr>users := update_row u_id ''alex'' (apply_user_changes fx_promote 1000)
            (users fx_db)\<rparr>)"
proof -
  have 1: "\<forall>u\<in>set (users (w_db (fx_world fx_db))). \<not> in_org ''acme'' ''gus'' u"
    by (simp add: fixtures in_org_def)
  have 2: "succeeds (update_user ''acme'' ''alex'' fx_promote) (fx_world fx_db)" by code_simp
  have s: "w_db (fx_world fx_db) = fx_db" "w_now (fx_world fx_db) = 1000"
    by (simp_all add: fx_world_def)
  obtain x where 3: "update_user ''acme'' ''alex'' fx_promote (fx_world fx_db)
      = (Inr x, snd (update_user ''acme'' ''alex'' fx_promote (fx_world fx_db)))"
    using 2 by (rule succeedsE)
  show ?thesis
  proof
    show "update_user ''acme'' ''gus'' fx_promote (fx_world fx_db)
        = (Inl (NotFoundException ''User not found''), fx_world fx_db)"
      using users_scoped [of "fx_world fx_db" "''acme''" "''gus''" fx_promote] 1 by blast
    show "\<exists>x w'. update_user ''acme'' ''alex'' fx_promote (fx_world fx_db) = (Inr x, w')
        \<and> w_db w' = fx_db\<lparr>users := update_row u_id ''alex'' (apply_user_changes fx_promote 1000)
            (users fx_db)\<rparr>"
      using users_scoped [of "fx_world fx_db" "''acme''" "''alex''" fx_promote, unfolded s] 3
      by blast
  qed
qed

section \<open>Deactivation\<close>

lemma deactivate_user_okD:
  assumes "deactivate_user g i w = (Inr (), w')"
  shows "(\<exists>u\<in>set (users (w_db w)). in_org g i u)
    \<and> w_db w' = (w_db w)\<lparr>users := update_row u_id i
        (\<lambda>u. u\<lparr>u_isActive := False, u_updatedAt := w_now w\<rparr>) (users (w_db w))\<rparr>"
proof -
  from assms obtain x u where f: "find_user g i w = (Inr x, w)"
    and upd: "user_update i (\<lambda>u. u\<lparr>u_isActive := False, u_updatedAt := w_now w\<rparr>) w = (Inr u, w')"
    by (auto simp: deactivate_user_def runs dest: find_user_ok)
  with find_user_ok [OF f] show ?thesis by (auto simp: user_update_ok)
qed

lemma deactivated_locked_out: "deactivate_user g i w = (Inr (), w') \<Longrightarrow> locked_out i (w_db w')"
  using deactivate_user_okD [of g i w w']
  by (simp add: locked_out_def update_row_def del: if_image_distrib)

text \<open>
  C28. Deactivating a user ends every way in at once. After it succeeds, an access token of that
  user, however long it is still valid, is rejected by the request strategy; every refresh that
  succeeds is for somebody else; and every login that succeeds is for somebody else.
\<close>

theorem deactivation_locks_out:
  assumes "deactivate_user g i w = (Inr (), w')"
  shows "(ap_sub p = i \<longrightarrow>
        jwt_validate p w' = (Inl (UnauthorizedException ''User is no longer active''), w'))
    \<and> (\<forall>toks v. rotate cr cfg raw ctx w' = (Inr toks, v) \<longrightarrow>
        (\<exists>r\<in>set (refresh_tokens (w_db w')). rt_tokenHash r = sha256 cr raw \<and> rt_userId r \<noteq> i))
    \<and> (\<forall>resp v. login cr pw acfg dto lctx w' = (Inr resp, v) \<longrightarrow> aud_id (ar_user resp) \<noteq> i)"
proof -
  note lo = deactivated_locked_out [OF assms]
  show ?thesis
    using locked_out_validate [of p w'] lo locked_out_rotate [OF lo] locked_out_login [OF lo]
    by blast
qed

theorem deactivation_locks_out_witness:
  "jwt_validate \<lparr>ap_sub = ''carol'', ap_email = ''carol@acme.test'', ap_role = CUSTOMER,
       ap_organizationId = ''acme''\<rparr> (snd (deactivate_user ''acme'' ''carol'' fx_tokens))
     = (Inl (UnauthorizedException ''User is no longer active''),
        snd (deactivate_user ''acme'' ''carol'' fx_tokens))"
proof -
  have "succeeds (deactivate_user ''acme'' ''carol'') fx_tokens" by code_simp
  then have 1: "deactivate_user ''acme'' ''carol'' fx_tokens
      = (Inr (), snd (deactivate_user ''acme'' ''carol'' fx_tokens))"
    by (rule succeedsE) simp
  show ?thesis using deactivation_locks_out [OF 1] by simp
qed

end
