(* ===== verification/Organizations.thy ===== *)
theory Organizations
  imports Tables Pagination Fixtures
begin

text \<open>
  \<open>organizations/organizations.service.ts\<close>: the administration of organizations. Deleting one
  relies on the referential actions of the migration: the rows of its users, tickets, comments,
  notifications, tokens and metrics go with it, audit rows and assignments lose their reference.
  Two foreign keys are RESTRICT (a ticket's creator, a comment's author); whether the database
  reaches such a check while it cascades is its decision, so \<open>blocked\<close> is an input.
\<close>

record create_organization_dto =
  co_name :: string
  co_slug :: string

record update_organization_dto =
  uo_name :: "string field"
  uo_slug :: "string field"
  uo_isActive :: "bool field"

definition ORGANIZATIONS_SORTABLE :: "string list" where
  "ORGANIZATIONS_SORTABLE = [''name'', ''slug'', ''createdAt'']"

definition create_organization :: "create_organization_dto \<Rightarrow> organization op" where
  "create_organization dto =
     andThen randomUUID (\<lambda>i.
     andThen current_time (\<lambda>t.
     let g = \<lparr>org_id = i, org_name = co_name dto, org_slug = co_slug dto, org_isActive = True,
              org_createdAt = t, org_updatedAt = t\<rparr>
     in andThen (write_db (organization_insert g)) (\<lambda>_. ret g)))"

definition organizations_where ::
  "(string \<Rightarrow> string \<Rightarrow> bool) \<Rightarrow> page_query \<Rightarrow> organization \<Rightarrow> bool" where
  "organizations_where ilike q g =
     (case q_search q of None \<Rightarrow> True
      | Some s \<Rightarrow> if s = [] then True else ilike (org_name g) s \<or> ilike (org_slug g) s)"

definition find_organizations ::
  "(order_by \<Rightarrow> organization list \<Rightarrow> organization list) \<Rightarrow> (string \<Rightarrow> string \<Rightarrow> bool)
    \<Rightarrow> page_query \<Rightarrow> organization paginated op"
where
  "find_organizations ord ilike q =
     read_db (\<lambda>d. list_page ord (organizations_where ilike q)
       (toPrismaOrderBy (q_sort q) ORGANIZATIONS_SORTABLE default_order) q (organizations d))"

definition find_organization :: "string \<Rightarrow> organization op" where
  "find_organization i =
     andThen (read_db (\<lambda>d. find_by org_id i (organizations d))) (\<lambda>g.
     case g of None \<Rightarrow> throw (NotFoundException ''Organization not found'') | Some x \<Rightarrow> ret x)"

fun org_field :: "'a field \<Rightarrow> 'a \<Rightarrow> 'a" where
  "org_field (Val x) _ = x"
| "org_field _ old = old"

definition apply_org_changes :: "update_organization_dto \<Rightarrow> time \<Rightarrow> organization \<Rightarrow> organization" where
  "apply_org_changes dto t g =
     g\<lparr>org_name := org_field (uo_name dto) (org_name g),
       org_slug := org_field (uo_slug dto) (org_slug g),
       org_isActive := org_field (uo_isActive dto) (org_isActive g), org_updatedAt := t\<rparr>"

definition update_organization :: "string \<Rightarrow> update_organization_dto \<Rightarrow> organization op" where
  "update_organization i dto =
     andThen (find_organization i) (\<lambda>_.
     if uo_name dto = Null \<or> uo_slug dto = Null \<or> uo_isActive dto = Null
     then throw validation_error
     else andThen current_time (\<lambda>t. organization_update i (apply_org_changes dto t)))"

section \<open>Deletion\<close>

definition users_of :: "string \<Rightarrow> db \<Rightarrow> string set" where
  "users_of g d = u_id ` set (filter (\<lambda>u. u_organizationId u = g) (users d))"

definition tickets_of :: "string \<Rightarrow> db \<Rightarrow> string set" where
  "tickets_of g d = tk_id ` set (filter (\<lambda>t. tk_organizationId t = g) (tickets d))"

fun forget :: "string set \<Rightarrow> string option \<Rightarrow> string option" where
  "forget S (Some x) = (if x \<in> S then None else Some x)"
| "forget S None = None"

definition cascade_organization :: "string \<Rightarrow> db \<Rightarrow> db" where
  "cascade_organization g d =
     (let us = users_of g d; ts = tickets_of g d
      in d\<lparr>organizations := filter (\<lambda>r. org_id r \<noteq> g) (organizations d),
           users := filter (\<lambda>r. u_organizationId r \<noteq> g) (users d),
           refresh_tokens := filter (\<lambda>r. rt_userId r \<notin> us) (refresh_tokens d),
           tickets := map (\<lambda>r. r\<lparr>tk_assignedToId := forget us (tk_assignedToId r)\<rparr>)
             (filter (\<lambda>r. tk_organizationId r \<noteq> g) (tickets d)),
           comments := filter (\<lambda>r. cm_ticketId r \<notin> ts) (comments d),
           notifications := filter (\<lambda>r. nt_userId r \<notin> us) (notifications d),
           audit_logs := map (\<lambda>r. r\<lparr>al_actorId := forget us (al_actorId r),
             al_organizationId := forget {g} (al_organizationId r)\<rparr>) (audit_logs d),
           ticket_metrics := filter (\<lambda>r. tm_organizationId r \<noteq> g) (ticket_metrics d)\<rparr>)"

definition remove_organization :: "(db \<Rightarrow> bool) \<Rightarrow> string \<Rightarrow> unit op" where
  "remove_organization blocked i =
     andThen (find_organization i) (\<lambda>_.
     write_db (\<lambda>d. if blocked d then Inl foreign_key_violation
                   else Inr (cascade_organization i d)))"

section \<open>Referential integrity\<close>

text \<open>
  \<open>refs_ok\<close>: every row of a table that belongs to an organization, a user or a ticket refers to
  an existing one (the two RESTRICT columns apart, which the database checks itself).
\<close>

definition refs_ok :: "db \<Rightarrow> bool" where
  "refs_ok d \<longleftrightarrow>
     (\<forall>u\<in>set (users d). organization_exists d (u_organizationId u))
     \<and> (\<forall>r\<in>set (refresh_tokens d). user_exists d (rt_userId r))
     \<and> (\<forall>t\<in>set (tickets d). organization_exists d (tk_organizationId t) \<and> assignee_ok d t)
     \<and> (\<forall>c\<in>set (comments d). ticket_exists d (cm_ticketId c))
     \<and> (\<forall>r\<in>set (notifications d). user_exists d (nt_userId r))
     \<and> (\<forall>r\<in>set (ticket_metrics d). organization_exists d (tm_organizationId r))"

lemma find_organization_ok: "find_organization i w = (Inr g, w') \<Longrightarrow>
    w' = w \<and> g \<in> set (organizations (w_db w)) \<and> org_id g = i"
  by (auto simp: find_organization_def runs split: option.splits dest!: find_by_Some)

lemma cascade_sel:
  "organizations (cascade_organization g d) = filter (\<lambda>r. org_id r \<noteq> g) (organizations d)"
  "users (cascade_organization g d) = filter (\<lambda>r. u_organizationId r \<noteq> g) (users d)"
  "refresh_tokens (cascade_organization g d)
     = filter (\<lambda>r. rt_userId r \<notin> users_of g d) (refresh_tokens d)"
  "tickets (cascade_organization g d)
     = map (\<lambda>r. r\<lparr>tk_assignedToId := forget (users_of g d) (tk_assignedToId r)\<rparr>)
         (filter (\<lambda>r. tk_organizationId r \<noteq> g) (tickets d))"
  "comments (cascade_organization g d)
     = filter (\<lambda>r. cm_ticketId r \<notin> tickets_of g d) (comments d)"
  "notifications (cascade_organization g d)
     = filter (\<lambda>r. nt_userId r \<notin> users_of g d) (notifications d)"
  "ticket_metrics (cascade_organization g d)
     = filter (\<lambda>r. tm_organizationId r \<noteq> g) (ticket_metrics d)"
  by (simp_all add: cascade_organization_def Let_def)

lemma cascade_exists:
  "organization_exists (cascade_organization g d) i \<longleftrightarrow> i \<noteq> g \<and> organization_exists d i"
  "user_exists d i \<and> i \<notin> users_of g d \<Longrightarrow> user_exists (cascade_organization g d) i"
  "ticket_exists d i \<and> i \<notin> tickets_of g d \<Longrightarrow> ticket_exists (cascade_organization g d) i"
  by (auto simp: organization_exists_iff user_exists_iff ticket_exists_iff cascade_sel
      users_of_def tickets_of_def)

text \<open>
  Removing an organization: an unknown id is answered 404 and a refused deletion changes
  nothing; a success leaves no user, ticket or metric of the organization and no row of any
  table that refers to a user, ticket or organization that is gone, and leaves the users and
  metrics of the other organizations alone.
\<close>

theorem remove_organization_cascade:
  assumes "refs_ok (w_db w)"
  shows "case remove_organization blocked g w of
     (Inl e, w') \<Rightarrow> w' = w
   | (Inr _, w') \<Rightarrow> refs_ok (w_db w') \<and> \<not> organization_exists (w_db w') g
       \<and> (\<forall>u\<in>set (users (w_db w')). u_organizationId u \<noteq> g)
       \<and> (\<forall>t\<in>set (tickets (w_db w')). tk_organizationId t \<noteq> g)
       \<and> filter (\<lambda>u. u_organizationId u \<noteq> g) (users (w_db w)) = users (w_db w')
       \<and> filter (\<lambda>r. tm_organizationId r \<noteq> g) (ticket_metrics (w_db w)) = ticket_metrics (w_db w')"
proof (cases "remove_organization blocked g w")
  case (Pair r w')
  show ?thesis
  proof (cases r)
    case (Inl e)
    then have "w' = w"
      using Pair by (auto simp: remove_organization_def find_organization_def runs
          split: option.splits if_splits)
    with Pair Inl show ?thesis by simp
  next
    case (Inr x)
    then have w': "w_db w' = cascade_organization g (w_db w)"
      using Pair by (auto simp: remove_organization_def runs dest: find_organization_ok
          split: if_splits)
    let ?d = "w_db w" and ?d' = "cascade_organization g (w_db w)"
    have "organization_exists ?d' (u_organizationId u)" if "u \<in> set (users ?d')" for u
      using that assms by (auto simp: cascade_exists refs_ok_def cascade_sel)
    moreover have "user_exists ?d' (rt_userId r)" if "r \<in> set (refresh_tokens ?d')" for r
      using that assms
      by (intro cascade_exists) (auto simp: refs_ok_def cascade_sel)
    moreover have "user_exists ?d' (nt_userId r)" if "r \<in> set (notifications ?d')" for r
      using that assms
      by (intro cascade_exists) (auto simp: refs_ok_def cascade_sel)
    moreover have "ticket_exists ?d' (cm_ticketId c)" if "c \<in> set (comments ?d')" for c
      using that assms
      by (intro cascade_exists) (auto simp: refs_ok_def cascade_sel)
    moreover have "organization_exists ?d' (tm_organizationId r)" if "r \<in> set (ticket_metrics ?d')"
      for r
      using that assms by (auto simp: cascade_exists refs_ok_def cascade_sel)
    moreover have "organization_exists ?d' (tk_organizationId t) \<and> assignee_ok ?d' t"
      if "t \<in> set (tickets ?d')" for t
    proof -
      from that obtain s where s: "s \<in> set (tickets ?d)" "tk_organizationId s \<noteq> g"
        "t = s\<lparr>tk_assignedToId := forget (users_of g ?d) (tk_assignedToId s)\<rparr>"
        by (auto simp: cascade_sel)
      then show ?thesis
        using assms cascade_exists(2) [of ?d _ g]
        by (cases "tk_assignedToId s") (auto simp: refs_ok_def cascade_exists(1) assignee_ok_def)
    qed
    ultimately have "refs_ok ?d'" by (simp add: refs_ok_def)
    moreover have "\<forall>u\<in>set (users ?d'). u_organizationId u \<noteq> g"
      "\<forall>t\<in>set (tickets ?d'). tk_organizationId t \<noteq> g"
      "filter (\<lambda>u. u_organizationId u \<noteq> g) (users ?d) = users ?d'"
      "filter (\<lambda>r. tm_organizationId r \<noteq> g) (ticket_metrics ?d) = ticket_metrics ?d'"
      by (auto simp: cascade_sel)
    ultimately show ?thesis by (simp add: Pair Inr w' cascade_exists(1))
  qed
qed

theorem remove_organization_cascade_witness:
  "\<exists>w'. remove_organization (\<lambda>_. False) ''globex'' (fx_world fx_db) = (Inr (), w')
     \<and> refs_ok (w_db w') \<and> length (users (w_db w')) = 3"
proof -
  have 1: "refs_ok (w_db (fx_world fx_db))"
    by (simp add: refs_ok_def fixtures organization_exists_def assignee_ok_def)
  have "succeeds (remove_organization (\<lambda>_. False) ''globex'') (fx_world fx_db)" by code_simp
  then have 2: "remove_organization (\<lambda>_. False) ''globex'' (fx_world fx_db)
      = (Inr (), snd (remove_organization (\<lambda>_. False) ''globex'' (fx_world fx_db)))"
    by (rule succeedsE) simp
  have 3: "length (filter (\<lambda>u. u_organizationId u \<noteq> ''globex'') (users (w_db (fx_world fx_db)))) = 3"
    by (simp add: fixtures)
  show ?thesis
    using remove_organization_cascade [OF 1, where blocked = "\<lambda>_. False" and g = "''globex''"] 2 3 by auto
qed

end
