(* ===== verification/ReadModels.thy ===== *)
theory ReadModels
  imports Tables Pagination Fixtures
begin

text \<open>
  \<open>notifications/notifications.service.ts\<close> and \<open>audit/audit.service.ts\<close>: the read side of the
  projections the worker writes. A user sees and acknowledges only their own notifications; an
  administrator reads the audit log of their own organization.
\<close>

section \<open>Notifications\<close>

record notification_query =
  nq_page :: page_query
  nq_isRead :: "bool option"

definition notifications_where :: "string \<Rightarrow> notification_query \<Rightarrow> notification \<Rightarrow> bool" where
  "notifications_where userId q n \<longleftrightarrow> nt_userId n = userId
     \<and> (case nq_isRead q of None \<Rightarrow> True | Some b \<Rightarrow> nt_isRead n = b)"

definition find_notifications ::
  "(order_by \<Rightarrow> notification list \<Rightarrow> notification list) \<Rightarrow> string \<Rightarrow> notification_query
    \<Rightarrow> notification paginated op"
where
  "find_notifications ord userId q =
     read_db (\<lambda>d. list_page ord (notifications_where userId q) (''createdAt'', Desc) (nq_page q)
       (notifications d))"

definition unread_of :: "string \<Rightarrow> notification \<Rightarrow> bool" where
  "unread_of userId n \<longleftrightarrow> nt_userId n = userId \<and> \<not> nt_isRead n"

definition countUnread :: "string \<Rightarrow> nat op" where
  "countUnread userId = read_db (\<lambda>d. length (filter (unread_of userId) (notifications d)))"

definition mark_read :: "time \<Rightarrow> notification \<Rightarrow> notification" where
  "mark_read t n = n\<lparr>nt_isRead := True, nt_readAt := Some t\<rparr>"

definition owned :: "string \<Rightarrow> string \<Rightarrow> notification \<Rightarrow> bool" where
  "owned userId i n \<longleftrightarrow> nt_id n = i \<and> nt_userId n = userId"

definition notification_update :: "string \<Rightarrow> (notification \<Rightarrow> notification) \<Rightarrow> notification op" where
  "notification_update i f w =
     (case find_by nt_id i (notifications (w_db w)) of
        None \<Rightarrow> (Inl record_not_found, w)
      | Some n \<Rightarrow> (Inr (f n), w\<lparr>w_db := (w_db w)\<lparr>notifications :=
                    update_row nt_id i f (notifications (w_db w))\<rparr>\<rparr>))"

definition markRead :: "string \<Rightarrow> string \<Rightarrow> notification op" where
  "markRead userId i =
     andThen (read_db (\<lambda>d. List.find (owned userId i) (notifications d))) (\<lambda>n.
     case n of
       None \<Rightarrow> throw (NotFoundException ''Notification not found'')
     | Some _ \<Rightarrow> andThen current_time (\<lambda>t. notification_update i (mark_read t)))"

definition markAllRead :: "string \<Rightarrow> nat op" where
  "markAllRead userId =
     andThen current_time (\<lambda>t.
     andThen (read_db (\<lambda>d. length (filter (unread_of userId) (notifications d)))) (\<lambda>count.
     andThen (modify (\<lambda>d. d\<lparr>notifications :=
       update_many (unread_of userId) (mark_read t) (notifications d)\<rparr>)) (\<lambda>_.
     ret count)))"

lemma mark_read_simps [simp]:
  "nt_id (mark_read t n) = nt_id n" "nt_userId (mark_read t n) = nt_userId n"
  "nt_isRead (mark_read t n)"
  by (simp_all add: mark_read_def)

lemma unread_update_many:
  "filter (unread_of u) (update_many (unread_of u) (mark_read t) ns) = []"
  "v \<noteq> u \<Longrightarrow> filter (\<lambda>n. nt_userId n = v) (update_many (unread_of u) (mark_read t) ns)
     = filter (\<lambda>n. nt_userId n = v) ns"
  by (induction ns) (auto simp: update_many_def unread_of_def)

lemma others_update_row:
  assumes "\<And>n. n \<in> set ns \<Longrightarrow> nt_id n = i \<Longrightarrow> nt_userId n = u" and "v \<noteq> u"
  shows "filter (\<lambda>n. nt_userId n = v) (update_row nt_id i (mark_read t) ns)
    = filter (\<lambda>n. nt_userId n = v) ns"
  using assms by (induction ns) (auto simp: update_row_def)

lemma markAllRead_run:
  "markAllRead u w = (Inr (length (filter (unread_of u) (notifications (w_db w)))),
     w\<lparr>w_db := (w_db w)\<lparr>notifications :=
       update_many (unread_of u) (mark_read (w_now w)) (notifications (w_db w))\<rparr>\<rparr>)"
  by (simp add: markAllRead_def mrun meval)

text \<open>Marking a notification of one's own: the row is read, the count sinks if it was unread.\<close>

lemma markRead_own:
  assumes "distinct (map nt_id (notifications (w_db w)))" and "n \<in> set (notifications (w_db w))"
    and "nt_userId n = u"
  defines "after_ns \<equiv> update_row nt_id (nt_id n) (mark_read (w_now w)) (notifications (w_db w))"
  shows "markRead u (nt_id n) w
      = (Inr (mark_read (w_now w) n), w\<lparr>w_db := (w_db w)\<lparr>notifications := after_ns\<rparr>\<rparr>)"
    and "length (filter (unread_of u) after_ns) + (if nt_isRead n then 0 else 1)
      = length (filter (unread_of u) (notifications (w_db w)))"
proof -
  let ?ns = "notifications (w_db w)"
  have only: "m = n" if "m \<in> set ?ns" "nt_id m = nt_id n" for m
    using that assms by (auto simp: distinct_map inj_on_def)
  have "\<exists>m. List.find (owned u (nt_id n)) ?ns = Some m"
    using assms(2,3) find_NoneD [of "owned u (nt_id n)" ?ns]
    by (cases "List.find (owned u (nt_id n)) ?ns") (auto simp: owned_def)
  then show "markRead u (nt_id n) w
      = (Inr (mark_read (w_now w) n), w\<lparr>w_db := (w_db w)\<lparr>notifications := after_ns\<rparr>\<rparr>)"
    using find_by_mem [OF assms(1,2)]
    by (auto simp: markRead_def notification_update_def andThen_def run_basic after_ns_def)
  show "length (filter (unread_of u) after_ns) + (if nt_isRead n then 0 else 1)
      = length (filter (unread_of u) ?ns)"
  proof (cases "nt_isRead n")
    case True
    have "filter (unread_of u) (update_row nt_id (nt_id n) (mark_read (w_now w)) xs)
        = filter (unread_of u) xs" if "\<forall>m\<in>set xs. nt_id m = nt_id n \<longrightarrow> m = n" for xs
      using that True by (induction xs) (auto simp: update_row_def unread_of_def)
    with True only show ?thesis by (simp add: after_ns_def)
  next
    case False
    then have "unread_of u n" using assms(3) by (simp add: unread_of_def)
    with False length_filter_update_key [OF assms(1,2), of "mark_read (w_now w)" "unread_of u"]
    show ?thesis by (simp add: after_ns_def update_row_def unread_of_def)
  qed
qed

text \<open>
  Acknowledging is private and complete. \<open>markAllRead\<close> reports exactly the number
  \<open>countUnread\<close> showed, after it the count is zero, and the notifications of every other user
  are as before; \<open>markRead\<close> on an id that is not the caller's own notification is a 404 without
  effect, and otherwise lowers the caller's count by one if the notification was unread, by
  nothing if it was read, and leaves the other users' notifications as before.
\<close>

theorem notifications_acknowledge:
  assumes "distinct (map nt_id (notifications (w_db w)))"
  shows "result (markAllRead u) w = result (countUnread u) w
    \<and> result (countUnread u) (after (markAllRead u) w) = Inr 0
    \<and> (v \<noteq> u \<longrightarrow> filter (\<lambda>n. nt_userId n = v) (notifications (db_after (markAllRead u) w))
          = filter (\<lambda>n. nt_userId n = v) (notifications (w_db w)))
    \<and> (case markRead u i w of
         (Inl e, w') \<Rightarrow> e = NotFoundException ''Notification not found'' \<and> w' = w
           \<and> (\<forall>n\<in>set (notifications (w_db w)). \<not> owned u i n)
       | (Inr x, w') \<Rightarrow> \<exists>n\<in>set (notifications (w_db w)). owned u i n \<and> x = mark_read (w_now w) n
           \<and> length (filter (unread_of u) (notifications (w_db w')))
               + (if nt_isRead n then 0 else 1)
             = length (filter (unread_of u) (notifications (w_db w)))
           \<and> (v \<noteq> u \<longrightarrow> filter (\<lambda>n. nt_userId n = v) (notifications (w_db w'))
                = filter (\<lambda>n. nt_userId n = v) (notifications (w_db w))))"
proof -
  let ?ns = "notifications (w_db w)"
  have all: "result (markAllRead u) w = result (countUnread u) w
    \<and> result (countUnread u) (after (markAllRead u) w) = Inr 0
    \<and> (v \<noteq> u \<longrightarrow> filter (\<lambda>n. nt_userId n = v) (notifications (db_after (markAllRead u) w))
          = filter (\<lambda>n. nt_userId n = v) ?ns)"
    by (simp add: markAllRead_run result_def after_def db_after_def countUnread_def run_basic
        unread_update_many)
  show ?thesis
  proof (cases "List.find (owned u i) ?ns")
    case None
    then have "markRead u i w = (Inl (NotFoundException ''Notification not found''), w)"
      by (simp add: markRead_def andThen_def run_basic)
    with all None show ?thesis by (auto dest: find_NoneD)
  next
    case (Some n)
    then have n: "n \<in> set ?ns" "nt_id n = i" "nt_userId n = u"
      by (auto dest!: find_SomeD simp: owned_def)
    let ?ns' = "update_row nt_id i (mark_read (w_now w)) ?ns"
    note own = markRead_own [OF assms n(1,3), unfolded n(2)]
    note run = own(1) and count = own(2)
    have only: "m = n" if "m \<in> set ?ns" "nt_id m = i" for m
      using that n assms by (auto simp: distinct_map inj_on_def)
    have "v \<noteq> u \<longrightarrow> filter (\<lambda>n. nt_userId n = v) ?ns' = filter (\<lambda>n. nt_userId n = v) ?ns"
      using others_update_row [of ?ns i u v "w_now w"] only n(3) by blast
    then have ex: "\<exists>m\<in>set ?ns. owned u i m \<and> mark_read (w_now w) n = mark_read (w_now w) m
        \<and> length (filter (unread_of u) ?ns') + (if nt_isRead m then 0 else 1)
          = length (filter (unread_of u) ?ns)
        \<and> (v \<noteq> u \<longrightarrow> filter (\<lambda>n. nt_userId n = v) ?ns' = filter (\<lambda>n. nt_userId n = v) ?ns)"
      using n count by (intro bexI [of _ n] conjI) (simp_all only: owned_def simp_thms)
    have sel: "notifications (w_db (w\<lparr>w_db := (w_db w)\<lparr>notifications := ?ns'\<rparr>\<rparr>)) = ?ns'" by simp
    show ?thesis
      unfolding run prod.case sum.case sel
      by (insert all ex, elim conjE, intro conjI; assumption)
  qed
qed

definition fx_notification :: "string \<Rightarrow> string \<Rightarrow> bool \<Rightarrow> notification" where
  "fx_notification i u b = \<lparr>nt_id = i, nt_userId = u, nt_type = TICKET_UPDATED, nt_title = ''t'',
     nt_message = ''m'', nt_ticketId = None, nt_isRead = b, nt_readAt = None, nt_createdAt = 0\<rparr>"

definition fx_inbox :: world where
  "fx_inbox = fx_world (fx_db\<lparr>notifications := [fx_notification ''n1'' ''carol'' False,
     fx_notification ''n2'' ''carol'' False, fx_notification ''n3'' ''alex'' False]\<rparr>)"

theorem notifications_acknowledge_witness:
  "result (markAllRead ''carol'') fx_inbox = result (countUnread ''carol'') fx_inbox
   \<and> result (countUnread ''carol'') (after (markAllRead ''carol'') fx_inbox) = Inr 0
   \<and> filter (\<lambda>n. nt_userId n = ''alex'') (notifications (db_after (markAllRead ''carol'') fx_inbox))
       = [fx_notification ''n3'' ''alex'' False]"
proof -
  have 1: "distinct (map nt_id (notifications (w_db fx_inbox)))"
    by (simp add: fx_inbox_def fx_notification_def fixtures)
  have 2: "filter (\<lambda>n. nt_userId n = ''alex'') (notifications (w_db fx_inbox))
      = [fx_notification ''n3'' ''alex'' False]"
    by (simp add: fx_inbox_def fx_notification_def fixtures)
  show ?thesis
    using notifications_acknowledge [where w = fx_inbox and u = "''carol''" and v = "''alex''", OF 1]
      2 by simp
qed

section \<open>Audit log\<close>

record audit_query =
  aq_page :: page_query
  aq_entityType :: "string option"
  aq_entityId :: "string option"

definition audit_where :: "string \<Rightarrow> audit_query \<Rightarrow> audit_log \<Rightarrow> bool" where
  "audit_where organizationId q r \<longleftrightarrow> al_organizationId r = Some organizationId
     \<and> (case aq_entityType q of None \<Rightarrow> True | Some t \<Rightarrow> t = [] \<or> al_entityType r = t)
     \<and> (case aq_entityId q of None \<Rightarrow> True | Some t \<Rightarrow> t = [] \<or> al_entityId r = t)"

definition find_audit_logs ::
  "(order_by \<Rightarrow> audit_log list \<Rightarrow> audit_log list) \<Rightarrow> string \<Rightarrow> audit_query
    \<Rightarrow> audit_log paginated op"
where
  "find_audit_logs ord organizationId q =
     read_db (\<lambda>d. list_page ord (audit_where organizationId q) (''createdAt'', Desc) (aq_page q)
       (audit_logs d))"

text \<open>
  The two read models are scoped: the notification list shows only the caller's own
  notifications with the requested read state, the audit list only entries of the given
  organization (entries of another or of no organization are never shown), both write nothing,
  and both totals count exactly the rows that match.
\<close>

theorem read_models_scoped:
  assumes "permutes_rows ord" and "permutes_rows aord"
  shows "\<exists>page apage. find_notifications ord u q w = (Inr page, w)
    \<and> (\<forall>n\<in>set (items page). nt_userId n = u
         \<and> (\<forall>b. nq_isRead q = Some b \<longrightarrow> nt_isRead n = b))
    \<and> m_total (meta page) = length (filter (notifications_where u q) (notifications (w_db w)))
    \<and> find_audit_logs aord g aq w = (Inr apage, w)
    \<and> (\<forall>r\<in>set (items apage). al_organizationId r = Some g)
    \<and> m_total (meta apage) = length (filter (audit_where g aq) (audit_logs (w_db w)))"
proof -
  let ?p = "list_page ord (notifications_where u q) (''createdAt'', Desc) (nq_page q)
    (notifications (w_db w))"
  let ?a = "list_page aord (audit_where g aq) (''createdAt'', Desc) (aq_page aq) (audit_logs (w_db w))"
  have "nt_userId n = u \<and> (\<forall>b. nq_isRead q = Some b \<longrightarrow> nt_isRead n = b)" if "n \<in> set (items ?p)" for n
    using list_page_sound [OF assms(1) that] by (auto simp: notifications_where_def)
  moreover have "al_organizationId r = Some g" if "r \<in> set (items ?a)" for r
    using list_page_sound [OF assms(2) that] by (auto simp: audit_where_def)
  moreover have "find_notifications ord u q w = (Inr ?p, w)" "find_audit_logs aord g aq w = (Inr ?a, w)"
    by (simp_all add: find_notifications_def find_audit_logs_def run_basic)
  moreover have "m_total (meta ?p) = length (filter (notifications_where u q) (notifications (w_db w)))"
      "m_total (meta ?a) = length (filter (audit_where g aq) (audit_logs (w_db w)))"
    by (rule list_page_total)+
  ultimately show ?thesis by blast
qed

definition fx_notification_query :: notification_query where
  "fx_notification_query = \<lparr>nq_page = \<lparr>q_page = None, q_limit = None, q_sort = None,
     q_search = None\<rparr>, nq_isRead = Some False\<rparr>"

definition fx_audit_query :: audit_query where
  "fx_audit_query = \<lparr>aq_page = \<lparr>q_page = None, q_limit = None, q_sort = None,
     q_search = None\<rparr>, aq_entityType = Some ''Ticket'', aq_entityId = None\<rparr>"

theorem read_models_scoped_witness:
  "\<exists>page. find_notifications (\<lambda>_ xs. rev xs) ''carol'' fx_notification_query fx_inbox
      = (Inr page, fx_inbox) \<and> m_total (meta page) = 2"
proof -
  have p: "permutes_rows (\<lambda>_ (xs :: notification list). rev xs)"
    and a: "permutes_rows (\<lambda>_ (xs :: audit_log list). xs)" by (simp_all add: permutes_rows_def)
  have n: "length (filter (notifications_where ''carol'' fx_notification_query)
      (notifications (w_db fx_inbox))) = 2"
    by (simp add: fx_inbox_def fx_notification_def fixtures notifications_where_def
        fx_notification_query_def)
  show ?thesis
    using read_models_scoped [OF p a, of "''carol''" fx_notification_query fx_inbox "''acme''"
        fx_audit_query] unfolding n by blast
qed

end
