(* ===== verification/Api.thy ===== *)
theory Api
  imports Http Comments Users Organizations ReadModels
begin

text \<open>
  The controllers and the path of a request through them: the global throttler, the guards of
  the route (the bearer token is turned into a user by \<open>JwtStrategy\<close>), the correlation-id and
  response interceptors, the parameter pipes, the handler, the exception filter. Verifying the
  signature of the bearer token, throttling and the validation of parameters belong to
  third-party packages and enter as inputs: the verified payload if there is one, the exception
  of the throttler if it raised one, and the pipes' exception or the typed arguments.
\<close>

section \<open>Rows as JSON\<close>

definition date_json :: "time \<Rightarrow> json" where
  "date_json t = JStr (toISOString t)"

definition nullable_date :: "time option \<Rightarrow> json" where
  "nullable_date t = (case t of None \<Rightarrow> JNull | Some d \<Rightarrow> date_json d)"

definition ticket_json :: "ticket \<Rightarrow> json" where
  "ticket_json t = JObj
     [(''id'', JStr (tk_id t)), (''reference'', JStr (tk_reference t)),
      (''title'', JStr (tk_title t)), (''description'', JStr (tk_description t)),
      (''status'', JStr (status_string (tk_status t))),
      (''priority'', JStr (priority_string (tk_priority t))),
      (''category'', nullable_json (tk_category t)),
      (''organizationId'', JStr (tk_organizationId t)),
      (''createdById'', JStr (tk_createdById t)),
      (''assignedToId'', nullable_json (tk_assignedToId t)),
      (''createdAt'', date_json (tk_createdAt t)), (''updatedAt'', date_json (tk_updatedAt t)),
      (''closedAt'', nullable_date (tk_closedAt t))]"

definition comment_json :: "comment \<Rightarrow> json" where
  "comment_json c = JObj
     [(''id'', JStr (cm_id c)), (''ticketId'', JStr (cm_ticketId c)),
      (''authorId'', JStr (cm_authorId c)), (''body'', JStr (cm_body c)),
      (''isInternal'', JBool (cm_isInternal c)),
      (''createdAt'', date_json (cm_createdAt c)), (''updatedAt'', date_json (cm_updatedAt c))]"

definition organization_json :: "organization \<Rightarrow> json" where
  "organization_json g = JObj
     [(''id'', JStr (org_id g)), (''name'', JStr (org_name g)), (''slug'', JStr (org_slug g)),
      (''isActive'', JBool (org_isActive g)), (''createdAt'', date_json (org_createdAt g)),
      (''updatedAt'', date_json (org_updatedAt g))]"

definition user_response_json :: "user_response \<Rightarrow> json" where
  "user_response_json u = JObj
     [(''id'', JStr (ur_id u)), (''email'', JStr (ur_email u)),
      (''firstName'', JStr (ur_firstName u)), (''lastName'', JStr (ur_lastName u)),
      (''role'', JStr (role_string (ur_role u))),
      (''organizationId'', JStr (ur_organizationId u)), (''isActive'', JBool (ur_isActive u)),
      (''lastLoginAt'', nullable_date (ur_lastLoginAt u)),
      (''createdAt'', date_json (ur_createdAt u))]"

fun notification_type_string :: "notification_type \<Rightarrow> string" where
  "notification_type_string TICKET_CREATED = ''TICKET_CREATED''"
| "notification_type_string TICKET_UPDATED = ''TICKET_UPDATED''"
| "notification_type_string TICKET_ASSIGNED = ''TICKET_ASSIGNED''"
| "notification_type_string TICKET_CLOSED = ''TICKET_CLOSED''"
| "notification_type_string COMMENT_ADDED = ''COMMENT_ADDED''"

definition notification_json :: "notification \<Rightarrow> json" where
  "notification_json n = JObj
     [(''id'', JStr (nt_id n)), (''userId'', JStr (nt_userId n)),
      (''type'', JStr (notification_type_string (nt_type n))), (''title'', JStr (nt_title n)),
      (''message'', JStr (nt_message n)), (''ticketId'', nullable_json (nt_ticketId n)),
      (''isRead'', JBool (nt_isRead n)), (''readAt'', nullable_date (nt_readAt n)),
      (''createdAt'', date_json (nt_createdAt n))]"

definition audit_json :: "audit_log \<Rightarrow> json" where
  "audit_json a = JObj
     [(''id'', JStr (al_id a)), (''action'', JStr (al_action a)),
      (''entityType'', JStr (al_entityType a)), (''entityId'', JStr (al_entityId a)),
      (''actorId'', nullable_json (al_actorId a)),
      (''organizationId'', nullable_json (al_organizationId a)),
      (''metadata'', (case al_metadata a of None \<Rightarrow> JNull | Some m \<Rightarrow> m)),
      (''correlationId'', nullable_json (al_correlationId a)),
      (''createdAt'', date_json (al_createdAt a))]"

definition tokens_fields :: "auth_tokens \<Rightarrow> (string \<times> json) list" where
  "tokens_fields t =
     [(''accessToken'', JStr (accessToken t)), (''refreshToken'', JStr (refreshToken t)),
      (''tokenType'', JStr (tokenType t)), (''expiresIn'', JStr (expiresIn t))]"

definition auth_user_json :: "auth_user_dto \<Rightarrow> json" where
  "auth_user_json u = JObj
     [(''id'', JStr (aud_id u)), (''email'', JStr (aud_email u)),
      (''firstName'', JStr (aud_firstName u)), (''lastName'', JStr (aud_lastName u)),
      (''role'', JStr (role_string (aud_role u))),
      (''organizationId'', JStr (aud_organizationId u))]"

definition auth_response_json :: "auth_response \<Rightarrow> json" where
  "auth_response_json r =
     JObj (tokens_fields (ar_tokens r) @ [(''user'', auth_user_json (ar_user r))])"

section \<open>The handlers of the controllers\<close>

text \<open>
  A handler gets the user of the request (\<open>@CurrentUser\<close>; \<open>None\<close> on a public route, where no
  handler reads it), the correlation id, and its piped arguments. What it returns is what the
  response interceptor sees.
\<close>

type_synonym 'd handler = "authenticated_user option \<Rightarrow> request \<Rightarrow> string \<Rightarrow> 'd \<Rightarrow> json option op"

definition returns :: "('a \<Rightarrow> json) \<Rightarrow> 'a op \<Rightarrow> json option op" where
  "returns f m = andThen m (\<lambda>x. ret (Some (f x)))"

definition returns_nothing :: "unit op \<Rightarrow> json option op" where
  "returns_nothing m = andThen m (\<lambda>_. ret None)"

definition with_user ::
  "authenticated_user option \<Rightarrow> (authenticated_user \<Rightarrow> json option op) \<Rightarrow> json option op" where
  "with_user u f =
     (case u of None \<Rightarrow> throw (OtherError ''Cannot read properties of undefined'') | Some a \<Rightarrow> f a)"

definition TicketsController_create :: "create_ticket_dto handler" where
  "TicketsController_create u rq cid dto =
     with_user u (\<lambda>a. returns ticket_json (create_ticket a dto (Some cid)))"

definition TicketsController_findAll ::
  "(order_by \<Rightarrow> ticket list \<Rightarrow> ticket list) \<Rightarrow> (string \<Rightarrow> string \<Rightarrow> bool) \<Rightarrow> ticket_query handler" where
  "TicketsController_findAll ord ilike u rq cid q =
     with_user u (\<lambda>a. returns (paginated_json ticket_json) (find_tickets ord ilike a q))"

definition TicketsController_findOne :: "string handler" where
  "TicketsController_findOne u rq cid i =
     with_user u (\<lambda>a. returns ticket_json (find_ticket a i))"

definition TicketsController_update :: "(string \<times> update_ticket_dto) handler" where
  "TicketsController_update u rq cid args =
     with_user u (\<lambda>a. returns ticket_json (update_ticket a (fst args) (snd args) (Some cid)))"

definition TicketsController_assign :: "(string \<times> assign_ticket_dto) handler" where
  "TicketsController_assign u rq cid args =
     with_user u (\<lambda>a. returns ticket_json (assign_ticket a (fst args) (snd args) (Some cid)))"

definition CommentsController_create :: "(string \<times> create_comment_dto) handler" where
  "CommentsController_create u rq cid args =
     with_user u (\<lambda>a. returns comment_json (create_comment a (fst args) (snd args) (Some cid)))"

definition CommentsController_findAll ::
  "(order_by \<Rightarrow> comment list \<Rightarrow> comment list) \<Rightarrow> (string \<times> page_query) handler" where
  "CommentsController_findAll ord u rq cid args =
     with_user u (\<lambda>a. returns (paginated_json comment_json)
       (comments_for_ticket ord a (fst args) (snd args)))"

definition UsersController_create :: "passwords \<Rightarrow> app_config \<Rightarrow> create_user_dto handler" where
  "UsersController_create pw cfg u rq cid dto =
     returns user_response_json (create_user pw cfg dto)"

definition UsersController_findAll ::
  "(order_by \<Rightarrow> user list \<Rightarrow> user list) \<Rightarrow> (string \<Rightarrow> string \<Rightarrow> bool) \<Rightarrow> user_query handler" where
  "UsersController_findAll ord ilike u rq cid q =
     with_user u (\<lambda>a. returns (paginated_json user_response_json)
       (find_users ord ilike (au_organizationId a) q))"

definition UsersController_findOne :: "string handler" where
  "UsersController_findOne u rq cid i =
     with_user u (\<lambda>a. returns user_response_json (find_user (au_organizationId a) i))"

definition UsersController_update :: "(string \<times> update_user_dto) handler" where
  "UsersController_update u rq cid args =
     with_user u (\<lambda>a. returns user_response_json
       (update_user (au_organizationId a) (fst args) (snd args)))"

definition UsersController_deactivate :: "string handler" where
  "UsersController_deactivate u rq cid i =
     with_user u (\<lambda>a. returns_nothing (deactivate_user (au_organizationId a) i))"

definition OrganizationsController_create :: "create_organization_dto handler" where
  "OrganizationsController_create u rq cid dto = returns organization_json (create_organization dto)"

definition OrganizationsController_findAll ::
  "(order_by \<Rightarrow> organization list \<Rightarrow> organization list) \<Rightarrow> (string \<Rightarrow> string \<Rightarrow> bool)
    \<Rightarrow> page_query handler"
where
  "OrganizationsController_findAll ord ilike u rq cid q =
     returns (paginated_json organization_json) (find_organizations ord ilike q)"

definition OrganizationsController_findOne :: "string handler" where
  "OrganizationsController_findOne u rq cid i = returns organization_json (find_organization i)"

definition OrganizationsController_update :: "(string \<times> update_organization_dto) handler" where
  "OrganizationsController_update u rq cid args =
     returns organization_json (update_organization (fst args) (snd args))"

definition OrganizationsController_remove :: "(db \<Rightarrow> bool) \<Rightarrow> string handler" where
  "OrganizationsController_remove blocked u rq cid i =
     returns_nothing (remove_organization blocked i)"

definition NotificationsController_findAll ::
  "(order_by \<Rightarrow> notification list \<Rightarrow> notification list) \<Rightarrow> notification_query handler" where
  "NotificationsController_findAll ord u rq cid q =
     with_user u (\<lambda>a. returns (paginated_json notification_json) (find_notifications ord (au_id a) q))"

definition NotificationsController_unreadCount :: "unit handler" where
  "NotificationsController_unreadCount u rq cid _ =
     with_user u (\<lambda>a. returns (\<lambda>n. JObj [(''unread'', JNum (int n))]) (countUnread (au_id a)))"

definition NotificationsController_markRead :: "string handler" where
  "NotificationsController_markRead u rq cid i =
     with_user u (\<lambda>a. returns notification_json (markRead (au_id a) i))"

definition NotificationsController_markAllRead :: "unit handler" where
  "NotificationsController_markAllRead u rq cid _ =
     with_user u (\<lambda>a. returns (\<lambda>n. JObj [(''updated'', JNum (int n))]) (markAllRead (au_id a)))"

definition AuditController_findAll ::
  "(order_by \<Rightarrow> audit_log list \<Rightarrow> audit_log list) \<Rightarrow> audit_query handler" where
  "AuditController_findAll ord u rq cid q =
     with_user u (\<lambda>a. returns (paginated_json audit_json)
       (find_audit_logs ord (au_organizationId a) q))"

definition auth_context :: "request \<Rightarrow> request_context" where
  "auth_context rq = \<lparr>rc_userAgent = rq_userAgent rq, rc_ipAddress = rq_ip rq\<rparr>"

definition AuthController_register :: "crypto \<Rightarrow> passwords \<Rightarrow> app_config \<Rightarrow> register_dto handler" where
  "AuthController_register cr pw cfg u rq cid dto =
     returns auth_response_json (register cr pw cfg dto (auth_context rq))"

definition AuthController_login :: "crypto \<Rightarrow> passwords \<Rightarrow> app_config \<Rightarrow> login_dto handler" where
  "AuthController_login cr pw cfg u rq cid dto =
     returns auth_response_json (login cr pw cfg dto (auth_context rq))"

definition AuthController_refresh :: "crypto \<Rightarrow> app_config \<Rightarrow> string handler" where
  "AuthController_refresh cr cfg u rq cid raw =
     returns (\<lambda>t. JObj (tokens_fields t)) (refresh cr cfg raw (auth_context rq))"

definition AuthController_logout :: "crypto \<Rightarrow> app_config \<Rightarrow> string handler" where
  "AuthController_logout cr cfg u rq cid raw = returns_nothing (logout cr cfg raw)"

definition AuthController_me :: "unit handler" where
  "AuthController_me u rq cid _ = with_user u (\<lambda>a. returns auth_user_json (getProfile (au_id a)))"

section \<open>From request to response\<close>

datatype reply_body = ErrorBody error_body | Envelope json

record reply =
  rp_status :: nat
  rp_correlation :: "string option"
  rp_body :: reply_body

text \<open>
  What Passport hands to \<open>handleRequest\<close>: no valid token gives neither error nor user, an
  exception of \<open>JwtStrategy.validate\<close> is the error.
\<close>

definition passport :: "access_payload option \<Rightarrow> world \<Rightarrow> passport_outcome" where
  "passport bearer w =
     (case bearer of
        None \<Rightarrow> \<lparr>pp_err = False, pp_user = None\<rparr>
      | Some p \<Rightarrow> (case fst (jwt_validate p w) of
            Inl e \<Rightarrow> \<lparr>pp_err = True, pp_user = None\<rparr>
          | Inr u \<Rightarrow> \<lparr>pp_err = False, pp_user = Some u\<rparr>))"

definition failure ::
  "status_names \<Rightarrow> request \<Rightarrow> string option \<Rightarrow> string option \<Rightarrow> exn \<Rightarrow> time \<Rightarrow> reply" where
  "failure names rq cid hdr e now =
     (case catch names e (rq_url rq) cid now of
        (_, status, body) \<Rightarrow> \<lparr>rp_status = status, rp_correlation = hdr, rp_body = ErrorBody body\<rparr>)"

definition respond ::
  "status_names \<Rightarrow> exn option \<Rightarrow> route \<Rightarrow> access_payload option \<Rightarrow> request \<Rightarrow> exn + 'd \<Rightarrow> 'd handler
    \<Rightarrow> world \<Rightarrow> reply \<times> world"
where
  "respond names throttled r bearer rq args h w =
     (case throttled of
        Some e \<Rightarrow> (failure names rq None None e (w_now w), w)
      | None \<Rightarrow>
     (case activate r (passport bearer w) of
        Inl e \<Rightarrow> (failure names rq None None e (w_now w), w)
      | Inr u \<Rightarrow>
     (case correlation_id rq w of
        (Inl e, w1) \<Rightarrow> (failure names rq None None e (w_now w1), w1)
      | (Inr cid, w1) \<Rightarrow>
     (case args of
        Inl e \<Rightarrow> (failure names rq (Some cid) (Some cid) e (w_now w1), w1)
      | Inr d \<Rightarrow>
     (case h u rq cid d w1 of
        (Inl e, w2) \<Rightarrow> (failure names rq (Some cid) (Some cid) e (w_now w2), w2)
      | (Inr v, w2) \<Rightarrow>
          (\<lparr>rp_status = r_status r, rp_correlation = Some cid, rp_body = Envelope (envelope v)\<rparr>,
           w2))))))"

section \<open>Requests without a user\<close>

text \<open>What a non-public route demands of whoever reaches its handler.\<close>

definition stored_user :: "access_payload option \<Rightarrow> db \<Rightarrow> user \<Rightarrow> bool" where
  "stored_user bearer d u \<longleftrightarrow>
     (\<exists>p. bearer = Some p \<and> find_by u_id (ap_sub p) (users d) = Some u \<and> u_isActive u)"

lemma passport_user:
  "pp_user (passport bearer w) = Some a \<longleftrightarrow>
     (\<exists>u. stored_user bearer (w_db w) u \<and> a = to_subject u)"
  by (auto simp: passport_def stored_user_def jwt_validate_def andThen_def run_basic
      split: option.splits)

lemma passport_err: "pp_user (passport bearer w) = Some a \<Longrightarrow> \<not> pp_err (passport bearer w)"
  by (auto simp: passport_def split: option.splits sum.splits)

lemma activate_user:
  assumes "r \<in> set api_routes" and "\<not> r_public r" and "activate r p = Inr req"
  shows "\<exists>a. req = Some a \<and> pp_user p = Some a
     \<and> (case r_roles r of None \<Rightarrow> True | Some rs \<Rightarrow> au_role a \<in> set rs)"
proof -
  have "list_all (\<lambda>r. r_public r \<or> (r_guards r = [JwtAuthGuard] \<and> r_roles r = None)
      \<or> (r_guards r = [JwtAuthGuard, RolesGuard] \<and> r_roles r \<noteq> Some [])) api_routes"
    by (simp add: api_routes_def route_tables mk_route_def jwt_roles_def)
  with assms(1,2) have "(r_guards r = [JwtAuthGuard] \<and> r_roles r = None)
      \<or> (r_guards r = [JwtAuthGuard, RolesGuard] \<and> r_roles r \<noteq> Some [])"
    by (auto simp: list_all_iff)
  with assms(2,3) show ?thesis
    by (auto simp: activate_def jwt_canActivate_def handleRequest_def roles_canActivate_def
        split: option.splits if_splits)
qed

lemma respond_refused:
  "activate r (passport bearer w) = Inl e \<Longrightarrow>
     respond names None r bearer rq args h w = (failure names rq None None e (w_now w), w)"
  by (simp add: respond_def)

lemma failure_unauthorized:
  "rp_status (failure names rq cid hdr (UnauthorizedException m) now) = 401"
  by (simp add: failure_def catch_def exn_defs)

lemma handler_user:
  assumes "r \<in> set api_routes" and "\<not> r_public r"
    and "activate r (passport bearer w) = Inr req"
  shows "\<exists>u. stored_user bearer (w_db w) u \<and> req = Some (to_subject u)
     \<and> (case r_roles r of None \<Rightarrow> True | Some rs \<Rightarrow> u_role u \<in> set rs)"
proof -
  from activate_user [OF assms] obtain a where a: "req = Some a"
    "pp_user (passport bearer w) = Some a"
    "case r_roles r of None \<Rightarrow> True | Some rs \<Rightarrow> au_role a \<in> set rs" by blast
  from a(2) obtain u where u: "stored_user bearer (w_db w) u" "a = to_subject u"
    by (auto simp: passport_user)
  have "au_role a = u_role u" by (simp add: u(2) to_subject_def)
  with a u show ?thesis by (intro exI [of _ u]) (simp split: option.splits)
qed


definition fx_request :: request where
  "fx_request = \<lparr>rq_url = ''/api/tickets/t1'', rq_correlation = Some ''c-1'',
     rq_userAgent = None, rq_ip = None\<rparr>"

definition fx_bearer :: "access_payload option" where
  "fx_bearer = Some \<lparr>ap_sub = ''carol'', ap_email = [], ap_role = ADMIN, ap_organizationId = []\<rparr>"

definition answered :: "reply \<Rightarrow> bool" where
  "answered rep \<longleftrightarrow> (case rp_body rep of Envelope _ \<Rightarrow> True | ErrorBody _ \<Rightarrow> False)"

lemma answeredE: "answered rep \<Longrightarrow> \<exists>v. rp_body rep = Envelope v"
  by (auto simp: answered_def split: reply_body.splits)


section \<open>Tenants do not interfere\<close>

text \<open>
  Two databases that look the same to the organization \<open>g\<close>: the same users, tickets and audit
  entries of \<open>g\<close>, and the same comments on its tickets; whatever else they hold may differ.
\<close>

definition comment_of :: "string \<Rightarrow> db \<Rightarrow> comment \<Rightarrow> bool" where
  "comment_of g d c \<longleftrightarrow>
     list_ex (\<lambda>t. tk_id t = cm_ticketId c \<and> tk_organizationId t = g) (tickets d)"

definition same_tenant :: "string \<Rightarrow> db \<Rightarrow> db \<Rightarrow> bool" where
  "same_tenant g d d' \<longleftrightarrow>
     filter (\<lambda>u. u_organizationId u = g) (users d) = filter (\<lambda>u. u_organizationId u = g) (users d')
     \<and> filter (\<lambda>t. tk_organizationId t = g) (tickets d)
         = filter (\<lambda>t. tk_organizationId t = g) (tickets d')
     \<and> filter (comment_of g d) (comments d) = filter (comment_of g d') (comments d')
     \<and> filter (\<lambda>a. al_organizationId a = Some g) (audit_logs d)
         = filter (\<lambda>a. al_organizationId a = Some g) (audit_logs d')"

definition same_view :: "string \<Rightarrow> world \<Rightarrow> world \<Rightarrow> bool" where
  "same_view g w v \<longleftrightarrow> same_tenant g (w_db w) (w_db v) \<and> w_now w = w_now v
     \<and> w_uuid w = w_uuid v \<and> w_next w = w_next v"

text \<open>A read whose outcome the organization's own rows determine.\<close>

definition tenant_read :: "string \<Rightarrow> 'a op \<Rightarrow> bool" where
  "tenant_read g m \<longleftrightarrow>
     (\<forall>w v. same_view g w v \<longrightarrow> fst (m w) = fst (m v) \<and> snd (m w) = w \<and> snd (m v) = v)"

lemma filter_narrow:
  assumes "filter Q xs = filter Q ys" and "\<And>x. P x \<Longrightarrow> Q x"
  shows "filter P xs = filter P ys"
proof -
  have "filter P zs = filter P (filter Q zs)" for zs
    using assms(2) by (auto simp: filter_filter intro!: filter_cong)
  then show ?thesis using assms(1) by metis
qed

lemma find_narrow:
  assumes "filter Q xs = filter Q ys" and "\<And>x. P x \<Longrightarrow> Q x"
  shows "List.find P xs = List.find P ys"
proof -
  have "List.find P zs = (case filter P zs of [] \<Rightarrow> None | x # _ \<Rightarrow> Some x)" for zs
    by (induction zs) auto
  then show ?thesis using filter_narrow [of Q xs ys P, OF assms] by simp
qed

lemma list_page_narrow:
  assumes "filter Q xs = filter Q ys" and "\<And>x. P x \<Longrightarrow> Q x"
  shows "list_page ord P oby q xs = list_page ord P oby q ys"
  using filter_narrow [of Q xs ys P, OF assms] by (simp add: list_page_def find_many_def)

lemma tenant_read_db:
  assumes "\<And>d d'. same_tenant g d d' \<Longrightarrow> f d = f d'"
  shows "tenant_read g (read_db f)"
  using assms by (simp add: tenant_read_def same_view_def run_basic)

lemma tenant_read_andThen:
  assumes "tenant_read g m" and "\<And>x. tenant_read g (f x)"
  shows "tenant_read g (andThen m f)"
  unfolding tenant_read_def
proof (intro allI impI)
  fix w v assume s: "same_view g w v"
  with assms(1) have m: "fst (m w) = fst (m v)" "snd (m w) = w" "snd (m v) = v"
    by (simp_all add: tenant_read_def)
  show "fst (andThen m f w) = fst (andThen m f v) \<and> snd (andThen m f w) = w
      \<and> snd (andThen m f v) = v"
    using m assms(2) s
    by (cases "m w"; cases "m v"; cases "fst (m w)") (auto simp: andThen_def tenant_read_def)
qed

lemma tenant_read_throw: "tenant_read g (throw e)"
  by (simp add: tenant_read_def run_basic)

lemma tenant_read_ret: "tenant_read g (ret x)"
  by (simp add: tenant_read_def run_basic)

lemmas tenant_read_intros = tenant_read_andThen tenant_read_throw tenant_read_ret tenant_read_db

lemma tenant_read_returns: "tenant_read g m \<Longrightarrow> tenant_read g (returns f m)"
  unfolding returns_def by (intro tenant_read_intros)

lemma tenant_find_ticket: "tenant_read (au_organizationId a) (find_ticket a i)"
  unfolding find_ticket_def
proof (rule tenant_read_andThen)
  show "tenant_read (au_organizationId a) (read_db (\<lambda>d. List.find
      (\<lambda>t. tk_id t = i \<and> tk_organizationId t = au_organizationId a) (tickets d)))"
    by (rule tenant_read_db, rule find_narrow [where Q = "\<lambda>t. tk_organizationId t = au_organizationId a"])
      (simp_all add: same_tenant_def)
next
  fix r :: "ticket option"
  show "tenant_read (au_organizationId a) (case r of
      None \<Rightarrow> throw (NotFoundException ''Ticket not found'')
    | Some ticket \<Rightarrow> if au_role a = CUSTOMER \<and> tk_createdById ticket \<noteq> au_id a
        then throw (ForbiddenException ''You cannot access this ticket'') else ret ticket)"
    by (cases r) (simp_all add: tenant_read_throw tenant_read_ret)
qed

lemma tenant_find_tickets: "tenant_read (au_organizationId a) (find_tickets ord ilike a q)"
  unfolding find_tickets_def
  by (rule tenant_read_db, rule list_page_narrow [where Q = "\<lambda>t. tk_organizationId t = au_organizationId a"])
    (simp_all add: same_tenant_def ticket_where_def)

lemma tenant_find_audit: "tenant_read g (find_audit_logs ord g q)"
  unfolding find_audit_logs_def
  by (rule tenant_read_db, rule list_page_narrow [where Q = "\<lambda>a. al_organizationId a = Some g"])
    (simp_all add: same_tenant_def audit_where_def)

lemma tenant_find_users: "tenant_read g (find_users ord ilike g q)"
  unfolding find_users_def
proof (rule tenant_read_db)
  fix d d' assume "same_tenant g d d'"
  then have "filter (\<lambda>u. u_organizationId u = g) (users d)
      = filter (\<lambda>u. u_organizationId u = g) (users d')" unfolding same_tenant_def by blast
  then have f: "filter (users_where ilike g q) (users d) = filter (users_where ilike g q) (users d')"
    by (rule filter_narrow) (simp add: users_where_def)
  let ?page = "\<lambda>d. let found = find_many ord (users_where ilike g q)
        (toPrismaOrderBy (q_sort (uq_page q)) USERS_SORTABLE default_order)
        (toPrismaPage (uq_page q)) (users d);
      n = length (filter (users_where ilike g q) (users d))
    in buildPaginatedResult (map userSelect found) n (uq_page q)"
  show "?page d = ?page d'" by (simp add: find_many_def f)
qed

lemma tenant_find_user: "tenant_read g (find_user g i)"
  unfolding find_user_def
proof (rule tenant_read_andThen)
  show "tenant_read g (read_db (\<lambda>d. List.find (in_org g i) (users d)))"
    by (rule tenant_read_db, rule find_narrow [where Q = "\<lambda>u. u_organizationId u = g"])
      (simp_all add: same_tenant_def in_org_def)
qed (simp add: tenant_read_throw tenant_read_ret split: option.split)

lemma find_ticket_mem:
  "find_ticket a i w = (Inr t, w') \<Longrightarrow>
     tk_id t = i \<and> tk_organizationId t = au_organizationId a \<and> t \<in> set (tickets (w_db w))"
  by (auto simp: find_ticket_def runs split: option.splits if_splits dest!: find_SomeD)

lemma comments_narrow:
  assumes same: "same_tenant g d d'"
    and t: "t \<in> set (tickets d)" "tk_id t = i" "tk_organizationId t = g"
  shows "list_page ord (comments_where a i) oby q (comments d)
    = list_page ord (comments_where a i) oby q (comments d')"
proof -
  have "t \<in> set (filter (\<lambda>t. tk_organizationId t = g) (tickets d))" using t by simp
  also have "filter (\<lambda>t. tk_organizationId t = g) (tickets d)
      = filter (\<lambda>t. tk_organizationId t = g) (tickets d')"
    using same unfolding same_tenant_def by blast
  finally have "t \<in> set (tickets d')" by simp
  then have of: "comment_of g d c \<and> comment_of g d' c" if "cm_ticketId c = i" for c
    using t that by (auto simp: comment_of_def list_ex_iff)
  have "filter (comments_where a i) (comments e)
      = filter (comments_where a i) (filter (comment_of g e) (comments e))"
    if "e = d \<or> e = d'" for e
    using that of by (auto simp: comments_where_def filter_filter intro!: filter_cong)
  then have "filter (comments_where a i) (comments d) = filter (comments_where a i) (comments d')"
    using same unfolding same_tenant_def by metis
  then show ?thesis by (simp add: list_page_def find_many_def)
qed

lemma tenant_comments: "tenant_read (au_organizationId a) (comments_for_ticket ord a i q)"
  unfolding tenant_read_def
proof (intro allI impI)
  fix w v assume s: "same_view (au_organizationId a) w v"
  then have same: "same_tenant (au_organizationId a) (w_db w) (w_db v)" by (simp add: same_view_def)
  from s tenant_find_ticket [of a i] have f: "fst (find_ticket a i w) = fst (find_ticket a i v)"
    "snd (find_ticket a i w) = w" "snd (find_ticket a i v) = v"
    by (simp_all add: tenant_read_def)
  show "fst (comments_for_ticket ord a i q w) = fst (comments_for_ticket ord a i q v)
      \<and> snd (comments_for_ticket ord a i q w) = w \<and> snd (comments_for_ticket ord a i q v) = v"
  proof (cases "fst (find_ticket a i w)")
    case (Inl e)
    with f have "find_ticket a i w = (Inl e, w)" "find_ticket a i v = (Inl e, v)"
      by (metis prod.collapse)+
    then show ?thesis by (simp add: comments_for_ticket_def andThen_def)
  next
    case (Inr t)
    with f have r: "find_ticket a i w = (Inr t, w)" "find_ticket a i v = (Inr t, v)"
      by (metis prod.collapse)+
    from find_ticket_mem [OF r(1)] comments_narrow [OF same]
    have "list_page ord (comments_where a i) (''createdAt'', Asc) q (comments (w_db w))
      = list_page ord (comments_where a i) (''createdAt'', Asc) q (comments (w_db v))" by blast
    with r show ?thesis by (simp add: comments_for_ticket_def andThen_def run_basic)
  qed
qed

text \<open>A handler that only reads the tenant's rows makes the whole answer depend on them only.\<close>

lemma respond_same_view:
  assumes user: "passport bearer w = \<lparr>pp_err = False, pp_user = Some a\<rparr>"
      "passport bearer v = \<lparr>pp_err = False, pp_user = Some a\<rparr>"
    and prot: "r \<in> set api_routes" "\<not> r_public r"
    and same: "same_view g w v"
    and reads: "\<And>cid d. tenant_read g (h (Some a) rq cid d)"
  shows "fst (respond names None r bearer rq args h w) = fst (respond names None r bearer rq args h v)"
proof (cases "activate r \<lparr>pp_err = False, pp_user = Some a\<rparr>")
  case (Inl e)
  with user same show ?thesis by (simp add: respond_def same_view_def)
next
  case (Inr req)
  from activate_user [OF prot Inr] have req: "req = Some a" by auto
  obtain cid w1 v1 where c: "correlation_id rq w = (Inr cid, w1)" "correlation_id rq v = (Inr cid, v1)"
    "same_view g w1 v1"
    using same by (cases "rq_correlation rq") (simp_all add: correlation_id_def run_basic same_view_def)
  have now: "w_now w1 = w_now v1" using c(3) by (simp add: same_view_def)
  show ?thesis
  proof (cases args)
    case (Inl e)
    with user Inr c now show ?thesis by (simp add: respond_def)
  next
    case d: (Inr d)
    have h: "fst (h (Some a) rq cid d w1) = fst (h (Some a) rq cid d v1)"
      "snd (h (Some a) rq cid d w1) = w1" "snd (h (Some a) rq cid d v1) = v1"
      using reads [of cid d] c(3) by (simp_all add: tenant_read_def)
    obtain x where x: "h (Some a) rq cid d w1 = (x, w1)" "h (Some a) rq cid d v1 = (x, v1)"
      using h by (metis prod.collapse)
    show ?thesis
      by (cases x) (simp_all add: respond_def user Inr req c d x now)
  qed
qed

lemmas read_handlers = TicketsController_findOne_def TicketsController_findAll_def
  CommentsController_findAll_def UsersController_findAll_def UsersController_findOne_def
  AuditController_findAll_def with_user_def

text \<open>
  C9. Tenants do not interfere. Take two states of the system that agree on what belongs to the
  caller's organization (its users, its tickets, the comments on them, its audit entries) and
  differ in anything else, and let the same user send the same request to both. The whole HTTP
  answer (status, headers, error text or data, page totals) of every read of tickets, of comments
  by ticket id, of users and of the audit log is the same, whether it succeeds or fails: no
  read tells a member of one organization anything about the rows of another, not even that
  they exist.
\<close>

theorem tenants_do_not_interfere:
  assumes "passport b w = \<lparr>pp_err = False, pp_user = Some a\<rparr>"
    and "passport b v = \<lparr>pp_err = False, pp_user = Some a\<rparr>"
    and "same_view (au_organizationId a) w v"
  shows
  "fst (respond names None (tickets_routes ! 2) b rq ti TicketsController_findOne w)
     = fst (respond names None (tickets_routes ! 2) b rq ti TicketsController_findOne v)
   \<and> fst (respond names None (tickets_routes ! 1) b rq tq (TicketsController_findAll tord ilike) w)
     = fst (respond names None (tickets_routes ! 1) b rq tq (TicketsController_findAll tord ilike) v)
   \<and> fst (respond names None (comments_routes ! 1) b rq cq (CommentsController_findAll cord) w)
     = fst (respond names None (comments_routes ! 1) b rq cq (CommentsController_findAll cord) v)
   \<and> fst (respond names None (users_routes ! 1) b rq uq (UsersController_findAll uord ilike) w)
     = fst (respond names None (users_routes ! 1) b rq uq (UsersController_findAll uord ilike) v)
   \<and> fst (respond names None (users_routes ! 2) b rq ui UsersController_findOne w)
     = fst (respond names None (users_routes ! 2) b rq ui UsersController_findOne v)
   \<and> fst (respond names None (audit_routes ! 0) b rq lq (AuditController_findAll lord) w)
     = fst (respond names None (audit_routes ! 0) b rq lq (AuditController_findAll lord) v)"
proof -
  have routes: "tickets_routes ! 2 \<in> set api_routes" "\<not> r_public (tickets_routes ! 2)"
    "tickets_routes ! 1 \<in> set api_routes" "\<not> r_public (tickets_routes ! 1)"
    "comments_routes ! 1 \<in> set api_routes" "\<not> r_public (comments_routes ! 1)"
    "users_routes ! 1 \<in> set api_routes" "\<not> r_public (users_routes ! 1)"
    "users_routes ! 2 \<in> set api_routes" "\<not> r_public (users_routes ! 2)"
    "audit_routes ! 0 \<in> set api_routes" "\<not> r_public (audit_routes ! 0)"
    by (simp_all add: api_routes_def route_tables mk_route_def)
  note same = respond_same_view [OF assms(1,2) _ _ assms(3)]
  show ?thesis
    by (intro conjI same routes)
      (simp_all add: read_handlers tenant_read_returns tenant_find_ticket tenant_find_tickets
        tenant_comments tenant_find_users tenant_find_user tenant_find_audit)
qed

text \<open>The database of the fixtures with a secret of the other tenant added.\<close>

definition fx_secret :: db where
  "fx_secret = fx_db\<lparr>tickets := fx_ticket ''s'' ''TKT-000009'' ''globex'' ''gus'' # tickets fx_db\<rparr>"

theorem tenants_do_not_interfere_witness:
  "fst (respond [] None (tickets_routes ! 2) fx_bearer fx_request (Inr ''s'')
       TicketsController_findOne (fx_world fx_secret))
     = fst (respond [] None (tickets_routes ! 2) fx_bearer fx_request (Inr ''s'')
         TicketsController_findOne (fx_world fx_db))
   \<and> rp_status (fst (respond [] None (tickets_routes ! 2) fx_bearer fx_request (Inr ''s'')
       TicketsController_findOne (fx_world fx_secret))) = 404"
proof -
  have a: "passport fx_bearer (fx_world d) = \<lparr>pp_err = False, pp_user = Some carol\<rparr>"
    if "d = fx_secret \<or> d = fx_db" for d
    using that by (auto simp: passport_def jwt_validate_def andThen_def run_basic fx_bearer_def
        fx_secret_def to_subject_def fixtures)
  have v: "same_view (au_organizationId carol) (fx_world fx_secret) (fx_world fx_db)"
    by (simp add: same_view_def same_tenant_def fx_secret_def fixtures)
  have s: "rp_status (fst (respond [] None (tickets_routes ! 2) fx_bearer fx_request (Inr ''s'')
       TicketsController_findOne (fx_world fx_secret))) = 404" by code_simp
  show ?thesis
    using tenants_do_not_interfere [OF a a v, THEN conjunct1] s by blast
qed

end
