(* ===== verification/RequestDto.thy ===== *)
theory RequestDto
  imports Users Comments Organizations ReadModels
begin

text \<open>
  The validators and transformers of the DTO classes: how a query string or a JSON body becomes
  the typed argument of a handler, or is rejected with 400. The pipe runs with \<open>whitelist\<close>,
  \<open>forbidNonWhitelisted\<close>, \<open>transform\<close> and \<open>enableImplicitConversion\<close> (\<open>app.setup.ts\<close>), so an
  unknown property is an error, and a property is converted to its declared type before its own
  \<open>@Transform\<close> and validators see it. (\<open>page\<close> and \<open>limit\<close> are declared without a type
  annotation, so only their \<open>@Transform\<close>, a \<open>parseInt\<close>, converts them.) Of class-validator two
  functions stay parameters: \<open>isUUID\<close>, and \<open>len\<close>, the length a string is measured by. \<open>None\<close> as
  the outcome is the 400 of the pipe. A query string holds each name at most once.
\<close>

section \<open>The patterns\<close>

definition slug_char :: "char \<Rightarrow> bool" where
  "slug_char c \<longleftrightarrow> is_digit c \<or> (97 \<le> (of_char c :: nat) \<and> (of_char c :: nat) \<le> 122)"

text \<open>
  \<open>/^[a-z0-9]+(?:-[a-z0-9]+)*$/\<close>, read from left to right: \<open>inside\<close> tells whether the current
  group has a character already.
\<close>

fun slug_run :: "bool \<Rightarrow> string \<Rightarrow> bool" where
  "slug_run inside [] \<longleftrightarrow> inside"
| "slug_run inside (c # cs) \<longleftrightarrow>
     (if slug_char c then slug_run True cs else c = CHR ''-'' \<and> inside \<and> slug_run False cs)"

definition slug_matches :: "string \<Rightarrow> bool" where
  "slug_matches s = slug_run False s"

text \<open>What a dot does not match: LF, CR, and the UTF-8 bytes of U+2028 and U+2029.\<close>

fun first_line :: "string \<Rightarrow> string" where
  "first_line [] = []"
| "first_line (c # cs) =
     (if c = CHR 0x0A \<or> c = CHR 0x0D \<or> take 3 (c # cs) = [CHR 0xE2, CHR 0x80, CHR 0xA8]
         \<or> take 3 (c # cs) = [CHR 0xE2, CHR 0x80, CHR 0xA9]
      then [] else c # first_line cs)"

definition is_letter :: "char \<Rightarrow> bool" where
  "is_letter c \<longleftrightarrow> (65 \<le> (of_char c :: nat) \<and> (of_char c :: nat) \<le> 90)
     \<or> (97 \<le> (of_char c :: nat) \<and> (of_char c :: nat) \<le> 122)"

text \<open>\<open>/^(?=.*[A-Za-z])(?=.*\d).+$/\<close>: two look-aheads along the first line, then one line to the end.\<close>

definition password_matches :: "string \<Rightarrow> bool" where
  "password_matches s \<longleftrightarrow> list_ex is_letter (first_line s) \<and> list_ex is_digit (first_line s)
     \<and> s \<noteq> [] \<and> first_line s = s"

section \<open>Query strings\<close>

type_synonym query_params = "(string \<times> string) list"

definition whitelisted :: "string list \<Rightarrow> (string \<times> 'v) list \<Rightarrow> bool" where
  "whitelisted allowed kvs \<longleftrightarrow> list_all (\<lambda>kv. fst kv \<in> set allowed) kvs"

definition int_param :: "(int \<Rightarrow> bool) \<Rightarrow> int \<Rightarrow> string option \<Rightarrow> int option" where
  "int_param ok initial v =
     (case v of
        None \<Rightarrow> Some initial
      | Some s \<Rightarrow> (case parseInt s of None \<Rightarrow> None | Some n \<Rightarrow> if ok n then Some n else None))"

definition PAGE_PARAMS :: "string list" where
  "PAGE_PARAMS = [''page'', ''limit'', ''sort'', ''search'']"

text \<open>\<open>PaginationQueryDto\<close>; \<open>extra\<close> holds the properties a subclass adds.\<close>

definition parse_page_query ::
  "string list \<Rightarrow> query_params \<Rightarrow> page_query option" where
  "parse_page_query extra ps =
     (if \<not> whitelisted (PAGE_PARAMS @ extra) ps then None
      else case int_param (\<lambda>n. 1 \<le> n) 1 (map_of ps ''page'') of
        None \<Rightarrow> None
      | Some p \<Rightarrow> (case int_param (\<lambda>n. 1 \<le> n \<and> n \<le> 100) 20 (map_of ps ''limit'') of
          None \<Rightarrow> None
        | Some l \<Rightarrow> Some \<lparr>q_page = Some p, q_limit = Some l, q_sort = map_of ps ''sort'',
                           q_search = map_of ps ''search''\<rparr>))"

text \<open>\<open>@IsOptional() @IsEnum(E)\<close> and \<open>@IsOptional() @IsUUID()\<close>: absent, or valid.\<close>

definition enum_of :: "('e \<Rightarrow> string) \<Rightarrow> 'e list \<Rightarrow> string \<Rightarrow> 'e option" where
  "enum_of name es s = List.find (\<lambda>e. name e = s) es"

definition opt_param :: "(string \<Rightarrow> 'v option) \<Rightarrow> string option \<Rightarrow> 'v option option" where
  "opt_param read v =
     (case v of None \<Rightarrow> Some None
      | Some s \<Rightarrow> (case read s of None \<Rightarrow> None | Some x \<Rightarrow> Some (Some x)))"

definition read_status :: "string \<Rightarrow> ticket_status option" where
  "read_status = enum_of status_string [OPEN, IN_PROGRESS, PENDING, RESOLVED, CLOSED]"

definition read_priority :: "string \<Rightarrow> ticket_priority option" where
  "read_priority = enum_of priority_string [LOW, MEDIUM, HIGH, URGENT]"

definition read_role :: "string \<Rightarrow> role option" where
  "read_role = enum_of role_string [ADMIN, AGENT, CUSTOMER]"

definition read_uuid :: "(string \<Rightarrow> bool) \<Rightarrow> string \<Rightarrow> string option" where
  "read_uuid isUUID s = (if isUUID s then Some s else None)"

definition parse_ticket_query ::
  "(string \<Rightarrow> bool) \<Rightarrow> query_params \<Rightarrow> ticket_query option" where
  "parse_ticket_query isUUID ps =
     (case parse_page_query [''status'', ''priority'', ''assignedToId''] ps of
        None \<Rightarrow> None
      | Some p \<Rightarrow> (case opt_param read_status (map_of ps ''status'') of
          None \<Rightarrow> None
        | Some st \<Rightarrow> (case opt_param read_priority (map_of ps ''priority'') of
            None \<Rightarrow> None
          | Some pr \<Rightarrow> (case opt_param (read_uuid isUUID) (map_of ps ''assignedToId'') of
              None \<Rightarrow> None
            | Some a \<Rightarrow> Some \<lparr>tq_page = p, tq_status = st, tq_priority = pr,
                                tq_assignedToId = a\<rparr>))))"

definition parse_user_query :: "query_params \<Rightarrow> user_query option" where
  "parse_user_query ps =
     (case parse_page_query [''role''] ps of
        None \<Rightarrow> None
      | Some p \<Rightarrow> (case opt_param read_role (map_of ps ''role'') of
          None \<Rightarrow> None
        | Some r \<Rightarrow> Some \<lparr>uq_page = p, uq_role = r\<rparr>))"

definition parse_audit_query :: "query_params \<Rightarrow> audit_query option" where
  "parse_audit_query ps =
     (case parse_page_query [''entityType'', ''entityId''] ps of
        None \<Rightarrow> None
      | Some p \<Rightarrow> Some \<lparr>aq_page = p, aq_entityType = map_of ps ''entityType'',
                           aq_entityId = map_of ps ''entityId''\<rparr>)"

text \<open>
  \<open>NotificationQueryDto\<close>: the declared type \<open>boolean\<close> makes the implicit conversion
  \<open>Boolean(value)\<close> run first; the \<open>@Transform\<close> then compares a boolean with the strings
  \<open>'true'\<close> and \<open>'false'\<close> and passes it on.
\<close>

definition read_isRead :: "string \<Rightarrow> bool option" where
  "read_isRead s = Some (s \<noteq> [])"

definition parse_notification_query ::
  "query_params \<Rightarrow> notification_query option" where
  "parse_notification_query ps =
     (case parse_page_query [''isRead''] ps of
        None \<Rightarrow> None
      | Some p \<Rightarrow> (case opt_param read_isRead (map_of ps ''isRead'') of
          None \<Rightarrow> None
        | Some b \<Rightarrow> Some \<lparr>nq_page = p, nq_isRead = b\<rparr>))"

section \<open>JSON bodies\<close>

type_synonym body = "(string \<times> json) list"

text \<open>
  The implicit conversion to \<open>string\<close> and \<open>boolean\<close>: \<open>undefined\<close> and \<open>null\<close> stay, an array is
  left for the validators to reject, anything else goes through \<open>String\<close> or \<open>Boolean\<close>.
\<close>

definition read_prop_as :: "(json \<Rightarrow> 'v option) \<Rightarrow> json option \<Rightarrow> 'v field option" where
  "read_prop_as read v =
     (case v of None \<Rightarrow> Some Undefined
      | Some JNull \<Rightarrow> Some Null
      | Some (JArr _) \<Rightarrow> None
      | Some j \<Rightarrow> map_option Val (read j))"

definition read_string :: "(string \<Rightarrow> bool) \<Rightarrow> json \<Rightarrow> string option" where
  "read_string ok j = (if ok (js_string j) then Some (js_string j) else None)"

definition read_bool :: "json \<Rightarrow> bool option" where
  "read_bool j = Some (truthy (Some j))"

definition read_enum :: "('e \<Rightarrow> string) \<Rightarrow> 'e list \<Rightarrow> json \<Rightarrow> 'e option" where
  "read_enum name es j = enum_of name es (js_string j)"

text \<open>Without \<open>@IsOptional\<close>, \<open>undefined\<close> and \<open>null\<close> fail the type validator.\<close>

definition required :: "'v field option \<Rightarrow> 'v option" where
  "required f = (case f of Some (Val x) \<Rightarrow> Some x | _ \<Rightarrow> None)"

definition between :: "(string \<Rightarrow> nat) \<Rightarrow> nat \<Rightarrow> nat \<Rightarrow> string \<Rightarrow> bool" where
  "between len lo hi s \<longleftrightarrow> lo \<le> len s \<and> len s \<le> hi"

definition validate_create_ticket :: "(string \<Rightarrow> nat) \<Rightarrow> body \<Rightarrow> create_ticket_dto option" where
  "validate_create_ticket len b =
     (if \<not> whitelisted [''title'', ''description'', ''priority'', ''category''] b then None
      else case (required (read_prop_as (read_string (between len 3 160)) (map_of b ''title'')),
                 required (read_prop_as (read_string (between len 3 5000)) (map_of b ''description'')),
                 read_prop_as (read_enum priority_string [LOW, MEDIUM, HIGH, URGENT])
                   (map_of b ''priority''),
                 read_prop_as (read_string (between len 0 80)) (map_of b ''category'')) of
        (Some t, Some d, Some p, Some c) \<Rightarrow>
          Some \<lparr>ct_title = t, ct_description = d, ct_priority = p, ct_category = c\<rparr>
      | _ \<Rightarrow> None)"

definition validate_update_ticket :: "(string \<Rightarrow> nat) \<Rightarrow> body \<Rightarrow> update_ticket_dto option" where
  "validate_update_ticket len b =
     (if \<not> whitelisted [''title'', ''description'', ''status'', ''priority'', ''category''] b then None
      else case (read_prop_as (read_string (between len 3 160)) (map_of b ''title''),
                 read_prop_as (read_string (between len 3 5000)) (map_of b ''description''),
                 read_prop_as (read_enum status_string [OPEN, IN_PROGRESS, PENDING, RESOLVED, CLOSED])
                   (map_of b ''status''),
                 read_prop_as (read_enum priority_string [LOW, MEDIUM, HIGH, URGENT])
                   (map_of b ''priority''),
                 read_prop_as (read_string (between len 0 80)) (map_of b ''category'')) of
        (Some t, Some d, Some s, Some p, Some c) \<Rightarrow>
          Some \<lparr>ut_title = t, ut_description = d, ut_status = s, ut_priority = p,
                ut_category = c\<rparr>
      | _ \<Rightarrow> None)"

definition validate_assign_ticket :: "(string \<Rightarrow> bool) \<Rightarrow> body \<Rightarrow> assign_ticket_dto option" where
  "validate_assign_ticket isUUID b =
     (if \<not> whitelisted [''assigneeId''] b then None
      else case required (read_prop_as (read_string isUUID) (map_of b ''assigneeId'')) of
        Some i \<Rightarrow> Some \<lparr>at_assigneeId = i\<rparr> | None \<Rightarrow> None)"

definition validate_create_comment :: "(string \<Rightarrow> nat) \<Rightarrow> body \<Rightarrow> create_comment_dto option" where
  "validate_create_comment len b =
     (if \<not> whitelisted [''body'', ''isInternal''] b then None
      else case (required (read_prop_as (read_string (between len 1 5000)) (map_of b ''body'')),
                 read_prop_as read_bool (map_of b ''isInternal'')) of
        (Some t, Some i) \<Rightarrow> Some \<lparr>cc_body = t, cc_isInternal = i\<rparr>
      | _ \<Rightarrow> None)"

definition slug_ok :: "(string \<Rightarrow> nat) \<Rightarrow> string \<Rightarrow> bool" where
  "slug_ok len s \<longleftrightarrow> slug_matches s \<and> len s \<le> 120"

definition validate_create_organization ::
  "(string \<Rightarrow> nat) \<Rightarrow> body \<Rightarrow> create_organization_dto option" where
  "validate_create_organization len b =
     (if \<not> whitelisted [''name'', ''slug''] b then None
      else case (required (read_prop_as (read_string (between len 2 120)) (map_of b ''name'')),
                 required (read_prop_as (read_string (slug_ok len)) (map_of b ''slug''))) of
        (Some n, Some s) \<Rightarrow> Some \<lparr>co_name = n, co_slug = s\<rparr>
      | _ \<Rightarrow> None)"

definition validate_update_organization ::
  "(string \<Rightarrow> nat) \<Rightarrow> body \<Rightarrow> update_organization_dto option" where
  "validate_update_organization len b =
     (if \<not> whitelisted [''name'', ''slug'', ''isActive''] b then None
      else case (read_prop_as (read_string (between len 2 120)) (map_of b ''name''),
                 read_prop_as (read_string (slug_ok len)) (map_of b ''slug''),
                 read_prop_as read_bool (map_of b ''isActive'')) of
        (Some n, Some s, Some a) \<Rightarrow> Some \<lparr>uo_name = n, uo_slug = s, uo_isActive = a\<rparr>
      | _ \<Rightarrow> None)"

text \<open>
  The bodies with an e-mail or a password; what counts as an e-mail or a JWT is class-validator's.
\<close>

definition password_ok :: "(string \<Rightarrow> nat) \<Rightarrow> string \<Rightarrow> bool" where
  "password_ok len s \<longleftrightarrow> between len 8 72 s \<and> password_matches s"

definition validate_register ::
  "(string \<Rightarrow> nat) \<Rightarrow> (string \<Rightarrow> bool) \<Rightarrow> (string \<Rightarrow> bool) \<Rightarrow> body \<Rightarrow> register_dto option" where
  "validate_register len isEmail isUUID b =
     (if \<not> whitelisted [''email'', ''password'', ''firstName'', ''lastName'', ''organizationId''] b
      then None
      else case (required (read_prop_as (read_string isEmail) (map_of b ''email'')),
                 required (read_prop_as (read_string (password_ok len)) (map_of b ''password'')),
                 required (read_prop_as (read_string (between len 1 80)) (map_of b ''firstName'')),
                 required (read_prop_as (read_string (between len 1 80)) (map_of b ''lastName'')),
                 required (read_prop_as (read_string isUUID) (map_of b ''organizationId''))) of
        (Some e, Some p, Some f, Some l, Some g) \<Rightarrow>
          Some \<lparr>rd_email = e, rd_password = p, rd_firstName = f, rd_lastName = l,
                rd_organizationId = g\<rparr>
      | _ \<Rightarrow> None)"

definition validate_login ::
  "(string \<Rightarrow> nat) \<Rightarrow> (string \<Rightarrow> bool) \<Rightarrow> body \<Rightarrow> login_dto option" where
  "validate_login len isEmail b =
     (if \<not> whitelisted [''email'', ''password''] b then None
      else case (required (read_prop_as (read_string isEmail) (map_of b ''email'')),
                 required (read_prop_as (read_string (\<lambda>s. 1 \<le> len s)) (map_of b ''password''))) of
        (Some e, Some p) \<Rightarrow> Some \<lparr>ld_email = e, ld_password = p\<rparr>
      | _ \<Rightarrow> None)"

definition validate_refresh :: "(string \<Rightarrow> bool) \<Rightarrow> body \<Rightarrow> string option" where
  "validate_refresh isJWT b =
     (if \<not> whitelisted [''refreshToken''] b then None
      else required (read_prop_as (read_string isJWT) (map_of b ''refreshToken'')))"

definition validate_create_user ::
  "(string \<Rightarrow> nat) \<Rightarrow> (string \<Rightarrow> bool) \<Rightarrow> (string \<Rightarrow> bool) \<Rightarrow> body \<Rightarrow> create_user_dto option" where
  "validate_create_user len isEmail isUUID b =
     (if \<not> whitelisted [''email'', ''password'', ''firstName'', ''lastName'', ''role'',
        ''organizationId''] b then None
      else case (required (read_prop_as (read_string isEmail) (map_of b ''email'')),
                 required (read_prop_as (read_string (password_ok len)) (map_of b ''password'')),
                 required (read_prop_as (read_string (between len 1 80)) (map_of b ''firstName'')),
                 required (read_prop_as (read_string (between len 1 80)) (map_of b ''lastName'')),
                 required (read_prop_as (read_enum role_string [ADMIN, AGENT, CUSTOMER])
                   (map_of b ''role'')),
                 required (read_prop_as (read_string isUUID) (map_of b ''organizationId''))) of
        (Some e, Some p, Some f, Some l, Some r, Some g) \<Rightarrow>
          Some \<lparr>cu_email = e, cu_password = p, cu_firstName = f, cu_lastName = l, cu_role = r,
                cu_organizationId = g\<rparr>
      | _ \<Rightarrow> None)"

definition validate_update_user ::
  "(string \<Rightarrow> nat) \<Rightarrow> (string \<Rightarrow> bool) \<Rightarrow> body \<Rightarrow> update_user_dto option" where
  "validate_update_user len isEmail b =
     (if \<not> whitelisted [''email'', ''firstName'', ''lastName'', ''role'', ''isActive''] b then None
      else case (read_prop_as (read_string isEmail) (map_of b ''email''),
                 read_prop_as (read_string (between len 1 80)) (map_of b ''firstName''),
                 read_prop_as (read_string (between len 1 80)) (map_of b ''lastName''),
                 read_prop_as (read_enum role_string [ADMIN, AGENT, CUSTOMER]) (map_of b ''role''),
                 read_prop_as read_bool (map_of b ''isActive'')) of
        (Some e, Some f, Some l, Some r, Some a) \<Rightarrow>
          Some \<lparr>uu_email = e, uu_firstName = f, uu_lastName = l, uu_role = r, uu_isActive = a\<rparr>
      | _ \<Rightarrow> None)"

section \<open>What the validators let through\<close>

lemma hyphen_not_slug_char [simp]: "\<not> slug_char CHR ''-''"
  by (simp add: slug_char_def is_digit_def)

definition slug_word :: "string \<Rightarrow> bool" where
  "slug_word w \<longleftrightarrow> w \<noteq> [] \<and> list_all slug_char w"

lemma slug_run_split:
  "slug_run inside s \<longleftrightarrow>
     (case split_on CHR ''-'' s of [] \<Rightarrow> False
      | w # ws \<Rightarrow> (inside \<or> w \<noteq> []) \<and> list_all slug_char w \<and> list_all slug_word ws)"
proof (induction s arbitrary: inside)
  case (Cons c cs)
  obtain w ws where s: "split_on CHR ''-'' cs = w # ws"
    by (cases "split_on CHR ''-'' cs") auto
  with Cons.IH show ?case by (auto simp: slug_word_def)
qed simp

lemma split_join_words:
  assumes "ws \<noteq> []" and "list_all slug_word ws"
  shows "split_on CHR ''-'' (join_with ''-'' ws) = ws"
  using assms
proof (induction ws rule: induct_list012)
  case (2 w)
  then have "CHR ''-'' \<notin> set w" by (auto simp: slug_word_def list_all_iff)
  then show ?case by (simp add: split_on_none)
next
  case (3 w v ws)
  then have "CHR ''-'' \<notin> set w" by (auto simp: slug_word_def list_all_iff)
  with 3 show ?case by (simp add: split_on_append)
qed simp

text \<open>
  The slug pattern, which the server's DTO and the form of the client both use, accepts
  exactly the strings that are non-empty groups of lower-case letters and digits joined by single
  hyphens (so no leading, trailing or double hyphen and no upper case), and the groups are read
  back by splitting at the hyphens.
\<close>

theorem slug_pattern_meaning:
  "(slug_matches s \<longleftrightarrow> list_all slug_word (split_on CHR ''-'' s))
   \<and> (slug_matches s \<longleftrightarrow> (\<exists>ws. ws \<noteq> [] \<and> list_all slug_word ws \<and> s = join_with ''-'' ws))"
proof -
  have 1: "slug_matches s \<longleftrightarrow> list_all slug_word (split_on CHR ''-'' s)"
    unfolding slug_matches_def slug_run_split
    by (cases "split_on CHR ''-'' s") (auto simp: slug_word_def)
  have "(\<exists>ws. ws \<noteq> [] \<and> list_all slug_word ws \<and> s = join_with ''-'' ws)
      \<longleftrightarrow> list_all slug_word (split_on CHR ''-'' s)"
    using split_join_words by (metis join_split split_on_nonempty)
  with 1 show ?thesis by blast
qed

lemma int_param_ok:
  "int_param ok i v = Some n \<Longrightarrow> ok i \<Longrightarrow> ok n"
  by (auto simp: int_param_def split: option.splits if_splits)

text \<open>A page query that passed the pipe meets the assumption of the list endpoints.\<close>

lemma parse_page_query_valid: "parse_page_query extra ps = Some q \<Longrightarrow> valid_page_query q"
  by (auto simp: parse_page_query_def valid_page_query_def query_page_def query_limit_def
      dest!: int_param_ok split: option.splits if_splits)

lemma parseInt_unsigned:
  assumes "\<not> is_space c" and "c \<noteq> CHR ''-''" and "c \<noteq> CHR ''+''"
  shows "parseInt (c # cs) = map_option int (parse_digits (c # cs))"
proof -
  have "(case c # cs of CHR ''-'' # r \<Rightarrow> f r | CHR ''+'' # r \<Rightarrow> g r | r \<Rightarrow> h r) = h (c # cs)"
    for f g h :: "string \<Rightarrow> int option"
    using assms(2,3) by (cases c) (auto split: bool.split)
  then show ?thesis using assms(1) by (simp add: parseInt_def)
qed

lemma parseInt_show_int: "0 \<le> n \<Longrightarrow> parseInt (show_int n) = Some n"
proof -
  assume n: "0 \<le> n"
  let ?s = "show_nat (nat n)"
  have d: "list_all is_digit ?s" by (rule show_nat_digits)
  obtain c cs where s: "?s = c # cs" by (cases ?s) auto
  with d have "is_digit c" by simp
  then have "parseInt ?s = map_option int (parse_digits ?s)"
    unfolding s by (intro parseInt_unsigned) (auto simp: is_digit_def is_space_def)
  moreover have "takeWhile is_digit ?s = ?s" using d by (simp add: list_all_iff)
  ultimately show ?thesis using n by (simp add: show_int_def parse_digits_def)
qed

lemma read_status_string [simp]: "read_status (status_string st) = Some st"
  by (cases st) (simp_all add: read_status_def enum_of_def)

lemma read_priority_string [simp]: "read_priority (priority_string pr) = Some pr"
  by (cases pr) (simp_all add: read_priority_def enum_of_def)

lemma read_role_string [simp]: "read_role (role_string r) = Some r"
  by (cases r) (simp_all add: read_role_def enum_of_def)

end
