(* ===== verification/ApiClient.thy ===== *)
theory ApiClient
  imports Api RequestDto
begin

text \<open>
  The browser's side of the API: \<open>services/api.service.ts\<close> (query parameters and the unwrapping of
  the envelope), the resource services on top of it, and the queries the list screens send
  (\<open>ticket-list\<close>, \<open>user-list\<close>, \<open>organization-list\<close>). A JSON value is what \<open>HttpClient\<close> hands
  over as the body; the body of a 204 is \<open>null\<close>.
\<close>

section \<open>\<open>ApiService\<close>\<close>

text \<open>
  \<open>buildParams\<close>: \<open>None\<close> is \<open>undefined\<close>. An object has each key once, so \<open>params.set\<close> never
  replaces.
\<close>

fun sendable :: "json option \<Rightarrow> bool" where
  "sendable None = False"
| "sendable (Some JNull) = False"
| "sendable (Some (JStr s)) = (s \<noteq> [])"
| "sendable (Some _) = True"

definition buildParams :: "(string \<times> json option) list \<Rightarrow> query_params" where
  "buildParams query =
     map (\<lambda>(k, v). (k, template v)) (filter (\<lambda>(k, v). sendable v) query)"

text \<open>\<open>map((res) => res.data)\<close>; reading a property of \<open>null\<close> raises a TypeError.\<close>

definition type_error :: exn where
  "type_error = OtherError ''Cannot read properties of null''"

definition unwrap :: "json \<Rightarrow> exn + json option" where
  "unwrap res = (case property res ''data'' of None \<Rightarrow> Inl type_error | Some v \<Rightarrow> Inr v)"

definition unwrap_page :: "json \<Rightarrow> exn + json option \<times> json option" where
  "unwrap_page res =
     (case property res ''data'' of
        None \<Rightarrow> Inl type_error
      | Some v \<Rightarrow> (case property res ''meta'' of None \<Rightarrow> Inl type_error | Some m \<Rightarrow> Inr (v, m)))"

definition NO_CONTENT :: nat where "NO_CONTENT = 204"

definition http_body :: "nat \<Rightarrow> json \<Rightarrow> json" where
  "http_body status sent = (if status = NO_CONTENT then JNull else sent)"

record api_call =
  ac_method :: http_method
  ac_url :: string
  ac_params :: query_params
  ac_body :: "json option"

definition baseUrl :: string where "baseUrl = ''/api''"

definition api_get :: "string \<Rightarrow> (string \<times> json option) list \<Rightarrow> api_call" where
  "api_get path query =
     \<lparr>ac_method = GET, ac_url = baseUrl @ path, ac_params = buildParams query, ac_body = None\<rparr>"

definition api_post :: "string \<Rightarrow> json \<Rightarrow> api_call" where
  "api_post path b =
     \<lparr>ac_method = POST, ac_url = baseUrl @ path, ac_params = [], ac_body = Some b\<rparr>"

definition api_patch :: "string \<Rightarrow> json \<Rightarrow> api_call" where
  "api_patch path b =
     \<lparr>ac_method = PATCH, ac_url = baseUrl @ path, ac_params = [], ac_body = Some b\<rparr>"

definition api_delete :: "string \<Rightarrow> api_call" where
  "api_delete path =
     \<lparr>ac_method = DELETE, ac_url = baseUrl @ path, ac_params = [], ac_body = None\<rparr>"

section \<open>The resource services\<close>

definition tickets_list :: "(string \<times> json option) list \<Rightarrow> api_call" where
  "tickets_list query = api_get ''/tickets'' query"

definition tickets_getById :: "string \<Rightarrow> api_call" where
  "tickets_getById i = api_get (''/tickets/'' @ i) []"

definition tickets_create :: "json \<Rightarrow> api_call" where
  "tickets_create payload = api_post ''/tickets'' payload"

definition tickets_service_update :: "string \<Rightarrow> json \<Rightarrow> api_call" where
  "tickets_service_update i payload = api_patch (''/tickets/'' @ i) payload"

definition tickets_assign :: "string \<Rightarrow> string \<Rightarrow> api_call" where
  "tickets_assign i assigneeId =
     api_patch (''/tickets/'' @ i @ ''/assign'') (JObj [(''assigneeId'', JStr assigneeId)])"

definition tickets_listComments :: "string \<Rightarrow> (string \<times> json option) list \<Rightarrow> api_call" where
  "tickets_listComments i query = api_get (''/tickets/'' @ i @ ''/comments'') query"

definition tickets_addComment :: "string \<Rightarrow> json \<Rightarrow> api_call" where
  "tickets_addComment i payload = api_post (''/tickets/'' @ i @ ''/comments'') payload"

definition users_list :: "(string \<times> json option) list \<Rightarrow> api_call" where
  "users_list query = api_get ''/users'' query"

definition users_getById :: "string \<Rightarrow> api_call" where
  "users_getById i = api_get (''/users/'' @ i) []"

definition users_create :: "json \<Rightarrow> api_call" where
  "users_create payload = api_post ''/users'' payload"

definition users_service_update :: "string \<Rightarrow> json \<Rightarrow> api_call" where
  "users_service_update i payload = api_patch (''/users/'' @ i) payload"

definition users_deactivate :: "string \<Rightarrow> api_call" where
  "users_deactivate i = api_delete (''/users/'' @ i)"

definition organizations_list :: "(string \<times> json option) list \<Rightarrow> api_call" where
  "organizations_list query = api_get ''/organizations'' query"

definition organizations_getById :: "string \<Rightarrow> api_call" where
  "organizations_getById i = api_get (''/organizations/'' @ i) []"

definition organizations_create :: "json \<Rightarrow> api_call" where
  "organizations_create payload = api_post ''/organizations'' payload"

definition organizations_service_update :: "string \<Rightarrow> json \<Rightarrow> api_call" where
  "organizations_service_update i payload = api_patch (''/organizations/'' @ i) payload"

definition organizations_remove :: "string \<Rightarrow> api_call" where
  "organizations_remove i = api_delete (''/organizations/'' @ i)"

definition notifications_list :: "(string \<times> json option) list \<Rightarrow> api_call" where
  "notifications_list query = api_get ''/notifications'' query"

definition notifications_unread :: api_call where
  "notifications_unread = api_get ''/notifications/unread-count'' []"

definition notifications_markRead :: "string \<Rightarrow> api_call" where
  "notifications_markRead i = api_patch (''/notifications/'' @ i @ ''/read'') (JObj [])"

definition notifications_markAllRead :: api_call where
  "notifications_markAllRead = api_patch ''/notifications/read-all'' (JObj [])"

section \<open>What the list screens ask for\<close>

datatype direction = NoSort | SortAsc | SortDesc

fun direction_string :: "direction \<Rightarrow> string" where
  "direction_string NoSort = []"
| "direction_string SortAsc = ''asc''"
| "direction_string SortDesc = ''desc''"

record 'f list_params =
  lp_pageIndex :: nat
  lp_pageSize :: nat
  lp_sortActive :: string
  lp_sortDirection :: direction
  lp_search :: string
  lp_filters :: 'f

definition DEFAULT_PAGE_SIZE :: nat where "DEFAULT_PAGE_SIZE = 10"

definition PAGE_SIZE_OPTIONS :: "nat list" where "PAGE_SIZE_OPTIONS = [10, 20, 50]"

definition initial_params :: "'f \<Rightarrow> 'f list_params" where
  "initial_params f = \<lparr>lp_pageIndex = 0, lp_pageSize = DEFAULT_PAGE_SIZE,
     lp_sortActive = ''createdAt'', lp_sortDirection = SortDesc, lp_search = [], lp_filters = f\<rparr>"

definition page_fields :: "'f list_params \<Rightarrow> (string \<times> json option) list" where
  "page_fields v =
     [(''page'', Some (JNum (int (lp_pageIndex v) + 1))),
      (''limit'', Some (JNum (int (lp_pageSize v)))),
      (''sort'', (if lp_sortDirection v = NoSort then None
                else Some (JStr (lp_sortActive v @ '':'' @ direction_string (lp_sortDirection v))))),
      (''search'', (if lp_search v = [] then None else Some (JStr (lp_search v))))]"

type_synonym filter_controls = "ticket_status option \<times> ticket_priority option"

definition ticket_list_query :: "filter_controls list_params \<Rightarrow> (string \<times> json option) list" where
  "ticket_list_query v = page_fields v @
     [(''status'', map_option (\<lambda>s. JStr (status_string s)) (fst (lp_filters v))),
      (''priority'', map_option (\<lambda>p. JStr (priority_string p)) (snd (lp_filters v)))]"

definition user_list_query :: "role option list_params \<Rightarrow> (string \<times> json option) list" where
  "user_list_query v = page_fields v @
     [(''role'', map_option (\<lambda>r. JStr (role_string r)) (lp_filters v))]"

definition organization_list_query :: "unit list_params \<Rightarrow> (string \<times> json option) list" where
  "organization_list_query v = page_fields v"

section \<open>The server reads what the client wrote\<close>

lemma map_of_buildParams:
  assumes "distinct (map fst q)"
  shows "map_of (buildParams q) k = (case map_of q k of
      None \<Rightarrow> None | Some v \<Rightarrow> if sendable v then Some (template v) else None)"
  using assms
proof (induction q)
  case (Cons kv q)
  obtain k' v where kv: "kv = (k', v)" by (cases kv)
  have "map_of q k' = None" using Cons.prems kv by (simp add: map_of_eq_None_iff)
  with Cons kv show ?case by (auto simp: buildParams_def)
qed (simp add: buildParams_def)

lemma whitelisted_buildParams: "whitelisted allowed q \<Longrightarrow> whitelisted allowed (buildParams q)"
  by (auto simp: whitelisted_def buildParams_def list_all_iff)

lemma property_JObj [simp]: "property (JObj kvs) k = Some (map_of kvs k)"
  by simp

lemma unwrap_page_envelope:
  "unwrap_page (envelope (Some (paginated_json f p)))
     = Inr (Some (JArr (map f (items p))), Some (meta_json (paginated.meta p)))"
  by (simp add: unwrap_page_def paginated_json_def)

lemma unwrap_envelope:
  "\<not> isPaginated (Some j) \<Longrightarrow> unwrap (envelope (Some j)) = Inr (Some j)"
  by (cases j) (auto simp: unwrap_def)

lemma unwrap_no_content: "unwrap (http_body NO_CONTENT sent) = Inl type_error"
  by (simp add: unwrap_def http_body_def)

definition direction_of :: "direction \<Rightarrow> sort_direction" where
  "direction_of d = (if d = SortAsc then Asc else Desc)"

lemma order_by_screen:
  assumes "f \<in> set allowed" and "f \<noteq> []" and "CHR '':'' \<notin> set f" and "d \<noteq> NoSort"
  shows "toPrismaOrderBy (Some (f @ '':'' @ direction_string d)) allowed fallback
    = (f, direction_of d)"
  using assms order_by_field [OF assms(1-3), of fallback]
  by (cases d) (simp_all add: direction_of_def)

definition page_query_of :: "'f list_params \<Rightarrow> page_query" where
  "page_query_of v = \<lparr>q_page = Some (int (lp_pageIndex v) + 1), q_limit = Some (int (lp_pageSize v)),
     q_sort = (if lp_sortDirection v = NoSort then None
               else Some (lp_sortActive v @ '':'' @ direction_string (lp_sortDirection v))),
     q_search = (if lp_search v = [] then None else Some (lp_search v))\<rparr>"

lemma page_fields_lookup:
  "map_of (page_fields v @ extra) ''page'' = Some (Some (JNum (int (lp_pageIndex v) + 1)))"
  "map_of (page_fields v @ extra) ''limit'' = Some (Some (JNum (int (lp_pageSize v))))"
  "map_of (page_fields v @ extra) ''sort'' = Some (if lp_sortDirection v = NoSort then None
     else Some (JStr (lp_sortActive v @ '':'' @ direction_string (lp_sortDirection v))))"
  "map_of (page_fields v @ extra) ''search'' =
     Some (if lp_search v = [] then None else Some (JStr (lp_search v)))"
  by (simp_all add: page_fields_def)

lemma parse_page_fields:
  assumes "1 \<le> lp_pageSize v" and "lp_pageSize v \<le> 100"
    and "distinct (map fst (page_fields v @ extra))"
    and "whitelisted (PAGE_PARAMS @ map fst extra) (page_fields v @ extra)"
  shows "parse_page_query (map fst extra) (buildParams (page_fields v @ extra))
    = Some (page_query_of v)"
proof -
  let ?ps = "buildParams (page_fields v @ extra)"
  note look = map_of_buildParams [OF assms(3)] page_fields_lookup
  have p: "int_param ok i (Some (show_int n)) = (if ok n then Some n else None)" if "0 \<le> n" for ok i n
    using that by (simp add: int_param_def parseInt_show_int)
  have 1: "map_of ?ps ''page'' = Some (show_int (int (lp_pageIndex v) + 1))"
    "map_of ?ps ''limit'' = Some (show_int (int (lp_pageSize v)))"
    unfolding look by simp_all
  have 2: "map_of ?ps ''sort'' = q_sort (page_query_of v)"
    "map_of ?ps ''search'' = q_search (page_query_of v)"
    unfolding look by (simp_all add: page_query_of_def)
  show ?thesis
    unfolding parse_page_query_def 1 2 using assms(1,2)
    by (simp add: whitelisted_buildParams [OF assms(4)] p page_query_of_def)
qed

lemma ticket_fields:
  "ticket_list_query v = page_fields v @
     [(''status'', map_option (\<lambda>s. JStr (status_string s)) (fst (lp_filters v))),
      (''priority'', map_option (\<lambda>p. JStr (priority_string p)) (snd (lp_filters v)))]"
  by (simp add: ticket_list_query_def)

lemma status_string_nonempty [simp]: "status_string s \<noteq> []"
  by (cases s) simp_all

lemma priority_string_nonempty [simp]: "priority_string p \<noteq> []"
  by (cases p) simp_all

lemma page_params_of_tickets:
  "distinct (map fst (ticket_list_query v))"
  "map fst (ticket_list_query v) = PAGE_PARAMS @ [''status'', ''priority'']"
  by (simp_all add: ticket_list_query_def page_fields_def PAGE_PARAMS_def)

lemma parse_page_extra:
  assumes "parse_page_query extra ps = Some q" and "set extra \<subseteq> set extra'"
  shows "parse_page_query extra' ps = Some q"
  using assms
  by (auto simp: parse_page_query_def whitelisted_def list_all_iff split: if_splits)

lemma parse_ticket_screen:
  assumes "1 \<le> lp_pageSize v" and "lp_pageSize v \<le> 100"
  shows "parse_ticket_query isUUID (buildParams (ticket_list_query v))
    = Some \<lparr>tq_page = page_query_of v, tq_status = fst (lp_filters v),
            tq_priority = snd (lp_filters v), tq_assignedToId = None\<rparr>"
proof -
  let ?ps = "buildParams (ticket_list_query v)"
  have "parse_page_query [''status'', ''priority''] ?ps = Some (page_query_of v)"
    using parse_page_fields [OF assms, of "[(''status'', map_option (\<lambda>s. JStr (status_string s))
        (fst (lp_filters v))), (''priority'', map_option (\<lambda>p. JStr (priority_string p))
        (snd (lp_filters v)))]"] page_params_of_tickets [of v]
    by (simp add: ticket_fields whitelisted_def page_fields_def PAGE_PARAMS_def)
  then have pg: "parse_page_query [''status'', ''priority'', ''assignedToId''] ?ps
      = Some (page_query_of v)" by (rule parse_page_extra) simp
  note look = map_of_buildParams [OF page_params_of_tickets(1) [of v]]
  have st: "map_of ?ps ''status'' = map_option status_string (fst (lp_filters v))"
    unfolding look
    by (cases "fst (lp_filters v)") (simp_all add: ticket_list_query_def page_fields_def)
  have pr: "map_of ?ps ''priority'' = map_option priority_string (snd (lp_filters v))"
    unfolding look
    by (cases "snd (lp_filters v)") (simp_all add: ticket_list_query_def page_fields_def)
  have a: "map_of ?ps ''assignedToId'' = None"
    unfolding look by (simp add: ticket_list_query_def page_fields_def)
  show ?thesis unfolding parse_ticket_query_def pg st pr a
    by (cases "fst (lp_filters v)"; cases "snd (lp_filters v)") (simp_all add: opt_param_def)
qed

text \<open>
  C36. The list screen shows what was asked for. For a page size the screen offers and a sortable
  column, the query string the ticket list builds passes the server's validation and is read back
  as exactly the page, size, search text and filters of the screen, with the sort parsed to the
  screen's column and direction; and what the response interceptor wraps around a page, the
  client unwraps to the same rows in the same order with the same page counts.
\<close>

theorem ticket_screen_roundtrip:
  assumes "lp_pageSize v \<in> set PAGE_SIZE_OPTIONS" and "lp_sortActive v \<in> set TICKET_SORTABLE"
    and "lp_sortDirection v \<noteq> NoSort"
  shows "(\<exists>q. parse_ticket_query isUUID (buildParams (ticket_list_query v)) = Some q
      \<and> query_page (tq_page q) = int (lp_pageIndex v) + 1
      \<and> query_limit (tq_page q) = int (lp_pageSize v) \<and> valid_page_query (tq_page q)
      \<and> toPrismaOrderBy (q_sort (tq_page q)) TICKET_SORTABLE default_order
          = (lp_sortActive v, direction_of (lp_sortDirection v))
      \<and> q_search (tq_page q) = (if lp_search v = [] then None else Some (lp_search v))
      \<and> tq_status q = fst (lp_filters v) \<and> tq_priority q = snd (lp_filters v)
      \<and> tq_assignedToId q = None)
   \<and> unwrap_page (envelope (Some (paginated_json ticket_json page)))
      = Inr (Some (JArr (map ticket_json (items page))), Some (meta_json (paginated.meta page)))"
proof -
  from assms(1) have size: "1 \<le> lp_pageSize v" "lp_pageSize v \<le> 100"
    by (auto simp: PAGE_SIZE_OPTIONS_def)
  from assms(2) have f: "lp_sortActive v \<noteq> []" "CHR '':'' \<notin> set (lp_sortActive v)"
    by (auto simp: TICKET_SORTABLE_def)
  have o: "toPrismaOrderBy (q_sort (page_query_of v)) TICKET_SORTABLE default_order
      = (lp_sortActive v, direction_of (lp_sortDirection v))"
    using order_by_screen [OF assms(2) f assms(3), of default_order] assms(3)
    by (simp add: page_query_of_def)
  have "valid_page_query (page_query_of v)" "query_page (page_query_of v) = int (lp_pageIndex v) + 1"
    "query_limit (page_query_of v) = int (lp_pageSize v)"
    "q_search (page_query_of v) = (if lp_search v = [] then None else Some (lp_search v))"
    using size by (simp_all add: valid_page_query_def query_page_def query_limit_def page_query_of_def)
  with o parse_ticket_screen [OF size] unwrap_page_envelope show ?thesis by auto
qed

definition fx_screen :: "filter_controls list_params" where
  "fx_screen = (initial_params (Some OPEN, None))\<lparr>lp_pageIndex := 2, lp_search := ''printer''\<rparr>"

theorem ticket_screen_roundtrip_witness:
  "\<exists>q. parse_ticket_query (\<lambda>_. True) (buildParams (ticket_list_query fx_screen)) = Some q
     \<and> query_page (tq_page q) = 3 \<and> tq_status q = Some OPEN
     \<and> q_search (tq_page q) = Some ''printer''"
proof -
  have "lp_pageSize fx_screen \<in> set PAGE_SIZE_OPTIONS" "lp_sortActive fx_screen \<in> set TICKET_SORTABLE"
    "lp_sortDirection fx_screen \<noteq> NoSort"
    by (simp_all add: fx_screen_def initial_params_def PAGE_SIZE_OPTIONS_def DEFAULT_PAGE_SIZE_def
        TICKET_SORTABLE_def)
  from ticket_screen_roundtrip [OF this, THEN conjunct1, of "\<lambda>_. True"]
  show ?thesis by (auto simp: fx_screen_def initial_params_def)
qed

lemma user_list_role_sort_ignored:
  "toPrismaOrderBy (Some (''role:'' @ direction_string d)) USERS_SORTABLE default_order
     = default_order"
  by (cases d) (simp_all add: toPrismaOrderBy_def USERS_SORTABLE_def Let_def)

end
