(* ===== verification/Wire.thy ===== *)
theory Wire
  imports EventTypes ApiClient
begin

text \<open>
  The contract between the browser and the API as TypeScript states it on the client
  (\<open>models\<close>): the interfaces as predicates on JSON, the calls of the services with the
  routes they mean, and the request types with what the server's validation makes of them. The
  client never checks an answer; it casts it. The properties say that the casts are right and
  that every call reaches the handler it is written for.
\<close>

section \<open>The interfaces of the client\<close>

fun is_number :: "json \<Rightarrow> bool" where
  "is_number (JNum _) = True"
| "is_number _ = False"

fun string_or_strings :: "json \<Rightarrow> bool" where
  "string_or_strings (JStr _) = True"
| "string_or_strings (JArr xs) = list_all is_string xs"
| "string_or_strings _ = False"

definition Role :: "json \<Rightarrow> bool" where
  "Role = one_of (map role_string [ADMIN, AGENT, CUSTOMER])"

definition NotificationType :: "json \<Rightarrow> bool" where
  "NotificationType = one_of [''TICKET_CREATED'', ''TICKET_UPDATED'', ''TICKET_ASSIGNED'',
     ''TICKET_CLOSED'', ''COMMENT_ADDED'']"

definition Ticket :: "json \<Rightarrow> bool" where
  "Ticket j \<longleftrightarrow> has ''id'' is_string j \<and> has ''reference'' is_string j \<and> has ''title'' is_string j
     \<and> has ''description'' is_string j \<and> has ''status'' TicketStatus j
     \<and> has ''priority'' TicketPriority j \<and> has ''category'' string_or_null j
     \<and> has ''organizationId'' is_string j \<and> has ''createdById'' is_string j
     \<and> has ''assignedToId'' string_or_null j \<and> has ''createdAt'' is_string j
     \<and> has ''updatedAt'' is_string j \<and> has ''closedAt'' string_or_null j"

definition Comment :: "json \<Rightarrow> bool" where
  "Comment j \<longleftrightarrow> has ''id'' is_string j \<and> has ''ticketId'' is_string j \<and> has ''authorId'' is_string j
     \<and> has ''body'' is_string j \<and> has ''isInternal'' is_boolean j \<and> has ''createdAt'' is_string j
     \<and> has ''updatedAt'' is_string j"

definition User :: "json \<Rightarrow> bool" where
  "User j \<longleftrightarrow> has ''id'' is_string j \<and> has ''email'' is_string j \<and> has ''firstName'' is_string j
     \<and> has ''lastName'' is_string j \<and> has ''role'' Role j \<and> has ''organizationId'' is_string j
     \<and> has ''isActive'' is_boolean j \<and> has ''lastLoginAt'' string_or_null j
     \<and> has ''createdAt'' is_string j"

definition Organization :: "json \<Rightarrow> bool" where
  "Organization j \<longleftrightarrow> has ''id'' is_string j \<and> has ''name'' is_string j \<and> has ''slug'' is_string j
     \<and> has ''isActive'' is_boolean j \<and> has ''createdAt'' is_string j \<and> has ''updatedAt'' is_string j"

definition AppNotification :: "json \<Rightarrow> bool" where
  "AppNotification j \<longleftrightarrow> has ''id'' is_string j \<and> has ''type'' NotificationType j
     \<and> has ''title'' is_string j \<and> has ''message'' is_string j \<and> has ''ticketId'' string_or_null j
     \<and> has ''isRead'' is_boolean j \<and> has ''readAt'' string_or_null j \<and> has ''createdAt'' is_string j"

definition AuthUser :: "json \<Rightarrow> bool" where
  "AuthUser j \<longleftrightarrow> has ''id'' is_string j \<and> has ''email'' is_string j \<and> has ''firstName'' is_string j
     \<and> has ''lastName'' is_string j \<and> has ''role'' Role j \<and> has ''organizationId'' is_string j"

definition AuthTokens :: "json \<Rightarrow> bool" where
  "AuthTokens j \<longleftrightarrow> has ''accessToken'' is_string j \<and> has ''refreshToken'' is_string j
     \<and> has ''tokenType'' (one_of [''Bearer'']) j \<and> has ''expiresIn'' is_string j"

definition AuthResponse :: "json \<Rightarrow> bool" where
  "AuthResponse j \<longleftrightarrow> AuthTokens j \<and> has ''user'' AuthUser j"

definition PaginationMeta :: "json \<Rightarrow> bool" where
  "PaginationMeta j \<longleftrightarrow> has ''page'' is_number j \<and> has ''limit'' is_number j
     \<and> has ''total'' is_number j \<and> has ''totalPages'' is_number j"

definition ApiError :: "json \<Rightarrow> bool" where
  "ApiError j \<longleftrightarrow> has ''statusCode'' is_number j \<and> has ''error'' is_string j
     \<and> has ''message'' string_or_strings j \<and> has ''path'' is_string j
     \<and> may_have ''correlationId'' is_string j \<and> has ''timestamp'' is_string j"

lemmas answer_types = Ticket_def Comment_def User_def Organization_def AppNotification_def
  AuthUser_def AuthTokens_def AuthResponse_def PaginationMeta_def

text \<open>The error envelope as the filter sends it.\<close>

fun message_json :: "http_message \<Rightarrow> json" where
  "message_json (Msg m) = JStr m"
| "message_json (Msgs ms) = JArr (map JStr ms)"

definition error_json :: "error_body \<Rightarrow> json" where
  "error_json b = json_object
     [(''statusCode'', Some (JNum (int (eb_statusCode b)))), (''error'', Some (JStr (eb_error b))),
      (''message'', Some (message_json (eb_message b))), (''path'', Some (JStr (eb_path b))),
      (''correlationId'', map_option JStr (eb_correlationId b)),
      (''timestamp'', Some (JStr (eb_timestamp b)))]"

section \<open>Answers\<close>

text \<open>
  What the client reads of whatever the route answers: the unwrapped value has the type the call
  declares, or the answer is an error of the declared form.
\<close>

definition client_reads :: "(json \<Rightarrow> bool) \<Rightarrow> route \<Rightarrow> 'd handler \<Rightarrow> bool" where
  "client_reads T r h \<longleftrightarrow> (\<forall>names thr bearer rq args w rep w'.
     respond names thr r bearer rq args h w = (rep, w') \<longrightarrow>
     (case rp_body rep of
        Envelope v \<Rightarrow> (\<exists>j. unwrap (http_body (rp_status rep) v) = Inr (Some j) \<and> T j)
      | ErrorBody b \<Rightarrow> ApiError (error_json b)))"

definition client_reads_page :: "(json \<Rightarrow> bool) \<Rightarrow> route \<Rightarrow> 'd handler \<Rightarrow> bool" where
  "client_reads_page T r h \<longleftrightarrow> (\<forall>names thr bearer rq args w rep w'.
     respond names thr r bearer rq args h w = (rep, w') \<longrightarrow>
     (case rp_body rep of
        Envelope v \<Rightarrow> (\<exists>xs m. unwrap_page (http_body (rp_status rep) v)
          = Inr (Some (JArr xs), Some m) \<and> list_all T xs \<and> PaginationMeta m)
      | ErrorBody b \<Rightarrow> ApiError (error_json b)))"

definition yields :: "(json \<Rightarrow> bool) \<Rightarrow> 'd handler \<Rightarrow> bool" where
  "yields P h \<longleftrightarrow> (\<forall>u rq cid d w x w'. h u rq cid d w = (Inr x, w') \<longrightarrow> (\<exists>j. x = Some j \<and> P j))"

lemma error_typed: "ApiError (error_json b)"
  by (cases "eb_message b")
    (auto simp: ApiError_def error_json_def has_def may_have_def property_json_object list_all_iff
      split: option.split)

lemma reply_cases:
  assumes "\<And>v. b = Envelope v \<Longrightarrow> P v"
  shows "case b of Envelope v \<Rightarrow> P v | ErrorBody e \<Rightarrow> ApiError (error_json e)"
  using assms by (cases b) (simp_all add: error_typed)

lemma respond_envelope:
  assumes "respond names thr r bearer rq args h w = (rep, w')" and "rp_body rep = Envelope v"
  shows "rp_status rep = r_status r \<and> (\<exists>u cid d w1 x w2. h u rq cid d w1 = (Inr x, w2) \<and> v = envelope x)"
  using assms
  by (auto simp: respond_def failure_def split: option.splits sum.splits prod.splits) blast

lemma reads_typed:
  assumes "yields (\<lambda>j. T j \<and> \<not> isPaginated (Some j)) h" and "r_status r \<noteq> NO_CONTENT"
  shows "client_reads T r h"
proof -
  have "\<exists>j. unwrap (http_body (rp_status rep) v) = Inr (Some j) \<and> T j"
    if "respond names thr r bearer rq args h w = (rep, w')" "rp_body rep = Envelope v"
    for names thr bearer rq args w rep w' v
    using respond_envelope [OF that] assms
    by (auto simp: yields_def http_body_def intro!: unwrap_envelope)
      (metis option.inject unwrap_envelope)
  then show ?thesis unfolding client_reads_def by (intro allI impI reply_cases)
qed

lemma reads_page_typed:
  assumes "yields (\<lambda>j. \<exists>p. j = paginated_json f p) h" and "\<And>x. T (f x)" and "r_status r \<noteq> NO_CONTENT"
  shows "client_reads_page T r h"
proof -
  have m: "PaginationMeta (meta_json m)" for m by (simp add: PaginationMeta_def meta_json_def)
  have "\<exists>xs m. unwrap_page (http_body (rp_status rep) v) = Inr (Some (JArr xs), Some m)
      \<and> list_all T xs \<and> PaginationMeta m"
    if "respond names thr r bearer rq args h w = (rep, w')" "rp_body rep = Envelope v"
    for names thr bearer rq args w rep w' v
  proof -
    from respond_envelope [OF that] assms(1) obtain p where
      "rp_status rep = r_status r" "v = envelope (Some (paginated_json f p))"
      unfolding yields_def by blast
    with assms(2,3) m show ?thesis
      by (simp add: http_body_def unwrap_page_envelope list_all_iff)
  qed
  then show ?thesis unfolding client_reads_page_def by (intro allI impI reply_cases)
qed

lemma returnsD: "returns f m w = (Inr x, w') \<Longrightarrow> \<exists>y. x = Some (f y)"
  by (auto simp: returns_def andThen_ok run_basic)

lemma with_userD: "with_user u g w = (Inr x, w') \<Longrightarrow> \<exists>a. g a w = (Inr x, w')"
  by (auto simp: with_user_def run_basic split: option.splits)

lemma typed_enums [simp]:
  "Role (JStr (role_string r))" "NotificationType (JStr (notification_type_string t))"
  by (cases r, simp_all add: Role_def one_of_def) (cases t, simp_all add: NotificationType_def one_of_def)

lemma typed_nullable [simp]: "string_or_null (nullable_json s)" "string_or_null (nullable_date t)"
  by (cases s, simp_all) (cases t, simp_all add: nullable_date_def date_json_def)

lemma rows_typed:
  "Ticket (ticket_json t)" "Comment (comment_json c)" "User (user_response_json u)"
  "Organization (organization_json g)" "AppNotification (notification_json n)"
  by (simp_all add: answer_types ticket_json_def comment_json_def user_response_json_def
      organization_json_def notification_json_def date_json_def)


lemma auth_typed:
  "AuthUser (auth_user_json u)"
  "tokenType k = ''Bearer'' \<Longrightarrow> AuthTokens (JObj (tokens_fields k))"
  "tokenType (ar_tokens a) = ''Bearer'' \<Longrightarrow> AuthResponse (auth_response_json a)"
  by (simp_all add: answer_types auth_user_json_def tokens_fields_def auth_response_json_def one_of_def)

lemma issued_bearer:
  "issueTokens cr cfg u ctx fam w = (Inr k, w') \<Longrightarrow> tokenType k = ''Bearer''"
  by (auto simp: issueTokens_def runs Let_def split: option.splits)

section \<open>Routing\<close>

definition segments :: "string \<Rightarrow> string list" where
  "segments = split_on CHR ''/''"

definition segments_match ::
  "(string \<Rightarrow> string \<Rightarrow> bool) \<Rightarrow> string list \<Rightarrow> string list \<Rightarrow> bool" where
  "segments_match same = list_all2 (\<lambda>p s. if take 1 p = '':'' then s \<noteq> [] else same p s)"

definition path_matches :: "(string \<Rightarrow> string \<Rightarrow> bool) \<Rightarrow> string \<Rightarrow> string \<Rightarrow> bool" where
  "path_matches same pattern path \<longleftrightarrow> segments_match same (segments pattern) (segments path)"

definition ignoring_case :: "string \<Rightarrow> string \<Rightarrow> bool" where
  "ignoring_case p s \<longleftrightarrow> map to_upper p = map to_upper s"

text \<open>
  The router of Express, as documented: a parameter is one segment, the other segments are
  literal, and with the default settings the comparison may ignore case. Paths with empty segments
  are left open.
\<close>

definition express_paths :: "(string \<Rightarrow> string \<Rightarrow> bool) \<Rightarrow> bool" where
  "express_paths m \<longleftrightarrow> (\<forall>p s. list_all (\<lambda>w. w \<noteq> []) (tl (segments s)) \<longrightarrow>
     (path_matches (=) p s \<longrightarrow> m p s) \<and> (m p s \<longrightarrow> path_matches ignoring_case p s))"

definition routed :: "(string \<Rightarrow> string \<Rightarrow> bool) \<Rightarrow> string \<Rightarrow> api_call \<Rightarrow> route \<Rightarrow> bool" where
  "routed m prefix c r \<longleftrightarrow>
     r_method r = ac_method c \<and> m (''/'' @ prefix @ ''/'' @ r_path r) (ac_url c)"

definition reaches :: "(string \<Rightarrow> string \<Rightarrow> bool) \<Rightarrow> string \<Rightarrow> api_call \<Rightarrow> route \<Rightarrow> bool" where
  "reaches m prefix c r \<longleftrightarrow> filter (routed m prefix c) api_routes = [r]"

definition segment :: "string \<Rightarrow> bool" where
  "segment s \<longleftrightarrow> s \<noteq> [] \<and> CHR ''/'' \<notin> set s"

text \<open>The calls of \<open>services/auth.service.ts\<close>, which uses \<open>HttpClient\<close> itself.\<close>

definition auth_me :: api_call where "auth_me = api_get ''/auth/me'' []"

definition auth_login :: "json \<Rightarrow> api_call" where
  "auth_login credentials = api_post ''/auth/login'' credentials"

definition auth_register :: "json \<Rightarrow> api_call" where
  "auth_register payload = api_post ''/auth/register'' payload"

definition auth_refresh :: "json \<Rightarrow> api_call" where
  "auth_refresh token = api_post ''/auth/refresh'' (JObj [(''refreshToken'', token)])"

definition auth_logout :: "json \<Rightarrow> api_call" where
  "auth_logout token = api_post ''/auth/logout'' (JObj [(''refreshToken'', token)])"

text \<open>Every call of the services, with the route it is written for.\<close>

definition client_calls ::
  "string \<Rightarrow> string \<Rightarrow> (string \<times> json option) list \<Rightarrow> json \<Rightarrow> (api_call \<times> route) list" where
  "client_calls i a q b =
     [(tickets_list q, tickets_routes ! 1), (tickets_getById i, tickets_routes ! 2),
      (tickets_create b, tickets_routes ! 0), (tickets_service_update i b, tickets_routes ! 3),
      (tickets_assign i a, tickets_routes ! 4), (tickets_listComments i q, comments_routes ! 1),
      (tickets_addComment i b, comments_routes ! 0), (users_list q, users_routes ! 1),
      (users_getById i, users_routes ! 2), (users_create b, users_routes ! 0),
      (users_service_update i b, users_routes ! 3), (users_deactivate i, users_routes ! 4),
      (organizations_list q, organizations_routes ! 1),
      (organizations_getById i, organizations_routes ! 2),
      (organizations_create b, organizations_routes ! 0),
      (organizations_service_update i b, organizations_routes ! 3),
      (organizations_remove i, organizations_routes ! 4),
      (notifications_list q, notifications_routes ! 0),
      (notifications_unread, notifications_routes ! 1),
      (notifications_markRead i, notifications_routes ! 2),
      (notifications_markAllRead, notifications_routes ! 3),
      (auth_me, auth_routes ! 4), (auth_login b, auth_routes ! 1), (auth_register b, auth_routes ! 0),
      (auth_refresh b, auth_routes ! 2), (auth_logout b, auth_routes ! 3)]"

lemmas client_call_defs = tickets_list_def tickets_getById_def tickets_create_def
  tickets_service_update_def tickets_assign_def tickets_listComments_def tickets_addComment_def
  users_list_def users_getById_def users_create_def users_service_update_def users_deactivate_def
  organizations_list_def organizations_getById_def organizations_create_def
  organizations_service_update_def organizations_remove_def notifications_list_def
  notifications_unread_def notifications_markRead_def notifications_markAllRead_def
  auth_me_def auth_login_def auth_register_def auth_refresh_def auth_logout_def
  api_get_def api_post_def api_patch_def api_delete_def baseUrl_def

lemma segments_slash: "segments (CHR ''/'' # s) = [] # segments s"
  by (simp add: segments_def)

lemma segments_word: "CHR ''/'' \<notin> set s \<Longrightarrow> segments s = [s]"
  by (simp add: segments_def split_on_none)

lemma segments_step: "CHR ''/'' \<notin> set s \<Longrightarrow> segments (s @ CHR ''/'' # u) = s # segments u"
  by (simp add: segments_def split_on_append)

lemma segments_char:
  "c \<noteq> CHR ''/'' \<Longrightarrow> segments (c # s) = (case segments s of [] \<Rightarrow> [[c]] | w # ws \<Rightarrow> (c # w) # ws)"
  by (simp add: segments_def)

definition words :: "string list" where
  "words = [[], ''api'', ''auth'', ''register'', ''login'', ''refresh'', ''logout'', ''me'',
     ''organizations'', ''users'', ''tickets'', ''assign'', ''comments'', ''notifications'',
     ''unread-count'', ''read'', ''read-all'', ''audit'', ''health'', ''ready'']"

lemma words_upper: "distinct (map (map to_upper) words)"
  by code_simp

lemma words_case:
  "p \<in> set words \<Longrightarrow> s \<in> set words \<Longrightarrow> ignoring_case p s \<longleftrightarrow> p = s"
  using words_upper by (auto simp: ignoring_case_def distinct_map inj_on_def)

definition method_paths :: "http_method \<Rightarrow> (string list \<times> route) list" where
  "method_paths k = map (\<lambda>r. (segments (''/api/'' @ r_path r), r)) (filter (\<lambda>r. r_method r = k) api_routes)"

lemmas segments_simps = segments_slash segments_word segments_step segments_char

lemmas method_paths_simps = method_paths_def api_routes_def route_tables mk_route_def segments_simps

lemma get_paths:
  "method_paths GET =
     [([[], ''api'', ''auth'', ''me''], auth_routes ! 4),
      ([[], ''api'', ''organizations''], organizations_routes ! 1),
      ([[], ''api'', ''organizations'', '':id''], organizations_routes ! 2),
      ([[], ''api'', ''users''], users_routes ! 1),
      ([[], ''api'', ''users'', '':id''], users_routes ! 2),
      ([[], ''api'', ''tickets''], tickets_routes ! 1),
      ([[], ''api'', ''tickets'', '':id''], tickets_routes ! 2),
      ([[], ''api'', ''tickets'', '':ticketId'', ''comments''], comments_routes ! 1),
      ([[], ''api'', ''notifications''], notifications_routes ! 0),
      ([[], ''api'', ''notifications'', ''unread-count''], notifications_routes ! 1),
      ([[], ''api'', ''audit''], audit_routes ! 0),
      ([[], ''api'', ''health''], health_routes ! 0),
      ([[], ''api'', ''health'', ''ready''], health_routes ! 1)]"
  by (simp add: method_paths_simps)

lemma post_paths:
  "method_paths POST =
     [([[], ''api'', ''auth'', ''register''], auth_routes ! 0),
      ([[], ''api'', ''auth'', ''login''], auth_routes ! 1),
      ([[], ''api'', ''auth'', ''refresh''], auth_routes ! 2),
      ([[], ''api'', ''auth'', ''logout''], auth_routes ! 3),
      ([[], ''api'', ''organizations''], organizations_routes ! 0),
      ([[], ''api'', ''users''], users_routes ! 0),
      ([[], ''api'', ''tickets''], tickets_routes ! 0),
      ([[], ''api'', ''tickets'', '':ticketId'', ''comments''], comments_routes ! 0)]"
  by (simp add: method_paths_simps)

lemma patch_paths:
  "method_paths PATCH =
     [([[], ''api'', ''organizations'', '':id''], organizations_routes ! 3),
      ([[], ''api'', ''users'', '':id''], users_routes ! 3),
      ([[], ''api'', ''tickets'', '':id''], tickets_routes ! 3),
      ([[], ''api'', ''tickets'', '':id'', ''assign''], tickets_routes ! 4),
      ([[], ''api'', ''notifications'', '':id'', ''read''], notifications_routes ! 2),
      ([[], ''api'', ''notifications'', ''read-all''], notifications_routes ! 3)]"
  by (simp add: method_paths_simps)

lemma delete_paths:
  "method_paths DELETE =
     [([[], ''api'', ''organizations'', '':id''], organizations_routes ! 4),
      ([[], ''api'', ''users'', '':id''], users_routes ! 4)]"
  by (simp add: method_paths_simps)

lemmas all_paths = get_paths post_paths patch_paths delete_paths

lemma reaches_by_segments:
  assumes "express_paths m" and "list_all (\<lambda>w. w \<noteq> []) (tl (segments (ac_url c)))"
    and "map snd (filter (\<lambda>x. segments_match (=) (fst x) (segments (ac_url c)))
      (method_paths (ac_method c))) = [r]"
    and "map snd (filter (\<lambda>x. segments_match ignoring_case (fst x) (segments (ac_url c)))
      (method_paths (ac_method c))) = [r]"
  shows "reaches m ''api'' c r"
proof -
  let ?P = "\<lambda>same r. r_method r = ac_method c \<and> path_matches same (''/api/'' @ r_path r) (ac_url c)"
  have f: "map snd (filter (\<lambda>x. segments_match same (fst x) (segments (ac_url c)))
      (method_paths (ac_method c))) = filter (?P same) api_routes" for same
    by (simp add: method_paths_def path_matches_def filter_map comp_def conj_commute)
  have "filter (routed m ''api'' c) api_routes = filter (?P (=)) api_routes"
  proof (rule filter_cong [OF refl])
    fix r' assume r': "r' \<in> set api_routes"
    have "r' \<in> set (filter (?P (=)) api_routes) \<longleftrightarrow> r' \<in> set (filter (?P ignoring_case) api_routes)"
      using assms(3,4) by (simp only: f)
    with r' have "?P (=) r' \<longleftrightarrow> ?P ignoring_case r'" by simp
    then show "routed m ''api'' c r' \<longleftrightarrow> ?P (=) r'"
      using assms(1,2) by (auto simp: routed_def express_paths_def)
  qed
  then show ?thesis using assms(3) by (simp add: reaches_def f)
qed

lemma words_members:
  "list_all (\<lambda>w. w \<in> set words) [[], ''api'', ''auth'', ''register'', ''login'', ''refresh'', ''logout'',
     ''me'', ''organizations'', ''users'', ''tickets'', ''assign'', ''comments'', ''notifications'',
     ''unread-count'', ''read'', ''read-all'', ''audit'', ''health'', ''ready'']"
  by (simp add: words_def)

lemma call_segments:
  assumes "segment i"
  shows "segments (ac_url (tickets_list q)) = [[], ''api'', ''tickets'']"
    and "segments (ac_url (tickets_getById i)) = [[], ''api'', ''tickets'', i]"
    and "segments (ac_url (tickets_create b)) = [[], ''api'', ''tickets'']"
    and "segments (ac_url (tickets_service_update i b)) = [[], ''api'', ''tickets'', i]"
    and "segments (ac_url (tickets_assign i a)) = [[], ''api'', ''tickets'', i, ''assign'']"
    and "segments (ac_url (tickets_listComments i q)) = [[], ''api'', ''tickets'', i, ''comments'']"
    and "segments (ac_url (tickets_addComment i b)) = [[], ''api'', ''tickets'', i, ''comments'']"
    and "segments (ac_url (users_list q)) = [[], ''api'', ''users'']"
    and "segments (ac_url (users_getById i)) = [[], ''api'', ''users'', i]"
    and "segments (ac_url (users_create b)) = [[], ''api'', ''users'']"
    and "segments (ac_url (users_service_update i b)) = [[], ''api'', ''users'', i]"
    and "segments (ac_url (users_deactivate i)) = [[], ''api'', ''users'', i]"
    and "segments (ac_url (organizations_list q)) = [[], ''api'', ''organizations'']"
    and "segments (ac_url (organizations_getById i)) = [[], ''api'', ''organizations'', i]"
    and "segments (ac_url (organizations_create b)) = [[], ''api'', ''organizations'']"
    and "segments (ac_url (organizations_service_update i b)) = [[], ''api'', ''organizations'', i]"
    and "segments (ac_url (organizations_remove i)) = [[], ''api'', ''organizations'', i]"
    and "segments (ac_url (notifications_list q)) = [[], ''api'', ''notifications'']"
    and "segments (ac_url notifications_unread) = [[], ''api'', ''notifications'', ''unread-count'']"
    and "segments (ac_url (notifications_markRead i)) = [[], ''api'', ''notifications'', i, ''read'']"
    and "segments (ac_url notifications_markAllRead) = [[], ''api'', ''notifications'', ''read-all'']"
    and "segments (ac_url auth_me) = [[], ''api'', ''auth'', ''me'']"
    and "segments (ac_url (auth_login b)) = [[], ''api'', ''auth'', ''login'']"
    and "segments (ac_url (auth_register b)) = [[], ''api'', ''auth'', ''register'']"
    and "segments (ac_url (auth_refresh b)) = [[], ''api'', ''auth'', ''refresh'']"
    and "segments (ac_url (auth_logout b)) = [[], ''api'', ''auth'', ''logout'']"
  using assms by (simp_all add: client_call_defs segment_def segments_simps)

lemma call_methods:
  "ac_method (tickets_list q) = GET" "ac_method (tickets_getById i) = GET"
  "ac_method (tickets_create b) = POST" "ac_method (tickets_service_update i b) = PATCH"
  "ac_method (tickets_assign i a) = PATCH" "ac_method (tickets_listComments i q) = GET"
  "ac_method (tickets_addComment i b) = POST" "ac_method (users_list q) = GET"
  "ac_method (users_getById i) = GET" "ac_method (users_create b) = POST"
  "ac_method (users_service_update i b) = PATCH" "ac_method (users_deactivate i) = DELETE"
  "ac_method (organizations_list q) = GET" "ac_method (organizations_getById i) = GET"
  "ac_method (organizations_create b) = POST" "ac_method (organizations_service_update i b) = PATCH"
  "ac_method (organizations_remove i) = DELETE" "ac_method (notifications_list q) = GET"
  "ac_method notifications_unread = GET" "ac_method (notifications_markRead i) = PATCH"
  "ac_method notifications_markAllRead = PATCH" "ac_method auth_me = GET"
  "ac_method (auth_login b) = POST" "ac_method (auth_register b) = POST"
  "ac_method (auth_refresh b) = POST" "ac_method (auth_logout b) = POST"
  by (simp_all add: client_call_defs)

lemma calls_reach:
  assumes "express_paths m" and "segment i"
  shows "list_all (\<lambda>(c, r). reaches m ''api'' c r) (client_calls i a q b)"
proof -
  have i: "i \<noteq> []" using assms(2) by (simp add: segment_def)
  show ?thesis
    unfolding client_calls_def list.pred_inject prod.case
    by (intro conjI reaches_by_segments [OF assms(1)] TrueI)
      (simp_all add: call_segments [OF assms(2)] call_methods i all_paths segments_match_def
        words_case words_members [simplified])
qed


section \<open>The handlers\<close>

text \<open>A page of rows, a row, the counters, and what the authentication answers.\<close>

lemmas handler_defs = TicketsController_create_def TicketsController_findAll_def
  TicketsController_findOne_def TicketsController_update_def TicketsController_assign_def
  CommentsController_create_def CommentsController_findAll_def UsersController_create_def
  UsersController_findAll_def UsersController_findOne_def UsersController_update_def
  OrganizationsController_create_def OrganizationsController_findAll_def
  OrganizationsController_findOne_def OrganizationsController_update_def
  NotificationsController_findAll_def NotificationsController_unreadCount_def
  NotificationsController_markRead_def NotificationsController_markAllRead_def
  AuthController_me_def

lemma rows_not_pages:
  "\<not> isPaginated (Some (ticket_json t))" "\<not> isPaginated (Some (comment_json c))"
  "\<not> isPaginated (Some (user_response_json u))" "\<not> isPaginated (Some (organization_json g))"
  "\<not> isPaginated (Some (notification_json n))" "\<not> isPaginated (Some (auth_user_json a))"
  "\<not> isPaginated (Some (auth_response_json r))" "\<not> isPaginated (Some (JObj (tokens_fields k)))"
  by (simp_all add: ticket_json_def comment_json_def user_response_json_def organization_json_def
      notification_json_def auth_user_json_def auth_response_json_def tokens_fields_def)

lemma statuses_have_bodies:
  "list_all (\<lambda>r. r_method r \<noteq> DELETE \<longrightarrow> r \<noteq> auth_routes ! 3 \<longrightarrow> r_status r \<noteq> NO_CONTENT) api_routes"
  by (simp add: api_routes_def route_tables mk_route_def NO_CONTENT_def)

definition counter :: "string \<Rightarrow> json \<Rightarrow> bool" where
  "counter k j \<longleftrightarrow> has k is_number j"

lemma yields_row:
  assumes "\<And>x. T (f x)" and "\<And>x. \<not> isPaginated (Some (f x))"
  shows "yields (\<lambda>j. T j \<and> \<not> isPaginated (Some j)) (\<lambda>u rq cid d. returns f (m u rq cid d))"
    and "yields (\<lambda>j. T j \<and> \<not> isPaginated (Some j))
      (\<lambda>u rq cid d. with_user u (\<lambda>a. returns f (n a rq cid d)))"
  using assms by (auto simp: yields_def dest!: with_userD returnsD)

lemma yields_page:
  "yields (\<lambda>j. \<exists>p. j = paginated_json f p) (\<lambda>u rq cid d. returns (paginated_json f) (m u rq cid d))"
  "yields (\<lambda>j. \<exists>p. j = paginated_json f p)
      (\<lambda>u rq cid d. with_user u (\<lambda>a. returns (paginated_json f) (n a rq cid d)))"
  by (auto simp: yields_def dest!: with_userD returnsD)

lemma tickets_read:
  "client_reads_page Ticket (tickets_routes ! 1) (TicketsController_findAll ord ilike)"
  "client_reads Ticket (tickets_routes ! 2) TicketsController_findOne"
  "client_reads Ticket (tickets_routes ! 0) TicketsController_create"
  "client_reads Ticket (tickets_routes ! 3) TicketsController_update"
  "client_reads Ticket (tickets_routes ! 4) TicketsController_assign"
  unfolding handler_defs [abs_def]
  by (rule reads_page_typed [OF yields_page(2)] reads_typed [OF yields_row(2)];
      simp add: rows_typed rows_not_pages tickets_routes_def mk_route_def NO_CONTENT_def)+


lemma comments_read:
  "client_reads_page Comment (comments_routes ! 1) (CommentsController_findAll cord)"
  "client_reads Comment (comments_routes ! 0) CommentsController_create"
  unfolding handler_defs [abs_def]
  by (rule reads_page_typed [OF yields_page(2)] reads_typed [OF yields_row(2)];
      simp add: rows_typed rows_not_pages comments_routes_def mk_route_def NO_CONTENT_def)+

lemma users_read:
  "client_reads_page User (users_routes ! 1) (UsersController_findAll uord ilike)"
  "client_reads User (users_routes ! 2) UsersController_findOne"
  "client_reads User (users_routes ! 3) UsersController_update"
  "client_reads User (users_routes ! 0) (UsersController_create pw cfg)"
  unfolding handler_defs [abs_def]
  by (rule reads_page_typed [OF yields_page(2)] reads_typed [OF yields_row(2)]
        reads_typed [OF yields_row(1)];
      simp add: rows_typed rows_not_pages users_routes_def mk_route_def NO_CONTENT_def)+

lemma organizations_read:
  "client_reads_page Organization (organizations_routes ! 1) (OrganizationsController_findAll gord ilike)"
  "client_reads Organization (organizations_routes ! 2) OrganizationsController_findOne"
  "client_reads Organization (organizations_routes ! 0) OrganizationsController_create"
  "client_reads Organization (organizations_routes ! 3) OrganizationsController_update"
  unfolding handler_defs [abs_def]
  by (rule reads_page_typed [OF yields_page(1)] reads_typed [OF yields_row(1)];
      simp add: rows_typed rows_not_pages organizations_routes_def mk_route_def NO_CONTENT_def)+

lemma notifications_read:
  "client_reads_page AppNotification (notifications_routes ! 0) (NotificationsController_findAll nord)"
  "client_reads (counter ''unread'') (notifications_routes ! 1) NotificationsController_unreadCount"
  "client_reads AppNotification (notifications_routes ! 2) NotificationsController_markRead"
  "client_reads (counter ''updated'') (notifications_routes ! 3) NotificationsController_markAllRead"
  unfolding handler_defs [abs_def]
  by (rule reads_page_typed [OF yields_page(2)] reads_typed [OF yields_row(2)];
      simp add: rows_typed rows_not_pages notifications_routes_def mk_route_def NO_CONTENT_def
        counter_def)+

lemma bearer_tokens:
  "refresh cr cfg raw ctx w = (Inr k, w') \<Longrightarrow> tokenType k = ''Bearer''"
  "login cr pw cfg dto ctx w = (Inr a, w') \<Longrightarrow> tokenType (ar_tokens a) = ''Bearer''"
  "register cr pw cfg rdto ctx w = (Inr a, w') \<Longrightarrow> tokenType (ar_tokens a) = ''Bearer''"
proof -
  have b: "buildAuthResponse cr cfg u ctx v = (Inr a, w') \<Longrightarrow> tokenType (ar_tokens a) = ''Bearer''"
    for u v by (auto simp: buildAuthResponse_def runs dest: issued_bearer)
  show "refresh cr cfg raw ctx w = (Inr k, w') \<Longrightarrow> tokenType k = ''Bearer''"
    by (auto simp: refresh_def rotate_def rotate_commit_def runs Let_def dest!: issued_bearer
        split: prod.splits)
  show "login cr pw cfg dto ctx w = (Inr a, w') \<Longrightarrow> tokenType (ar_tokens a) = ''Bearer''"
    by (auto simp: login_def runs dest!: b split: option.splits if_splits)
  show "register cr pw cfg rdto ctx w = (Inr a, w') \<Longrightarrow> tokenType (ar_tokens a) = ''Bearer''"
    by (auto simp: register_def runs dest!: b split: option.splits if_splits)
qed

lemma yields_if:
  assumes "\<And>u rq cid d w x w'. m u rq cid d w = (Inr x, w') \<Longrightarrow> P (f x)"
  shows "yields P (\<lambda>u rq cid d. returns f (m u rq cid d))"
  using assms by (auto simp: yields_def returns_def andThen_ok run_basic)

lemma auth_read:
  "client_reads AuthUser (auth_routes ! 4) AuthController_me"
  "client_reads AuthResponse (auth_routes ! 1) (AuthController_login cr pw cfg)"
  "client_reads AuthResponse (auth_routes ! 0) (AuthController_register cr pw cfg)"
  "client_reads AuthTokens (auth_routes ! 2) (AuthController_refresh cr cfg)"
proof -
  show "client_reads AuthUser (auth_routes ! 4) AuthController_me"
    unfolding handler_defs [abs_def]
    by (rule reads_typed [OF yields_row(2)])
      (simp_all add: auth_typed rows_not_pages auth_routes_def mk_route_def NO_CONTENT_def)
  show "client_reads AuthResponse (auth_routes ! 1) (AuthController_login cr pw cfg)"
    unfolding AuthController_login_def [abs_def]
    by (rule reads_typed [OF yields_if])
      (auto simp: auth_typed rows_not_pages auth_routes_def NO_CONTENT_def dest: bearer_tokens)
  show "client_reads AuthResponse (auth_routes ! 0) (AuthController_register cr pw cfg)"
    unfolding AuthController_register_def [abs_def]
    by (rule reads_typed [OF yields_if])
      (auto simp: auth_typed rows_not_pages auth_routes_def NO_CONTENT_def dest: bearer_tokens)
  show "client_reads AuthTokens (auth_routes ! 2) (AuthController_refresh cr cfg)"
    unfolding AuthController_refresh_def [abs_def]
    by (rule reads_typed [OF yields_if])
      (auto simp: auth_typed rows_not_pages auth_routes_def NO_CONTENT_def simp del: isPaginated.simps dest: bearer_tokens)
qed


text \<open>
  C12. The client and the server agree. Every call of the frontend's services, with any id that is
  one path segment, reaches exactly one route of the API, the one it is written for. And
  whatever that route answers, to whomever, whenever and from whatever state, is what the call
  declares: a resource of the declared interface, a page of such resources with its page meta, a
  counter, or an error envelope of the declared form. The three calls without a body (the two
  deletions and the logout) are routed like the others, and declare nothing.
\<close>

theorem client_and_server_agree:
  assumes "express_paths m" and "segment i"
  shows "list_all (\<lambda>(c, r). reaches m ''api'' c r) (client_calls i a q b)
    \<and> client_reads_page Ticket (tickets_routes ! 1) (TicketsController_findAll ord ilike)
    \<and> client_reads Ticket (tickets_routes ! 2) TicketsController_findOne
    \<and> client_reads Ticket (tickets_routes ! 0) TicketsController_create
    \<and> client_reads Ticket (tickets_routes ! 3) TicketsController_update
    \<and> client_reads Ticket (tickets_routes ! 4) TicketsController_assign
    \<and> client_reads_page Comment (comments_routes ! 1) (CommentsController_findAll cord)
    \<and> client_reads Comment (comments_routes ! 0) CommentsController_create
    \<and> client_reads_page User (users_routes ! 1) (UsersController_findAll uord ilike)
    \<and> client_reads User (users_routes ! 2) UsersController_findOne
    \<and> client_reads User (users_routes ! 3) UsersController_update
    \<and> client_reads User (users_routes ! 0) (UsersController_create pw cfg)
    \<and> client_reads_page Organization (organizations_routes ! 1)
        (OrganizationsController_findAll gord ilike)
    \<and> client_reads Organization (organizations_routes ! 2) OrganizationsController_findOne
    \<and> client_reads Organization (organizations_routes ! 0) OrganizationsController_create
    \<and> client_reads Organization (organizations_routes ! 3) OrganizationsController_update
    \<and> client_reads_page AppNotification (notifications_routes ! 0)
        (NotificationsController_findAll nord)
    \<and> client_reads (counter ''unread'') (notifications_routes ! 1) NotificationsController_unreadCount
    \<and> client_reads AppNotification (notifications_routes ! 2) NotificationsController_markRead
    \<and> client_reads (counter ''updated'') (notifications_routes ! 3) NotificationsController_markAllRead
    \<and> client_reads AuthUser (auth_routes ! 4) AuthController_me
    \<and> client_reads AuthResponse (auth_routes ! 1) (AuthController_login cr pw cfg)
    \<and> client_reads AuthResponse (auth_routes ! 0) (AuthController_register cr pw cfg)
    \<and> client_reads AuthTokens (auth_routes ! 2) (AuthController_refresh cr cfg)"
  by (intro conjI calls_reach [OF assms] tickets_read comments_read users_read organizations_read
      notifications_read auth_read)

theorem client_and_server_agree_witness:
  "reaches (path_matches ignoring_case) ''api'' (tickets_assign ''t1'' ''alex'') (tickets_routes ! 4)"
proof -
  have "path_matches ignoring_case p s" if "path_matches (=) p s" for p s
    using that unfolding path_matches_def segments_match_def
    by (rule list_all2_mono) (auto simp: ignoring_case_def split: if_splits)
  then have m: "express_paths (path_matches ignoring_case)" by (simp add: express_paths_def)
  have i: "segment ''t1''" by (simp add: segment_def)
  have "(tickets_assign ''t1'' ''alex'', tickets_routes ! 4)
      \<in> set (client_calls ''t1'' ''alex'' [] JNull)" by (simp add: client_calls_def)
  then show ?thesis
    using client_and_server_agree [where a = "''alex''" and q = "[]" and b = JNull,
        OF m i, THEN conjunct1]
    by (auto simp: list_all_iff)
qed

section \<open>Requests\<close>

text \<open>An object literal of a request type: the declared properties and no others.\<close>

definition literal :: "(string \<times> (json \<Rightarrow> bool)) list \<Rightarrow> (string \<times> (json \<Rightarrow> bool)) list \<Rightarrow> body \<Rightarrow> bool"
where
  "literal must may kvs \<longleftrightarrow>
     whitelisted (map fst must @ map fst may) kvs
   \<and> list_all (\<lambda>(k, T). has k T (JObj kvs)) must \<and> list_all (\<lambda>(k, T). may_have k T (JObj kvs)) may"

definition CreateTicketRequest :: "body \<Rightarrow> bool" where
  "CreateTicketRequest = literal [(''title'', is_string), (''description'', is_string)]
     [(''priority'', TicketPriority), (''category'', is_string)]"

definition UpdateTicketRequest :: "body \<Rightarrow> bool" where
  "UpdateTicketRequest = literal [] [(''title'', is_string), (''description'', is_string),
     (''status'', TicketStatus), (''priority'', TicketPriority), (''category'', is_string)]"

definition AssignTicketRequest :: "body \<Rightarrow> bool" where
  "AssignTicketRequest = literal [(''assigneeId'', is_string)] []"

definition CreateCommentRequest :: "body \<Rightarrow> bool" where
  "CreateCommentRequest = literal [(''body'', is_string)] [(''isInternal'', is_boolean)]"

definition CreateOrganizationRequest :: "body \<Rightarrow> bool" where
  "CreateOrganizationRequest = literal [(''name'', is_string), (''slug'', is_string)] []"

definition UpdateOrganizationRequest :: "body \<Rightarrow> bool" where
  "UpdateOrganizationRequest = literal [] [(''name'', is_string), (''slug'', is_string),
     (''isActive'', is_boolean)]"

definition CreateUserRequest :: "body \<Rightarrow> bool" where
  "CreateUserRequest = literal [(''email'', is_string), (''password'', is_string),
     (''firstName'', is_string), (''lastName'', is_string), (''role'', Role),
     (''organizationId'', is_string)] []"

definition UpdateUserRequest :: "body \<Rightarrow> bool" where
  "UpdateUserRequest = literal [] [(''firstName'', is_string), (''lastName'', is_string),
     (''role'', Role), (''isActive'', is_boolean)]"

definition LoginRequest :: "body \<Rightarrow> bool" where
  "LoginRequest = literal [(''email'', is_string), (''password'', is_string)] []"

definition RegisterRequest :: "body \<Rightarrow> bool" where
  "RegisterRequest = literal [(''email'', is_string), (''password'', is_string),
     (''firstName'', is_string), (''lastName'', is_string), (''organizationId'', is_string)] []"

lemmas request_types = CreateTicketRequest_def UpdateTicketRequest_def AssignTicketRequest_def
  CreateCommentRequest_def CreateOrganizationRequest_def UpdateOrganizationRequest_def
  CreateUserRequest_def UpdateUserRequest_def LoginRequest_def RegisterRequest_def

text \<open>The text of a property, where it is there.\<close>

definition text_ok :: "string \<Rightarrow> (string \<Rightarrow> bool) \<Rightarrow> body \<Rightarrow> bool" where
  "text_ok k ok kvs \<longleftrightarrow> (case map_of kvs k of Some (JStr s) \<Rightarrow> ok s | _ \<Rightarrow> True)"

lemma is_stringD: "is_string j \<Longrightarrow> \<exists>s. j = JStr s" and is_booleanD: "is_boolean j \<Longrightarrow> \<exists>b. j = JBool b"
  by (cases j; simp)+

lemma read_text:
  "has k is_string (JObj kvs) \<Longrightarrow>
     required (read_prop_as (read_string ok) (map_of kvs k)) = None \<longleftrightarrow> \<not> text_ok k ok kvs"
  "may_have k is_string (JObj kvs) \<Longrightarrow>
     read_prop_as (read_string ok) (map_of kvs k) = None \<longleftrightarrow> \<not> text_ok k ok kvs"
  by (auto simp: read_prop_as_def read_string_def required_def text_ok_def split: option.splits
      dest!: is_stringD)

lemma read_token:
  assumes "T = one_of (map name es)"
  shows "has k T (JObj kvs) \<Longrightarrow> required (read_prop_as (read_enum name es) (map_of kvs k)) \<noteq> None"
    and "may_have k T (JObj kvs) \<Longrightarrow> read_prop_as (read_enum name es) (map_of kvs k) \<noteq> None"
proof -
  have e: "enum_of name es (name e) \<noteq> None" if "e \<in> set es" for e
    using that by (auto simp: enum_of_def find_None_iff)
  show "has k T (JObj kvs) \<Longrightarrow> required (read_prop_as (read_enum name es) (map_of kvs k)) \<noteq> None"
    "may_have k T (JObj kvs) \<Longrightarrow> read_prop_as (read_enum name es) (map_of kvs k) \<noteq> None"
    using e by (auto simp: assms one_of_def read_prop_as_def read_enum_def required_def
        split: option.splits)
qed

lemma read_flag:
  "may_have k is_boolean (JObj kvs) \<Longrightarrow> read_prop_as read_bool (map_of kvs k) \<noteq> None"
  by (auto simp: read_prop_as_def read_bool_def split: option.splits dest!: is_booleanD)

lemmas read_typed = read_text read_flag read_token [OF TicketStatus_def]
  read_token [OF TicketPriority_def] read_token [OF Role_def]

lemma text_read:
  "read_prop_as (read_string ok) (map_of kvs k) = Some x \<Longrightarrow> text_ok k ok kvs"
  "required (read_prop_as (read_string ok) (map_of kvs k)) = Some y \<Longrightarrow> text_ok k ok kvs"
  by (auto simp: read_prop_as_def read_string_def required_def text_ok_def
      split: option.splits json.splits if_splits)

lemmas validator_defs = validate_create_ticket_def validate_update_ticket_def validate_assign_ticket_def
  validate_create_comment_def validate_create_organization_def validate_update_organization_def
  validate_create_user_def validate_update_user_def validate_login_def validate_register_def

lemma CreateTicketRequest_understood:
  "CreateTicketRequest kvs \<Longrightarrow>
    (validate_create_ticket len kvs \<noteq> None \<longleftrightarrow>
      text_ok ''title'' (between len 3 160) kvs \<and> text_ok ''description'' (between len 3 5000) kvs
      \<and> text_ok ''category'' (between len 0 80) kvs)"
  by (auto simp: request_types literal_def validator_defs read_typed simp del: has_obj not_None_eq
      dest: text_read split: option.split)

lemma UpdateTicketRequest_understood:
  "UpdateTicketRequest kvs \<Longrightarrow>
    (validate_update_ticket len kvs \<noteq> None \<longleftrightarrow>
      text_ok ''title'' (between len 3 160) kvs \<and> text_ok ''description'' (between len 3 5000) kvs
      \<and> text_ok ''category'' (between len 0 80) kvs)"
  by (auto simp: request_types literal_def validator_defs read_typed simp del: has_obj not_None_eq
      dest: text_read split: option.split)

lemma AssignTicketRequest_understood:
  "AssignTicketRequest kvs \<Longrightarrow>
    (validate_assign_ticket isUUID kvs \<noteq> None \<longleftrightarrow>
      text_ok ''assigneeId'' isUUID kvs)"
  by (auto simp: request_types literal_def validator_defs read_typed simp del: has_obj not_None_eq
      dest: text_read split: option.split)

lemma CreateCommentRequest_understood:
  "CreateCommentRequest kvs \<Longrightarrow>
    (validate_create_comment len kvs \<noteq> None \<longleftrightarrow>
      text_ok ''body'' (between len 1 5000) kvs)"
  by (auto simp: request_types literal_def validator_defs read_typed simp del: has_obj not_None_eq
      dest: text_read split: option.split)

lemma CreateOrganizationRequest_understood:
  "CreateOrganizationRequest kvs \<Longrightarrow>
    (validate_create_organization len kvs \<noteq> None \<longleftrightarrow>
      text_ok ''name'' (between len 2 120) kvs \<and> text_ok ''slug'' (slug_ok len) kvs)"
  by (auto simp: request_types literal_def validator_defs read_typed simp del: has_obj not_None_eq
      dest: text_read split: option.split)

lemma UpdateOrganizationRequest_understood:
  "UpdateOrganizationRequest kvs \<Longrightarrow>
    (validate_update_organization len kvs \<noteq> None \<longleftrightarrow>
      text_ok ''name'' (between len 2 120) kvs \<and> text_ok ''slug'' (slug_ok len) kvs)"
  by (auto simp: request_types literal_def validator_defs read_typed simp del: has_obj not_None_eq
      dest: text_read split: option.split)

lemma CreateUserRequest_understood:
  "CreateUserRequest kvs \<Longrightarrow>
    (validate_create_user len isEmail isUUID kvs \<noteq> None \<longleftrightarrow>
      text_ok ''email'' isEmail kvs \<and> text_ok ''password'' (password_ok len) kvs
      \<and> text_ok ''firstName'' (between len 1 80) kvs \<and> text_ok ''lastName'' (between len 1 80) kvs
      \<and> text_ok ''organizationId'' isUUID kvs)"
  by (auto simp: request_types literal_def validator_defs read_typed simp del: has_obj not_None_eq
      dest: text_read split: option.split)

lemma update_user_keys:
  assumes "UpdateUserRequest kvs"
  shows "whitelisted [''email'', ''firstName'', ''lastName'', ''role'', ''isActive''] kvs"
    and "read_prop_as (read_string ok) (map_of kvs ''email'') = Some Undefined"
proof -
  have k: "whitelisted [''firstName'', ''lastName'', ''role'', ''isActive''] kvs"
    using assms by (simp add: request_types literal_def)
  show "whitelisted [''email'', ''firstName'', ''lastName'', ''role'', ''isActive''] kvs"
    using k by (auto simp: whitelisted_def list_all_iff)
  have "''email'' \<notin> fst ` set kvs" using k by (auto simp: whitelisted_def list_all_iff)
  then have "map_of kvs ''email'' = None" by (simp add: map_of_eq_None_iff)
  then show "read_prop_as (read_string ok) (map_of kvs ''email'') = Some Undefined"
    by (simp add: read_prop_as_def)
qed

lemma UpdateUserRequest_understood:
  "UpdateUserRequest kvs \<Longrightarrow>
    (validate_update_user len isEmail kvs \<noteq> None \<longleftrightarrow>
      text_ok ''firstName'' (between len 1 80) kvs \<and> text_ok ''lastName'' (between len 1 80) kvs)"
  using update_user_keys
  by (auto simp: request_types literal_def validator_defs read_typed simp del: has_obj not_None_eq
      dest: text_read split: option.split)

lemma LoginRequest_understood:
  "LoginRequest kvs \<Longrightarrow>
    (validate_login len isEmail kvs \<noteq> None \<longleftrightarrow>
      text_ok ''email'' isEmail kvs \<and> text_ok ''password'' (\<lambda>s. 1 \<le> len s) kvs)"
  by (auto simp: request_types literal_def validator_defs read_typed simp del: has_obj not_None_eq
      dest: text_read split: option.split)

lemma RegisterRequest_understood:
  "RegisterRequest kvs \<Longrightarrow>
    (validate_register len isEmail isUUID kvs \<noteq> None \<longleftrightarrow>
      text_ok ''email'' isEmail kvs \<and> text_ok ''password'' (password_ok len) kvs
      \<and> text_ok ''firstName'' (between len 1 80) kvs \<and> text_ok ''lastName'' (between len 1 80) kvs
      \<and> text_ok ''organizationId'' isUUID kvs)"
  by (auto simp: request_types literal_def validator_defs read_typed simp del: has_obj not_None_eq
      dest: text_read split: option.split)

text \<open>
  C40. What a validation of the server makes of a typed request. For every request type of the
  client: an object with exactly the declared properties, of the declared types, is refused by the
  validators of its route if and only if one of its texts is outside the bounds given here (or not
  what class-validator takes for an e-mail or a UUID). A declared property is never unknown to the
  server, no enum value of the client is unknown there, and no optional property that is left out
  is missed.
\<close>

theorem requests_understood:
  "(CreateTicketRequest kvs \<longrightarrow> (validate_create_ticket len kvs \<noteq> None \<longleftrightarrow>
      text_ok ''title'' (between len 3 160) kvs \<and> text_ok ''description'' (between len 3 5000) kvs
      \<and> text_ok ''category'' (between len 0 80) kvs))
   \<and> (UpdateTicketRequest kvs \<longrightarrow> (validate_update_ticket len kvs \<noteq> None \<longleftrightarrow>
      text_ok ''title'' (between len 3 160) kvs \<and> text_ok ''description'' (between len 3 5000) kvs
      \<and> text_ok ''category'' (between len 0 80) kvs))
   \<and> (AssignTicketRequest kvs \<longrightarrow> (validate_assign_ticket isUUID kvs \<noteq> None \<longleftrightarrow>
      text_ok ''assigneeId'' isUUID kvs))
   \<and> (CreateCommentRequest kvs \<longrightarrow> (validate_create_comment len kvs \<noteq> None \<longleftrightarrow>
      text_ok ''body'' (between len 1 5000) kvs))
   \<and> (CreateOrganizationRequest kvs \<longrightarrow> (validate_create_organization len kvs \<noteq> None \<longleftrightarrow>
      text_ok ''name'' (between len 2 120) kvs \<and> text_ok ''slug'' (slug_ok len) kvs))
   \<and> (UpdateOrganizationRequest kvs \<longrightarrow> (validate_update_organization len kvs \<noteq> None \<longleftrightarrow>
      text_ok ''name'' (between len 2 120) kvs \<and> text_ok ''slug'' (slug_ok len) kvs))
   \<and> (CreateUserRequest kvs \<longrightarrow> (validate_create_user len isEmail isUUID kvs \<noteq> None \<longleftrightarrow>
      text_ok ''email'' isEmail kvs \<and> text_ok ''password'' (password_ok len) kvs
      \<and> text_ok ''firstName'' (between len 1 80) kvs \<and> text_ok ''lastName'' (between len 1 80) kvs
      \<and> text_ok ''organizationId'' isUUID kvs))
   \<and> (UpdateUserRequest kvs \<longrightarrow> (validate_update_user len isEmail kvs \<noteq> None \<longleftrightarrow>
      text_ok ''firstName'' (between len 1 80) kvs \<and> text_ok ''lastName'' (between len 1 80) kvs))
   \<and> (LoginRequest kvs \<longrightarrow> (validate_login len isEmail kvs \<noteq> None \<longleftrightarrow>
      text_ok ''email'' isEmail kvs \<and> text_ok ''password'' (\<lambda>s. 1 \<le> len s) kvs))
   \<and> (RegisterRequest kvs \<longrightarrow> (validate_register len isEmail isUUID kvs \<noteq> None \<longleftrightarrow>
      text_ok ''email'' isEmail kvs \<and> text_ok ''password'' (password_ok len) kvs
      \<and> text_ok ''firstName'' (between len 1 80) kvs \<and> text_ok ''lastName'' (between len 1 80) kvs
      \<and> text_ok ''organizationId'' isUUID kvs))"
  using CreateTicketRequest_understood UpdateTicketRequest_understood AssignTicketRequest_understood
    CreateCommentRequest_understood CreateOrganizationRequest_understood UpdateOrganizationRequest_understood
    CreateUserRequest_understood UpdateUserRequest_understood LoginRequest_understood RegisterRequest_understood
  by (intro conjI impI) simp_all

theorem requests_understood_witness:
  "validate_create_ticket length [(''title'', JStr ''Hi''), (''description'', JStr ''Broken'')] = None
   \<and> validate_create_ticket length [(''title'', JStr ''Printer''), (''description'', JStr ''Broken'')] \<noteq> None
   \<and> validate_update_user length (\<lambda>_. True) [(''role'', JStr ''AGENT''), (''isActive'', JBool False)] \<noteq> None"
proof -
  let ?short = "[(''title'', JStr ''Hi''), (''description'', JStr ''Broken'')]"
  let ?ok = "[(''title'', JStr ''Printer''), (''description'', JStr ''Broken'')]"
  let ?user = "[(''role'', JStr ''AGENT''), (''isActive'', JBool False)]"
  have typed: "CreateTicketRequest ?short" "CreateTicketRequest ?ok" "UpdateUserRequest ?user"
    by (simp_all add: request_types literal_def whitelisted_def Role_def one_of_def)
  have texts: "\<not> text_ok ''title'' (between length 3 160) ?short"
    "text_ok ''title'' (between length 3 160) ?ok" "text_ok ''description'' (between length 3 5000) ?ok"
    "text_ok ''category'' (between length 0 80) ?ok" "text_ok ''firstName'' (between length 1 80) ?user"
    "text_ok ''lastName'' (between length 1 80) ?user"
    by (simp_all add: text_ok_def between_def)
  show ?thesis
    using requests_understood [where kvs = ?short and len = length]
      requests_understood [where kvs = ?ok and len = length]
      requests_understood [where kvs = ?user and len = length and isEmail = "\<lambda>_. True"] typed texts
    by simp
qed

end
