(* ===== verification/Forms.thy ===== *)
theory Forms
  imports ApiClient Session
begin

text \<open>
  The dialogs and forms (\<open>ticket-form\<close>, \<open>user-form\<close>, \<open>organization-form\<close>, \<open>register\<close>,
  \<open>login\<close>): the initial values, the validators, the payload of a save and the state of the save.
  The validators are Angular's: \<open>required\<close> rejects the empty string, \<open>minLength\<close> and \<open>pattern\<close> let
  it pass; what counts as an e-mail is a parameter. \<open>value.length\<close> counts UTF-16 units, computed
  here from the UTF-8 bytes of the model's strings.
\<close>

section \<open>Validators\<close>

definition utf16_length :: "string \<Rightarrow> nat" where
  "utf16_length s = length (filter (\<lambda>c. \<not> (128 \<le> (of_char c :: nat) \<and> (of_char c :: nat) < 192)) s)
     + length (filter (\<lambda>c. 240 \<le> (of_char c :: nat)) s)"

definition v_required :: "string \<Rightarrow> bool" where
  "v_required s \<longleftrightarrow> s \<noteq> []"

definition v_minLength :: "nat \<Rightarrow> string \<Rightarrow> bool" where
  "v_minLength n s \<longleftrightarrow> s = [] \<or> n \<le> utf16_length s"

definition v_pattern :: "(string \<Rightarrow> bool) \<Rightarrow> string \<Rightarrow> bool" where
  "v_pattern matches s \<longleftrightarrow> s = [] \<or> matches s"

section \<open>The state of a save\<close>

text \<open>\<open>sv_closed\<close> is the value the dialog was closed with: nothing yet, cancelled, or the record.\<close>

record 'r saving_state =
  sv_saving :: bool
  sv_touched :: bool
  sv_closed :: "'r option option"
  sv_messages :: "string list"

definition form_open :: "'r saving_state" where
  "form_open = \<lparr>sv_saving = False, sv_touched = False, sv_closed = None, sv_messages = []\<rparr>"

text \<open>\<open>save\<close>: the call that is sent, if any.\<close>

definition save :: "bool \<Rightarrow> api_call \<Rightarrow> 'r saving_state \<Rightarrow> api_call option \<times> 'r saving_state" where
  "save valid call s =
     (if \<not> valid \<or> sv_saving s then (None, s\<lparr>sv_touched := True\<rparr>)
      else (Some call, s\<lparr>sv_saving := True\<rparr>))"

text \<open>\<open>ref.close\<close>; a dialog that is gone keeps the result it was closed with.\<close>

definition close_with :: "'r option \<Rightarrow> 'r saving_state \<Rightarrow> 'r saving_state" where
  "close_with x s = (if sv_closed s = None then s\<lparr>sv_closed := Some x\<rparr> else s)"

definition save_done :: "string \<Rightarrow> 'r \<Rightarrow> 'r saving_state \<Rightarrow> 'r saving_state" where
  "save_done message x s =
     close_with (Some x) (s\<lparr>sv_messages := sv_messages s @ [message]\<rparr>)"

definition save_failed :: "'r saving_state \<Rightarrow> 'r saving_state" where
  "save_failed s = s\<lparr>sv_saving := False\<rparr>"

definition cancel :: "'r saving_state \<Rightarrow> 'r saving_state" where
  "cancel s = close_with None s"

section \<open>The ticket form\<close>

record ticket_form =
  tf_title :: string
  tf_description :: string
  tf_priority :: ticket_priority
  tf_category :: string

definition ticket_form_init :: "ticket option \<Rightarrow> ticket_form" where
  "ticket_form_init t =
     (case t of
        None \<Rightarrow> \<lparr>tf_title = [], tf_description = [], tf_priority = MEDIUM, tf_category = []\<rparr>
      | Some x \<Rightarrow> \<lparr>tf_title = tk_title x, tf_description = tk_description x,
                   tf_priority = tk_priority x,
                   tf_category = (case tk_category x of None \<Rightarrow> [] | Some c \<Rightarrow> c)\<rparr>)"

definition ticket_form_valid :: "ticket_form \<Rightarrow> bool" where
  "ticket_form_valid f \<longleftrightarrow> v_required (tf_title f) \<and> v_minLength 3 (tf_title f)
     \<and> v_required (tf_description f) \<and> v_minLength 3 (tf_description f)"

definition or_undefined :: "string \<Rightarrow> json option" where
  "or_undefined s = (if s = [] then None else Some (JStr s))"

definition ticket_payload :: "ticket_form \<Rightarrow> json" where
  "ticket_payload f = json_object
     [(''title'', Some (JStr (tf_title f))), (''description'', Some (JStr (tf_description f))),
      (''priority'', Some (JStr (priority_string (tf_priority f)))),
      (''category'', or_undefined (tf_category f))]"

definition ticket_form_call :: "ticket option \<Rightarrow> ticket_form \<Rightarrow> api_call" where
  "ticket_form_call t f =
     (case t of None \<Rightarrow> tickets_create (ticket_payload f)
      | Some x \<Rightarrow> tickets_service_update (tk_id x) (ticket_payload f))"

definition ticket_form_save ::
  "ticket option \<Rightarrow> ticket_form \<Rightarrow> ticket saving_state \<Rightarrow> api_call option \<times> ticket saving_state" where
  "ticket_form_save t f s = save (ticket_form_valid f) (ticket_form_call t f) s"

section \<open>The organization form\<close>

record organization_form =
  of_name :: string
  of_slug :: string
  of_isActive :: bool

definition organization_form_init :: "organization option \<Rightarrow> organization_form" where
  "organization_form_init g =
     (case g of None \<Rightarrow> \<lparr>of_name = [], of_slug = [], of_isActive = True\<rparr>
      | Some x \<Rightarrow> \<lparr>of_name = org_name x, of_slug = org_slug x, of_isActive = org_isActive x\<rparr>)"

definition organization_form_valid :: "organization_form \<Rightarrow> bool" where
  "organization_form_valid f \<longleftrightarrow> v_required (of_name f) \<and> v_required (of_slug f)
     \<and> v_pattern slug_matches (of_slug f)"

definition organization_form_call :: "organization option \<Rightarrow> organization_form \<Rightarrow> api_call" where
  "organization_form_call g f =
     (case g of
        Some x \<Rightarrow> organizations_service_update (org_id x)
          (JObj [(''name'', JStr (of_name f)), (''slug'', JStr (of_slug f)),
                 (''isActive'', JBool (of_isActive f))])
      | None \<Rightarrow> organizations_create
          (JObj [(''name'', JStr (of_name f)), (''slug'', JStr (of_slug f))]))"

definition organization_form_save ::
  "organization option \<Rightarrow> organization_form \<Rightarrow> organization saving_state
    \<Rightarrow> api_call option \<times> organization saving_state" where
  "organization_form_save g f s = save (organization_form_valid f) (organization_form_call g f) s"

section \<open>The user form\<close>

record user_form =
  uf_firstName :: string
  uf_lastName :: string
  uf_email :: string
  uf_password :: string
  uf_role :: role
  uf_isActive :: bool

definition user_form_init :: "user_response option \<Rightarrow> user_form" where
  "user_form_init u =
     (case u of
        None \<Rightarrow> \<lparr>uf_firstName = [], uf_lastName = [], uf_email = [], uf_password = [],
                 uf_role = CUSTOMER, uf_isActive = True\<rparr>
      | Some x \<Rightarrow> \<lparr>uf_firstName = ur_firstName x, uf_lastName = ur_lastName x,
                   uf_email = ur_email x, uf_password = [], uf_role = ur_role x,
                   uf_isActive = ur_isActive x\<rparr>)"

definition names_valid :: "user_form \<Rightarrow> bool" where
  "names_valid f \<longleftrightarrow> v_required (uf_firstName f) \<and> v_required (uf_lastName f)"

definition user_form_valid :: "(string \<Rightarrow> bool) \<Rightarrow> user_form \<Rightarrow> bool" where
  "user_form_valid emailOk f \<longleftrightarrow> names_valid f \<and> v_required (uf_email f) \<and> emailOk (uf_email f)
     \<and> v_required (uf_password f) \<and> v_minLength 8 (uf_password f)
     \<and> v_pattern password_matches (uf_password f)"

definition user_update_payload :: "user_form \<Rightarrow> json" where
  "user_update_payload f = JObj
     [(''firstName'', JStr (uf_firstName f)), (''lastName'', JStr (uf_lastName f)),
      (''role'', JStr (role_string (uf_role f))), (''isActive'', JBool (uf_isActive f))]"

definition user_create_payload :: "string \<Rightarrow> user_form \<Rightarrow> json" where
  "user_create_payload organizationId f = JObj
     [(''email'', JStr (uf_email f)), (''password'', JStr (uf_password f)),
      (''firstName'', JStr (uf_firstName f)), (''lastName'', JStr (uf_lastName f)),
      (''role'', JStr (role_string (uf_role f))), (''organizationId'', JStr organizationId)]"

text \<open>
  \<open>save\<close> of the user form looks at \<open>saving\<close> first, and marks the form only when it is invalid; the
  non-null assertion on the signed-in user raises when there is none.
\<close>

definition user_form_save ::
  "(string \<Rightarrow> bool) \<Rightarrow> browser \<Rightarrow> user_response option \<Rightarrow> user_form \<Rightarrow> user_response saving_state
    \<Rightarrow> exn + (api_call option \<times> user_response saving_state)" where
  "user_form_save emailOk b u f s =
     (if sv_saving s then Inr (None, s)
      else case u of
        Some x \<Rightarrow>
          if \<not> names_valid f then Inr (None, s\<lparr>sv_touched := True\<rparr>)
          else Inr (Some (users_service_update (ur_id x) (user_update_payload f)),
                    s\<lparr>sv_saving := True\<rparr>)
      | None \<Rightarrow>
          if \<not> user_form_valid emailOk f then Inr (None, s\<lparr>sv_touched := True\<rparr>)
          else (case br_user b of
                  None \<Rightarrow> Inl type_error
                | Some me \<Rightarrow> Inr (Some (users_create
                      (user_create_payload (aud_organizationId me) f)), s\<lparr>sv_saving := True\<rparr>)))"

section \<open>Signing in and registering\<close>

record register_form =
  rg_firstName :: string
  rg_lastName :: string
  rg_email :: string
  rg_password :: string
  rg_organizationId :: string

definition register_form_valid :: "(string \<Rightarrow> bool) \<Rightarrow> register_form \<Rightarrow> bool" where
  "register_form_valid emailOk f \<longleftrightarrow> v_required (rg_firstName f) \<and> v_required (rg_lastName f)
     \<and> v_required (rg_email f) \<and> emailOk (rg_email f) \<and> v_required (rg_password f)
     \<and> v_minLength 8 (rg_password f) \<and> v_pattern password_matches (rg_password f)
     \<and> v_required (rg_organizationId f)"

definition register_payload :: "register_form \<Rightarrow> json" where
  "register_payload f = JObj
     [(''firstName'', JStr (rg_firstName f)), (''lastName'', JStr (rg_lastName f)),
      (''email'', JStr (rg_email f)), (''password'', JStr (rg_password f)),
      (''organizationId'', JStr (rg_organizationId f))]"

definition register_submit ::
  "(string \<Rightarrow> bool) \<Rightarrow> register_form \<Rightarrow> unit saving_state \<Rightarrow> api_call option \<times> unit saving_state" where
  "register_submit emailOk f s =
     save (register_form_valid emailOk f) (api_post ''/auth/register'' (register_payload f)) s"

definition login_form_valid :: "(string \<Rightarrow> bool) \<Rightarrow> string \<Rightarrow> string \<Rightarrow> bool" where
  "login_form_valid emailOk email password \<longleftrightarrow> v_required email \<and> emailOk email
     \<and> v_required password"

definition login_submit ::
  "(string \<Rightarrow> bool) \<Rightarrow> string \<Rightarrow> string \<Rightarrow> unit saving_state \<Rightarrow> api_call option \<times> unit saving_state" where
  "login_submit emailOk email password s =
     save (login_form_valid emailOk email password)
       (api_post ''/auth/login'' (JObj [(''email'', JStr email), (''password'', JStr password)])) s"

text \<open>\<open>fill\<close>: the demo accounts of the login page.\<close>

definition login_fill :: "string \<Rightarrow> string \<times> string" where
  "login_fill email = (email, ''Password123!'')"

text \<open>Where a login leads: the \<open>redirectTo\<close> of the query string, which the guard has put there.\<close>

definition login_target :: "string option \<Rightarrow> string" where
  "login_target redirectTo = (case redirectTo of None \<Rightarrow> ''/dashboard'' | Some url \<Rightarrow> url)"

section \<open>A save is sent once\<close>

text \<open>
  The life of a dialog: \<open>hs_sent\<close> the calls it has sent, \<open>hs_failed\<close> how many of them came back
  as errors, \<open>hs_stored\<close> how many were answered. An answer can only arrive while a call is out.
\<close>

record 'r form_history =
  hs_state :: "'r saving_state"
  hs_sent :: "api_call list"
  hs_failed :: nat
  hs_stored :: nat

definition fresh_form :: "'r form_history" where
  "fresh_form = \<lparr>hs_state = form_open, hs_sent = [], hs_failed = 0, hs_stored = 0\<rparr>"

definition outstanding :: "'r form_history \<Rightarrow> nat" where
  "outstanding h = length (hs_sent h) - hs_failed h - hs_stored h"

definition submitted :: "bool \<Rightarrow> api_call \<Rightarrow> 'r form_history \<Rightarrow> 'r form_history" where
  "submitted valid call h =
     (case save valid call (hs_state h) of
        (None, s) \<Rightarrow> h\<lparr>hs_state := s\<rparr>
      | (Some x, s) \<Rightarrow> h\<lparr>hs_state := s, hs_sent := hs_sent h @ [x]\<rparr>)"

inductive form_step :: "'r form_history \<Rightarrow> 'r form_history \<Rightarrow> bool" where
  submits: "sv_closed (hs_state h) = None \<Longrightarrow> form_step h (submitted valid call h)"
| stored: "0 < outstanding h \<Longrightarrow>
    form_step h (h\<lparr>hs_state := save_done m x (hs_state h), hs_stored := Suc (hs_stored h)\<rparr>)"
| failed: "0 < outstanding h \<Longrightarrow>
    form_step h (h\<lparr>hs_state := save_failed (hs_state h), hs_failed := Suc (hs_failed h)\<rparr>)"
| cancels: "sv_closed (hs_state h) = None \<Longrightarrow> form_step h (h\<lparr>hs_state := cancel (hs_state h)\<rparr>)"

inductive_cases form_stepE: "form_step h h'"

definition form_inv :: "'r form_history \<Rightarrow> bool" where
  "form_inv h \<longleftrightarrow>
     length (hs_sent h) = hs_failed h + (if sv_saving (hs_state h) then 1 else 0)
     \<and> hs_stored h \<le> (if sv_saving (hs_state h) then 1 else 0)
     \<and> (\<forall>x. sv_closed (hs_state h) = Some (Some x) \<longrightarrow> hs_stored h = 1)
     \<and> length (sv_messages (hs_state h)) = hs_stored h"

lemma form_inv_step: "form_step h h' \<Longrightarrow> form_inv h \<Longrightarrow> form_inv h'"
  by (erule form_stepE)
    (auto simp: form_inv_def submitted_def save_def save_done_def save_failed_def cancel_def
      close_with_def outstanding_def split: if_splits)

lemma form_inv_fresh: "form_inv fresh_form"
  by (simp add: form_inv_def fresh_form_def form_open_def)

lemma form_inv_reachable: "form_step\<^sup>*\<^sup>* fresh_form h \<Longrightarrow> form_inv h"
  by (induction rule: rtranclp_induct) (auto intro: form_inv_fresh form_inv_step)

text \<open>
  A form cannot be submitted twice. In every history of a dialog, however often its button is
  pressed, a call is sent only after the previous one has failed: apart from the failed ones there
  is at most one, exactly while the button shows the saving state; at most one save is answered
  with success, it shows one message, and a dialog that closed with a record has stored it.
\<close>

theorem form_submits_once:
  assumes "form_step\<^sup>*\<^sup>* fresh_form h"
  shows "length (hs_sent h) = hs_failed h + (if sv_saving (hs_state h) then 1 else 0)
    \<and> hs_stored h \<le> 1 \<and> hs_failed h + hs_stored h \<le> length (hs_sent h)
    \<and> length (sv_messages (hs_state h)) = hs_stored h
    \<and> (\<forall>x. sv_closed (hs_state h) = Some (Some x) \<longrightarrow> hs_stored h = 1)"
  using form_inv_reachable [OF assms] by (auto simp: form_inv_def split: if_splits)

definition fx_ticket_form :: ticket_form where
  "fx_ticket_form = \<lparr>tf_title = ''Printer'', tf_description = ''It smokes'', tf_priority = HIGH,
     tf_category = []\<rparr>"

theorem form_submits_once_witness:
  "\<exists>h :: ticket form_history. hs_sent h = [ticket_form_call None fx_ticket_form]
     \<and> length (hs_sent h) = hs_failed h + (if sv_saving (hs_state h) then 1 else 0)"
proof -
  let ?call = "ticket_form_call None fx_ticket_form"
  let ?a = "submitted True ?call fresh_form :: ticket form_history"
  let ?b = "submitted True ?call ?a"
  note defs = submitted_def save_def fresh_form_def form_open_def
  have "form_step fresh_form ?a" by (rule form_step.submits) (simp add: defs)
  moreover have "form_step ?a ?b" by (rule form_step.submits) (simp add: defs)
  ultimately have "form_step\<^sup>*\<^sup>* fresh_form ?b" by simp
  note form_submits_once [OF this]
  moreover have "hs_sent ?b = [?call]" by (simp add: defs)
  ultimately show ?thesis by blast
qed

section \<open>The ticket form against the server\<close>

text \<open>
  The server measures by \<open>len\<close>, which differs from \<open>value.length\<close> on surrogate pairs only, and
  has upper limits the form does not know.
\<close>

definition fits_server :: "(string \<Rightarrow> nat) \<Rightarrow> ticket_form \<Rightarrow> bool" where
  "fits_server len f \<longleftrightarrow> len (tf_title f) = utf16_length (tf_title f)
     \<and> len (tf_description f) = utf16_length (tf_description f)
     \<and> len (tf_title f) \<le> 160 \<and> len (tf_description f) \<le> 5000 \<and> len (tf_category f) \<le> 80"

definition typed_category :: "ticket_form \<Rightarrow> string field" where
  "typed_category f = (if tf_category f = [] then Undefined else Val (tf_category f))"

lemma read_enum_priority [simp]:
  "read_enum priority_string [LOW, MEDIUM, HIGH, URGENT] (JStr (priority_string p)) = Some p"
  using read_priority_string [of p] by (simp add: read_enum_def read_priority_def)

lemma ticket_payload_accepted:
  assumes "ticket_form_valid f" and "fits_server len f"
  shows "\<exists>kvs. ticket_payload f = JObj kvs
    \<and> validate_create_ticket len kvs = Some \<lparr>ct_title = tf_title f,
        ct_description = tf_description f, ct_priority = Val (tf_priority f),
        ct_category = typed_category f\<rparr>
    \<and> validate_update_ticket len kvs = Some \<lparr>ut_title = Val (tf_title f),
        ut_description = Val (tf_description f), ut_status = Undefined,
        ut_priority = Val (tf_priority f), ut_category = typed_category f\<rparr>"
proof (rule exI [of _ "[(''title'', JStr (tf_title f)), (''description'', JStr (tf_description f)),
    (''priority'', JStr (priority_string (tf_priority f)))]
    @ (if tf_category f = [] then [] else [(''category'', JStr (tf_category f))])"], intro conjI)
qed (use assms in \<open>auto simp: ticket_payload_def json_object_def List.map_filter_simps
    or_undefined_def ticket_form_valid_def fits_server_def v_required_def v_minLength_def
    validate_create_ticket_def validate_update_ticket_def whitelisted_def read_prop_as_def
    read_string_def between_def required_def typed_category_def\<close>)



end
