(* ===== verification/TicketDetail.thy ===== *)
theory TicketDetail
  imports Forms
begin

text \<open>
  The ticket screen (\<open>features/tickets/ticket-detail\<close>): the joined load of the ticket and its
  comments, the changes of status and assignee, the comment box and the labels. The requests in
  flight are part of the state; an answer is one callback. \<open>dt_sent\<close> and \<open>dt_acked\<close> record the
  calls the screen has sent and the comments the server has confirmed. The router keeps the
  component when only the \<open>:id\<close> of the route changes, so the input \<open>id\<close> may change under it.
\<close>

section \<open>The screen\<close>

datatype detail_request = UsersReq | StatusReq ticket_status | AssignReq | CommentReq

record pending_request =
  pd_no :: nat
  pd_ticket :: string
  pd_kind :: detail_request

record detail =
  dt_id :: string
  dt_loading :: bool
  dt_posting :: bool
  dt_ticket :: "ticket option"
  dt_comments :: "comment list"
  dt_users :: "user_response list"
  dt_body :: string
  dt_internal :: bool
  dt_join :: "(ticket option \<times> comment list option) option"
  dt_pending :: "pending_request list"
  dt_next :: nat
  dt_messages :: "string list"
  dt_sent :: "api_call list"
  dt_acked :: "comment list"

definition isStaff :: "browser \<Rightarrow> bool" where
  "isStaff b = hasRole [ADMIN, AGENT] b"

definition isAdmin :: "browser \<Rightarrow> bool" where
  "isAdmin b = hasRole [ADMIN] b"

definition assignableUsers :: "detail \<Rightarrow> user_response list" where
  "assignableUsers d = filter (\<lambda>u. ur_role u \<noteq> CUSTOMER \<and> ur_isActive u) (dt_users d)"

text \<open>\<open>usersById\<close>: a \<open>Map\<close> filled from left to right, so the last entry of an id counts.\<close>

definition usersById :: "detail \<Rightarrow> string \<Rightarrow> user_response option" where
  "usersById d i = map_of (rev (map (\<lambda>u. (ur_id u, u)) (dt_users d))) i"

definition dispatch ::
  "string \<Rightarrow> detail_request \<Rightarrow> api_call \<Rightarrow> detail \<Rightarrow> detail" where
  "dispatch i rq call d =
     d\<lparr>dt_pending := dt_pending d @ [\<lparr>pd_no = dt_next d, pd_ticket = i, pd_kind = rq\<rparr>],
       dt_next := Suc (dt_next d), dt_sent := dt_sent d @ [call]\<rparr>"

definition limit_100 :: "(string \<times> json option) list" where
  "limit_100 = [(''limit'', Some (JNum 100))]"

text \<open>\<open>forkJoin\<close> sends both requests; its halves are kept until both are there.\<close>

definition load_detail :: "detail \<Rightarrow> detail" where
  "load_detail d =
     d\<lparr>dt_loading := True, dt_join := Some (None, None),
       dt_sent := dt_sent d @ [tickets_getById (dt_id d), tickets_listComments (dt_id d) limit_100]\<rparr>"

definition detail_start :: "string \<Rightarrow> detail" where
  "detail_start i =
     \<lparr>dt_id = i, dt_loading = False, dt_posting = False, dt_ticket = None, dt_comments = [],
      dt_users = [], dt_body = [], dt_internal = False, dt_join = None, dt_pending = [],
      dt_next = 0, dt_messages = [], dt_sent = [], dt_acked = []\<rparr>"

definition detail_init :: "browser \<Rightarrow> string \<Rightarrow> detail" where
  "detail_init b i =
     load_detail (if isAdmin b then dispatch i UsersReq (users_list limit_100) (detail_start i)
                  else detail_start i)"

section \<open>The load\<close>

definition join_check :: "detail \<Rightarrow> detail" where
  "join_check d =
     (case dt_join d of
        Some (Some t, Some cs) \<Rightarrow>
          d\<lparr>dt_ticket := Some t, dt_comments := cs, dt_loading := False, dt_join := None\<rparr>
      | _ \<Rightarrow> d)"

definition ticket_arrived :: "ticket \<Rightarrow> detail \<Rightarrow> detail" where
  "ticket_arrived t d =
     (case dt_join d of None \<Rightarrow> d
      | Some (_, cs) \<Rightarrow> join_check (d\<lparr>dt_join := Some (Some t, cs)\<rparr>))"

definition comments_arrived :: "comment list \<Rightarrow> detail \<Rightarrow> detail" where
  "comments_arrived cs d =
     (case dt_join d of None \<Rightarrow> d
      | Some (t, _) \<Rightarrow> join_check (d\<lparr>dt_join := Some (t, Some cs)\<rparr>))"

definition join_failed :: "detail \<Rightarrow> detail" where
  "join_failed d =
     (case dt_join d of None \<Rightarrow> d | Some _ \<Rightarrow> d\<lparr>dt_join := None, dt_loading := False\<rparr>)"

section \<open>Labels\<close>

definition full_name :: "user_response \<Rightarrow> string" where
  "full_name u = ur_firstName u @ '' '' @ ur_lastName u"

definition authorLabel :: "browser \<Rightarrow> detail \<Rightarrow> comment \<Rightarrow> string" where
  "authorLabel b d c =
     (case usersById d (cm_authorId c) of
        Some u \<Rightarrow> full_name u
      | None \<Rightarrow> if map_option aud_id (br_user b) = Some (cm_authorId c) then ''You'' else ''User'')"

definition assigneeLabel :: "detail \<Rightarrow> string" where
  "assigneeLabel d =
     (case dt_ticket d of
        None \<Rightarrow> ''Unassigned''
      | Some t \<Rightarrow> (case tk_assignedToId t of
          None \<Rightarrow> ''Unassigned''
        | Some a \<Rightarrow>
            if a = [] then ''Unassigned''
            else (case usersById d a of Some u \<Rightarrow> full_name u | None \<Rightarrow> ''Assigned'')))"

text \<open>\<open>status.replace(/_/g, ' ').toLowerCase()\<close>; a status is ASCII.\<close>

definition ascii_lower :: "char \<Rightarrow> char" where
  "ascii_lower c = (if 65 \<le> (of_char c :: nat) \<and> (of_char c :: nat) \<le> 90
     then char_of ((of_char c :: nat) + 32) else c)"

definition spaced_lower :: "string \<Rightarrow> string" where
  "spaced_lower s = map (\<lambda>c. if c = CHR ''_'' then CHR '' '' else ascii_lower c) s"

section \<open>The actions\<close>

definition changeStatus :: "ticket_status \<Rightarrow> detail \<Rightarrow> detail" where
  "changeStatus st d =
     (case dt_ticket d of
        None \<Rightarrow> d
      | Some t \<Rightarrow>
          if tk_status t = st then d
          else dispatch (tk_id t) (StatusReq st)
                 (tickets_service_update (tk_id t) (JObj [(''status'', JStr (status_string st))])) d)"

definition assign :: "string \<Rightarrow> detail \<Rightarrow> detail" where
  "assign assigneeId d =
     (case dt_ticket d of
        None \<Rightarrow> d
      | Some t \<Rightarrow>
          if assigneeId = [] then d
          else dispatch (tk_id t) AssignReq (tickets_assign (tk_id t) assigneeId) d)"

definition assignToMe :: "browser \<Rightarrow> detail \<Rightarrow> detail" where
  "assignToMe b d = (case br_user b of None \<Rightarrow> d | Some me \<Rightarrow> assign (aud_id me) d)"

definition comment_payload :: "browser \<Rightarrow> detail \<Rightarrow> json" where
  "comment_payload b d = JObj
     [(''body'', JStr (dt_body d)),
      (''isInternal'', JBool (if isStaff b then dt_internal d else False))]"

definition comment_invalid :: "detail \<Rightarrow> bool" where
  "comment_invalid d \<longleftrightarrow> \<not> (v_required (dt_body d) \<and> v_minLength 1 (dt_body d))"

definition addComment :: "browser \<Rightarrow> detail \<Rightarrow> detail" where
  "addComment b d =
     (if comment_invalid d \<or> dt_posting d then d
      else case dt_ticket d of
        None \<Rightarrow> d
      | Some t \<Rightarrow> dispatch (tk_id t) CommentReq (tickets_addComment (tk_id t) (comment_payload b d))
                    (d\<lparr>dt_posting := True\<rparr>))"

definition type_comment :: "string \<Rightarrow> bool \<Rightarrow> detail \<Rightarrow> detail" where
  "type_comment text internal d = d\<lparr>dt_body := text, dt_internal := internal\<rparr>"

definition edit_closed :: "ticket option \<Rightarrow> detail \<Rightarrow> detail" where
  "edit_closed updated d = (if updated = None then d else d\<lparr>dt_ticket := updated\<rparr>)"

definition route_id_changed :: "string \<Rightarrow> detail \<Rightarrow> detail" where
  "route_id_changed i d = d\<lparr>dt_id := i\<rparr>"

section \<open>The answers\<close>

definition arrived :: "pending_request \<Rightarrow> detail \<Rightarrow> detail" where
  "arrived p d = d\<lparr>dt_pending := filter (\<lambda>q. pd_no q \<noteq> pd_no p) (dt_pending d)\<rparr>"

definition users_loaded :: "user_response list \<Rightarrow> detail \<Rightarrow> detail" where
  "users_loaded us d = d\<lparr>dt_users := us\<rparr>"

definition status_changed :: "ticket_status \<Rightarrow> ticket \<Rightarrow> detail \<Rightarrow> detail" where
  "status_changed st updated d =
     d\<lparr>dt_ticket := Some updated,
       dt_messages := dt_messages d @ [''Status set to '' @ spaced_lower (status_string st)]\<rparr>"

definition ticket_assigned :: "ticket \<Rightarrow> detail \<Rightarrow> detail" where
  "ticket_assigned updated d =
     d\<lparr>dt_ticket := Some updated, dt_messages := dt_messages d @ [''Ticket assigned'']\<rparr>"

definition comment_posted :: "comment \<Rightarrow> detail \<Rightarrow> detail" where
  "comment_posted c d =
     d\<lparr>dt_comments := dt_comments d @ [c], dt_body := [], dt_internal := False,
       dt_posting := False, dt_acked := dt_acked d @ [c]\<rparr>"

definition comment_failed :: "detail \<Rightarrow> detail" where
  "comment_failed d = d\<lparr>dt_posting := False\<rparr>"

text \<open>
  \<open>users\<close> swallows its error; \<open>changeStatus\<close> and \<open>assign\<close> have no \<open>error\<close> callback, so a failure
  leaves the screen as it is.
\<close>

definition request_failed :: "detail_request \<Rightarrow> detail \<Rightarrow> detail" where
  "request_failed rq d = (if rq = CommentReq then comment_failed d else d)"

section \<open>Histories of the screen\<close>

text \<open>
  One callback of the screen whose joined load is answered with the ticket and the comments of
  \<open>srv\<close>. The server answers a write on a ticket with that ticket.
\<close>

inductive detail_step :: "ticket \<times> comment list \<Rightarrow> detail \<Rightarrow> detail \<Rightarrow> bool" for srv where
  ds_ticket: "detail_step srv d (ticket_arrived (fst srv) d)"
| ds_comments: "detail_step srv d (comments_arrived (snd srv) d)"
| ds_join_failed: "detail_step srv d (join_failed d)"
| ds_type: "detail_step srv d (type_comment text internal d)"
| ds_status: "detail_step srv d (changeStatus st d)"
| ds_assign: "detail_step srv d (assign a d)"
| ds_assign_me: "detail_step srv d (assignToMe b d)"
| ds_comment: "detail_step srv d (addComment b d)"
| ds_edited: "dt_ticket d = Some t \<Longrightarrow> map_option tk_id u \<in> {None, Some (tk_id t)} \<Longrightarrow>
    detail_step srv d (edit_closed u d)"
| ds_route: "detail_step srv d (route_id_changed i d)"
| ds_users: "p \<in> set (dt_pending d) \<Longrightarrow> pd_kind p = UsersReq \<Longrightarrow>
    detail_step srv d (users_loaded us (arrived p d))"
| ds_status_set: "p \<in> set (dt_pending d) \<Longrightarrow> pd_kind p = StatusReq st \<Longrightarrow> tk_id t = pd_ticket p \<Longrightarrow>
    detail_step srv d (status_changed st t (arrived p d))"
| ds_assigned: "p \<in> set (dt_pending d) \<Longrightarrow> pd_kind p = AssignReq \<Longrightarrow> tk_id t = pd_ticket p \<Longrightarrow>
    detail_step srv d (ticket_assigned t (arrived p d))"
| ds_posted: "p \<in> set (dt_pending d) \<Longrightarrow> pd_kind p = CommentReq \<Longrightarrow>
    detail_step srv d (comment_posted c (arrived p d))"
| ds_failed: "p \<in> set (dt_pending d) \<Longrightarrow>
    detail_step srv d (request_failed (pd_kind p) (arrived p d))"

definition is_comment :: "pending_request \<Rightarrow> bool" where
  "is_comment p \<longleftrightarrow> pd_kind p = CommentReq"

definition addresses :: "string \<Rightarrow> api_call \<Rightarrow> bool" where
  "addresses i c \<longleftrightarrow> ac_method c = GET
     \<or> ac_url c = ''/api/tickets/'' @ i
     \<or> ac_url c = ''/api/tickets/'' @ i @ ''/assign''
     \<or> ac_url c = ''/api/tickets/'' @ i @ ''/comments''"

text \<open>The pending part and the content part of the invariant.\<close>

definition pending_ok :: "ticket \<times> comment list \<Rightarrow> detail \<Rightarrow> bool" where
  "pending_ok srv d \<longleftrightarrow>
     distinct (map pd_no (dt_pending d)) \<and> (\<forall>p\<in>set (dt_pending d). pd_no p < dt_next d)
     \<and> (\<forall>p\<in>set (dt_pending d). pd_kind p \<noteq> UsersReq \<longrightarrow>
          pd_ticket p = tk_id (fst srv) \<and> dt_ticket d \<noteq> None)
     \<and> length (filter is_comment (dt_pending d)) = (if dt_posting d then 1 else 0)"

definition content_ok :: "ticket \<times> comment list \<Rightarrow> detail \<Rightarrow> bool" where
  "content_ok srv d \<longleftrightarrow>
     (case dt_ticket d of
        None \<Rightarrow> dt_comments d = [] \<and> dt_acked d = []
          \<and> (\<forall>c\<in>set (dt_sent d). ac_method c = GET)
          \<and> (case dt_join d of None \<Rightarrow> True
             | Some (t, cs) \<Rightarrow> t \<in> {None, Some (fst srv)} \<and> cs \<in> {None, Some (snd srv)})
      | Some t \<Rightarrow> tk_id t = tk_id (fst srv) \<and> dt_join d = None
          \<and> dt_comments d = snd srv @ dt_acked d)
     \<and> (\<forall>c\<in>set (dt_sent d). addresses (tk_id (fst srv)) c)"

lemma arrived_pending:
  assumes "pending_ok srv d" and "p \<in> set (dt_pending d)"
  shows "pending_ok srv ((arrived p d)\<lparr>dt_posting := dt_posting d \<and> pd_kind p \<noteq> CommentReq\<rparr>)"
    and "is_comment p \<Longrightarrow> dt_posting d"
proof -
  let ?ps = "dt_pending d" and ?rest = "filter (\<lambda>q. pd_no q \<noteq> pd_no p) (dt_pending d)"
  have only: "q = p" if "q \<in> set ?ps" "pd_no q = pd_no p" for q
    using assms that by (auto simp: pending_ok_def distinct_map inj_on_def)
  have split: "length (filter is_comment ?ps)
      = length (filter is_comment ?rest) + (if is_comment p then 1 else 0)"
  proof -
    from assms(2) obtain xs ys where ps: "?ps = xs @ p # ys" by (meson split_list)
    with assms(1) have "\<forall>q\<in>set xs \<union> set ys. pd_no q \<noteq> pd_no p"
      by (auto simp: pending_ok_def image_iff)
    then have "filter (\<lambda>q. pd_no q \<noteq> pd_no p) xs = xs" "filter (\<lambda>q. pd_no q \<noteq> pd_no p) ys = ys"
      by (simp_all add: filter_id_conv)
    with ps show ?thesis by simp
  qed
  show "is_comment p \<Longrightarrow> dt_posting d" using assms split by (auto simp: pending_ok_def split: if_splits)
  with assms(1) split show "pending_ok srv ((arrived p d)\<lparr>dt_posting := dt_posting d \<and> pd_kind p \<noteq> CommentReq\<rparr>)"
    by (auto simp: pending_ok_def arrived_def is_comment_def distinct_map inj_on_def
        split: if_splits)
qed

lemma dispatch_pending:
  assumes "pending_ok srv d" and "dt_ticket d = Some t" and "tk_id t = tk_id (fst srv)"
    and "rq = CommentReq \<longleftrightarrow> posting" and "posting \<longrightarrow> \<not> dt_posting d"
  shows "pending_ok srv (dispatch (tk_id t) rq call (d\<lparr>dt_posting := dt_posting d \<or> posting\<rparr>))"
  using assms by (auto simp: pending_ok_def dispatch_def is_comment_def split: if_splits)

lemma content_Some:
  "content_ok srv d \<Longrightarrow> dt_ticket d = Some t \<Longrightarrow> tk_id t = tk_id (fst srv)"
  by (simp add: content_ok_def)

lemma dispatch_content:
  assumes "content_ok srv d" and "dt_ticket d = Some t" and "addresses (tk_id t) call"
  shows "content_ok srv (dispatch i rq call d)"
  using assms by (auto simp: content_ok_def dispatch_def)

lemma writes_address [simp]:
  "addresses i (tickets_service_update i p)" "addresses i (tickets_assign i a)"
  "addresses i (tickets_addComment i p)"
  by (simp_all add: addresses_def tickets_service_update_def tickets_assign_def tickets_addComment_def
      api_patch_def api_post_def baseUrl_def)

lemma content_ok_frame [simp]:
  "content_ok srv (d\<lparr>dt_posting := b\<rparr>) = content_ok srv d"
  "content_ok srv (d\<lparr>dt_pending := ps\<rparr>) = content_ok srv d"
  "content_ok srv (d\<lparr>dt_users := us\<rparr>) = content_ok srv d"
  "content_ok srv (d\<lparr>dt_body := text\<rparr>) = content_ok srv d"
  "content_ok srv (d\<lparr>dt_body := text, dt_internal := b\<rparr>) = content_ok srv d"
  "content_ok srv (d\<lparr>dt_id := i\<rparr>) = content_ok srv d"
  "content_ok srv (arrived p d) = content_ok srv d"
  by (cases "dt_ticket d"; simp add: content_ok_def arrived_def)+

lemma content_ok_ticket:
  "content_ok srv d \<Longrightarrow> dt_ticket d = Some t \<Longrightarrow> tk_id t' = tk_id t \<Longrightarrow>
    content_ok srv (d\<lparr>dt_ticket := Some t'\<rparr>)
    \<and> content_ok srv (d\<lparr>dt_ticket := Some t', dt_messages := ms\<rparr>)"
  by (simp add: content_ok_def)

lemma pending_ok_frame [simp]:
  "pending_ok srv (d\<lparr>dt_users := us\<rparr>) = pending_ok srv d"
  "pending_ok srv (d\<lparr>dt_body := text, dt_internal := b\<rparr>) = pending_ok srv d"
  "pending_ok srv (d\<lparr>dt_id := i\<rparr>) = pending_ok srv d"
  by (simp_all add: pending_ok_def)

definition detail_inv :: "ticket \<times> comment list \<Rightarrow> detail \<Rightarrow> bool" where
  "detail_inv srv d \<longleftrightarrow> pending_ok srv d \<and> content_ok srv d"

lemma inv_dispatch:
  assumes "detail_inv srv d" and "dt_ticket d = Some t" and "addresses (tk_id t) call"
    and "rq \<noteq> CommentReq"
  shows "detail_inv srv (dispatch (tk_id t) rq call d)"
proof -
  have "tk_id t = tk_id (fst srv)" using assms content_Some [of srv d t] by (simp add: detail_inv_def)
  with assms dispatch_pending [of srv d t rq False call] dispatch_content [of srv d t call]
  show ?thesis by (simp add: detail_inv_def)
qed

lemma inv_changeStatus: "detail_inv srv d \<Longrightarrow> detail_inv srv (changeStatus st d)"
  by (cases "dt_ticket d") (simp_all add: changeStatus_def inv_dispatch)

lemma inv_assign: "detail_inv srv d \<Longrightarrow> detail_inv srv (assign a d)"
  by (cases "dt_ticket d") (simp_all add: assign_def inv_dispatch)

lemma inv_addComment:
  assumes "detail_inv srv d"
  shows "detail_inv srv (addComment b d)"
proof (cases "comment_invalid d \<or> dt_posting d \<or> dt_ticket d = None")
  case False
  then obtain t where t: "dt_ticket d = Some t" and p: "\<not> dt_posting d" by auto
  have c: "content_ok srv (d\<lparr>dt_posting := True\<rparr>)" "pending_ok srv d"
    using assms by (simp_all add: detail_inv_def)
  have "pending_ok srv (dispatch (tk_id t) CommentReq call (d\<lparr>dt_posting := True\<rparr>))" for call
    using dispatch_pending [OF c(2) t, of CommentReq True call] content_Some [of srv d t] t p c(1) by simp
  moreover have "content_ok srv (dispatch (tk_id t) CommentReq
      (tickets_addComment (tk_id t) payload) (d\<lparr>dt_posting := True\<rparr>))" for payload
    using t by (intro dispatch_content [OF c(1), of t]) simp_all
  ultimately show ?thesis using False t by (simp add: addComment_def detail_inv_def)
qed (use assms in \<open>auto simp: addComment_def\<close>)

lemma inv_join_check:
  assumes "pending_ok srv d" and "content_ok srv d"
  shows "detail_inv srv (join_check d)"
proof (cases "\<exists>t cs. dt_join d = Some (Some t, Some cs)")
  case True
  then obtain t cs where j: "dt_join d = Some (Some t, Some cs)" by blast
  with assms(2) have "dt_ticket d = None" by (auto simp: content_ok_def split: option.splits)
  with assms j show ?thesis
    by (simp add: detail_inv_def join_check_def pending_ok_def content_ok_def)
next
  case False
  then have "join_check d = d" by (auto simp: join_check_def split: option.split)
  with assms show ?thesis by (simp add: detail_inv_def)
qed

lemma inv_load_answers:
  assumes "detail_inv srv d"
  shows "detail_inv srv (ticket_arrived (fst srv) d)"
    and "detail_inv srv (comments_arrived (snd srv) d)" and "detail_inv srv (join_failed d)"
proof -
  have p: "pending_ok srv (d\<lparr>dt_join := j\<rparr>)" "pending_ok srv (d\<lparr>dt_join := j, dt_loading := b\<rparr>)" for j b
    using assms by (simp_all add: detail_inv_def pending_ok_def)
  show "detail_inv srv (ticket_arrived (fst srv) d)"
  proof (cases "dt_join d")
    case (Some j)
    with assms have "content_ok srv (d\<lparr>dt_join := Some (Some (fst srv), snd j)\<rparr>)"
      by (cases "dt_ticket d") (auto simp: detail_inv_def content_ok_def)
    with Some p show ?thesis by (auto simp: ticket_arrived_def inv_join_check split: prod.split)
  qed (use assms in \<open>simp add: ticket_arrived_def\<close>)
  show "detail_inv srv (comments_arrived (snd srv) d)"
  proof (cases "dt_join d")
    case (Some j)
    with assms have "content_ok srv (d\<lparr>dt_join := Some (fst j, Some (snd srv))\<rparr>)"
      by (cases "dt_ticket d") (auto simp: detail_inv_def content_ok_def)
    with Some p show ?thesis by (auto simp: comments_arrived_def inv_join_check split: prod.split)
  qed (use assms in \<open>simp add: comments_arrived_def\<close>)
  show "detail_inv srv (join_failed d)"
    using assms p by (cases "dt_join d"; cases "dt_ticket d")
      (auto simp: join_failed_def detail_inv_def content_ok_def)
qed

lemma inv_answers:
  assumes "detail_inv srv d" and "p \<in> set (dt_pending d)"
  shows "pd_kind p = UsersReq \<Longrightarrow> detail_inv srv (users_loaded us (arrived p d))"
    and "pd_kind p = StatusReq st \<Longrightarrow> tk_id t = pd_ticket p \<Longrightarrow>
      detail_inv srv (status_changed st t (arrived p d))"
    and "pd_kind p = AssignReq \<Longrightarrow> tk_id t = pd_ticket p \<Longrightarrow>
      detail_inv srv (ticket_assigned t (arrived p d))"
    and "pd_kind p = CommentReq \<Longrightarrow> detail_inv srv (comment_posted c (arrived p d))"
    and "detail_inv srv (request_failed (pd_kind p) (arrived p d))"
proof -
  have ok: "pending_ok srv d" "content_ok srv d" using assms(1) by (simp_all add: detail_inv_def)
  note a = arrived_pending [OF ok(1) assms(2)]
  have for_ticket: "pd_ticket p = tk_id (fst srv) \<and> (\<exists>t. dt_ticket d = Some t)"
    if "pd_kind p \<noteq> UsersReq"
    using that ok(1) assms(2) by (auto simp: pending_ok_def)
  show "detail_inv srv (users_loaded us (arrived p d))" if "pd_kind p = UsersReq"
    using that a ok(2)
    by (simp add: detail_inv_def users_loaded_def) (simp add: pending_ok_def arrived_def)
  show "detail_inv srv (status_changed st t (arrived p d))"
    if "pd_kind p = StatusReq st" "tk_id t = pd_ticket p"
  proof -
    from that for_ticket obtain u where d: "dt_ticket d = Some u" by auto
    with that for_ticket content_Some [OF ok(2) d]
    have u: "dt_ticket (arrived p d) = Some u" "tk_id t = tk_id u" by (simp_all add: arrived_def)
    have "content_ok srv (status_changed st t (arrived p d))"
      using content_ok_ticket [OF _ u] ok(2) by (simp add: status_changed_def)
    with that a show ?thesis
      by (simp add: detail_inv_def) (simp add: status_changed_def pending_ok_def arrived_def)
  qed
  show "detail_inv srv (ticket_assigned t (arrived p d))"
    if "pd_kind p = AssignReq" "tk_id t = pd_ticket p"
  proof -
    from that for_ticket obtain u where d: "dt_ticket d = Some u" by auto
    with that for_ticket content_Some [OF ok(2) d]
    have u: "dt_ticket (arrived p d) = Some u" "tk_id t = tk_id u" by (simp_all add: arrived_def)
    have "content_ok srv (ticket_assigned t (arrived p d))"
      using content_ok_ticket [OF _ u] ok(2) by (simp add: ticket_assigned_def)
    with that a show ?thesis
      by (simp add: detail_inv_def) (simp add: ticket_assigned_def pending_ok_def arrived_def)
  qed
  show "detail_inv srv (comment_posted c (arrived p d))" if "pd_kind p = CommentReq"
  proof -
    from that for_ticket obtain u where u: "dt_ticket d = Some u" by auto
    have "content_ok srv (comment_posted c (arrived p d))"
      using ok(2) u by (simp add: content_ok_def comment_posted_def arrived_def)
    with that a show ?thesis
      by (simp add: detail_inv_def) (simp add: comment_posted_def pending_ok_def arrived_def)
  qed
  show "detail_inv srv (request_failed (pd_kind p) (arrived p d))"
    using a ok(2)
    by (cases "pd_kind p"; simp add: detail_inv_def request_failed_def comment_failed_def;
        simp add: pending_ok_def arrived_def)
qed

lemma inv_detail_step:
  assumes "detail_step srv d d'" and "detail_inv srv d"
  shows "detail_inv srv d'"
  using assms
proof (induction rule: detail_step.induct)
  case (ds_assign_me d b)
  then show ?case by (simp add: assignToMe_def inv_assign split: option.split)
next
  case (ds_edited d t u)
  have p: "pending_ok srv (d\<lparr>dt_ticket := Some x\<rparr>)" for x
    using ds_edited.prems by (simp add: detail_inv_def pending_ok_def)
  have "content_ok srv (d\<lparr>dt_ticket := Some x\<rparr>)" if "tk_id x = tk_id t" for x
    using ds_edited that content_ok_ticket [of srv d t x] by (simp add: detail_inv_def)
  with ds_edited p show ?case by (auto simp: edit_closed_def detail_inv_def)
qed (simp_all add: inv_load_answers inv_changeStatus inv_assign inv_addComment inv_answers
    type_comment_def route_id_changed_def, simp_all add: detail_inv_def)

lemma inv_detail_init: "detail_inv srv (detail_init b i)"
  by (auto simp: detail_inv_def pending_ok_def content_ok_def detail_init_def load_detail_def
      dispatch_def detail_start_def is_comment_def addresses_def tickets_getById_def
      tickets_listComments_def users_list_def api_get_def)

lemma inv_detail_reachable:
  "(detail_step srv)\<^sup>*\<^sup>* (detail_init b i) d \<Longrightarrow> detail_inv srv d"
  by (induction rule: rtranclp_induct) (auto intro: inv_detail_init inv_detail_step)

text \<open>
  C35. The ticket screen stays with its ticket. In every history of the screen, whatever is typed,
  pressed and answered in whatever order: everything it ever writes is addressed to the ticket its
  load was answered with, which is also the one it shows (and, since the load runs once, keeps
  showing after the route has moved to another ticket); at most one comment is on its way, exactly
  while the button says so; the thread shown is the loaded one followed by the confirmed comments
  in the order of their confirmation, each once; and nothing is written before the load is
  complete.
\<close>

theorem detail_history:
  assumes "(detail_step srv)\<^sup>*\<^sup>* (detail_init b i) d"
  shows "(\<forall>c\<in>set (dt_sent d). addresses (tk_id (fst srv)) c)
    \<and> length (filter is_comment (dt_pending d)) = (if dt_posting d then 1 else 0)
    \<and> (case dt_ticket d of
         None \<Rightarrow> dt_comments d = [] \<and> (\<forall>c\<in>set (dt_sent d). ac_method c = GET)
       | Some t \<Rightarrow> tk_id t = tk_id (fst srv) \<and> dt_comments d = snd srv @ dt_acked d)"
  using inv_detail_reachable [OF assms]
  by (cases "dt_ticket d") (simp_all add: detail_inv_def pending_ok_def content_ok_def)

definition fx_signed_in :: "role \<Rightarrow> browser" where
  "fx_signed_in r = \<lparr>br_access = Some ''a'', br_refresh = Some ''r'',
     br_user = Some (toAuthUser (fx_user ''alex'' r ''acme'')), br_initialized = True,
     br_refreshing = False, br_refreshed = None, br_queue = [], br_flights = [], br_calls = [],
     br_done = [], br_next = 0, br_location = ''/tickets/t1''\<rparr>"

definition fx_loaded :: "ticket \<times> comment list" where
  "fx_loaded = (fx_ticket ''t1'' ''TKT-000001'' ''acme'' ''carol'', [fx_comment ''c1'' False])"

theorem detail_history_witness:
  "\<exists>d :: detail. dt_id d = ''t2'' \<and> dt_posting d \<and> map ac_method (dt_sent d) = [GET, GET, POST]
     \<and> (\<forall>c\<in>set (dt_sent d). addresses ''t1'' c)
     \<and> length (filter is_comment (dt_pending d)) = 1"
proof -
  let ?b = "fx_signed_in AGENT"
  let ?d0 = "detail_init ?b ''t1''"
  let ?d1 = "ticket_arrived (fst fx_loaded) ?d0"
  let ?d2 = "comments_arrived (snd fx_loaded) ?d1"
  let ?d3 = "route_id_changed ''t2'' ?d2"
  let ?d4 = "type_comment ''On my way'' False ?d3"
  let ?d5 = "addComment ?b ?d4"
  have "(detail_step fx_loaded)\<^sup>*\<^sup>* ?d0 ?d5"
    by (meson detail_step.intros rtranclp.rtrancl_refl rtranclp.rtrancl_into_rtrancl)
  note h = detail_history [OF this]
  have e: "dt_id ?d5 = ''t2''" "dt_posting ?d5" "map ac_method (dt_sent ?d5) = [GET, GET, POST]"
    "tk_id (fst fx_loaded) = ''t1''" by code_simp+
  show ?thesis
    by (rule exI [of _ ?d5]) (use h e in simp)
qed

section \<open>The actions against the server\<close>

lemma posting_blocks [simp]: "dt_posting d \<Longrightarrow> addComment b d = d"
  by (simp add: addComment_def)

lemma staff_roles [simp]:
  "br_user b = Some me \<Longrightarrow> isStaff b \<longleftrightarrow> aud_role me \<noteq> CUSTOMER"
  by (cases "aud_role me") (simp_all add: isStaff_def hasRole_def)

text \<open>
  A comment is stored as it was typed. When the box holds a text that the form and the server's limits
  accept and no comment is on its way, the button sends exactly one request; its body passes the validators,
  and if the server stores it, the stored comment has the text of the box, is internal exactly if
  the writer is staff and has ticked the note, and is appended to the thread on the screen.
\<close>

theorem comment_as_typed:
  assumes "dt_ticket d = Some t" and "\<not> dt_posting d" and "between len 1 5000 (dt_body d)"
    and "\<not> comment_invalid d" and "br_user b = Some me" and "aud_role me = au_role actor"
  shows "\<exists>kvs dto. dt_sent (addComment b d)
        = dt_sent d @ [tickets_addComment (tk_id t) (JObj kvs)]
    \<and> addComment b (addComment b d) = addComment b d
    \<and> validate_create_comment len kvs = Some dto
    \<and> (case create_comment actor (tk_id t) dto cid w of (Inl e, w') \<Rightarrow> True
       | (Inr c, w') \<Rightarrow> cm_body c = dt_body d
           \<and> cm_isInternal c = (au_role actor \<noteq> CUSTOMER \<and> dt_internal d)
           \<and> dt_comments (comment_posted c (addComment b d)) = dt_comments d @ [c])"
proof -
  define flag where "flag = (if isStaff b then dt_internal d else False)"
  let ?kvs = "[(''body'', JStr (dt_body d)), (''isInternal'', JBool flag)]"
  let ?dto = "\<lparr>cc_body = dt_body d, cc_isInternal = Val flag\<rparr>"
  have sent: "addComment b d = dispatch (tk_id t) CommentReq
      (tickets_addComment (tk_id t) (JObj ?kvs)) (d\<lparr>dt_posting := True\<rparr>)"
    using assms(1,2,4) by (simp add: addComment_def comment_payload_def flag_def)
  have valid: "validate_create_comment len ?kvs = Some ?dto"
    using assms(3) by (simp add: validate_create_comment_def whitelisted_def read_prop_as_def
        required_def read_string_def read_bool_def)
  have stored: "cm_body c = dt_body d \<and> cm_isInternal c = (au_role actor \<noteq> CUSTOMER \<and> dt_internal d)"
    if "create_comment actor (tk_id t) ?dto cid w = (Inr c, w')" for c w'
    using create_comment_okD [OF that] assms(5,6) by (simp add: internal_flag_def flag_def)
  show ?thesis
    by (rule exI [of _ ?kvs], rule exI [of _ ?dto], intro conjI valid)
      (auto simp: sent dispatch_def comment_posted_def dest!: stored split: prod.split sum.split)
qed

theorem comment_as_typed_witness:
  "\<exists>kvs dto. validate_create_comment utf16_length kvs = Some dto
     \<and> succeeds (create_comment alex ''t1'' dto None) (fx_world fx_db)
     \<and> (case create_comment alex ''t1'' dto None (fx_world fx_db) of (Inl e, w') \<Rightarrow> False
        | (Inr c, w') \<Rightarrow> cm_body c = ''psst'' \<and> cm_isInternal c)"
proof -
  let ?b = "fx_signed_in AGENT" and ?w = "fx_world fx_db"
  let ?d = "type_comment ''psst'' True (comments_arrived (snd fx_loaded)
    (ticket_arrived (fst fx_loaded) (detail_init (fx_signed_in AGENT) ''t1'')))"
  have d: "dt_ticket ?d = Some (fst fx_loaded)" "\<not> dt_posting ?d" "\<not> comment_invalid ?d"
    "between utf16_length 1 5000 (dt_body ?d)" "dt_body ?d = ''psst''" "dt_internal ?d"
    "tk_id (fst fx_loaded) = ''t1''" by code_simp+
  have b: "br_user ?b = Some (toAuthUser (fx_user ''alex'' AGENT ''acme''))"
    "aud_role (toAuthUser (fx_user ''alex'' AGENT ''acme'')) = au_role alex" "au_role alex = AGENT"
    by (simp_all add: fx_signed_in_def toAuthUser_def fixtures)
  obtain kvs dto where r: "validate_create_comment utf16_length kvs = Some dto"
    "dt_sent (addComment ?b ?d) = dt_sent ?d @ [tickets_addComment ''t1'' (JObj kvs)]"
    "case create_comment alex ''t1'' dto None ?w of (Inl e, w') \<Rightarrow> True
       | (Inr c, w') \<Rightarrow> cm_body c = ''psst'' \<and> cm_isInternal c = True"
    using comment_as_typed [OF d(1,2,4,3) b(1,2), of None ?w]
    unfolding d(5,7) using d(6) b(3)
    by (elim exE conjE) (auto split: prod.splits sum.splits)
  have "dt_sent (addComment ?b ?d) = dt_sent ?d @ [tickets_addComment ''t1''
      (JObj [(''body'', JStr ''psst''), (''isInternal'', JBool True)])]" by code_simp
  with r(2) have "kvs = [(''body'', JStr ''psst''), (''isInternal'', JBool True)]"
    by (simp add: tickets_addComment_def api_post_def)
  moreover have "validate_create_comment utf16_length
      [(''body'', JStr ''psst''), (''isInternal'', JBool True)]
      = Some \<lparr>cc_body = ''psst'', cc_isInternal = Val True\<rparr>" by code_simp
  moreover have "succeeds (create_comment alex ''t1''
      \<lparr>cc_body = ''psst'', cc_isInternal = Val True\<rparr> None) ?w" by code_simp
  ultimately have "succeeds (create_comment alex ''t1'' dto None) ?w" using r(1) by simp
  with r(1,3) show ?thesis
    by (intro exI [of _ kvs] exI [of _ dto])
      (auto simp: succeeds_def split: prod.splits sum.splits)
qed

text \<open>The server accepts an assignee that is an active member of the staff.\<close>

lemma assign_ticket_succeeds:
  assumes "distinct (map tk_id (tickets (w_db w)))" and "t \<in> set (tickets (w_db w))"
    and "can_access actor t" and "v \<in> set (users (w_db w))" and "assignable actor a v"
    and "\<forall>r\<in>set (outbox (w_db w)). ob_id r \<noteq> w_uuid w (w_next w)"
  shows "\<exists>w'. assign_ticket actor (tk_id t) \<lparr>at_assigneeId = a\<rparr> cid w
    = (Inr (apply_assign a (w_now w) t), w')"
proof -
  let ?new = "apply_assign a (w_now w) t"
  let ?tx = "andThen (andThen current_time (\<lambda>n. ticket_update (tk_id t) (apply_assign a n)))
    (\<lambda>k. andThen (enqueue RK_TicketAssigned (ticket_assigned_payload k a (au_id actor)) cid)
      (\<lambda>_. ret k))"
  have f: "find_ticket actor (tk_id t) w = (Inr t, w)"
    using assms(1-3) find_ticket_ok by blast
  obtain x where x: "List.find (assignable actor a) (users (w_db w)) = Some x"
    using assms(4,5) find_NoneD [of "assignable actor a" "users (w_db w)"]
    by (cases "List.find (assignable actor a) (users (w_db w))") auto
  have "user_exists (w_db w) a" using assms(4,5) by (auto simp: user_exists_def assignable_def list_ex_iff)
  then have ok: "assignee_ok (w_db w) ?new" by (simp add: assignee_ok_def apply_assign_def)
  obtain v where v: "ticket_update (tk_id t) (apply_assign a (w_now w)) w = (Inr ?new, v)"
    "outbox (w_db v) = outbox (w_db w)" "w_uuid v = w_uuid w" "w_next v = w_next w"
    using find_by_mem [OF assms(1,2)] ok by (simp add: ticket_update_def)
  have "\<exists>w'. enqueue RK_TicketAssigned p cid v = (Inr (), w')" for p
    using assms(6) v(2-4) by (subst enqueue_fresh) simp_all
  then obtain w' where "enqueue RK_TicketAssigned
      (ticket_assigned_payload ?new a (au_id actor)) cid v = (Inr (), w')" by blast
  then have "?tx w = (Inr ?new, w')" using v(1) by (simp add: andThen_def run_basic)
  then have "transaction ?tx w = (Inr ?new, w')" by (simp add: transaction_def)
  then show ?thesis using f x by (auto simp: assign_ticket_def andThen_def run_basic)
qed

text \<open>
  Everyone the screen offers as an assignee can be assigned. The list of users an administrator
  sees comes from the server's user list; whoever the screen offers of it is, picking them sends
  one well-formed request, and the server, whose data have not changed since, assigns the ticket:
  the filter of the screen (no customers, only active users) is the server's own condition.
\<close>

theorem offered_assignees_assignable:
  assumes "permutes_rows ord"
    and "find_users ord ilike (au_organizationId actor) q w = (Inr page, w')"
    and "u \<in> set (assignableUsers (users_loaded (items page) d))"
    and "dt_ticket d = Some t" and "ur_id u \<noteq> []" and "isUUID (ur_id u)"
    and "distinct (map tk_id (tickets (w_db w)))" and "t \<in> set (tickets (w_db w))"
    and "can_access actor t" and "\<forall>r\<in>set (outbox (w_db w)). ob_id r \<noteq> w_uuid w (w_next w)"
  shows "\<exists>dto t' w''. dt_sent (assign (ur_id u) d)
        = dt_sent d @ [tickets_assign (tk_id t) (ur_id u)]
    \<and> validate_assign_ticket isUUID [(''assigneeId'', JStr (ur_id u))] = Some dto
    \<and> assign_ticket actor (tk_id t) dto cid w = (Inr t', w'')
    \<and> tk_assignedToId t' = Some (ur_id u) \<and> tk_status t' = IN_PROGRESS"
proof -
  let ?where = "users_where ilike (au_organizationId actor) q"
  from assms(2,3) have u: "u \<in> userSelect ` set (find_many ord ?where
      (toPrismaOrderBy (q_sort (uq_page q)) USERS_SORTABLE default_order)
      (toPrismaPage (uq_page q)) (users (w_db w)))" "ur_role u \<noteq> CUSTOMER" "ur_isActive u"
    by (auto simp: find_users_def run_basic Let_def buildPaginatedResult_def assignableUsers_def
        users_loaded_def)
  then obtain v where v: "u = userSelect v" "v \<in> set (users (w_db w))" "?where v"
    using find_many_sound [OF assms(1)] by blast
  then have "assignable actor (ur_id u) v"
    using u(2,3) by (cases "u_role v") (auto simp: assignable_def userSelect_def users_where_def)
  from assign_ticket_succeeds [OF assms(7-9) v(2) this assms(10)] obtain w'' where
    run: "assign_ticket actor (tk_id t) \<lparr>at_assigneeId = ur_id u\<rparr> cid w
      = (Inr (apply_assign (ur_id u) (w_now w) t), w'')" by blast
  have sent: "dt_sent (assign (ur_id u) d) = dt_sent d @ [tickets_assign (tk_id t) (ur_id u)]"
    using assms(4,5) by (simp add: assign_def dispatch_def)
  have "validate_assign_ticket isUUID [(''assigneeId'', JStr (ur_id u))]
      = Some \<lparr>at_assigneeId = ur_id u\<rparr>"
    using assms(6) by (simp add: validate_assign_ticket_def whitelisted_def read_prop_as_def
        required_def read_string_def)
  with run sent show ?thesis by (auto simp: apply_assign_def)
qed

definition fx_user_query :: user_query where
  "fx_user_query = \<lparr>uq_page = fx_first_page, uq_role = None\<rparr>"

theorem offered_assignees_assignable_witness:
  "\<exists>t' w''. assign_ticket ada ''t1'' \<lparr>at_assigneeId = ''alex''\<rparr> None (fx_world fx_db) = (Inr t', w'')
     \<and> tk_assignedToId t' = Some ''alex''"
proof -
  let ?w = "fx_world fx_db" and ?ord = "\<lambda>_ (xs :: user list). xs"
  let ?find = "find_users ?ord (\<lambda>_ _. True) (au_organizationId ada) fx_user_query"
  let ?d = "comments_arrived (snd fx_loaded)
    (ticket_arrived (fst fx_loaded) (detail_init (fx_signed_in ADMIN) ''t1''))"
  have ord: "permutes_rows ?ord" by (simp add: permutes_rows_def)
  have "succeeds ?find ?w" by code_simp
  then obtain page v where r: "?find ?w = (Inr page, v)" by (elim succeedsE) (rule that)
  have "case fst (?find ?w) of Inl _ \<Rightarrow> False
    | Inr p \<Rightarrow> list_ex (\<lambda>u. u = userSelect (fx_user ''alex'' AGENT ''acme''))
        (assignableUsers (users_loaded (items p) ?d))" by code_simp
  then have u: "userSelect (fx_user ''alex'' AGENT ''acme'')
      \<in> set (assignableUsers (users_loaded (items page) ?d))"
    unfolding r fst_conv sum.case list_ex_iff by blast
  have d: "dt_ticket ?d = Some (fst fx_loaded)" by code_simp
  have i: "ur_id (userSelect (fx_user ''alex'' AGENT ''acme'')) = ''alex''"
    by (simp add: userSelect_def fx_user_def)
  have t: "fst fx_loaded \<in> set (tickets (w_db ?w))" "can_access ada (fst fx_loaded)"
    "tk_id (fst fx_loaded) = ''t1''" "\<forall>r\<in>set (outbox (w_db ?w)). ob_id r \<noteq> w_uuid ?w (w_next ?w)"
    by (simp_all add: fx_loaded_def fixtures can_access_def)
  obtain dto t' w'' where
    "validate_assign_ticket (\<lambda>_. True) [(''assigneeId'', JStr ''alex'')] = Some dto"
    "assign_ticket ada ''t1'' dto None ?w = (Inr t', w'')" "tk_assignedToId t' = Some ''alex''"
    using offered_assignees_assignable [OF ord r u d, where isUUID = "\<lambda>_. True" and cid = None,
        unfolded i, OF _ _ fx_ticket_ids t(1,2,4), unfolded t(3)]
    by auto
  moreover from this(1) have "dto = \<lparr>at_assigneeId = ''alex''\<rparr>"
    by (simp add: validate_assign_ticket_def whitelisted_def read_prop_as_def required_def
        read_string_def)
  ultimately show ?thesis by blast
qed

end
