(* ===== verification/Layout.thy ===== *)
theory Layout
  imports TicketDetail
begin

text \<open>
  The shell around the screens (\<open>layouts/main-layout\<close>): the navigation entries, and the
  notification menu with the badge that \<open>services/notifications.service.ts\<close> keeps; and the
  dashboard (\<open>features/dashboard\<close>) with its five joined queries. The server's side of the same
  operations is in \<open>ReadModels\<close> and \<open>Tickets\<close>.
\<close>

section \<open>Navigation\<close>

record nav_item =
  ni_label :: string
  ni_icon :: string
  ni_route :: string
  ni_roles :: "role list option"

definition nav :: "nav_item list" where
  "nav =
     [\<lparr>ni_label = ''Dashboard'', ni_icon = ''dashboard'',
         ni_route = ''/dashboard'', ni_roles = None\<rparr>,
      \<lparr>ni_label = ''Tickets'', ni_icon = ''confirmation_number'',
         ni_route = ''/tickets'', ni_roles = None\<rparr>,
      \<lparr>ni_label = ''Users'', ni_icon = ''group'',
         ni_route = ''/users'', ni_roles = Some [ADMIN]\<rparr>,
      \<lparr>ni_label = ''Organizations'', ni_icon = ''corporate_fare'',
         ni_route = ''/organizations'', ni_roles = Some [ADMIN]\<rparr>]"

definition visibleNav :: "browser \<Rightarrow> nav_item list" where
  "visibleNav b =
     filter (\<lambda>i. case ni_roles i of None \<Rightarrow> True | Some rs \<Rightarrow> hasRole rs b) nav"

text \<open>\<open>app.routes.ts\<close>: the roles in the route data; only routes with data have the role guard.\<close>

definition route_roles :: "(string \<times> role list option) list" where
  "route_roles = [(''/dashboard'', None), (''/tickets'', None), (''/users'', Some [ADMIN]),
     (''/organizations'', Some [ADMIN])]"

definition enter_route :: "role list option \<Rightarrow> string \<Rightarrow> browser \<Rightarrow> navigation" where
  "enter_route roles url b =
     (case authGuard url b of
        Allow \<Rightarrow> (case roles of None \<Rightarrow> Allow | Some rs \<Rightarrow> roleGuard (Some rs) b)
      | r \<Rightarrow> r)"

section \<open>The notification menu\<close>

record layout_state =
  ly_unread :: nat
  ly_notifications :: "notification list"
  ly_sent :: "api_call list"
  ly_location :: string

definition send_call :: "api_call \<Rightarrow> layout_state \<Rightarrow> layout_state" where
  "send_call c l = l\<lparr>ly_sent := ly_sent l @ [c]\<rparr>"

definition layout_init :: "string \<Rightarrow> layout_state" where
  "layout_init url = send_call notifications_unread
     \<lparr>ly_unread = 0, ly_notifications = [], ly_sent = [], ly_location = url\<rparr>"

definition unread_refreshed :: "nat \<Rightarrow> layout_state \<Rightarrow> layout_state" where
  "unread_refreshed n l = l\<lparr>ly_unread := n\<rparr>"

definition loadNotifications :: "layout_state \<Rightarrow> layout_state" where
  "loadNotifications l = send_call (notifications_list [(''limit'', Some (JNum 6))]) l"

definition notifications_loaded :: "notification list \<Rightarrow> layout_state \<Rightarrow> layout_state" where
  "notifications_loaded ns l = l\<lparr>ly_notifications := ns\<rparr>"

definition go_to_ticket :: "notification \<Rightarrow> layout_state \<Rightarrow> layout_state" where
  "go_to_ticket n l =
     (case nt_ticketId n of
        None \<Rightarrow> l
      | Some i \<Rightarrow> if i = [] then l else l\<lparr>ly_location := ''/tickets/'' @ i\<rparr>)"

definition openNotification :: "notification \<Rightarrow> layout_state \<Rightarrow> layout_state" where
  "openNotification n l =
     (if \<not> nt_isRead n then send_call (notifications_markRead (nt_id n)) l else go_to_ticket n l)"

text \<open>The answer of \<open>markRead\<close>: the service's \<open>tap\<close> first, then the callback of the menu.\<close>

definition read_acknowledged :: "notification \<Rightarrow> layout_state \<Rightarrow> layout_state" where
  "read_acknowledged n l =
     go_to_ticket n (l\<lparr>ly_unread := (if 0 < ly_unread l then ly_unread l - 1 else 0)\<rparr>)"

definition read_failed :: "notification \<Rightarrow> layout_state \<Rightarrow> layout_state" where
  "read_failed n l = go_to_ticket n l"

definition layout_markAllRead :: "layout_state \<Rightarrow> layout_state" where
  "layout_markAllRead l = send_call notifications_markAllRead l"

definition all_read_acknowledged :: "layout_state \<Rightarrow> layout_state" where
  "all_read_acknowledged l =
     l\<lparr>ly_unread := 0,
       ly_notifications := map (\<lambda>n. n\<lparr>nt_isRead := True\<rparr>) (ly_notifications l)\<rparr>"

section \<open>The dashboard\<close>

record stat_card =
  st_label :: string
  st_value :: nat
  st_token :: string

record dashboard =
  db_loading :: bool
  db_stats :: "stat_card list"
  db_recent :: "ticket list"

definition count_query :: "ticket_status option \<Rightarrow> (string \<times> json option) list" where
  "count_query st = (''limit'', Some (JNum 1)) #
     (case st of None \<Rightarrow> [] | Some s \<Rightarrow> [(''status'', Some (JStr (status_string s)))])"

definition recent_query :: "(string \<times> json option) list" where
  "recent_query = [(''limit'', Some (JNum 5)), (''sort'', Some (JStr ''createdAt:desc''))]"

definition dashboard_init :: "dashboard \<times> api_call list" where
  "dashboard_init = (\<lparr>db_loading = True, db_stats = [], db_recent = []\<rparr>,
     map tickets_list [count_query None, count_query (Some OPEN), count_query (Some IN_PROGRESS),
       count_query (Some RESOLVED), recent_query])"

text \<open>What \<open>forkJoin\<close> emits once all five are answered: the four totals and the recent rows.\<close>

definition dashboard_loaded ::
  "nat \<Rightarrow> nat \<Rightarrow> nat \<Rightarrow> nat \<Rightarrow> ticket list \<Rightarrow> dashboard \<Rightarrow> dashboard" where
  "dashboard_loaded all_tickets opened inProgress resolved recent d =
     d\<lparr>db_stats :=
         [\<lparr>st_label = ''Open'', st_value = opened, st_token = ''open''\<rparr>,
          \<lparr>st_label = ''In progress'', st_value = inProgress, st_token = ''in_progress''\<rparr>,
          \<lparr>st_label = ''Resolved'', st_value = resolved, st_token = ''resolved''\<rparr>,
          \<lparr>st_label = ''Total tickets'', st_value = all_tickets, st_token = ''closed''\<rparr>],
       db_recent := recent, db_loading := False\<rparr>"

definition dashboard_failed :: "dashboard \<Rightarrow> dashboard" where
  "dashboard_failed d = d\<lparr>db_loading := False\<rparr>"

section \<open>Labels of enum tokens\<close>

definition ascii_upper :: "char \<Rightarrow> char" where
  "ascii_upper c = (if 97 \<le> (of_char c :: nat) \<and> (of_char c :: nat) \<le> 122
     then char_of ((of_char c :: nat) - 32) else c)"

text \<open>\<open>HumanizePipe.transform\<close>, on tokens of ASCII characters.\<close>

definition humanize :: "string option \<Rightarrow> string" where
  "humanize v =
     (case v of
        None \<Rightarrow> []
      | Some s \<Rightarrow> (case spaced_lower s of [] \<Rightarrow> [] | c # cs \<Rightarrow> ascii_upper c # cs))"

section \<open>What the shell shows\<close>

text \<open>
  The menu offers exactly the sections the router lets one into: for a signed-in user an entry
  is visible if and only if the guards of its route admit the user, and without a user every
  section leads to the login page.
\<close>

theorem nav_matches_guards:
  assumes "i \<in> set nav"
  shows "\<exists>roles. map_of route_roles (ni_route i) = Some roles
    \<and> (if isAuthenticated b
       then i \<in> set (visibleNav b) \<longleftrightarrow> enter_route roles (ni_route i) b = Allow
       else enter_route roles (ni_route i) b = RedirectTo ''/auth/login'' (Some (ni_route i)))"
proof -
  have r: "map_of route_roles (ni_route i) = Some (ni_roles i)" "ni_roles i \<noteq> Some []"
    using assms by (auto simp: nav_def route_roles_def)
  have v: "i \<in> set (visibleNav b) \<longleftrightarrow> (case ni_roles i of None \<Rightarrow> True | Some rs \<Rightarrow> hasRole rs b)"
    using assms by (simp add: visibleNav_def)
  show ?thesis
    unfolding v using r
    by (cases "ni_roles i") (simp_all add: enter_route_def authGuard_def roleGuard_def Let_def)
qed

theorem nav_matches_guards_witness:
  "nav ! 2 \<notin> set (visibleNav (fx_signed_in AGENT)) \<and> nav ! 2 \<in> set (visibleNav (fx_signed_in ADMIN))
   \<and> enter_route (Some [ADMIN]) ''/users'' (fx_signed_in AGENT) = RedirectTo ''/dashboard'' None
   \<and> enter_route (Some [ADMIN]) ''/users'' (fx_signed_in ADMIN) = Allow"
proof -
  have n: "nav ! 2 \<in> set nav" "ni_route (nav ! 2) = ''/users''"
    "map_of route_roles ''/users'' = Some (Some [ADMIN])" by (simp_all add: nav_def route_roles_def)
  have s: "isAuthenticated (fx_signed_in r)" for r by (simp add: isAuthenticated_def fx_signed_in_def)
  have g: "enter_route (Some [ADMIN]) ''/users'' (fx_signed_in AGENT) = RedirectTo ''/dashboard'' None"
    "enter_route (Some [ADMIN]) ''/users'' (fx_signed_in ADMIN) = Allow" by code_simp+
  show ?thesis using nav_matches_guards [OF n(1)] g s unfolding n(2,3) by fastforce
qed

definition unread_count :: "string \<Rightarrow> world \<Rightarrow> nat" where
  "unread_count u w = length (filter (unread_of u) (notifications (w_db w)))"

lemma go_to_ticket_keeps [simp]:
  "ly_unread (go_to_ticket n l) = ly_unread l" "ly_sent (go_to_ticket n l) = ly_sent l"
  "ly_notifications (go_to_ticket n l) = ly_notifications l"
  by (simp_all add: go_to_ticket_def split: option.split)

lemma markRead_badge:
  assumes "distinct (map nt_id (notifications (w_db w)))" and "n \<in> set (notifications (w_db w))"
    and "nt_userId n = u"
  shows "\<exists>x w'. markRead u (nt_id n) w = (Inr x, w')
    \<and> unread_count u w' + (if nt_isRead n then 0 else 1) = unread_count u w"
  using markRead_own [OF assms] by (auto simp: unread_count_def)

text \<open>
  The badge against the server. Let the badge agree with the server's count. Marking everything
  read brings both to zero and leaves nothing unread in the menu. Opening an entry the menu shows
  as unread sends one request, which the server answers; if the notification is unread on the
  server too, the badge agrees again afterwards. But the entry stays unread in the menu, and if it
  is opened again (or was read elsewhere) the server's count does not change while the badge is
  lowered once more: it is then one below the count, as long as there is something to take off.
\<close>

theorem badge_follows_server:
  assumes "ly_unread l = unread_count u w" and "distinct (map nt_id (notifications (w_db w)))"
    and "n \<in> set (notifications (w_db w))" and "nt_userId n = u"
    and "nt_id shown = nt_id n" and "\<not> nt_isRead shown"
  shows "ly_unread (all_read_acknowledged l) = unread_count u (snd (markAllRead u w))
    \<and> list_all nt_isRead (ly_notifications (all_read_acknowledged l))
    \<and> ly_sent (openNotification shown l) = ly_sent l @ [notifications_markRead (nt_id n)]
    \<and> ly_notifications (read_acknowledged shown (openNotification shown l)) = ly_notifications l
    \<and> (\<exists>x w'. markRead u (nt_id n) w = (Inr x, w')
         \<and> ly_unread (read_acknowledged shown (openNotification shown l))
             = (if nt_isRead n then unread_count u w' - 1 else unread_count u w'))"
proof -
  have all: "unread_count u (snd (markAllRead u w)) = 0"
    by (simp add: markAllRead_run unread_count_def unread_update_many)
  obtain x w' where r: "markRead u (nt_id n) w = (Inr x, w')"
    "unread_count u w' + (if nt_isRead n then 0 else 1) = unread_count u w"
    using markRead_badge [OF assms(2-4)] by blast
  show ?thesis
    using all r assms(1,5,6)
    by (auto simp: all_read_acknowledged_def openNotification_def read_acknowledged_def
        send_call_def list_all_iff split: if_splits)
qed

definition fx_menu :: layout_state where
  "fx_menu = notifications_loaded [fx_notification ''n2'' ''carol'' False,
     fx_notification ''n1'' ''carol'' False] (unread_refreshed 2 (layout_init ''/dashboard''))"

theorem badge_follows_server_witness:
  "\<exists>x w1 y w2. let n = fx_notification ''n1'' ''carol'' False;
         l1 = read_acknowledged n (openNotification n fx_menu);
         l2 = read_acknowledged n (openNotification n l1)
     in markRead ''carol'' ''n1'' fx_inbox = (Inr x, w1) \<and> ly_unread l1 = unread_count ''carol'' w1
        \<and> markRead ''carol'' ''n1'' w1 = (Inr y, w2) \<and> ly_unread l2 = unread_count ''carol'' w2 - 1"
proof -
  let ?n = "fx_notification ''n1'' ''carol'' False"
  let ?l1 = "read_acknowledged ?n (openNotification ?n fx_menu)"
  have s: "nt_id ?n = ''n1''" "nt_userId ?n = ''carol''" "\<not> nt_isRead ?n"
    by (simp_all add: fx_notification_def)
  have w: "distinct (map nt_id (notifications (w_db fx_inbox)))"
    "?n \<in> set (notifications (w_db fx_inbox))"
    by (simp_all add: fx_inbox_def fx_notification_def fixtures)
  have b: "ly_unread fx_menu = unread_count ''carol'' fx_inbox" by code_simp
  obtain x w1 where r1: "markRead ''carol'' ''n1'' fx_inbox = (Inr x, w1)"
    "ly_unread ?l1 = unread_count ''carol'' w1"
    using badge_follows_server [OF b w s(2) refl s(3)] s by auto
  note own = markRead_own(1) [OF w s(2), unfolded s(1)]
  have w1: "notifications (w_db w1) = update_row nt_id ''n1'' (mark_read (w_now fx_inbox))
      (notifications (w_db fx_inbox))" using own r1(1) by simp
  have m: "mark_read (w_now fx_inbox) ?n \<in> set (notifications (w_db w1))"
    using w(2) by (auto simp: w1 update_row_def s intro: rev_image_eqI)
  have k: "distinct (map nt_id (notifications (w_db w1)))"
    by (simp add: w1 map_update_row_same w(1))
  have m': "nt_id (mark_read (w_now fx_inbox) ?n) = ''n1''"
    "nt_userId (mark_read (w_now fx_inbox) ?n) = ''carol''" by (simp_all add: s)
  obtain y w2 where "markRead ''carol'' ''n1'' w1 = (Inr y, w2)"
    "ly_unread (read_acknowledged ?n (openNotification ?n ?l1)) = unread_count ''carol'' w2 - 1"
    using badge_follows_server [OF r1(2) k m m'(2) _ s(3)] m' s(1) by auto
  with r1 show ?thesis by (auto simp: Let_def)
qed

definition dashboard_ticket_query :: "ticket_status option \<Rightarrow> int \<Rightarrow> string option \<Rightarrow> ticket_query" where
  "dashboard_ticket_query st n order =
     \<lparr>tq_page = \<lparr>q_page = Some 1, q_limit = Some n, q_sort = order, q_search = None\<rparr>,
      tq_status = st, tq_priority = None, tq_assignedToId = None\<rparr>"

lemma dashboard_queries_parsed:
  "map (\<lambda>c. parse_ticket_query isUUID (ac_params c)) (snd dashboard_init)
    = map Some [dashboard_ticket_query None 1 None, dashboard_ticket_query (Some OPEN) 1 None,
        dashboard_ticket_query (Some IN_PROGRESS) 1 None,
        dashboard_ticket_query (Some RESOLVED) 1 None,
        dashboard_ticket_query None 5 (Some ''createdAt:desc'')]"
  by code_simp

definition visible_count :: "authenticated_user \<Rightarrow> (ticket_status \<Rightarrow> bool) \<Rightarrow> db \<Rightarrow> nat" where
  "visible_count actor P d = length (filter (\<lambda>t. can_access actor t \<and> P (tk_status t)) (tickets d))"

lemma dashboard_total:
  "m_total (meta (list_page ord (ticket_where ilike actor (dashboard_ticket_query st n s)) oby q
      (tickets d)))
    = visible_count actor (\<lambda>x. st = None \<or> Some x = st) d"
proof -
  have "ticket_where ilike actor (dashboard_ticket_query st n s)
      = (\<lambda>t. can_access actor t \<and> (st = None \<or> Some (tk_status t) = st))"
    by (rule ext) (auto simp: ticket_where_def dashboard_ticket_query_def can_access_def
        split: option.split)
  then show ?thesis by (simp add: list_page_total visible_count_def)
qed

text \<open>
  The dashboard counts what its user may see. The five query strings the dashboard sends pass
  the validators of the ticket list; the server answers them all without an error; the four cards
  show how many of the tickets the caller may read are open, in progress, resolved, and how many
  there are in all (so the first three never add up to more than the last), and the recent tickets
  are at most five, all readable by the caller.
\<close>

theorem dashboard_counts:
  assumes "permutes_rows ord"
  shows "\<exists>qs pages. map (\<lambda>c. parse_ticket_query isUUID (ac_params c)) (snd dashboard_init) = map Some qs
    \<and> map (\<lambda>q. find_tickets ord ilike actor q w) qs = map (\<lambda>p. (Inr p, w)) pages
    \<and> (let total = (\<lambda>k. m_total (meta (pages ! k)));
           d = dashboard_loaded (total 0) (total 1) (total 2) (total 3) (items (pages ! 4))
                 (fst dashboard_init)
       in map st_value (db_stats d)
            = [visible_count actor (\<lambda>s. s = OPEN) (w_db w),
               visible_count actor (\<lambda>s. s = IN_PROGRESS) (w_db w),
               visible_count actor (\<lambda>s. s = RESOLVED) (w_db w),
               visible_count actor (\<lambda>s. True) (w_db w)]
          \<and> \<not> db_loading d \<and> length (db_recent d) \<le> 5
          \<and> (\<forall>t\<in>set (db_recent d). t \<in> set (tickets (w_db w)) \<and> can_access actor t))"
proof -
  let ?qs = "[dashboard_ticket_query None 1 None, dashboard_ticket_query (Some OPEN) 1 None,
        dashboard_ticket_query (Some IN_PROGRESS) 1 None,
        dashboard_ticket_query (Some RESOLVED) 1 None,
        dashboard_ticket_query None 5 (Some ''createdAt:desc'')]"
  let ?page = "\<lambda>q. list_page ord (ticket_where ilike actor q)
       (toPrismaOrderBy (q_sort (tq_page q)) TICKET_SORTABLE default_order) (tq_page q)
       (tickets (w_db w))"
  have run: "find_tickets ord ilike actor q w = (Inr (?page q), w)" for q
    by (simp add: find_tickets_def run_basic)
  have five: "length (items (?page (dashboard_ticket_query None 5 s))) \<le> 5" for s
    by (simp add: dashboard_ticket_query_def list_page_def buildPaginatedResult_def find_many_def
        toPrismaPage_def query_limit_def Let_def)
  have mine: "t \<in> set (tickets (w_db w)) \<and> can_access actor t" if "t \<in> set (items (?page q))" for t q
    using list_page_sound [OF assms that] by (auto simp: ticket_where_def can_access_def split: if_splits)
  show ?thesis
    by (rule exI [of _ ?qs], rule exI [of _ "map ?page ?qs"], intro conjI dashboard_queries_parsed)
      (simp_all add: run dashboard_loaded_def dashboard_total five mine Let_def)
qed

lemma map_Some_cancel: "map Some xs = map Some ys \<Longrightarrow> xs = ys"
  by (simp add: inj_map_eq_map)

theorem dashboard_counts_witness:
  "\<exists>pages. map (\<lambda>q. find_tickets (\<lambda>_ xs. xs) (\<lambda>_ _. True) carol q (fx_world fx_db))
       [dashboard_ticket_query None 1 None, dashboard_ticket_query (Some OPEN) 1 None,
        dashboard_ticket_query (Some IN_PROGRESS) 1 None,
        dashboard_ticket_query (Some RESOLVED) 1 None,
        dashboard_ticket_query None 5 (Some ''createdAt:desc'')]
     = map (\<lambda>p. (Inr p, fx_world fx_db)) pages
   \<and> map st_value (db_stats (dashboard_loaded (m_total (meta (pages ! 0)))
         (m_total (meta (pages ! 1))) (m_total (meta (pages ! 2))) (m_total (meta (pages ! 3)))
         (items (pages ! 4)) (fst dashboard_init))) = [1, 0, 0, 1]"
proof -
  have p: "permutes_rows (\<lambda>_ (xs :: ticket list). xs)" by (simp add: permutes_rows_def)
  have c: "visible_count carol (\<lambda>s. s = OPEN) (w_db (fx_world fx_db)) = 1"
    "visible_count carol (\<lambda>s. s = IN_PROGRESS) (w_db (fx_world fx_db)) = 0"
    "visible_count carol (\<lambda>s. s = RESOLVED) (w_db (fx_world fx_db)) = 0"
    "visible_count carol (\<lambda>s. True) (w_db (fx_world fx_db)) = 1" by code_simp+
  from dashboard_counts [OF p, of "\<lambda>_. True" "\<lambda>_ _. True" carol "fx_world fx_db"]
  obtain qs pages where q: "map (\<lambda>c. parse_ticket_query (\<lambda>_. True) (ac_params c)) (snd dashboard_init)
      = map Some qs"
    and r: "map (\<lambda>q. find_tickets (\<lambda>_ xs. xs) (\<lambda>_ _. True) carol q (fx_world fx_db)) qs
      = map (\<lambda>p. (Inr p, fx_world fx_db)) pages"
    and s: "map st_value (db_stats (dashboard_loaded (m_total (meta (pages ! 0)))
         (m_total (meta (pages ! 1))) (m_total (meta (pages ! 2))) (m_total (meta (pages ! 3)))
         (items (pages ! 4)) (fst dashboard_init))) = [1, 0, 0, 1]"
    unfolding c Let_def by (elim exE conjE) (rule that)
  from q [unfolded dashboard_queries_parsed, symmetric]
  have qs: "qs = [dashboard_ticket_query None 1 None,
        dashboard_ticket_query (Some OPEN) 1 None, dashboard_ticket_query (Some IN_PROGRESS) 1 None,
        dashboard_ticket_query (Some RESOLVED) 1 None,
        dashboard_ticket_query None 5 (Some ''createdAt:desc'')]"
    by (rule map_Some_cancel)
  show ?thesis by (rule exI [of _ pages], rule conjI [OF r [unfolded qs] s])
qed

end
