(* ===== verification/ListScreens.thy ===== *)
theory ListScreens
  imports ApiClient
begin

text \<open>
  The list screens (\<open>ticket-list\<close>, \<open>user-list\<close>, \<open>organization-list\<close>): three copies of one state
  machine, modelled once over the type \<open>'f\<close> of their filters and \<open>'r\<close> of their rows. A load
  subscribes to one more request and never cancels an older one, so several may be in flight; the
  answer that arrives is written to the screen whichever request it belongs to. The search box
  changes the parameters at once, its load follows when the typing settles (\<open>debounceTime\<close>, then
  \<open>distinctUntilChanged\<close>).
\<close>

record ('f, 'r) screen =
  sc_params :: "'f list_params"
  sc_rows :: "'r list"
  sc_total :: nat
  sc_loading :: bool
  sc_inflight :: "(nat \<times> 'f list_params) list"
  sc_next :: nat
  sc_typing :: bool
  sc_emitted :: "string option"
  sc_messages :: "string list"

definition load :: "('f, 'r) screen \<Rightarrow> ('f, 'r) screen" where
  "load s = s\<lparr>sc_loading := True, sc_inflight := sc_inflight s @ [(sc_next s, sc_params s)],
     sc_next := Suc (sc_next s)\<rparr>"

definition resetAndLoad :: "('f, 'r) screen \<Rightarrow> ('f, 'r) screen" where
  "resetAndLoad s = load (s\<lparr>sc_params := (sc_params s)\<lparr>lp_pageIndex := 0\<rparr>\<rparr>)"

definition ngOnInit :: "'f \<Rightarrow> ('f, 'r) screen" where
  "ngOnInit f = load \<lparr>sc_params = initial_params f, sc_rows = [], sc_total = 0, sc_loading = False,
     sc_inflight = [], sc_next = 0, sc_typing = False, sc_emitted = None, sc_messages = []\<rparr>"

definition onPage :: "nat \<Rightarrow> nat \<Rightarrow> ('f, 'r) screen \<Rightarrow> ('f, 'r) screen" where
  "onPage index n s =
     load (s\<lparr>sc_params := (sc_params s)\<lparr>lp_pageIndex := index, lp_pageSize := n\<rparr>\<rparr>)"

definition onSort :: "string \<Rightarrow> direction \<Rightarrow> ('f, 'r) screen \<Rightarrow> ('f, 'r) screen" where
  "onSort active d s =
     load (s\<lparr>sc_params := (sc_params s)\<lparr>lp_sortActive := active, lp_sortDirection := d\<rparr>\<rparr>)"

definition set_filters :: "'f \<Rightarrow> ('f, 'r) screen \<Rightarrow> ('f, 'r) screen" where
  "set_filters f s = resetAndLoad (s\<lparr>sc_params := (sc_params s)\<lparr>lp_filters := f\<rparr>\<rparr>)"

definition type_search :: "string \<Rightarrow> ('f, 'r) screen \<Rightarrow> ('f, 'r) screen" where
  "type_search text s =
     s\<lparr>sc_params := (sc_params s)\<lparr>lp_search := text\<rparr>, sc_typing := True\<rparr>"

definition settle_search :: "('f, 'r) screen \<Rightarrow> ('f, 'r) screen" where
  "settle_search s =
     (if \<not> sc_typing s then s
      else if sc_emitted s = Some (lp_search (sc_params s)) then s\<lparr>sc_typing := False\<rparr>
      else resetAndLoad (s\<lparr>sc_typing := False, sc_emitted := Some (lp_search (sc_params s))\<rparr>))"

text \<open>The \<open>next\<close> and \<open>error\<close> callbacks of the request \<open>i\<close>.\<close>

definition loaded :: "nat \<Rightarrow> 'r list \<Rightarrow> nat \<Rightarrow> ('f, 'r) screen \<Rightarrow> ('f, 'r) screen" where
  "loaded i rows n s =
     (if i \<notin> fst ` set (sc_inflight s) then s
      else s\<lparr>sc_rows := rows, sc_total := n, sc_loading := False,
             sc_inflight := filter (\<lambda>q. fst q \<noteq> i) (sc_inflight s)\<rparr>)"

definition load_failed :: "nat \<Rightarrow> ('f, 'r) screen \<Rightarrow> ('f, 'r) screen" where
  "load_failed i s =
     (if i \<notin> fst ` set (sc_inflight s) then s
      else s\<lparr>sc_loading := False, sc_inflight := filter (\<lambda>q. fst q \<noteq> i) (sc_inflight s)\<rparr>)"

text \<open>What the dialogs report: \<open>create\<close> and \<open>edit\<close> with a saved record, or without.\<close>

definition created :: "'r option \<Rightarrow> ('f, 'r) screen \<Rightarrow> ('f, 'r) screen" where
  "created saved s = (if saved \<noteq> None then resetAndLoad s else s)"

definition edited :: "'r option \<Rightarrow> ('f, 'r) screen \<Rightarrow> ('f, 'r) screen" where
  "edited saved s = (if saved \<noteq> None then load s else s)"

text \<open>
  \<open>deactivate\<close> and \<open>remove\<close>: after a confirmation the request is sent; its \<open>next\<close> callback shows
  the message and reloads, and there is no \<open>error\<close> callback.
\<close>

definition remove_result ::
  "string \<Rightarrow> exn + json option \<Rightarrow> ('f, 'r) screen \<Rightarrow> ('f, 'r) screen" where
  "remove_result message res s =
     (case res of Inl e \<Rightarrow> s | Inr v \<Rightarrow> load (s\<lparr>sc_messages := sc_messages s @ [message]\<rparr>))"

section \<open>The answers arrive in order\<close>

text \<open>
  One step of a screen against a server whose answer to given parameters does not change, when
  every request is answered and the answers arrive in the order of the requests.
\<close>

inductive ordered_step ::
  "('f list_params \<Rightarrow> 'r list \<times> nat) \<Rightarrow> ('f, 'r) screen \<Rightarrow> ('f, 'r) screen \<Rightarrow> bool"
for srv where
  page: "ordered_step srv s (onPage i n s)"
| sorts: "ordered_step srv s (onSort a d s)"
| filters: "ordered_step srv s (set_filters f s)"
| typing: "ordered_step srv s (type_search t s)"
| settle: "ordered_step srv s (settle_search s)"
| saved: "ordered_step srv s (created r s)"
| changed: "ordered_step srv s (edited r s)"
| gone: "ordered_step srv s (remove_result m res s)"
| answer: "sc_inflight s = (i, p) # rest \<Longrightarrow>
    ordered_step srv s (loaded i (fst (srv p)) (snd (srv p)) s)"

text \<open>Parameters that differ in nothing but the text of the search box.\<close>

definition same_but_search :: "'f list_params \<Rightarrow> 'f list_params \<Rightarrow> bool" where
  "same_but_search p q \<longleftrightarrow> p = q\<lparr>lp_search := lp_search p\<rparr>"

definition screen_inv :: "('f list_params \<Rightarrow> 'r list \<times> nat) \<Rightarrow> ('f, 'r) screen \<Rightarrow> bool" where
  "screen_inv srv s \<longleftrightarrow>
     distinct (map fst (sc_inflight s)) \<and> (\<forall>q\<in>set (sc_inflight s). fst q < sc_next s)
     \<and> (if sc_inflight s = []
        then \<exists>p. same_but_search p (sc_params s) \<and> (sc_rows s, sc_total s) = srv p \<and> \<not> sc_loading s
        else same_but_search (snd (last (sc_inflight s))) (sc_params s))"

lemma same_but_search_refl [simp]: "same_but_search p p"
  by (simp add: same_but_search_def)

lemma same_but_search_typed [simp]:
  "same_but_search p (q\<lparr>lp_search := t\<rparr>) \<longleftrightarrow> same_but_search p q"
  by (simp add: same_but_search_def)

lemma inv_load:
  assumes "distinct (map fst (sc_inflight s))" and "\<forall>q\<in>set (sc_inflight s). fst q < sc_next s"
  shows "screen_inv srv (load s)"
  using assms by (auto simp: screen_inv_def load_def)

lemma inv_ids:
  "screen_inv srv s \<Longrightarrow>
     distinct (map fst (sc_inflight s)) \<and> (\<forall>q\<in>set (sc_inflight s). fst q < sc_next s)"
  by (simp add: screen_inv_def)

lemma inv_loads:
  assumes "screen_inv srv s"
  shows "screen_inv srv (load (s\<lparr>sc_params := p\<rparr>))" and "screen_inv srv (load s)"
    and "screen_inv srv (load (s\<lparr>sc_messages := ms\<rparr>))"
    and "screen_inv srv (resetAndLoad (s\<lparr>sc_params := p\<rparr>))" and "screen_inv srv (resetAndLoad s)"
    and "screen_inv srv (resetAndLoad (s\<lparr>sc_typing := b, sc_emitted := x\<rparr>))"
  using inv_ids [OF assms] by (simp_all add: resetAndLoad_def inv_load)

lemma inv_answer:
  assumes "screen_inv srv s" and "sc_inflight s = (i, p) # rest"
  shows "screen_inv srv (loaded i (fst (srv p)) (snd (srv p)) s)"
proof -
  have ids: "distinct (map fst ((i, p) # rest))" "\<forall>q\<in>set rest. fst q < sc_next s"
    using inv_ids [OF assms(1)] assms(2) by auto
  then have rest: "filter (\<lambda>q. fst q \<noteq> i) rest = rest"
    by (auto simp: filter_id_conv)
  show ?thesis
    using assms ids rest by (cases "rest = []") (auto simp: screen_inv_def loaded_def)
qed

lemma inv_step:
  assumes "ordered_step srv s s'" and "screen_inv srv s"
  shows "screen_inv srv s'"
  using assms
proof (induction rule: ordered_step.induct)
  case (typing s t)
  then show ?case by (simp add: screen_inv_def type_search_def)
next
  case (settle s)
  have "screen_inv srv (s\<lparr>sc_typing := False\<rparr>)" using settle by (simp add: screen_inv_def)
  with settle show ?case by (simp add: settle_search_def inv_loads)
next
  case (answer s i p rest)
  then show ?case by (simp add: inv_answer)
qed (simp_all add: onPage_def onSort_def set_filters_def created_def edited_def remove_result_def
    inv_loads split: sum.split)

lemma inv_start: "screen_inv srv (ngOnInit f)"
  unfolding ngOnInit_def by (rule inv_load) simp_all

lemma inv_reachable:
  "(ordered_step srv)\<^sup>*\<^sup>* (ngOnInit f) s \<Longrightarrow> screen_inv srv s"
  by (induction rule: rtranclp_induct) (auto intro: inv_start inv_step)


definition fx_server :: "bool list_params \<Rightarrow> nat list \<times> nat" where
  "fx_server p = (if lp_filters p then [1, 2] else [7], lp_pageIndex p)"


section \<open>The answers arrive out of order\<close>

text \<open>
  Nothing ties an answer to the request it belongs to. If the user changes a filter while the
  first load is still running and the second answer overtakes the first, the screen comes to rest
  with the new filter set, no request in flight and no loading bar, but with the rows and the
  total of the old filter, whatever the server's answers are; and after the first answer the
  loading bar is gone although a request is still in flight.
\<close>

theorem screen_out_of_order:
  "let old = initial_params f; new = old\<lparr>lp_filters := g\<rparr>;
       s1 = loaded 1 (fst (srv new)) (snd (srv new)) (set_filters g (ngOnInit f));
       s2 = loaded 0 (fst (srv old)) (snd (srv old)) s1
   in lp_filters (sc_params s2) = g \<and> (sc_rows s2, sc_total s2) = srv old
      \<and> sc_inflight s2 = [] \<and> \<not> sc_loading s2
      \<and> sc_inflight s1 \<noteq> [] \<and> \<not> sc_loading s1"
  by (simp add: Let_def ngOnInit_def set_filters_def resetAndLoad_def load_def loaded_def
      initial_params_def)

section \<open>Deleting\<close>

lemma delete_status:
  "r \<in> set api_routes \<Longrightarrow> r_method r = DELETE \<Longrightarrow> r_status r = NO_CONTENT"
  by (auto simp: api_routes_def route_tables mk_route_def NO_CONTENT_def)

lemma respond_status:
  "respond names thr r bearer rq args h w = (rep, w') \<Longrightarrow> rp_body rep = Envelope v \<Longrightarrow>
     rp_status rep = r_status r"
  by (auto simp: respond_def failure_def split: option.splits sum.splits prod.splits)

text \<open>
  Every deletion that succeeds looks failed to the screen that asked for it. The two DELETE
  routes (deactivate a user, remove an organization) answer a success with 204 and so without a
  body; the client reads \<open>data\<close> of the missing body, which raises. The screen's \<open>next\<close> callback,
  with its message and its reload, is therefore never run: the server has deleted, the list
  still shows the row.
\<close>

theorem delete_looks_failed:
  assumes "r \<in> set api_routes" and "r_method r = DELETE"
    and "respond names thr r bearer rq args h w = (rep, w')" and "rp_body rep = Envelope v"
  shows "unwrap (http_body (rp_status rep) v) = Inl type_error
    \<and> remove_result m (unwrap (http_body (rp_status rep) v)) s = s"
  using respond_status [OF assms(3,4)] delete_status [OF assms(1,2)] unwrap_no_content
  by (simp add: remove_result_def)

definition fx_admin_bearer :: "access_payload option" where
  "fx_admin_bearer =
     Some \<lparr>ap_sub = ''ada'', ap_email = [], ap_role = ADMIN, ap_organizationId = []\<rparr>"

theorem delete_looks_failed_witness:
  "\<exists>rep w' v. respond [] None (users_routes ! 4) fx_admin_bearer fx_request (Inr ''carol'')
       UsersController_deactivate (fx_world fx_db) = (rep, w')
     \<and> unwrap (http_body (rp_status rep) v) = Inl type_error
     \<and> map u_isActive (users (w_db w')) = [False, True, True, True]"
proof -
  let ?run = "respond [] None (users_routes ! 4) fx_admin_bearer fx_request (Inr ''carol'')
    UsersController_deactivate (fx_world fx_db)"
  have r: "users_routes ! 4 \<in> set api_routes" "r_method (users_routes ! 4) = DELETE"
    by (simp_all add: api_routes_def route_tables mk_route_def)
  have "answered (fst ?run)" by code_simp
  then obtain v where v: "rp_body (fst ?run) = Envelope v" by (auto dest: answeredE)
  have a: "map u_isActive (users (w_db (snd ?run))) = [False, True, True, True]" by code_simp
  have u: "unwrap (http_body (rp_status (fst ?run)) v) = Inl type_error"
    by (rule delete_looks_failed [OF r prod.collapse [symmetric] v, THEN conjunct1])
  show ?thesis
    by (rule exI [of _ "fst ?run"], rule exI [of _ "snd ?run"], rule exI [of _ v])
      (intro conjI u a prod.collapse [symmetric])
qed

end
