(* ===== verification/Views.thy ===== *)
theory Views
  imports Layout ListScreens
begin

text \<open>
  What the screens show: the configuration-driven table (\<open>shared/components/data-table\<close>), the small
  shared components around it, the columns, cell templates and row buttons of the three list
  screens, and the template of the ticket screen with the controls it offers to whom. A template
  is a function from the state of its component to what it renders; layout, styles, icons and the
  formatting of dates by Angular's date pipe are left out.
\<close>

section \<open>The shared components\<close>

datatype column_type = Text_column | Date_column

record column_def =
  cd_key :: string
  cd_header :: string
  cd_sortable :: "bool option"
  cd_type :: "column_type option"
  cd_width :: "string option"

datatype shown =
    Label string
  | Status_chip string string
  | Cell_value "json option"
  | Cell_date "json option"
  | Row_buttons "(string \<times> bool) list"

definition header_disabled :: "column_def \<Rightarrow> bool" where
  "header_disabled c \<longleftrightarrow> cd_sortable c \<noteq> Some True"

definition displayedColumns :: "column_def list \<Rightarrow> string list" where
  "displayedColumns cols = map cd_key cols"

text \<open>The directives inside the table, as a \<open>Map\<close> from the column key to the template.\<close>

definition templateMap :: "(string \<times> ('r \<Rightarrow> shown)) list \<Rightarrow> string \<Rightarrow> ('r \<Rightarrow> shown) option" where
  "templateMap directives = fold (\<lambda>(k, t) m. m(k \<mapsto> t)) directives Map.empty"

definition templateFor :: "(string \<times> ('r \<Rightarrow> shown)) list \<Rightarrow> string \<Rightarrow> ('r \<Rightarrow> shown) option" where
  "templateFor directives key = templateMap directives key"

text \<open>\<open>row[col.key]\<close>; \<open>js\<close> is the row as the server sent it.\<close>

definition row_field :: "json \<Rightarrow> string \<Rightarrow> json option" where
  "row_field row key = (case property row key of None \<Rightarrow> None | Some v \<Rightarrow> v)"

definition table_cell ::
  "('r \<Rightarrow> json) \<Rightarrow> (string \<times> ('r \<Rightarrow> shown)) list \<Rightarrow> column_def \<Rightarrow> 'r \<Rightarrow> shown" where
  "table_cell js directives c row =
     (case templateFor directives (cd_key c) of
        Some tpl \<Rightarrow> tpl row
      | None \<Rightarrow> if cd_type c = Some Date_column then Cell_date (row_field (js row) (cd_key c))
                else Cell_value (row_field (js row) (cd_key c)))"

definition table_rows ::
  "('r \<Rightarrow> json) \<Rightarrow> (string \<times> ('r \<Rightarrow> shown)) list \<Rightarrow> column_def list \<Rightarrow> 'r list \<Rightarrow> shown list list"
where
  "table_rows js directives cols rows = map (\<lambda>r. map (\<lambda>c. table_cell js directives c r) cols) rows"

text \<open>The paginator under the table, and what it shows when its inputs are not bound.\<close>

record paginator =
  pg_length :: nat
  pg_pageIndex :: nat
  pg_pageSize :: nat
  pg_options :: "nat list"

definition unbound_paginator :: paginator where
  "unbound_paginator = \<lparr>pg_length = 0, pg_pageIndex = 0, pg_pageSize = DEFAULT_PAGE_SIZE,
     pg_options = PAGE_SIZE_OPTIONS\<rparr>"

text \<open>\<open>onRowClick\<close>: what \<open>rowClick\<close> emits.\<close>

definition onRowClick :: "bool \<Rightarrow> 'r \<Rightarrow> 'r option" where
  "onRowClick clickable row = (if clickable then Some row else None)"

definition chip_color :: "string \<Rightarrow> string \<Rightarrow> string" where
  "chip_color kind value = ''var(--'' @ kind @ ''-'' @ map ascii_lower value @ '')''"

definition status_chip :: "shown \<Rightarrow> (string \<times> string) option" where
  "status_chip s = (case s of
     Status_chip kind value \<Rightarrow> Some (chip_color kind value, humanize (Some value)) | _ \<Rightarrow> None)"

text \<open>The page header and the empty state: a text that is missing or empty is not shown.\<close>

definition shown_text :: "string option \<Rightarrow> string option" where
  "shown_text t = (if t = Some [] then None else t)"

definition page_header :: "string \<Rightarrow> string option \<Rightarrow> string \<times> string option" where
  "page_header title subtitle = (title, shown_text subtitle)"

definition empty_state :: "string \<Rightarrow> string \<Rightarrow> string option \<Rightarrow> string \<times> string \<times> string option" where
  "empty_state icon title message = (icon, title, shown_text message)"

text \<open>\<open>services/ui-notification.service.ts\<close>.\<close>

record snack_bar =
  sn_message :: string
  sn_action :: string
  sn_duration :: nat
  sn_position :: "string \<times> string"
  sn_panelClass :: string

definition ui_success :: "string \<Rightarrow> snack_bar" where
  "ui_success message = \<lparr>sn_message = message, sn_action = ''Dismiss'', sn_duration = 3500,
     sn_position = (''end'', ''top''), sn_panelClass = ''snackbar-success''\<rparr>"

definition ui_error :: "string \<Rightarrow> snack_bar" where
  "ui_error message = \<lparr>sn_message = message, sn_action = ''Dismiss'', sn_duration = 6000,
     sn_position = (''end'', ''top''), sn_panelClass = ''snackbar-error''\<rparr>"

record confirm_data =
  cn_title :: string
  cn_message :: string
  cn_confirmLabel :: "string option"
  cn_cancelLabel :: "string option"
  cn_destructive :: bool

text \<open>The title, the message and the two buttons: colour, label, and the result each closes with.\<close>

definition confirm_view ::
  "confirm_data \<Rightarrow> string \<times> string \<times> (string option \<times> string \<times> bool) list" where
  "confirm_view d = (cn_title d, cn_message d,
     [(None, case cn_cancelLabel d of None \<Rightarrow> ''Cancel'' | Some l \<Rightarrow> l, False),
      (Some (if cn_destructive d then ''warn'' else ''primary''),
        case cn_confirmLabel d of None \<Rightarrow> ''Confirm'' | Some l \<Rightarrow> l, True)])"

section \<open>The list screens\<close>

definition column :: "string \<Rightarrow> string \<Rightarrow> column_def" where
  "column key header = \<lparr>cd_key = key, cd_header = header, cd_sortable = None, cd_type = None,
     cd_width = None\<rparr>"

definition ticket_columns :: "column_def list" where
  "ticket_columns =
     [(column ''reference'' ''Reference'')\<lparr>cd_sortable := Some True, cd_width := Some ''130px''\<rparr>,
      column ''title'' ''Title'',
      (column ''status'' ''Status'')\<lparr>cd_sortable := Some True, cd_width := Some ''150px''\<rparr>,
      (column ''priority'' ''Priority'')\<lparr>cd_sortable := Some True, cd_width := Some ''130px''\<rparr>,
      (column ''createdAt'' ''Created'')\<lparr>cd_sortable := Some True, cd_type := Some Date_column,
        cd_width := Some ''200px''\<rparr>]"

definition user_columns :: "column_def list" where
  "user_columns =
     [(column ''name'' ''Name'')\<lparr>cd_sortable := Some False\<rparr>,
      (column ''email'' ''Email'')\<lparr>cd_sortable := Some True\<rparr>,
      (column ''role'' ''Role'')\<lparr>cd_sortable := Some True, cd_width := Some ''130px''\<rparr>,
      (column ''isActive'' ''State'')\<lparr>cd_width := Some ''110px''\<rparr>,
      (column ''createdAt'' ''Joined'')\<lparr>cd_sortable := Some True, cd_type := Some Date_column,
        cd_width := Some ''190px''\<rparr>,
      (column ''actions'' [])\<lparr>cd_width := Some ''110px''\<rparr>]"

definition organization_columns :: "column_def list" where
  "organization_columns =
     [(column ''name'' ''Name'')\<lparr>cd_sortable := Some True\<rparr>,
      (column ''slug'' ''Slug'')\<lparr>cd_width := Some ''200px''\<rparr>,
      (column ''isActive'' ''State'')\<lparr>cd_width := Some ''110px''\<rparr>,
      (column ''createdAt'' ''Created'')\<lparr>cd_sortable := Some True, cd_type := Some Date_column,
        cd_width := Some ''190px''\<rparr>,
      (column ''actions'' [])\<lparr>cd_width := Some ''110px''\<rparr>]"

definition ticket_templates :: "(string \<times> (ticket \<Rightarrow> shown)) list" where
  "ticket_templates =
     [(''status'', \<lambda>t. Status_chip ''status'' (status_string (tk_status t))),
      (''priority'', \<lambda>t. Status_chip ''priority'' (priority_string (tk_priority t)))]"

definition state_label :: "bool \<Rightarrow> shown" where
  "state_label active = Label (if active then ''Active'' else ''Inactive'')"

definition user_templates :: "(string \<times> (user_response \<Rightarrow> shown)) list" where
  "user_templates =
     [(''name'', \<lambda>u. Label (full_name u)),
      (''role'', \<lambda>u. Label (humanize (Some (role_string (ur_role u))))),
      (''isActive'', \<lambda>u. state_label (ur_isActive u)),
      (''actions'', \<lambda>u. Row_buttons [(''Edit'', False), (''Deactivate'', \<not> ur_isActive u)])]"

definition organization_templates :: "(string \<times> (organization \<Rightarrow> shown)) list" where
  "organization_templates =
     [(''slug'', \<lambda>g. Label (org_slug g)),
      (''isActive'', \<lambda>g. state_label (org_isActive g)),
      (''actions'', \<lambda>g. Row_buttons [(''Edit'', False), (''Delete'', False)])]"

text \<open>The card of a list screen: the empty state (with a button on the ticket list) or the table.\<close>

datatype card_content =
    Empty_card string string "string option"
  | Table_card "shown list list" paginator

definition list_card ::
  "card_content \<Rightarrow> ('r \<Rightarrow> json) \<Rightarrow> (string \<times> ('r \<Rightarrow> shown)) list \<Rightarrow> column_def list
    \<Rightarrow> ('f, 'r) screen \<Rightarrow> card_content"
where
  "list_card nothing js directives cols s =
     (if \<not> sc_loading s \<and> sc_total s = 0 then nothing
      else Table_card (table_rows js directives cols (sc_rows s))
        (unbound_paginator\<lparr>pg_length := sc_total s, pg_pageIndex := lp_pageIndex (sc_params s),
           pg_pageSize := lp_pageSize (sc_params s)\<rparr>))"

definition ticket_list_card :: "(filter_controls, ticket) screen \<Rightarrow> card_content" where
  "ticket_list_card =
     list_card (Empty_card ''No tickets found''
         ''Try adjusting your filters, or create the first ticket.'' (Some ''New ticket''))
       ticket_json ticket_templates ticket_columns"

definition user_list_card :: "(role option, user_response) screen \<Rightarrow> card_content" where
  "user_list_card =
     list_card (Empty_card ''No users found'' ''Invite a teammate to get started.'' None)
       user_response_json user_templates user_columns"

definition organization_list_card :: "(unit, organization) screen \<Rightarrow> card_content" where
  "organization_list_card =
     list_card (Empty_card ''No organizations found''
         ''Create the first organization to onboard a tenant.'' None)
       organization_json organization_templates organization_columns"

text \<open>
  The whole page: the loading bar, the header with its button, the filters (a search box with its
  placeholder, selects with their options; no value is \<open>null\<close>) and the card.
\<close>

datatype filter_field =
    Search_box string string
  | Select_box string "(string option \<times> string) list"

record list_page =
  lg_loading :: bool
  lg_title :: string
  lg_subtitle :: string
  lg_create :: string
  lg_filters :: "filter_field list"
  lg_card :: card_content

definition select_of :: "string \<Rightarrow> string \<Rightarrow> string list \<Rightarrow> filter_field" where
  "select_of label all_of_them values =
     Select_box label ((None, all_of_them) # map (\<lambda>v. (Some v, humanize (Some v))) values)"

definition ticket_list_view :: "(filter_controls, ticket) screen \<Rightarrow> list_page" where
  "ticket_list_view s =
     \<lparr>lg_loading = sc_loading s, lg_title = ''Tickets'',
      lg_subtitle = ''Track and resolve support requests'', lg_create = ''New ticket'',
      lg_filters = [Search_box ''Search'' ''Title or reference'',
        select_of ''Status'' ''All statuses''
          (map status_string [OPEN, IN_PROGRESS, PENDING, RESOLVED, CLOSED]),
        select_of ''Priority'' ''All priorities'' (map priority_string [LOW, MEDIUM, HIGH, URGENT])],
      lg_card = ticket_list_card s\<rparr>"

definition user_list_view :: "(role option, user_response) screen \<Rightarrow> list_page" where
  "user_list_view s =
     \<lparr>lg_loading = sc_loading s, lg_title = ''Users'',
      lg_subtitle = ''Manage who can access your workspace'', lg_create = ''Invite user'',
      lg_filters = [Search_box ''Search'' ''Name or email'',
        select_of ''Role'' ''All roles'' (map role_string [ADMIN, AGENT, CUSTOMER])],
      lg_card = user_list_card s\<rparr>"

definition organization_list_view :: "(unit, organization) screen \<Rightarrow> list_page" where
  "organization_list_view s =
     \<lparr>lg_loading = sc_loading s, lg_title = ''Organizations'',
      lg_subtitle = ''Tenants on the platform'', lg_create = ''New organization'',
      lg_filters = [Search_box ''Search'' ''Name or slug''], lg_card = organization_list_card s\<rparr>"

text \<open>\<open>deactivate\<close> and \<open>remove\<close>: the question, and the request a confirmation sends.\<close>

definition deactivate_question :: "user_response \<Rightarrow> confirm_data" where
  "deactivate_question u =
     \<lparr>cn_title = ''Deactivate user'',
      cn_message = full_name u
        @ '' will lose access immediately. You can re-activate them later.'',
      cn_confirmLabel = Some ''Deactivate'', cn_cancelLabel = None, cn_destructive = True\<rparr>"

definition remove_question :: "organization \<Rightarrow> confirm_data" where
  "remove_question g =
     \<lparr>cn_title = ''Delete organization'',
      cn_message = ''Delete \"'' @ org_name g @ ''\"? This cannot be undone.'',
      cn_confirmLabel = Some ''Delete'', cn_cancelLabel = None, cn_destructive = True\<rparr>"

definition confirmed :: "bool option \<Rightarrow> bool" where
  "confirmed answer \<longleftrightarrow> answer = Some True"

definition deactivate_closed :: "user_response \<Rightarrow> bool option \<Rightarrow> api_call list" where
  "deactivate_closed u answer = (if confirmed answer then [users_deactivate (ur_id u)] else [])"

definition remove_closed :: "organization \<Rightarrow> bool option \<Rightarrow> api_call list" where
  "remove_closed g answer = (if confirmed answer then [organizations_remove (org_id g)] else [])"

text \<open>
  The handlers of the screens, with the requests they send. \<open>rows\<close> holds what the row buttons
  need, where a screen has them: the request of a confirmed deletion, and the message after it.
\<close>

datatype ('f, 'r) list_event =
    Paged nat nat
  | Sorted string direction
  | Filtered 'f
  | Typed string
  | Settled
  | Created_closed "'r option"
  | Edited_closed "'r option"
  | Confirm_closed 'r "bool option"
  | Remove_answered "exn + json option"
  | Rows_arrived nat "'r list" nat
  | Rows_failed nat

fun list_after ::
  "(('r \<Rightarrow> bool option \<Rightarrow> api_call list) \<times> string) option \<Rightarrow> ('f, 'r) list_event
    \<Rightarrow> ('f, 'r) screen \<Rightarrow> ('f, 'r) screen"
where
  "list_after rows (Paged i n) s = onPage i n s"
| "list_after rows (Sorted a d) s = onSort a d s"
| "list_after rows (Filtered f) s = set_filters f s"
| "list_after rows (Typed text) s = type_search text s"
| "list_after rows Settled s = settle_search s"
| "list_after rows (Created_closed r) s = created r s"
| "list_after (Some _) (Edited_closed r) s = edited r s"
| "list_after (Some (_, message)) (Remove_answered res) s = remove_result message res s"
| "list_after rows (Rows_arrived i rs n) s = loaded i rs n s"
| "list_after rows (Rows_failed i) s = load_failed i s"
| "list_after rows e s = s"

fun list_deletes ::
  "(('r \<Rightarrow> bool option \<Rightarrow> api_call list) \<times> string) option \<Rightarrow> ('f, 'r) list_event
    \<Rightarrow> api_call list"
where
  "list_deletes (Some (closed, _)) (Confirm_closed r answer) = closed r answer"
| "list_deletes rows e = []"

definition list_handler ::
  "('f list_params \<Rightarrow> api_call) \<Rightarrow> (('r \<Rightarrow> bool option \<Rightarrow> api_call list) \<times> string) option
    \<Rightarrow> ('f, 'r) list_event \<Rightarrow> ('f, 'r) screen \<Rightarrow> ('f, 'r) screen \<times> api_call list"
where
  "list_handler query rows e s =
     (list_after rows e s,
      map (\<lambda>(i, p). query p) (filter (\<lambda>(i, p). sc_next s \<le> i) (sc_inflight (list_after rows e s)))
        @ list_deletes rows e)"

definition ticket_list_handler ::
  "(filter_controls, ticket) list_event \<Rightarrow> (filter_controls, ticket) screen
    \<Rightarrow> (filter_controls, ticket) screen \<times> api_call list"
where
  "ticket_list_handler = list_handler (\<lambda>p. tickets_list (ticket_list_query p)) None"

definition user_list_handler ::
  "(role option, user_response) list_event \<Rightarrow> (role option, user_response) screen
    \<Rightarrow> (role option, user_response) screen \<times> api_call list"
where
  "user_list_handler = list_handler (\<lambda>p. users_list (user_list_query p))
     (Some (deactivate_closed, ''User deactivated''))"

definition organization_list_handler ::
  "(unit, organization) list_event \<Rightarrow> (unit, organization) screen
    \<Rightarrow> (unit, organization) screen \<times> api_call list"
where
  "organization_list_handler = list_handler (\<lambda>p. organizations_list (organization_list_query p))
     (Some (remove_closed, ''Organization deleted''))"

text \<open>A click on a row of the ticket list, and on its address.\<close>

definition open_ticket :: "ticket \<Rightarrow> string option" where
  "open_ticket row = map_option (\<lambda>t. ''/tickets/'' @ tk_id t) (onRowClick True row)"

text \<open>
  Every handler is a step of the histories of \<open>screen_in_order\<close>, and whatever list request it sends
  asks for what the controls say after it; a deletion is sent for a confirmation only.
\<close>

lemma handlers_ordered:
  assumes "\<nexists>i rs n. e = Rows_arrived i rs n" and "\<nexists>i. e = Rows_failed i"
  shows "list_after rows e s = s \<or> ordered_step srv s (list_after rows e s)"
  using assms by (cases "(rows, e, s)" rule: list_after.cases) (auto intro: ordered_step.intros)

lemma new_loads:
  "filter (\<lambda>(i, p). n \<le> i) (sc_inflight (load s))
     = filter (\<lambda>(i, p). n \<le> i) (sc_inflight s) @ (if n \<le> sc_next s then [(sc_next s, sc_params s)] else [])"
  by (simp add: load_def)

lemma handler_requests:
  assumes "\<forall>q\<in>set (sc_inflight s). fst q < sc_next s"
  shows "snd (list_handler query rows e s) \<in>
    {[], [query (sc_params (fst (list_handler query rows e s)))], list_deletes rows e}"
proof -
  have old: "filter (\<lambda>q. P q \<and> (case q of (i, p) \<Rightarrow> sc_next s \<le> i)) (sc_inflight s) = []" for P
    using assms by (auto simp: filter_empty_conv)
  have none: "filter (\<lambda>(i, p). sc_next s \<le> i) (sc_inflight s) = []"
    using assms by (auto simp: filter_empty_conv)
  show ?thesis
    by (cases "(rows, e, s)" rule: list_after.cases)
      (simp_all add: list_handler_def onPage_def onSort_def set_filters_def type_search_def
        settle_search_def created_def edited_def remove_result_def loaded_def load_failed_def
        resetAndLoad_def new_loads old none load_def split: sum.split)
qed

section \<open>The dashboard and the shell\<close>

definition dashboard_columns :: "column_def list" where
  "dashboard_columns =
     [(column ''reference'' ''Reference'')\<lparr>cd_width := Some ''130px''\<rparr>,
      column ''title'' ''Title'',
      (column ''status'' ''Status'')\<lparr>cd_width := Some ''150px''\<rparr>,
      (column ''priority'' ''Priority'')\<lparr>cd_width := Some ''130px''\<rparr>,
      (column ''createdAt'' ''Created'')\<lparr>cd_type := Some Date_column, cd_width := Some ''200px''\<rparr>]"

text \<open>The greeting, before the user is known as well; the table binds its columns and rows only.\<close>

definition dashboard_subtitle :: "browser \<Rightarrow> string" where
  "dashboard_subtitle b = ''Welcome back, ''
     @ (case br_user b of None \<Rightarrow> ''undefined'' | Some u \<Rightarrow> aud_firstName u)"

definition dashboard_view :: "dashboard \<Rightarrow> (string \<times> nat) list \<times> shown list list \<times> paginator" where
  "dashboard_view d = (map (\<lambda>c. (st_label c, st_value c)) (db_stats d),
     table_rows ticket_json ticket_templates dashboard_columns (db_recent d), unbound_paginator)"

datatype notification_menu =
    Caught_up
  | Entries "(string \<times> string \<times> bool) list"

text \<open>The badge (hidden when there is nothing unread) and the menu; the flag marks unread entries.\<close>

definition badge_view :: "layout_state \<Rightarrow> nat option" where
  "badge_view l = (if ly_unread l = 0 then None else Some (ly_unread l))"

definition menu_view :: "layout_state \<Rightarrow> notification_menu" where
  "menu_view l =
     (if ly_notifications l = [] then Caught_up
      else Entries (map (\<lambda>n. (nt_title n, nt_message n, \<not> nt_isRead n)) (ly_notifications l)))"

text \<open>The user's button and menu: name, e-mail, role.\<close>

definition user_menu_view :: "browser \<Rightarrow> string \<times> string option \<times> string" where
  "user_menu_view b = (fullName b, map_option aud_email (br_user b),
     humanize (map_option (\<lambda>u. role_string (aud_role u)) (br_user b)))"

text \<open>The whole shell around the screen of the current route; the avatar's initials are left out.\<close>

record shell_page =
  sh_brand :: "string \<times> string"
  sh_nav :: "(string \<times> string \<times> string) list"
  sh_badge :: "nat option"
  sh_menu_header :: "string \<times> string"
  sh_menu :: notification_menu
  sh_user :: "string \<times> string option \<times> string"
  sh_user_items :: "string list"

definition shell_view :: "browser \<Rightarrow> layout_state \<Rightarrow> shell_page" where
  "shell_view b l =
     \<lparr>sh_brand = (''Support Platform'', ''/dashboard''),
      sh_nav = map (\<lambda>i. (ni_label i, ni_icon i, ni_route i)) (visibleNav b),
      sh_badge = badge_view l, sh_menu_header = (''Notifications'', ''Mark all read''),
      sh_menu = menu_view l, sh_user = user_menu_view b, sh_user_items = [''Sign out'']\<rparr>"

lemma all_read_shown:
  "badge_view (all_read_acknowledged l) = None"
  "menu_view (all_read_acknowledged l) = Entries es \<Longrightarrow> \<forall>(t, m, unread)\<in>set es. \<not> unread"
  by (auto simp: badge_view_def menu_view_def all_read_acknowledged_def split: if_splits)

section \<open>The tables and the server's rows\<close>

text \<open>A cell with something to show; a date cell holds an ISO date.\<close>

fun cell_defined :: "shown \<Rightarrow> bool" where
  "cell_defined (Cell_value v) = (v \<noteq> None)"
| "cell_defined (Cell_date v) = (case v of Some (JStr _) \<Rightarrow> True | _ \<Rightarrow> False)"
| "cell_defined _ = True"

definition sorts_as_shown :: "string list \<Rightarrow> column_def \<Rightarrow> bool" where
  "sorts_as_shown allowed c \<longleftrightarrow>
     toPrismaOrderBy (Some (cd_key c @ '':'' @ direction_string SortAsc)) allowed default_order
       = (cd_key c, Asc)
   \<and> toPrismaOrderBy (Some (cd_key c @ '':'' @ direction_string SortDesc)) allowed default_order
       = (cd_key c, Desc)"

lemmas table_defs = dashboard_columns_def ticket_columns_def user_columns_def organization_columns_def column_def
  ticket_templates_def user_templates_def organization_templates_def templateFor_def
  templateMap_def table_cell_def row_field_def state_label_def

lemma ticket_cells:
  "list_all (\<lambda>c. cell_defined (table_cell ticket_json ticket_templates c t)) ticket_columns"
  by (simp add: table_defs ticket_json_def date_json_def)

lemma dashboard_cells:
  "list_all (\<lambda>c. cell_defined (table_cell ticket_json ticket_templates c t)) dashboard_columns"
  by (simp add: table_defs ticket_json_def date_json_def)

lemma user_cells:
  "list_all (\<lambda>c. cell_defined (table_cell user_response_json user_templates c u)) user_columns"
  by (simp add: table_defs user_response_json_def date_json_def)

lemma organization_cells:
  "list_all (\<lambda>c. cell_defined (table_cell organization_json organization_templates c g))
     organization_columns"
  by (simp add: table_defs organization_json_def date_json_def)

lemma sortable_headers:
  "list_all (sorts_as_shown TICKET_SORTABLE) (filter (Not \<circ> header_disabled) ticket_columns)"
  "list_all (sorts_as_shown ORGANIZATIONS_SORTABLE)
     (filter (Not \<circ> header_disabled) organization_columns)"
  "map cd_key (filter (Not \<circ> sorts_as_shown USERS_SORTABLE)
     (filter (Not \<circ> header_disabled) user_columns)) = [''role'']"
  "list_all header_disabled dashboard_columns"
  by code_simp+

text \<open>
  The tables fit the rows the server sends. In each of the three lists and on the dashboard no two columns share
  a key, every cell of every row the API can answer with has something to show (a template of its
  own or a property the row really has), and every date cell holds a date. Every header one can
  click on sorts the way it says, in both directions, because the server's allow-list has the
  column; the one exception is the role of a user, for which the server silently falls back to
  the date of creation. And a first load that fails is shown
  like an empty list. The table
  of the dashboard cannot be sorted, and its paginator says that there are no rows, whatever it
  lists.
\<close>

theorem tables_fit_rows:
  "distinct (displayedColumns ticket_columns) \<and> distinct (displayedColumns user_columns)
   \<and> distinct (displayedColumns organization_columns)
   \<and> distinct (displayedColumns dashboard_columns)
   \<and> list_all (list_all cell_defined)
       (table_rows ticket_json ticket_templates ticket_columns ts)
   \<and> list_all (list_all cell_defined)
       (table_rows user_response_json user_templates user_columns us)
   \<and> list_all (list_all cell_defined)
       (table_rows organization_json organization_templates organization_columns gs)
   \<and> list_all (list_all cell_defined) (fst (snd (dashboard_view d)))
   \<and> list_all (sorts_as_shown TICKET_SORTABLE) (filter (Not \<circ> header_disabled) ticket_columns)
   \<and> list_all (sorts_as_shown ORGANIZATIONS_SORTABLE)
       (filter (Not \<circ> header_disabled) organization_columns)
   \<and> map cd_key (filter (Not \<circ> sorts_as_shown USERS_SORTABLE)
       (filter (Not \<circ> header_disabled) user_columns)) = [''role'']
   \<and> toPrismaOrderBy (Some (''role:'' @ direction_string dir)) USERS_SORTABLE default_order
       = default_order
   \<and> ticket_list_card (load_failed 0 (ngOnInit f)) = Empty_card ''No tickets found''
       ''Try adjusting your filters, or create the first ticket.'' (Some ''New ticket'')
   \<and> list_all header_disabled dashboard_columns \<and> pg_length (snd (snd (dashboard_view d))) = 0"
proof (intro conjI)
  show "distinct (displayedColumns ticket_columns)" "distinct (displayedColumns user_columns)"
    "distinct (displayedColumns organization_columns)" "distinct (displayedColumns dashboard_columns)"
    by (simp_all add: displayedColumns_def table_defs)
  show "list_all (list_all cell_defined) (table_rows ticket_json ticket_templates ticket_columns ts)"
    "list_all (list_all cell_defined) (table_rows user_response_json user_templates user_columns us)"
    "list_all (list_all cell_defined)
       (table_rows organization_json organization_templates organization_columns gs)"
    "list_all (list_all cell_defined) (fst (snd (dashboard_view d)))"
    using ticket_cells user_cells organization_cells dashboard_cells
    by (simp_all add: table_rows_def list_all_iff dashboard_view_def)
  show "pg_length (snd (snd (dashboard_view d))) = 0"
    by (simp add: dashboard_view_def unbound_paginator_def)
  show "toPrismaOrderBy (Some (''role:'' @ direction_string dir)) USERS_SORTABLE default_order
      = default_order"
    by (cases dir) (simp_all add: toPrismaOrderBy_def USERS_SORTABLE_def Let_def)
  show "ticket_list_card (load_failed 0 (ngOnInit f)) = Empty_card ''No tickets found''
       ''Try adjusting your filters, or create the first ticket.'' (Some ''New ticket'')"
    by (simp add: ticket_list_card_def list_card_def load_failed_def ngOnInit_def load_def)
qed (rule sortable_headers)+

section \<open>The ticket screen\<close>

definition statuses :: "ticket_status list" where
  "statuses = [OPEN, IN_PROGRESS, PENDING, RESOLVED, CLOSED]"

datatype control =
    Edit_button
  | Comment_box
  | Internal_note
  | Comment_button string bool
  | Status_select ticket_status "ticket_status list"
  | Assignee_select "string option" "(string \<times> string) list"
  | Assign_to_me bool

definition option_label :: "user_response \<Rightarrow> string" where
  "option_label u = full_name u @ '' ('' @ humanize (Some (role_string (ur_role u))) @ '')''"

text \<open>The argument of a button is whether it is disabled.\<close>

definition manage_controls :: "browser \<Rightarrow> detail \<Rightarrow> ticket \<Rightarrow> control list" where
  "manage_controls b d t =
     Status_select (tk_status t) statuses
     # (if isAdmin b
        then [Assignee_select (tk_assignedToId t)
                (map (\<lambda>u. (ur_id u, option_label u)) (assignableUsers d))]
        else [Assign_to_me (case br_user b of None \<Rightarrow> False
                | Some me \<Rightarrow> tk_assignedToId t = Some (aud_id me))])"

definition detail_controls :: "browser \<Rightarrow> detail \<Rightarrow> control list" where
  "detail_controls b d =
     (case dt_ticket d of
        None \<Rightarrow> []
      | Some t \<Rightarrow>
          (if isStaff b then [Edit_button] else [])
          @ [Comment_box] @ (if isStaff b then [Internal_note] else [])
          @ [Comment_button (if dt_posting d then ''Posting'' @ ellipsis else ''Comment'')
               (comment_invalid d \<or> dt_posting d)]
          @ (if isStaff b then manage_controls b d t else []))"

record thread_entry =
  te_author :: string
  te_internal :: bool
  te_when :: time
  te_body :: string

definition comment_thread :: "browser \<Rightarrow> detail \<Rightarrow> thread_entry list" where
  "comment_thread b d =
     map (\<lambda>c. \<lparr>te_author = authorLabel b d c, te_internal = cm_isInternal c,
        te_when = cm_createdAt c, te_body = cm_body c\<rparr>)
       (dt_comments d)"

text \<open>The card \<open>Details\<close>, and the whole page.\<close>

record detail_lines =
  dl_status :: shown
  dl_priority :: shown
  dl_category :: string
  dl_created :: time
  dl_assignee :: string

definition detail_card :: "detail \<Rightarrow> ticket \<Rightarrow> detail_lines" where
  "detail_card d t =
     \<lparr>dl_status = Status_chip ''status'' (status_string (tk_status t)),
      dl_priority = Status_chip ''priority'' (priority_string (tk_priority t)),
      dl_category = (case tk_category t of Some c \<Rightarrow> if c = [] then em_dash else c | None \<Rightarrow> em_dash),
      dl_created = tk_createdAt t, dl_assignee = assigneeLabel d\<rparr>"

record ticket_page =
  tp_title :: string
  tp_subtitle :: string
  tp_description :: string
  tp_details :: detail_lines
  tp_activity :: "string + thread_entry list"
  tp_controls :: "control list"

datatype detail_body =
    Ticket_shown ticket_page
  | Muted string
  | Nothing_yet

definition ticket_page_of :: "browser \<Rightarrow> detail \<Rightarrow> ticket \<Rightarrow> ticket_page" where
  "ticket_page_of b d t =
     \<lparr>tp_title = tk_title t, tp_subtitle = tk_reference t, tp_description = tk_description t,
      tp_details = detail_card d t,
      tp_activity = (if dt_comments d = [] then Inl ''No comments yet.'' else Inr (comment_thread b d)),
      tp_controls = detail_controls b d\<rparr>"

text \<open>The loading bar, and what is under the button that leads back to the list.\<close>

definition detail_view :: "browser \<Rightarrow> detail \<Rightarrow> bool \<times> detail_body" where
  "detail_view b d = (dt_loading d,
     case dt_ticket d of
       Some t \<Rightarrow> Ticket_shown (ticket_page_of b d t)
     | None \<Rightarrow> if dt_loading d then Nothing_yet else Muted ''Ticket not found.'')"

section \<open>Offered controls and the server\<close>

text \<open>The update that the status select sends, at the server.\<close>

definition status_only :: "ticket_status \<Rightarrow> update_ticket_dto" where
  "status_only st = \<lparr>ut_title = Undefined, ut_description = Undefined, ut_status = Val st,
     ut_priority = Undefined, ut_category = Undefined\<rparr>"

lemma status_payload_valid:
  "validate_update_ticket len [(''status'', JStr (status_string st))] = Some (status_only st)"
  by (cases st) (simp_all add: validate_update_ticket_def whitelisted_def read_prop_as_def
      read_enum_def enum_of_def status_only_def)

definition fresh_ids :: "world \<Rightarrow> bool" where
  "fresh_ids w \<longleftrightarrow> inj (w_uuid w)
     \<and> (\<forall>r\<in>set (outbox (w_db w)). \<forall>n\<ge>w_next w. ob_id r \<noteq> w_uuid w n)"

lemma enqueue_keeps_fresh:
  assumes "fresh_ids w"
  shows "\<exists>w'. enqueue k p c w = (Inr (), w') \<and> fresh_ids w'"
proof -
  have "\<forall>r\<in>set (outbox (w_db w)). ob_id r \<noteq> w_uuid w (w_next w)"
    using assms by (auto simp: fresh_ids_def)
  from enqueue_fresh [OF this, of k p c] assms show ?thesis
    by (auto simp: fresh_ids_def outbox_row_def inj_eq)
qed

lemma update_status_succeeds:
  assumes "distinct (map tk_id (tickets (w_db w)))" and "t \<in> set (tickets (w_db w))"
    and "can_access actor t" and "au_role actor \<noteq> CUSTOMER" and "assignee_ok (w_db w) t"
    and "fresh_ids w"
  shows "\<exists>t' w'. update_ticket actor (tk_id t) (status_only st) cid w = (Inr t', w')
    \<and> tk_status t' = st"
proof -
  let ?b = "closing (status_only st) t"
  let ?new = "apply_changes (status_only st) ?b (w_now w) t"
  have f: "find_ticket actor (tk_id t) w = (Inr t, w)"
    using assms(1-3) find_ticket_ok by blast
  have role: "\<not> customer_forbidden actor (status_only st)"
    using assms(4) by (simp add: customer_forbidden_def)
  have "assignee_ok (w_db w) ?new"
    using assms(5) by (simp add: assignee_ok_def apply_changes_def status_only_def)
  then obtain v where v: "prisma_ticket_update (tk_id t) (status_only st) ?b w = (Inr ?new, v)"
    "fresh_ids v"
    using find_by_mem [OF assms(1,2)] assms(6)
    by (auto simp: prisma_ticket_update_def null_in_required_def status_only_def andThen_def
        run_basic ticket_update_def fresh_ids_def)
  obtain v1 where v1: "enqueue RK_TicketUpdated
      (ticket_updated_payload ?new (status_only st) (au_id actor)) cid v = (Inr (), v1)" "fresh_ids v1"
    using enqueue_keeps_fresh [OF v(2)] by blast
  obtain v2 where v2: "enqueue RK_TicketClosed
      (ticket_closed_payload ?new (au_id actor) (w_now v1)) cid v1 = (Inr (), v2)"
    using enqueue_keeps_fresh [OF v1(2)] by blast
  have "\<exists>w'. update_body actor (tk_id t) (status_only st) cid ?b w = (Inr ?new, w')"
    using v(1) v1(1) v2 by (auto simp: update_body_def andThen_def run_basic)
  then obtain w' where "transaction (update_body actor (tk_id t) (status_only st) cid ?b) w
      = (Inr ?new, w')" by (auto simp: transaction_def)
  then have "update_ticket actor (tk_id t) (status_only st) cid w = (Inr ?new, w')"
    using f role by (simp add: update_ticket_eq andThen_def)
  then show ?thesis by (auto simp: apply_changes_def status_only_def)
qed

text \<open>The signed-in user of the browser is the caller of the server.\<close>

definition signed_in_as :: "browser \<Rightarrow> authenticated_user \<Rightarrow> world \<Rightarrow> bool" where
  "signed_in_as b actor w \<longleftrightarrow> (\<exists>usr\<in>set (users (w_db w)). br_user b = Some (toAuthUser usr)
     \<and> u_isActive usr \<and> actor = to_subject usr)"

text \<open>The user list of the screen came from the server's list of the caller's organization.\<close>

definition listed_users :: "authenticated_user \<Rightarrow> detail \<Rightarrow> world \<Rightarrow> bool" where
  "listed_users actor d w \<longleftrightarrow> (\<forall>u\<in>set (dt_users d). \<exists>v\<in>set (users (w_db w)).
     u = userSelect v \<and> u_organizationId v = au_organizationId actor)"

lemma find_users_listed:
  assumes "permutes_rows ord"
    and "find_users ord ilike (au_organizationId actor) q w = (Inr page, w')"
  shows "listed_users actor (users_loaded (items page) d) w"
proof -
  let ?where = "users_where ilike (au_organizationId actor) q"
  have "\<exists>v\<in>set (users (w_db w)). u = userSelect v \<and> u_organizationId v = au_organizationId actor"
    if "u \<in> set (items page)" for u
  proof -
    have "u \<in> userSelect ` set (find_many ord ?where
        (toPrismaOrderBy (q_sort (uq_page q)) USERS_SORTABLE default_order)
        (toPrismaPage (uq_page q)) (users (w_db w)))"
      using that assms(2) by (auto simp: find_users_def run_basic Let_def buildPaginatedResult_def)
    then obtain v where "u = userSelect v" "v \<in> set (users (w_db w))" "?where v"
      using find_many_sound [OF assms(1)] by blast
    then show ?thesis by (auto simp: users_where_def)
  qed
  then show ?thesis by (simp add: listed_users_def users_loaded_def)
qed

lemma signed_in_role:
  assumes "signed_in_as b actor w"
  shows "isStaff b \<longleftrightarrow> au_role actor \<noteq> CUSTOMER" and "isAdmin b \<longleftrightarrow> au_role actor = ADMIN"
  using assms by (auto simp: signed_in_as_def isStaff_def isAdmin_def hasRole_def toAuthUser_def
      to_subject_def) (metis role.exhaust)

lemma controls_shown:
  assumes "dt_ticket d = Some t"
  shows "Edit_button \<in> set (detail_controls b d) \<longleftrightarrow> isStaff b"
    and "Internal_note \<in> set (detail_controls b d) \<longleftrightarrow> isStaff b"
    and "Status_select cur opts \<in> set (detail_controls b d)
      \<longleftrightarrow> isStaff b \<and> cur = tk_status t \<and> opts = statuses"
    and "Assignee_select as us \<in> set (detail_controls b d) \<longleftrightarrow> isStaff b \<and> isAdmin b
      \<and> as = tk_assignedToId t \<and> us = map (\<lambda>u. (ur_id u, option_label u)) (assignableUsers d)"
    and "Assign_to_me False \<in> set (detail_controls b d) \<longleftrightarrow> isStaff b \<and> \<not> isAdmin b
      \<and> (case br_user b of None \<Rightarrow> True | Some me \<Rightarrow> tk_assignedToId t \<noteq> Some (aud_id me))"
  using assms by (auto simp: detail_controls_def manage_controls_def split: option.splits)

text \<open>An assignment the screen sends for an active member of the staff is carried out.\<close>

definition assignment_served ::
  "(string \<Rightarrow> bool) \<Rightarrow> authenticated_user \<Rightarrow> string option \<Rightarrow> world \<Rightarrow> ticket \<Rightarrow> string
    \<Rightarrow> detail \<Rightarrow> detail \<Rightarrow> bool"
where
  "assignment_served isUUID actor cid w t a d d' \<longleftrightarrow>
     dt_sent d' = dt_sent d @ [tickets_assign (tk_id t) a]
   \<and> activate (tickets_routes ! 4) \<lparr>pp_err = False, pp_user = Some actor\<rparr> = Inr (Some actor)
   \<and> (\<exists>dto t' w'. validate_assign_ticket isUUID [(''assigneeId'', JStr a)] = Some dto
        \<and> assign_ticket actor (tk_id t) dto cid w = (Inr t', w') \<and> tk_assignedToId t' = Some a)"

lemma assign_is_served:
  assumes "dt_ticket d = Some t" and "t \<in> set (tickets (w_db w))" and "can_access actor t"
    and "distinct (map tk_id (tickets (w_db w)))" and "v \<in> set (users (w_db w))"
    and "u_isActive v" and "u_role v \<noteq> CUSTOMER" and "u_organizationId v = au_organizationId actor"
    and "u_id v \<noteq> []" and "isUUID (u_id v)" and "fresh_ids w" and "au_role actor \<noteq> CUSTOMER"
  shows "assignment_served isUUID actor cid w t (u_id v) d (assign (u_id v) d)"
proof -
  have "assignable actor (u_id v) v"
    using assms(6-8) by (cases "u_role v") (auto simp: assignable_def)
  moreover have "\<forall>r\<in>set (outbox (w_db w)). ob_id r \<noteq> w_uuid w (w_next w)"
    using assms(11) by (auto simp: fresh_ids_def)
  ultimately obtain w' where run: "assign_ticket actor (tk_id t) \<lparr>at_assigneeId = u_id v\<rparr> cid w
      = (Inr (apply_assign (u_id v) (w_now w) t), w')"
    using assign_ticket_succeeds [OF assms(4,2,3,5)] by blast
  have "validate_assign_ticket isUUID [(''assigneeId'', JStr (u_id v))]
      = Some \<lparr>at_assigneeId = u_id v\<rparr>"
    using assms(10) by (simp add: validate_assign_ticket_def whitelisted_def read_prop_as_def
        required_def read_string_def)
  moreover have "activate (tickets_routes ! 4) \<lparr>pp_err = False, pp_user = Some actor\<rparr>
      = Inr (Some actor)"
    using assms(12) by (cases "au_role actor") (simp_all add: activate_def tickets_routes_def
        mk_route_def jwt_roles_def jwt_canActivate_def handleRequest_def roles_canActivate_def)
  moreover have "dt_sent (assign (u_id v) d) = dt_sent d @ [tickets_assign (tk_id t) (u_id v)]"
    using assms(1,9) by (simp add: assign_def dispatch_def)
  ultimately show ?thesis using run by (auto simp: assignment_served_def apply_assign_def)
qed


definition fx_detail :: detail where
  "fx_detail = comments_arrived (snd fx_loaded)
     (ticket_arrived (fst fx_loaded) (detail_init (fx_signed_in AGENT) ''t1''))"

lemma fx_detail_ticket: "dt_ticket fx_detail = Some (fst fx_loaded)" "dt_users fx_detail = []"
  by code_simp+

lemma fx_agent: "signed_in_as (fx_signed_in AGENT) alex (fx_world fx_db)"
  by (rule bexI [of _ "fx_user ''alex'' AGENT ''acme''",
        folded signed_in_as_def, THEN iffD2 [OF signed_in_as_def]])
    (simp_all add: fx_signed_in_def to_subject_def fixtures)


end
