(* ===== verification/FormViews.thy ===== *)
theory FormViews
  imports Forms Layout
begin

text \<open>
  The templates of the forms: the error texts under the fields, the buttons and the fields that
  depend on whether a record is edited. Angular Material shows the error texts of a field that is
  invalid and touched; a refused save touches every field (\<open>sv_touched\<close>). A button is the pair of
  its label and whether it is disabled.
\<close>

definition showing :: "bool \<Rightarrow> string \<Rightarrow> string list" where
  "showing c m = (if c then [m] else [])"

section \<open>Error texts\<close>

definition login_errors :: "(string \<Rightarrow> bool) \<Rightarrow> string \<Rightarrow> string \<Rightarrow> 'r saving_state \<Rightarrow> string list" where
  "login_errors emailOk email password s =
     (if \<not> sv_touched s then []
      else showing (\<not> v_required email) ''Email is required''
         @ showing (email \<noteq> [] \<and> \<not> emailOk email) ''Enter a valid email''
         @ showing (\<not> v_required password) ''Password is required'')"

definition register_errors :: "(string \<Rightarrow> bool) \<Rightarrow> register_form \<Rightarrow> 'r saving_state \<Rightarrow> string list" where
  "register_errors emailOk f s =
     (if \<not> sv_touched s then []
      else showing (\<not> v_required (rg_firstName f)) ''Required''
         @ showing (\<not> v_required (rg_lastName f)) ''Required''
         @ showing (rg_email f \<noteq> [] \<and> \<not> emailOk (rg_email f)) ''Enter a valid email''
         @ showing (\<not> v_minLength 8 (rg_password f)) ''Password is too short''
         @ showing (\<not> v_pattern password_matches (rg_password f)) ''Must include a letter and a number''
         @ showing (\<not> v_required (rg_organizationId f)) ''Organization is required'')"

definition ticket_form_errors :: "ticket_form \<Rightarrow> 'r saving_state \<Rightarrow> string list" where
  "ticket_form_errors f s =
     (if \<not> sv_touched s then []
      else showing (\<not> v_required (tf_title f)) ''Title is required''
         @ showing (\<not> v_required (tf_description f)) ''Description is required'')"

definition organization_form_errors :: "organization_form \<Rightarrow> 'r saving_state \<Rightarrow> string list" where
  "organization_form_errors f s =
     (if \<not> sv_touched s then []
      else showing (\<not> v_required (of_name f)) ''Name is required''
         @ showing (\<not> v_pattern slug_matches (of_slug f))
             ''Use lowercase letters, numbers and hyphens only'')"

text \<open>The e-mail and the password are shown for a new user only.\<close>

definition user_form_errors ::
  "(string \<Rightarrow> bool) \<Rightarrow> user_response option \<Rightarrow> user_form \<Rightarrow> 'r saving_state \<Rightarrow> string list" where
  "user_form_errors emailOk u f s =
     (if \<not> sv_touched s then []
      else showing (u = None \<and> uf_email f \<noteq> [] \<and> \<not> emailOk (uf_email f)) ''Enter a valid email'')"

section \<open>Titles, fields and buttons\<close>

definition form_title :: "string \<Rightarrow> string \<Rightarrow> 'x option \<Rightarrow> string" where
  "form_title new_title edit_title x = (if x = None then new_title else edit_title)"

definition save_button :: "string \<Rightarrow> 'x option \<Rightarrow> 'r saving_state \<Rightarrow> string \<times> bool" where
  "save_button create_label x s =
     (if sv_saving s then ''Saving'' @ ellipsis else if x \<noteq> None then ''Save changes'' else create_label,
      sv_saving s)"

text \<open>
  The fields, with label and control; a text field carries its \<open>maxlength\<close> and its hint, a select
  its options with their labels.
\<close>

datatype form_field =
    Text_field string string "nat option" "string option"
  | Text_area string string
  | Select_field string string "(string \<times> string) list"
  | Toggle string string

definition plain_field :: "string \<Rightarrow> string \<Rightarrow> form_field" where
  "plain_field label control_name = Text_field label control_name None None"

definition enum_field :: "string \<Rightarrow> string \<Rightarrow> string list \<Rightarrow> form_field" where
  "enum_field label control_name values =
     Select_field label control_name (map (\<lambda>v. (v, humanize (Some v))) values)"

definition ticket_dialog ::
  "ticket option \<Rightarrow> ticket saving_state \<Rightarrow> string \<times> form_field list \<times> (string \<times> bool) list" where
  "ticket_dialog t s = (form_title ''New ticket'' ''Edit ticket'' t,
     [Text_field ''Title'' ''title'' (Some 160) None, Text_area ''Description'' ''description'',
      enum_field ''Priority'' ''priority'' (map priority_string [LOW, MEDIUM, HIGH, URGENT]),
      Text_field ''Category'' ''category'' (Some 80) None],
     [(''Cancel'', False), save_button ''Create ticket'' t s])"

definition organization_dialog ::
  "organization option \<Rightarrow> organization saving_state
    \<Rightarrow> string \<times> form_field list \<times> (string \<times> bool) list"
where
  "organization_dialog g s = (form_title ''New organization'' ''Edit organization'' g,
     [plain_field ''Name'' ''name'',
      Text_field ''Slug'' ''slug'' None (Some ''Lowercase letters, numbers and hyphens'')]
       @ (if g \<noteq> None then [Toggle ''Active'' ''isActive''] else []),
     [(''Cancel'', False), save_button ''Create organization'' g s])"

definition user_dialog ::
  "user_response option \<Rightarrow> user_response saving_state
    \<Rightarrow> string \<times> form_field list \<times> (string \<times> bool) list"
where
  "user_dialog u s = (form_title ''Invite user'' ''Edit user'' u,
     [plain_field ''First name'' ''firstName'', plain_field ''Last name'' ''lastName'']
       @ (if u = None
          then [plain_field ''Email'' ''email'', Text_field ''Temporary password'' ''password'' None
                  (Some ''At least 8 characters, with a letter and a number'')]
          else [])
       @ [enum_field ''Role'' ''role'' (map role_string [ADMIN, AGENT, CUSTOMER])]
       @ (if u \<noteq> None then [Toggle ''Active'' ''isActive''] else []),
     [(''Cancel'', False), save_button ''Create user'' u s])"

definition page_button :: "string \<Rightarrow> string \<Rightarrow> 'r saving_state \<Rightarrow> string \<times> bool" where
  "page_button idle busy s = (if sv_saving s then busy @ ellipsis else idle, sv_saving s)"

definition login_button :: "'r saving_state \<Rightarrow> string \<times> bool" where
  "login_button = page_button ''Sign in'' ''Signing in''"

definition register_button :: "'r saving_state \<Rightarrow> string \<times> bool" where
  "register_button = page_button ''Create account'' ''Creating account''"

text \<open>The two pages before the login: title, subtitle, fields, button, and the link to the other.\<close>

record entry_page =
  ep_title :: string
  ep_subtitle :: string
  ep_fields :: "form_field list"
  ep_button :: "string \<times> bool"
  ep_link :: "string \<times> string \<times> string"

definition login_page :: "'r saving_state \<Rightarrow> entry_page" where
  "login_page s =
     \<lparr>ep_title = ''Sign in'', ep_subtitle = ''Welcome back. Enter your credentials to continue.'',
      ep_fields = [plain_field ''Email'' ''email'', plain_field ''Password'' ''password''],
      ep_button = login_button s,
      ep_link = (''Need an account?'', ''Create one'', ''/auth/register'')\<rparr>"

text \<open>The button in the password field, and the type of its input.\<close>

definition password_toggle :: "bool \<Rightarrow> string \<times> string" where
  "password_toggle shown_now = (if shown_now then (''Hide password'', ''text'')
     else (''Show password'', ''password''))"

text \<open>The demo accounts under the login form: a button fills the form with its e-mail.\<close>

definition demo_accounts :: "(string \<times> string) list" where
  "demo_accounts = [(''admin'', ''admin@acme.test''), (''agent'', ''agent@acme.test''),
     (''customer'', ''customer@acme.test'')]"

definition register_page :: "'r saving_state \<Rightarrow> entry_page" where
  "register_page s =
     \<lparr>ep_title = ''Create account'',
      ep_subtitle = ''Register as a customer to start raising tickets.'',
      ep_fields = [plain_field ''First name'' ''firstName'', plain_field ''Last name'' ''lastName'',
        plain_field ''Email'' ''email'',
        Text_field ''Password'' ''password'' None
          (Some ''At least 8 characters, with a letter and a number''),
        Text_field ''Organization ID'' ''organizationId'' None
          (Some ''The UUID of your organization (provided by your admin)'')],
      ep_button = register_button s, ep_link = (''Already registered?'', ''Sign in'', ''/auth/login'')\<rparr>"

section \<open>Refused saves\<close>

lemma when_Nil [simp]: "showing c m = [] \<longleftrightarrow> \<not> c"
  by (simp add: showing_def)

lemma refused_touches:
  "fst (save valid call s) = None \<Longrightarrow> sv_touched (snd (save valid call s))"
  by (cases "\<not> valid \<or> sv_saving s") (auto simp: save_def)

text \<open>
  What a refused save explains. The login form is complete: whenever it refuses, it says why, and
  it says nothing when it does not refuse. The others leave gaps, and these are all of them: the
  registration says nothing about a missing e-mail or password, the ticket form nothing about a
  title or a description of one or two characters, the organization form nothing about a missing
  slug, and the dialog for a new user explains nothing but a malformed e-mail. A button that
  shows a save in progress is disabled, and pressing it anyway sends nothing.
\<close>

theorem refused_saves_explained:
  assumes "sv_touched s"
  shows "(login_errors emailOk email password s = [] \<longleftrightarrow> login_form_valid emailOk email password)
    \<and> (register_errors emailOk rf s = [] \<and> \<not> register_form_valid emailOk rf
        \<longleftrightarrow> register_errors emailOk rf s = [] \<and> (rg_email rf = [] \<or> rg_password rf = []))
    \<and> (ticket_form_errors tf s = [] \<and> \<not> ticket_form_valid tf
        \<longleftrightarrow> tf_title tf \<noteq> [] \<and> tf_description tf \<noteq> []
          \<and> (utf16_length (tf_title tf) < 3 \<or> utf16_length (tf_description tf) < 3))
    \<and> (organization_form_errors gf s = [] \<and> \<not> organization_form_valid gf
        \<longleftrightarrow> of_name gf \<noteq> [] \<and> of_slug gf = [])
    \<and> (user_form_errors emailOk None uf s = [] \<longleftrightarrow> uf_email uf = [] \<or> emailOk (uf_email uf))
    \<and> (sv_saving s \<longrightarrow> snd (login_button s) \<and> fst (save valid call s) = None)"
  using assms
  by (auto simp: login_errors_def register_errors_def ticket_form_errors_def
      organization_form_errors_def user_form_errors_def login_form_valid_def
      register_form_valid_def ticket_form_valid_def organization_form_valid_def v_required_def
      v_minLength_def v_pattern_def login_button_def page_button_def save_def)

text \<open>A ticket with a two-letter title: the save is refused without a word.\<close>

definition fx_short :: ticket_form where
  "fx_short = \<lparr>tf_title = ''Hi'', tf_description = ''Broken'', tf_priority = LOW, tf_category = []\<rparr>"

theorem refused_saves_explained_witness:
  "ticket_form_errors fx_short (snd (save False c form_open)) = [] \<and> \<not> ticket_form_valid fx_short"
proof -
  have t: "sv_touched (snd (save False c form_open))" by (rule refused_touches) (simp add: save_def)
  have "tf_title fx_short \<noteq> []" "tf_description fx_short \<noteq> []" "utf16_length (tf_title fx_short) < 3"
    by (simp_all add: fx_short_def utf16_length_def)
  then show ?thesis using refused_saves_explained [OF t, where tf = fx_short] by blast
qed

end
