(* ===== verification/Bootstrap.thy ===== *)
theory Bootstrap
  imports Http Config Messaging
begin

text \<open>
  The composition of the two processes as their modules and entry points state it
  (\<open>app.setup.ts\<close>, \<open>app.module.ts\<close>, \<open>main.ts\<close>, \<open>worker.ts\<close>, \<open>messaging/messaging.module.ts\<close>,
  \<open>worker/worker-messaging.module.ts\<close>): the settings handed to NestJS, Helmet, Swagger and the
  RabbitMQ module, as data computed from the configuration. What those packages do with them is
  theirs; the model of the validation pipe is \<open>RequestDto\<close>, of the providers \<open>Http\<close> and \<open>Api\<close>.
\<close>

section \<open>The HTTP application\<close>

text \<open>\<open>String.prototype.trim\<close> on ASCII text.\<close>

definition js_trim :: "string \<Rightarrow> string" where
  "js_trim s = rev (dropWhile is_space (rev (dropWhile is_space s)))"

record cors_options =
  co_origin :: "string list"
  co_methods :: "string list"
  co_allowedHeaders :: "string list"
  co_credentials :: bool
  co_maxAge :: nat

record pipe_options =
  vp_whitelist :: bool
  vp_forbidNonWhitelisted :: bool
  vp_transform :: bool
  vp_implicitConversion :: bool

record app_setup =
  as_prefix :: string
  as_trustProxy :: nat
  as_csp :: bool
  as_resourcePolicy :: string
  as_cors :: cors_options
  as_pipe :: pipe_options
  as_shutdownHooks :: bool

definition configureApp :: "app_config \<Rightarrow> app_setup" where
  "configureApp cfg =
     \<lparr>as_prefix = cf_globalPrefix cfg, as_trustProxy = 1, as_csp = False,
      as_resourcePolicy = ''cross-origin'',
      as_cors = \<lparr>co_origin = map js_trim (split_on CHR '','' (cf_corsOrigin cfg)),
        co_methods = [''GET'', ''POST'', ''PATCH'', ''PUT'', ''DELETE'', ''OPTIONS''],
        co_allowedHeaders = [''Content-Type'', ''Authorization''], co_credentials = True,
        co_maxAge = 86400\<rparr>,
      as_pipe = \<lparr>vp_whitelist = True, vp_forbidNonWhitelisted = True, vp_transform = True,
        vp_implicitConversion = True\<rparr>,
      as_shutdownHooks = True\<rparr>"

text \<open>
  The throttler, from seconds to milliseconds. A number of the configuration is \<open>None\<close> when it is
  \<open>NaN\<close>, which \<open>ConfigService.get\<close> hands on: its default is for keys that are not there.
\<close>

definition throttler :: "app_config \<Rightarrow> int option \<times> int option" where
  "throttler cfg = (map_option (\<lambda>t. t * 1000) (sec_throttleTtl (cf_security cfg)),
     sec_throttleLimit (cf_security cfg))"

record api_docs =
  dc_path :: string
  dc_title :: string
  dc_description :: string
  dc_version :: string
  dc_bearer :: bool
  dc_tags :: "string list"

record process =
  pr_port :: "int option"
  pr_shutdownHooks :: bool
  pr_docs :: "api_docs option"

definition api_documentation :: "app_config \<Rightarrow> api_docs" where
  "api_documentation cfg =
     \<lparr>dc_path = cf_globalPrefix cfg @ ''/docs'', dc_title = ''Support Platform API'',
      dc_description = ''Enterprise Support Ticket Platform '' @ em_dash @ '' REST API. ''
        @ ''Authenticate via /auth/login and authorize with the returned access token.'',
      dc_version = ''1.0'', dc_bearer = True,
      dc_tags = [''auth'', ''organizations'', ''users'', ''tickets'', ''comments'', ''notifications'',
        ''audit'', ''health'']\<rparr>"

definition api_process :: "app_config \<Rightarrow> process" where
  "api_process cfg =
     \<lparr>pr_port = cf_port cfg, pr_shutdownHooks = as_shutdownHooks (configureApp cfg),
      pr_docs = Some (api_documentation cfg)\<rparr>"

definition worker_process :: "app_config \<Rightarrow> process" where
  "worker_process cfg = \<lparr>pr_port = cf_workerPort cfg, pr_shutdownHooks = True, pr_docs = None\<rparr>"

section \<open>The broker\<close>

record exchange_declaration =
  xd_name :: string
  xd_type :: string
  xd_durable :: bool

record broker_setup =
  bk_uri :: string
  bk_exchanges :: "exchange_declaration list"
  bk_wait :: bool
  bk_timeout :: "nat option"
  bk_controllerDiscovery :: bool

definition durable_topic :: "string \<Rightarrow> exchange_declaration" where
  "durable_topic name = \<lparr>xd_name = name, xd_type = ''topic'', xd_durable = True\<rparr>"

text \<open>The API declares the configured exchange and starts without waiting for the broker.\<close>

definition messaging_module :: "app_config \<Rightarrow> broker_setup op" where
  "messaging_module cfg =
     andThen (getOrThrow ''rabbitmq.uri'' (cf_rabbitUri cfg)) (\<lambda>uri.
     ret \<lparr>bk_uri = uri, bk_exchanges = [durable_topic (cf_rabbitExchange cfg)], bk_wait = False,
       bk_timeout = None, bk_controllerDiscovery = True\<rparr>)"

text \<open>The worker declares the constants of the topology and waits, for twenty seconds at most.\<close>

definition worker_messaging_module :: "app_config \<Rightarrow> broker_setup op" where
  "worker_messaging_module cfg =
     andThen (getOrThrow ''rabbitmq.uri'' (cf_rabbitUri cfg)) (\<lambda>uri.
     ret \<lparr>bk_uri = uri, bk_exchanges = map durable_topic [EXCHANGE, DEAD_LETTER_EXCHANGE],
       bk_wait = True, bk_timeout = Some 20000, bk_controllerDiscovery = True\<rparr>)"

section \<open>What the settings mean\<close>

lemma js_trim_id: "s \<noteq> [] \<Longrightarrow> \<not> is_space (hd s) \<Longrightarrow> \<not> is_space (last s) \<Longrightarrow> js_trim s = s"
proof -
  have keep: "xs \<noteq> [] \<Longrightarrow> \<not> is_space (hd xs) \<Longrightarrow> dropWhile is_space xs = xs" for xs
    by (cases xs) simp_all
  assume s: "s \<noteq> []" "\<not> is_space (hd s)" "\<not> is_space (last s)"
  then have "dropWhile is_space (rev s) = rev s" by (intro keep) (simp_all add: hd_rev)
  with keep [OF s(1,2)] show ?thesis by (simp only: js_trim_def rev_rev_ident)
qed

definition plain_origin :: "string \<Rightarrow> bool" where
  "plain_origin s \<longleftrightarrow> s \<noteq> [] \<and> CHR '','' \<notin> set s \<and> \<not> is_space (hd s) \<and> \<not> is_space (last s)"

lemma js_trim_space: "js_trim (CHR '' '' # s) = js_trim s"
  by (simp add: js_trim_def is_space_def)

text \<open>Every origin of the setting is admitted as it is written, with or without spaces between.\<close>

lemma configured_origins:
  assumes "os \<noteq> []" and "list_all plain_origin os" and "sep \<in> {'','', '', ''}"
  shows "map js_trim (split_on CHR '','' (join_with sep os)) = os"
  using assms(1,2)
proof (induction os rule: induct_list012)
  case (2 o1)
  then show ?case by (simp add: plain_origin_def split_on_none js_trim_id)
next
  case (3 o1 o2 os)
  let ?rest = "join_with sep (o2 # os)"
  have ih: "map js_trim (split_on CHR '','' ?rest) = o2 # os" using 3 by simp
  have o1: "CHR '','' \<notin> set o1" "js_trim o1 = o1"
    using 3 by (simp_all add: plain_origin_def js_trim_id)
  have spaced: "map js_trim (split_on CHR '','' (CHR '' '' # s))
      = map js_trim (split_on CHR '','' s)" for s
    by (cases "split_on CHR '','' s") (simp_all add: js_trim_space)
  have split: "map js_trim (split_on CHR '','' (o1 @ CHR '','' # s))
      = o1 # map js_trim (split_on CHR '','' s)" for s
    using o1 by (simp add: split_on_append)
  have "map js_trim (split_on CHR '','' (o1 @ sep @ ?rest)) = o1 # o2 # os"
    using assms(3)
  proof
    assume s: "sep = '',''"
    show ?thesis using ih unfolding s by (simp only: append.simps split)
  next
    assume "sep \<in> {'', ''}"
    then have s: "sep = '', ''" by simp
    show ?thesis using ih unfolding s by (simp only: append.simps split spaced)
  qed
  then show ?case by (simp only: join_with.simps)
qed simp

text \<open>
  The API declares no exchange but those of the worker exactly if the configuration names one of
  the two constants; with the defaults it does, and the routes are under the prefix that the
  browser's client uses.
\<close>

lemma exchanges_agree:
  assumes "cf_rabbitUri cfg = Some uri"
  shows "(\<exists>a b. messaging_module cfg w = (Inr a, w) \<and> worker_messaging_module cfg w = (Inr b, w)
      \<and> set (bk_exchanges a) \<subseteq> set (bk_exchanges b))
    \<longleftrightarrow> cf_rabbitExchange cfg \<in> {EXCHANGE, DEAD_LETTER_EXCHANGE}"
  using assms by (simp add: messaging_module_def worker_messaging_module_def durable_topic_def andThen_def
      run_basic)

lemma default_setup:
  assumes "\<And>k. env k = None"
  shows "as_prefix (configureApp (configuration env)) = ''api''"
    and "co_origin (as_cors (configureApp (configuration env))) = [''http://localhost:4200'']"
    and "throttler (configuration env) = (Some 60000, Some 120)"
    and "pr_port (api_process (configuration env)) = Some 3000"
    and "pr_port (worker_process (configuration env)) = Some 3001"
    and "cf_rabbitExchange (configuration env) = EXCHANGE"
proof -
  have e: "env = (\<lambda>_. None)" using assms by auto
  show "as_prefix (configureApp (configuration env)) = ''api''"
    "cf_rabbitExchange (configuration env) = EXCHANGE"
    by (simp_all add: configureApp_def configuration_def e EXCHANGE_def)
  have "split_on CHR '','' ''http://localhost:4200'' = [''http://localhost:4200'']"
    "js_trim ''http://localhost:4200'' = ''http://localhost:4200''"
    by (rule split_on_none, simp) (rule js_trim_id, simp_all add: is_space_def)
  then show "co_origin (as_cors (configureApp (configuration env))) = [''http://localhost:4200'']"
    by (simp add: configureApp_def configuration_def e)
  have "parseInt ''60'' = Some 60" "parseInt ''120'' = Some 120" "parseInt ''3000'' = Some 3000"
    "parseInt ''3001'' = Some 3001" by code_simp+
  then show "throttler (configuration env) = (Some 60000, Some 120)"
    "pr_port (api_process (configuration env)) = Some 3000"
    "pr_port (worker_process (configuration env)) = Some 3001"
    by (simp_all add: throttler_def api_process_def worker_process_def configuration_def env_int_def e)
qed

end
