(* ===== verification/Seed.thy ===== *)
theory Seed
  imports Forms
begin

text \<open>
  The demo data (\<open>backend/prisma/seed.ts\<close>). An \<open>upsert\<close> with an empty \<open>update\<close> is, as Prisma
  documents it, \<open>findOrCreate\<close>. The three user upserts of the \<open>Promise.all\<close> touch different rows;
  they run here in the order of the array. The console output is left out.
\<close>

section \<open>Find or create\<close>

definition new_organization :: "string \<Rightarrow> time \<Rightarrow> string \<Rightarrow> string \<Rightarrow> organization" where
  "new_organization i t name slug =
     \<lparr>org_id = i, org_name = name, org_slug = slug, org_isActive = True, org_createdAt = t,
      org_updatedAt = t\<rparr>"

definition organization_upsert :: "string \<Rightarrow> string \<Rightarrow> organization op" where
  "organization_upsert name slug =
     andThen (read_db (\<lambda>d. find_by org_slug slug (organizations d))) (\<lambda>found.
     case found of
       Some g \<Rightarrow> ret g
     | None \<Rightarrow>
         andThen randomUUID (\<lambda>i.
         andThen current_time (\<lambda>t.
         let g = new_organization i t name slug
         in andThen (write_db (organization_insert g)) (\<lambda>_. ret g))))"

definition user_upsert ::
  "string \<Rightarrow> string \<Rightarrow> string \<Rightarrow> string \<Rightarrow> role \<Rightarrow> string \<Rightarrow> user op" where
  "user_upsert email passwordHash firstName lastName r organizationId =
     andThen (read_db (\<lambda>d. find_by u_email email (users d))) (\<lambda>found.
     case found of
       Some u \<Rightarrow> ret u
     | None \<Rightarrow> prisma_user_create email passwordHash firstName lastName r organizationId)"

section \<open>Tickets\<close>

record seed_ticket =
  sd_title :: string
  sd_description :: string
  sd_priority :: ticket_priority
  sd_status :: ticket_status
  sd_assignedToId :: "string option"

definition seedTickets :: "string \<Rightarrow> seed_ticket list" where
  "seedTickets agentId =
     [\<lparr>sd_title = ''Cannot log in to the dashboard'',
       sd_description = ''Login returns a 500 error after the latest release.'',
       sd_priority = HIGH, sd_status = OPEN, sd_assignedToId = Some agentId\<rparr>,
      \<lparr>sd_title = ''Export to CSV is missing columns'',
       sd_description = ''The ticket export omits the assignee and priority columns.'',
       sd_priority = MEDIUM, sd_status = IN_PROGRESS, sd_assignedToId = Some agentId\<rparr>,
      \<lparr>sd_title = ''Request: dark mode'',
       sd_description = ''Would love a dark theme for the agent console.'',
       sd_priority = LOW, sd_status = PENDING, sd_assignedToId = None\<rparr>]"

definition seeded_ticket ::
  "string \<Rightarrow> time \<Rightarrow> nat \<Rightarrow> string \<Rightarrow> string \<Rightarrow> seed_ticket \<Rightarrow> ticket" where
  "seeded_ticket i t sequence organizationId customerId s =
     \<lparr>tk_id = i, tk_reference = reference_of sequence, tk_title = sd_title s,
      tk_description = sd_description s, tk_status = sd_status s, tk_priority = sd_priority s,
      tk_category = None, tk_organizationId = organizationId, tk_createdById = customerId,
      tk_assignedToId = sd_assignedToId s, tk_createdAt = t, tk_updatedAt = t,
      tk_closedAt = None\<rparr>"

definition create_seeded :: "nat \<Rightarrow> string \<Rightarrow> string \<Rightarrow> seed_ticket \<Rightarrow> ticket op" where
  "create_seeded sequence organizationId customerId s =
     andThen randomUUID (\<lambda>i.
     andThen current_time (\<lambda>t.
     let k = seeded_ticket i t sequence organizationId customerId s
     in andThen (write_db (ticket_insert k)) (\<lambda>_. ret k)))"

definition SEED_COMMENT :: string where
  "SEED_COMMENT = ''Thanks for reporting this. We are looking into it.''"

fun seed_tickets ::
  "nat \<Rightarrow> string \<Rightarrow> string \<Rightarrow> string \<Rightarrow> seed_ticket list \<Rightarrow> unit op" where
  "seed_tickets sequence organizationId customerId agentId [] = ret ()"
| "seed_tickets sequence organizationId customerId agentId (s # ss) =
     andThen (create_seeded sequence organizationId customerId s) (\<lambda>k.
     andThen (prisma_comment_create (tk_id k) agentId SEED_COMMENT False) (\<lambda>_.
     seed_tickets (sequence + 1) organizationId customerId agentId ss))"

section \<open>The seed\<close>

definition SALT_ROUNDS :: int where "SALT_ROUNDS = 12"

definition DEMO_PASSWORD :: string where "DEMO_PASSWORD = ''Password123!''"

definition seed :: "passwords \<Rightarrow> unit op" where
  "seed pw =
     (let passwordHash = bcrypt_hash pw DEMO_PASSWORD (Some SALT_ROUNDS) in
      andThen (organization_upsert ''Acme Inc.'' ''acme-inc'') (\<lambda>org.
      andThen (user_upsert ''admin@acme.test'' passwordHash ''Alice'' ''Admin'' ADMIN (org_id org)) (\<lambda>admin.
      andThen (user_upsert ''agent@acme.test'' passwordHash ''Gary'' ''Agent'' AGENT (org_id org)) (\<lambda>agent.
      andThen (user_upsert ''customer@acme.test'' passwordHash ''Carol'' ''Customer'' CUSTOMER
                 (org_id org)) (\<lambda>customer.
      andThen (read_db (\<lambda>d. length (filter (\<lambda>t. tk_organizationId t = org_id org) (tickets d))))
        (\<lambda>existing.
      if existing = 0
      then seed_tickets 1 (org_id org) (u_id customer) (u_id agent) (seedTickets (u_id agent))
      else ret ()))))))"

section \<open>What the steps do\<close>

lemma organization_upsert_ok:
  assumes "organization_upsert name slug w = (Inr g, w')"
  shows "find_by org_slug slug (organizations (w_db w')) = Some g"
    and "\<exists>gs. w_db w' = (w_db w)\<lparr>organizations := organizations (w_db w) @ gs\<rparr>"
  using assms
  by (auto simp: organization_upsert_def runs Let_def organization_insert_def find_by_append
      new_organization_def split: option.splits if_splits intro: exI [of _ "[]"])

lemma user_upsert_ok:
  assumes "user_upsert e h fn ln r g w = (Inr u, w')"
  shows "find_by u_email e (users (w_db w')) = Some u"
    and "\<exists>us. set us \<subseteq> {u} \<and> w_db w' = (w_db w)\<lparr>users := users (w_db w) @ us\<rparr>"
    and "u_email u = e" and "e \<notin> u_email ` set (users (w_db w)) \<Longrightarrow>
      u = new_user (u_id u) (u_createdAt u) e h fn ln r g"
proof -
  consider (found) "find_by u_email e (users (w_db w)) = Some u" "w' = w"
    | (created) "find_by u_email e (users (w_db w)) = None"
        "prisma_user_create e h fn ln r g w = (Inr u, w')"
    using assms by (auto simp: user_upsert_def runs split: option.splits)
  note c = this
  show "find_by u_email e (users (w_db w')) = Some u"
    using c by cases (auto simp: find_by_append new_user_def dest!: prisma_user_create_ok)
  show "\<exists>us. set us \<subseteq> {u} \<and> w_db w' = (w_db w)\<lparr>users := users (w_db w) @ us\<rparr>"
  proof (cases "w' = w")
    case False
    with c show ?thesis
      by (intro exI [of _ "[u]"]) (auto dest!: prisma_user_create_ok)
  qed (auto intro: exI [of _ "[]"])
  show "u_email u = e"
    using c by cases (auto simp: find_by_def new_user_def dest!: find_SomeD prisma_user_create_ok)
  show "u = new_user (u_id u) (u_createdAt u) e h fn ln r g"
    if "e \<notin> u_email ` set (users (w_db w))"
    using c
  proof cases
    case found
    with that show ?thesis by (auto simp: find_by_def dest!: find_SomeD)
  qed (auto simp: new_user_def dest!: prisma_user_create_ok)
qed

lemma seed_tickets_ok:
  assumes "seed_tickets n g c a ss w = (Inr (), w')"
  shows "\<exists>ts cs. w_db w' = (w_db w)\<lparr>tickets := tickets (w_db w) @ ts, comments := comments (w_db w) @ cs\<rparr>
    \<and> map tk_reference ts = map reference_of [n..<n + length ss]
    \<and> (\<forall>t\<in>set ts. tk_organizationId t = g)"
  using assms
proof (induction ss arbitrary: n w)
  case Nil
  then show ?case by (auto simp: run_basic intro: exI [of _ "[]"])
next
  case (Cons s ss)
  then obtain k v x v' where k: "create_seeded n g c s w = (Inr k, v)"
    and x: "prisma_comment_create (tk_id k) a SEED_COMMENT False v = (Inr x, v')"
    and rest: "seed_tickets (n + 1) g c a ss v' = (Inr (), w')"
    by (auto simp: andThen_ok)
  have v: "w_db v = (w_db w)\<lparr>tickets := tickets (w_db w) @ [k]\<rparr>" "tk_reference k = reference_of n"
    "tk_organizationId k = g"
    using k by (auto simp: create_seeded_def runs Let_def ticket_insert_ok seeded_ticket_def)
  note v' = prisma_comment_create_ok [OF x]
  obtain ts cs where i: "w_db w' = (w_db v')\<lparr>tickets := tickets (w_db v') @ ts,
      comments := comments (w_db v') @ cs\<rparr>"
    "map tk_reference ts = map reference_of [n + 1..<n + 1 + length ss]"
    "\<forall>t\<in>set ts. tk_organizationId t = g"
    using Cons.IH [OF rest] by blast
  have "w_db w' = (w_db w)\<lparr>tickets := tickets (w_db w) @ (k # ts),
      comments := comments (w_db w) @ (x # cs)\<rparr>"
    using i(1) v(1) v' by simp
  moreover have "map tk_reference (k # ts) = map reference_of [n..<n + length (s # ss)]"
  proof -
    have "[n..<n + length (s # ss)] = n # [n + 1..<n + 1 + length ss]"
      by (subst upt_conv_Cons) simp_all
    then show ?thesis by (simp only: list.map i(2) v(2))
  qed
  ultimately show ?case using i(3) v(3) by (intro exI [of _ "k # ts"] exI [of _ "x # cs"]) auto
qed

section \<open>The seeded system\<close>

definition demo_users :: "(string \<times> role) list" where
  "demo_users = [(''admin@acme.test'', ADMIN), (''agent@acme.test'', AGENT),
     (''customer@acme.test'', CUSTOMER)]"

text \<open>The states of a successful run.\<close>

lemma seed_runs:
  assumes "seed pw w = (Inr (), w')"
  obtains org admin agent customer us gs ts cs where
    "find_by org_slug ''acme-inc'' (organizations (w_db w')) = Some org"
    "find_by u_email ''admin@acme.test'' (users (w_db w')) = Some admin"
    "find_by u_email ''agent@acme.test'' (users (w_db w')) = Some agent"
    "find_by u_email ''customer@acme.test'' (users (w_db w')) = Some customer"
    "\<exists>t\<in>set (tickets (w_db w')). tk_organizationId t = org_id org"
    "tickets (w_db w) = [] \<Longrightarrow> map tk_reference (tickets (w_db w')) = map reference_of [1..<4]"
    "fst ` set demo_users \<inter> u_email ` set (users (w_db w)) = {} \<Longrightarrow>
      (\<forall>u\<in>{admin, agent, customer}. u_isActive u
         \<and> u_passwordHash u = bcrypt_hash pw DEMO_PASSWORD (Some SALT_ROUNDS))
      \<and> map u_role [admin, agent, customer] = [ADMIN, AGENT, CUSTOMER]"
proof -
  let ?h = "bcrypt_hash pw DEMO_PASSWORD (Some SALT_ROUNDS)"
  obtain org admin agent customer w1 w2 w3 w4 where
    1: "organization_upsert ''Acme Inc.'' ''acme-inc'' w = (Inr org, w1)"
    and 2: "user_upsert ''admin@acme.test'' ?h ''Alice'' ''Admin'' ADMIN (org_id org) w1 = (Inr admin, w2)"
    and 3: "user_upsert ''agent@acme.test'' ?h ''Gary'' ''Agent'' AGENT (org_id org) w2 = (Inr agent, w3)"
    and 4: "user_upsert ''customer@acme.test'' ?h ''Carol'' ''Customer'' CUSTOMER (org_id org) w3
      = (Inr customer, w4)"
    and 5: "(if length (filter (\<lambda>t. tk_organizationId t = org_id org) (tickets (w_db w4))) = 0
      then seed_tickets 1 (org_id org) (u_id customer) (u_id agent) (seedTickets (u_id agent))
      else ret ()) w4 = (Inr (), w')"
    using assms by (auto simp: seed_def Let_def andThen_ok run_basic)
  note o = organization_upsert_ok [OF 1] and a = user_upsert_ok [OF 2] and g = user_upsert_ok [OF 3]
    and c = user_upsert_ok [OF 4]
  have w': "\<exists>ts cs. w_db w' = (w_db w4)\<lparr>tickets := tickets (w_db w4) @ ts,
        comments := comments (w_db w4) @ cs\<rparr>
      \<and> (\<exists>t\<in>set (tickets (w_db w')). tk_organizationId t = org_id org)
      \<and> (tickets (w_db w4) = [] \<longrightarrow> map tk_reference (tickets (w_db w')) = map reference_of [1..<4])"
  proof (cases "filter (\<lambda>t. tk_organizationId t = org_id org) (tickets (w_db w4)) = []")
    case True
    with 5 seed_tickets_ok [of 1 "org_id org" "u_id customer" "u_id agent" "seedTickets (u_id agent)" w4 w']
    obtain ts cs where t: "w_db w' = (w_db w4)\<lparr>tickets := tickets (w_db w4) @ ts,
        comments := comments (w_db w4) @ cs\<rparr>"
      "map tk_reference ts = map reference_of [1..<1 + length (seedTickets (u_id agent))]"
      "\<forall>t\<in>set ts. tk_organizationId t = org_id org" by auto
    have "length ts = 3" using arg_cong [OF t(2), of length] by (simp add: seedTickets_def)
    then have "\<exists>t. t \<in> set ts" by (cases ts) auto
    moreover have "map tk_reference ts = map reference_of [1..<4]"
    proof -
      have "1 + length (seedTickets (u_id agent)) = 4" by (simp add: seedTickets_def)
      with t(2) show ?thesis by (simp only:)
    qed
    ultimately show ?thesis using t(1,3) by auto
  next
    case False
    with 5 have "w' = w4" by (simp add: run_basic)
    with False show ?thesis
      by (intro exI [of _ "[]"] conjI) (auto simp: filter_empty_conv)
  qed
  then obtain ts cs where t: "w_db w' = (w_db w4)\<lparr>tickets := tickets (w_db w4) @ ts,
      comments := comments (w_db w4) @ cs\<rparr>"
    "\<exists>t\<in>set (tickets (w_db w')). tk_organizationId t = org_id org"
    "tickets (w_db w4) = [] \<Longrightarrow> map tk_reference (tickets (w_db w')) = map reference_of [1..<4]"
    by blast
  obtain gs us1 us2 us3 where d: "w_db w1 = (w_db w)\<lparr>organizations := organizations (w_db w) @ gs\<rparr>"
    "set us1 \<subseteq> {admin}" "set us2 \<subseteq> {agent}" "w_db w2 = (w_db w1)\<lparr>users := users (w_db w1) @ us1\<rparr>"
    "w_db w3 = (w_db w2)\<lparr>users := users (w_db w2) @ us2\<rparr>"
    "w_db w4 = (w_db w3)\<lparr>users := users (w_db w3) @ us3\<rparr>"
    using o(2) a(2) g(2) c(2) by (elim exE conjE) (rule that)
  show ?thesis
  proof (rule that)
    show "find_by org_slug ''acme-inc'' (organizations (w_db w')) = Some org"
      using o(1) by (simp add: t d)
    show "find_by u_email ''admin@acme.test'' (users (w_db w')) = Some admin"
      using a(1) by (simp add: t d find_by_append split: option.splits)
    show "find_by u_email ''agent@acme.test'' (users (w_db w')) = Some agent"
      using g(1) by (simp add: t d find_by_append split: option.splits)
    show "find_by u_email ''customer@acme.test'' (users (w_db w')) = Some customer"
      using c(1) by (simp add: t d)
    show "(\<forall>u\<in>{admin, agent, customer}. u_isActive u \<and> u_passwordHash u = ?h)
        \<and> map u_role [admin, agent, customer] = [ADMIN, AGENT, CUSTOMER]"
      if fresh: "fst ` set demo_users \<inter> u_email ` set (users (w_db w)) = {}"
    proof -
      have e: "u_email ` set (users (w_db w1)) = u_email ` set (users (w_db w))"
        "u_email ` set (users (w_db w2)) \<subseteq> insert ''admin@acme.test'' (u_email ` set (users (w_db w)))"
        "u_email ` set (users (w_db w3)) \<subseteq> {''admin@acme.test'', ''agent@acme.test''}
          \<union> u_email ` set (users (w_db w))"
        using d a(3) g(3) by auto
      have "''admin@acme.test'' \<notin> u_email ` set (users (w_db w1))"
        "''agent@acme.test'' \<notin> u_email ` set (users (w_db w2))"
        "''customer@acme.test'' \<notin> u_email ` set (users (w_db w3))"
        using e fresh by (auto simp: demo_users_def)
      from a(4) [OF this(1)] g(4) [OF this(2)] c(4) [OF this(3)] show ?thesis
        by (auto simp: new_user_def dest: arg_cong [of _ _ u_isActive] arg_cong [of _ _ u_passwordHash]
            arg_cong [of _ _ u_role])
    qed
  qed (use t(2,3) in \<open>simp_all add: d\<close>)
qed

text \<open>
  The demo accounts of the login page work, and seeding twice does nothing more. After a run of
  the seed over a database that had none of the demo e-mails, what the login page's demo buttons
  fill in are the credentials of an active user with the role on the button (for any bcrypt whose
  comparison accepts what its hash made). However the database looked before, a second run
  succeeds and changes nothing. If there were no tickets, the references are consecutive, so that
  the next ticket that is created gets a free one.
\<close>

theorem seed_demo:
  assumes "seed pw w = (Inr (), w')" and "\<And>p n. bcrypt_compare pw p (bcrypt_hash pw p n)"
  shows "(fst ` set demo_users \<inter> u_email ` set (users (w_db w)) = {} \<longrightarrow>
      (\<forall>(e, r)\<in>set demo_users. \<exists>u\<in>set (users (w_db w')). u_role u = r
         \<and> credentials_ok pw \<lparr>ld_email = fst (login_fill e), ld_password = snd (login_fill e)\<rparr> u))
    \<and> (w_db v = w_db w' \<longrightarrow> seed pw' v = (Inr (), v))
    \<and> (tickets (w_db w) = [] \<longrightarrow> refs_sequential (w_db w'))"
proof -
  obtain org admin agent customer where s:
    "find_by org_slug ''acme-inc'' (organizations (w_db w')) = Some org"
    "find_by u_email ''admin@acme.test'' (users (w_db w')) = Some admin"
    "find_by u_email ''agent@acme.test'' (users (w_db w')) = Some agent"
    "find_by u_email ''customer@acme.test'' (users (w_db w')) = Some customer"
    "\<exists>t\<in>set (tickets (w_db w')). tk_organizationId t = org_id org"
    "tickets (w_db w) = [] \<Longrightarrow> map tk_reference (tickets (w_db w')) = map reference_of [1..<4]"
    "fst ` set demo_users \<inter> u_email ` set (users (w_db w)) = {} \<Longrightarrow>
      (\<forall>u\<in>{admin, agent, customer}. u_isActive u
         \<and> u_passwordHash u = bcrypt_hash pw DEMO_PASSWORD (Some SALT_ROUNDS))
      \<and> map u_role [admin, agent, customer] = [ADMIN, AGENT, CUSTOMER]"
    using seed_runs [OF assms(1)] by metis
  have login: "\<forall>(e, r)\<in>set demo_users. \<exists>u\<in>set (users (w_db w')). u_role u = r
      \<and> credentials_ok pw \<lparr>ld_email = fst (login_fill e), ld_password = snd (login_fill e)\<rparr> u"
    if "fst ` set demo_users \<inter> u_email ` set (users (w_db w)) = {}"
    using s(2-4) s(7) [OF that] assms(2)
    by (auto simp: demo_users_def credentials_ok_def login_fill_def DEMO_PASSWORD_def find_by_def
        dest!: find_SomeD)
  have again: "seed pw' v = (Inr (), v)" if "w_db v = w_db w'"
    using s(1-5) that
    by (auto simp: seed_def Let_def andThen_def run_basic organization_upsert_def user_upsert_def
        filter_empty_conv)
  have refs: "refs_sequential (w_db w')" if "tickets (w_db w) = []"
  proof -
    have "length (tickets (w_db w')) = 3" using arg_cong [OF s(6) [OF that], of length] by simp
    then show ?thesis using s(6) [OF that] by (simp add: refs_sequential_def)
  qed
  show ?thesis using login again refs by blast
qed

definition fx_empty :: world where
  "fx_empty = fx_world empty_db"

theorem seed_demo_witness:
  "\<exists>w'. seed fx_passwords fx_empty = (Inr (), w') \<and> seed fx_passwords w' = (Inr (), w')
     \<and> refs_sequential (w_db w') \<and> length (tickets (w_db w')) = 3
     \<and> (\<exists>u\<in>set (users (w_db w')). u_role u = AGENT
          \<and> credentials_ok fx_passwords \<lparr>ld_email = ''agent@acme.test'', ld_password = ''Password123!''\<rparr> u)"
proof -
  have run: "succeeds (seed fx_passwords) fx_empty" by code_simp
  then obtain x w' where r: "seed fx_passwords fx_empty = (Inr x, w')" by (elim succeedsE) (rule that)
  then have run: "seed fx_passwords fx_empty = (Inr (), w')" by simp
  have n: "length (tickets (w_db (snd (seed fx_passwords fx_empty)))) = 3" by code_simp
  have e: "users (w_db fx_empty) = []" "tickets (w_db fx_empty) = []"
    by (simp_all add: fx_empty_def fixtures)
  have p: "bcrypt_compare fx_passwords q (bcrypt_hash fx_passwords q k)" for q k
    by (simp add: fx_passwords_def)
  have "(''agent@acme.test'', AGENT) \<in> set demo_users" by (simp add: demo_users_def)
  with seed_demo [OF run p, of w' fx_passwords] e n run show ?thesis
    by (fastforce simp: login_fill_def)
qed

end
