(* ===== verification/Pipeline.thy ===== *)
theory Pipeline
  imports EventTypes
begin

text \<open>
  The event pipeline as one system: the services that write the outbox, the relay that publishes
  it, the broker with its exchanges and queues (declared by the \<open>@RabbitSubscribe\<close> decorators of
  the consumers and by \<open>worker-messaging.module.ts\<close>), the three consumers, the retries and the
  dead-letter sink, in any interleaving. The broker is third-party: its matching of a topic
  pattern with a routing key is a parameter of which two documented facts are used.
\<close>

section \<open>Exchanges, queues and consumers\<close>

type_synonym topic_match = "string \<Rightarrow> string \<Rightarrow> bool"

text \<open>\<open>#\<close> matches every key; a pattern without wildcards matches itself only.\<close>

definition topic_matching :: "topic_match \<Rightarrow> bool" where
  "topic_matching m \<longleftrightarrow> (\<forall>k. m ''#'' k)
     \<and> (\<forall>p k. CHR ''#'' \<notin> set p \<longrightarrow> CHR ''*'' \<notin> set p \<longrightarrow> (m p k \<longleftrightarrow> p = k))"

record subscription =
  sb_exchange :: string
  sb_routingKey :: "string list"
  sb_queue :: string

record event_consumer = subscription +
  ec_name :: string
  ec_project :: "domain_event \<Rightarrow> unit op"

definition notification_consumer :: event_consumer where
  "notification_consumer = \<lparr>sb_exchange = EXCHANGE, sb_routingKey = NotificationBindings,
     sb_queue = Q_Notification, ec_name = Consumer_Notification, ec_project = notification_project\<rparr>"

definition audit_consumer :: event_consumer where
  "audit_consumer = \<lparr>sb_exchange = EXCHANGE, sb_routingKey = AuditBindings, sb_queue = Q_Audit,
     ec_name = Consumer_Audit, ec_project = audit_project\<rparr>"

definition analytics_consumer :: event_consumer where
  "analytics_consumer = \<lparr>sb_exchange = EXCHANGE, sb_routingKey = AnalyticsBindings,
     sb_queue = Q_Analytics, ec_name = Consumer_Analytics, ec_project = analytics_project\<rparr>"

definition dead_letter_sink :: subscription where
  "dead_letter_sink = \<lparr>sb_exchange = DEAD_LETTER_EXCHANGE, sb_routingKey = DeadLetterBindings,
     sb_queue = Q_DeadLetter\<rparr>"

definition event_consumers :: "event_consumer list" where
  "event_consumers = [notification_consumer, audit_consumer, analytics_consumer]"

definition subscriptions :: "subscription list" where
  "subscriptions = map subscription.truncate event_consumers @ [dead_letter_sink]"

definition binds :: "topic_match \<Rightarrow> string \<Rightarrow> string \<Rightarrow> 'a subscription_scheme \<Rightarrow> bool" where
  "binds m x k s \<longleftrightarrow> sb_exchange s = x \<and> list_ex (\<lambda>p. m p k) (sb_routingKey s)"

text \<open>The queues a message reaches; the default exchange delivers to the queue the key names.\<close>

definition route :: "topic_match \<Rightarrow> string \<Rightarrow> string \<Rightarrow> string list" where
  "route m x k =
     (if x = [] then filter (\<lambda>q. q = k) (map sb_queue subscriptions)
      else map sb_queue (filter (binds m x k) subscriptions))"

type_synonym delivery = "message_body \<times> raw_message"

definition post ::
  "topic_match \<Rightarrow> string \<Rightarrow> string \<Rightarrow> delivery \<Rightarrow> (string \<Rightarrow> delivery list) \<Rightarrow> string \<Rightarrow> delivery list" where
  "post m x k msg qs = (\<lambda>q. if q \<in> set (route m x k) then qs q @ [msg] else qs q)"

definition post_publication ::
  "topic_match \<Rightarrow> publication \<Rightarrow> (string \<Rightarrow> delivery list) \<Rightarrow> string \<Rightarrow> delivery list" where
  "post_publication m p =
     post m (pb_exchange p) (pb_routingKey p)
       (EventBody (pb_event p), \<lparr>raw_headers = None, raw_messageId = Some (pb_messageId p),
          raw_correlationId = pb_correlationId p\<rparr>)"

definition post_message ::
  "topic_match \<Rightarrow> out_message \<Rightarrow> (string \<Rightarrow> delivery list) \<Rightarrow> string \<Rightarrow> delivery list" where
  "post_message m o' = post m (om_exchange o') (om_routingKey o') (om_body o', redelivered o')"

section \<open>Steps\<close>

text \<open>The state: the relay with the database, the queues, and what the dead-letter sink received.\<close>

record pipeline =
  pl_relay :: relay_state
  pl_queues :: "string \<Rightarrow> delivery list"
  pl_buried :: "delivery list"

definition pl_db :: "pipeline \<Rightarrow> db" where
  "pl_db s = w_db (rs_world (pl_relay s))"

definition set_world :: "world \<Rightarrow> pipeline \<Rightarrow> pipeline" where
  "set_world w s = s\<lparr>pl_relay := (pl_relay s)\<lparr>rs_world := w\<rparr>\<rparr>"

definition relay_tick ::
  "topic_match \<Rightarrow> relay_config \<Rightarrow> (event_outbox list \<Rightarrow> event_outbox list) \<Rightarrow> bool
    \<Rightarrow> (string \<Rightarrow> row_io) \<Rightarrow> pipeline \<Rightarrow> pipeline"
where
  "relay_tick m cfg ord ff io s =
     (let r' = dispatchPending cfg ord ff io (pl_relay s)
      in s\<lparr>pl_relay := r',
           pl_queues := fold (post_publication m)
             (drop (length (rs_sent (pl_relay s))) (rs_sent r')) (pl_queues s)\<rparr>)"

text \<open>
  A projection, or the exception the infrastructure raises in its place, such as a lost
  connection to the database.
\<close>

definition faulty :: "exn option \<Rightarrow> (domain_event \<Rightarrow> unit op) \<Rightarrow> domain_event \<Rightarrow> unit op" where
  "faulty f p = (case f of None \<Rightarrow> p | Some e \<Rightarrow> (\<lambda>_. throw e))"

text \<open>
  \<open>onEvent\<close> of a consumer.
\<close>

definition onEvent ::
  "(exn \<Rightarrow> string) \<Rightarrow> int \<Rightarrow> event_consumer \<Rightarrow> exn option \<Rightarrow> domain_event \<Rightarrow> raw_message \<Rightarrow> world
    \<Rightarrow> out_message list \<times> world"
where
  "onEvent em M c fault ev raw =
     handle em M (ec_name c) (sb_queue c)
       (faulty fault (ec_project c)) ev raw"

definition drop_nth :: "nat \<Rightarrow> 'a list \<Rightarrow> 'a list" where
  "drop_nth i xs = take i xs @ drop (Suc i) xs"

text \<open>
  One delivery of the \<open>i\<close>-th message of a consumer's queue. The message is acknowledged when the
  handler returns (\<open>lost = None\<close>). When the worker dies or a publish of the handler fails, only
  the first \<open>n\<close> messages were published and the broker keeps the message (\<open>lost = Some n\<close>).
\<close>

definition receive ::
  "topic_match \<Rightarrow> (exn \<Rightarrow> string) \<Rightarrow> int \<Rightarrow> event_consumer \<Rightarrow> nat \<Rightarrow> exn option \<Rightarrow> nat option
    \<Rightarrow> pipeline \<Rightarrow> pipeline"
where
  "receive m em M c i fault lost s =
     (case pl_queues s (sb_queue c) ! i of
        (DeadLetterBody _ _ _ _, _) \<Rightarrow> s
      | (EventBody ev, raw) \<Rightarrow>
          (let (ms, w') = onEvent em M c fault ev raw (rs_world (pl_relay s))
           in (set_world w' s)\<lparr>pl_queues :=
                (case lost of
                   None \<Rightarrow> fold (post_message m) ms
                     ((pl_queues s)(sb_queue c := drop_nth i (pl_queues s (sb_queue c))))
                 | Some n \<Rightarrow> fold (post_message m) (take n ms) (pl_queues s))\<rparr>))"

text \<open>The sink logs the message (\<open>onDeadLetter\<close>) and acknowledges it.\<close>

definition bury :: "nat \<Rightarrow> pipeline \<Rightarrow> pipeline" where
  "bury i s =
     s\<lparr>pl_queues := (pl_queues s)(Q_DeadLetter := drop_nth i (pl_queues s Q_DeadLetter)),
       pl_buried := pl_buried s @ [pl_queues s Q_DeadLetter ! i]\<rparr>"

definition dead_letter_log :: "(message_body \<Rightarrow> string) \<Rightarrow> pipeline \<Rightarrow> string list" where
  "dead_letter_log stringify s = map (\<lambda>(b, raw). onDeadLetter stringify b raw) (pl_buried s)"

definition shut :: "pipeline \<Rightarrow> pipeline" where
  "shut s = s\<lparr>pl_relay := onModuleDestroy (pl_relay s)\<rparr>"

text \<open>A fault is not a unique violation: that error is the database's answer to an insert.\<close>

definition outage :: "exn option \<Rightarrow> bool" where
  "outage f \<longleftrightarrow> (case f of None \<Rightarrow> True | Some e \<Rightarrow> \<not> is_unique_violation e)"

definition delivers :: "event_consumer \<Rightarrow> nat \<Rightarrow> pipeline \<Rightarrow> bool" where
  "delivers c i s \<longleftrightarrow> c \<in> set event_consumers \<and> i < length (pl_queues s (sb_queue c))"

inductive pipe_step ::
  "topic_match \<Rightarrow> relay_config \<Rightarrow> (event_outbox list \<Rightarrow> event_outbox list) \<Rightarrow> (exn \<Rightarrow> string) \<Rightarrow> int
    \<Rightarrow> pipeline \<Rightarrow> pipeline \<Rightarrow> bool"
  for m cfg ord em M
where
  serves: "service_step (rs_world (pl_relay s)) w' \<Longrightarrow> pipe_step m cfg ord em M s (set_world w' s)"
| relays: "pipe_step m cfg ord em M s (relay_tick m cfg ord ff io s)"
| receives: "delivers c i s \<Longrightarrow> outage fault \<Longrightarrow>
    pipe_step m cfg ord em M s (receive m em M c i fault lost s)"
| buries: "i < length (pl_queues s Q_DeadLetter) \<Longrightarrow> pipe_step m cfg ord em M s (bury i s)"
| shuts: "pipe_step m cfg ord em M s (shut s)"

section \<open>Routing\<close>

lemmas consumer_defs = notification_consumer_def audit_consumer_def analytics_consumer_def

lemmas queue_names = Q_Notification_def Q_Audit_def Q_Analytics_def Q_DeadLetter_def

lemma queue_names_distinct [simp]:
  "Q_Notification \<noteq> Q_DeadLetter" "Q_Audit \<noteq> Q_DeadLetter" "Q_Analytics \<noteq> Q_DeadLetter"
  "Q_Notification \<noteq> Q_Audit" "Q_Notification \<noteq> Q_Analytics" "Q_Audit \<noteq> Q_Analytics"
  "Q_Audit \<noteq> Q_Notification" "Q_Analytics \<noteq> Q_Notification" "Q_Analytics \<noteq> Q_Audit"
  by (simp_all add: queue_names)

lemma consumer_queue:
  assumes "c \<in> set event_consumers"
  shows "sb_queue c \<noteq> Q_DeadLetter" and "sb_exchange c = EXCHANGE"
    and "sb_queue c \<in> set (map sb_queue subscriptions)"
  using assms
  by (auto simp: event_consumers_def consumer_defs subscriptions_def subscription.truncate_def)

lemma consumer_by_queue:
  "c \<in> set event_consumers \<Longrightarrow> c' \<in> set event_consumers \<Longrightarrow> sb_queue c = sb_queue c' \<Longrightarrow> c = c'"
  by (auto simp: event_consumers_def consumer_defs)

lemma exchanges [simp]: "EXCHANGE \<noteq> []" "EXCHANGE \<noteq> DEAD_LETTER_EXCHANGE" "DEAD_LETTER_EXCHANGE \<noteq> EXCHANGE"
  by (simp_all add: EXCHANGE_def DEAD_LETTER_EXCHANGE_def)

lemma route_event:
  "q \<in> set (route m EXCHANGE k) \<longleftrightarrow>
     (\<exists>c\<in>set event_consumers. sb_queue c = q \<and> list_ex (\<lambda>p. m p k) (sb_routingKey c))"
  by (auto simp: route_def binds_def subscriptions_def event_consumers_def consumer_defs
      dead_letter_sink_def subscription.truncate_def)

lemma route_default:
  "c \<in> set event_consumers \<Longrightarrow> set (route m [] (sb_queue c)) = {sb_queue c}"
  using consumer_queue(3) [of c] by (auto simp: route_def)

lemma route_dead:
  "topic_matching m \<Longrightarrow> set (route m DEAD_LETTER_EXCHANGE k) = {Q_DeadLetter}"
  by (simp add: route_def binds_def subscriptions_def event_consumers_def consumer_defs
      dead_letter_sink_def subscription.truncate_def DeadLetterBindings_def topic_matching_def)

lemma route_elsewhere:
  "x \<notin> {[], EXCHANGE, DEAD_LETTER_EXCHANGE} \<Longrightarrow> route m x k = []"
  by (auto simp: route_def binds_def subscriptions_def event_consumers_def consumer_defs
      dead_letter_sink_def subscription.truncate_def)

lemma post_mono: "set (qs q) \<subseteq> set (post m x k msg qs q)"
  by (auto simp: post_def)

lemma fold_post_mono:
  "set (qs q) \<subseteq> set (fold (post_publication m) ps qs q)"
  "set (qs q) \<subseteq> set (fold (post_message m) ms qs q)"
proof -
  show "set (qs q) \<subseteq> set (fold (post_publication m) ps qs q)"
  proof (induction ps arbitrary: qs)
    case (Cons p ps)
    with post_mono show ?case by (fastforce simp: post_publication_def)
  qed simp
  show "set (qs q) \<subseteq> set (fold (post_message m) ms qs q)"
  proof (induction ms arbitrary: qs)
    case (Cons p ms)
    with post_mono show ?case by (fastforce simp: post_message_def)
  qed simp
qed

lemma set_drop_nth: "i < length xs \<Longrightarrow> set xs = insert (xs ! i) (set (drop_nth i xs))"
  by (metis Un_insert_right drop_nth_def id_take_nth_drop list.simps(15) set_append)

section \<open>What a delivery leaves behind\<close>

text \<open>
  \<open>runOnce\<close> takes any unique violation for a duplicate, so a projection must not raise one of its
  own; then a delivery that is acknowledged has either been recorded as processed, or has
  published the event again.
\<close>

definition never_unique :: "'a op \<Rightarrow> bool" where
  "never_unique p \<longleftrightarrow> (\<forall>w e w'. p w = (Inl e, w') \<longrightarrow> \<not> is_unique_violation e)"

locale lossless_projector = projector +
  assumes project_unique: "never_unique (project ev)"
begin

lemma handle_outcome:
  assumes "handle em M consumer q project ev raw w = (ms, w')"
  shows "ms = [] \<and> processed consumer (ev_eventId ev) (w_db w')
    \<or> (\<exists>msg t. ms = [retryOrDeadLetter M q ev raw msg t] \<and> w_db w' = w_db w)"
proof (cases "processed consumer (ev_eventId ev) (w_db w)")
  case True
  with assms show ?thesis by (auto simp: handle_def runOnce_duplicate)
next
  case False
  let ?v = "mark_processed consumer (ev_eventId ev) w"
  obtain r v where p: "project ev ?v = (r, v)" by (cases "project ev ?v")
  show ?thesis
  proof (cases r)
    case (Inl e)
    have "\<not> is_unique_violation e"
      using project_unique [of ev] p unfolding never_unique_def Inl by blast
    with assms False p Inl show ?thesis by (auto simp: handle_def runOnce_fresh)
  next
    case (Inr u)
    then have "handle em M consumer q project ev raw w = ([], v)"
      using False p by (simp add: handle_def runOnce_fresh)
    moreover have "processed consumer (ev_eventId ev) (w_db v)"
      using mark_processed_simps(1) [OF False] project_frame [OF p] by (simp add: processed_def)
    ultimately show ?thesis using assms by simp
  qed
qed

lemma handle_processed:
  assumes "handle em M consumer q project ev raw w = (ms, w')"
  shows "processed c i (w_db w') \<longleftrightarrow> processed c i (w_db w)
    \<or> (c = consumer \<and> i = ev_eventId ev \<and> processed consumer i (w_db w'))"
proof (cases "processed consumer (ev_eventId ev) (w_db w)")
  case True
  with assms show ?thesis by (auto simp: handle_def runOnce_duplicate)
next
  case False
  let ?v = "mark_processed consumer (ev_eventId ev) w"
  obtain r v where p: "project ev ?v = (r, v)" by (cases "project ev ?v")
  have "processed c i (w_db v) \<longleftrightarrow> processed c i (w_db ?v)"
    using project_frame [OF p] by (simp add: processed_def)
  then have "w_db w' = w_db w \<or> (\<forall>i c. processed c i (w_db w') \<longleftrightarrow> processed c i (w_db ?v))"
    using assms False p project_frame [OF p]
    by (auto simp: handle_def runOnce_fresh processed_def split: sum.splits if_splits)
  with mark_processed_simps(4) [OF False] show ?thesis by metis
qed

end

named_theorems unique_free \<open>rules for \<open>never_unique\<close>\<close>

lemma unique_free_andThen [unique_free]:
  "never_unique p \<Longrightarrow> (\<And>x. never_unique (f x)) \<Longrightarrow> never_unique (andThen p f)"
  unfolding never_unique_def andThen_err by blast

lemma unique_free_pure [unique_free]:
  "never_unique (ret x)" "never_unique (read_db g)" "never_unique randomUUID"
  "never_unique current_time"
  by (simp_all add: never_unique_def mrun)

lemma unique_free_throw: "\<not> is_unique_violation e \<Longrightarrow> never_unique (throw e)"
  by (simp add: never_unique_def mrun)

lemma unique_free_if [unique_free]:
  "never_unique p \<Longrightarrow> never_unique q \<Longrightarrow> never_unique (if b then p else q)"
  by simp

lemma unique_free_option [unique_free]:
  "never_unique p \<Longrightarrow> (\<And>x. never_unique (f x)) \<Longrightarrow> never_unique (case z of None \<Rightarrow> p | Some x \<Rightarrow> f x)"
  by (cases z) auto

lemma unique_free_lift: "(\<And>e. r = Inl e \<Longrightarrow> \<not> is_unique_violation e) \<Longrightarrow> never_unique (lift r)"
  by (cases r) (simp_all add: never_unique_def mrun)

lemma other_errors [simp]:
  "\<not> is_unique_violation validation_error" "\<not> is_unique_violation foreign_key_violation"
  by (simp_all add: validation_error_def foreign_key_violation_def)

lemma unique_free_reads [unique_free]:
  "never_unique (lift (read_prop p k))" "never_unique (lift (required_string v))"
  "never_unique (lift (nullable_string v))" "never_unique (lift (describe ev))"
  "never_unique (lift (describeChanges v))" "never_unique (lift (all_strings xs))"
proof -
  have d: "descriptor a b c p = Inl e \<Longrightarrow> \<not> is_unique_violation e" for a b c p e
    by (auto simp: descriptor_def read_prop_def split: sum.splits option.splits)
  show "never_unique (lift (read_prop p k))"
    by (rule unique_free_lift) (auto simp: read_prop_def split: option.splits)
  show "never_unique (lift (required_string v))"
    by (rule unique_free_lift) (auto elim: required_string.elims)
  show "never_unique (lift (nullable_string v))"
    by (rule unique_free_lift) (auto elim: nullable_string.elims)
  show "never_unique (lift (describe ev))"
    by (rule unique_free_lift) (auto simp: describe_def Let_def dest: d split: if_splits)
  show "never_unique (lift (describeChanges v))"
    by (rule unique_free_lift) (auto simp: describeChanges_def split: option.splits json.splits)
  have s: "all_strings xs = Inl e \<Longrightarrow> e = validation_error" for xs e
    by (induction xs rule: all_strings.induct) (auto split: sum.splits)
  show "never_unique (lift (all_strings xs))" by (rule unique_free_lift) (drule s, simp)
qed

lemma unique_free_writes [unique_free]:
  "never_unique (write_db (audit_log_insert row))" "never_unique (write_db (notifications_insert rows))"
  by (auto simp: never_unique_def write_db_err audit_log_insert_def notifications_insert_def
      split: if_splits)

lemma unique_free_rows [unique_free]: "never_unique (notification_rows us ty title msg tid)"
  by (induction us) (auto intro!: unique_free)

lemma unique_free_notify [unique_free]:
  "never_unique (notify ids ty title msg tid)" "never_unique (find_ticket_row tid)"
  unfolding notify_def find_ticket_row_def by (intro unique_free)+

interpretation notifications_lossless: lossless_projector notification_project Consumer_Notification
  by unfold_locales
    (unfold notification_project_def project_created_def project_assigned_def project_updated_def
      project_closed_def project_comment_def Let_def, intro unique_free)

interpretation audit_lossless: lossless_projector audit_project Consumer_Audit
  by unfold_locales (unfold audit_project_def, intro unique_free)

interpretation analytics_lossless: lossless_projector analytics_project Consumer_Analytics
proof unfold_locales
  have "never_unique (metric_upsert g day f)" for g day f
    unfolding metric_upsert_def
    by (intro unique_free) (auto simp: never_unique_def write_db_err split: if_splits)
  then show "never_unique (analytics_project ev)" for ev
    unfolding analytics_project_def by (intro unique_free)
qed

lemma lossless_consumer:
  assumes "c \<in> set event_consumers" and "outage fault"
  shows "lossless_projector (faulty fault (ec_project c))"
proof (cases fault)
  case None
  then show ?thesis
    using assms(1) notifications_lossless.lossless_projector_axioms
      audit_lossless.lossless_projector_axioms analytics_lossless.lossless_projector_axioms
    by (auto simp: faulty_def event_consumers_def consumer_defs)
next
  case (Some e)
  with assms(2) show ?thesis
    by unfold_locales (auto simp: faulty_def mrun outage_def intro: unique_free_throw)
qed

lemma onEvent_outcome:
  assumes "c \<in> set event_consumers" and "outage fault"
    and "onEvent em M c fault ev raw w = (ms, w')"
  shows "ms = [] \<and> processed (ec_name c) (ev_eventId ev) (w_db w')
    \<or> (\<exists>msg t. ms = [retryOrDeadLetter M (sb_queue c) ev raw msg t] \<and> w_db w' = w_db w)"
  by (rule lossless_projector.handle_outcome [OF lossless_consumer [OF assms(1,2)]
      assms(3) [unfolded onEvent_def]])

lemma onEvent_processed:
  assumes "c \<in> set event_consumers" and "outage fault"
    and "onEvent em M c fault ev raw w = (ms, w')"
  shows "processed k i (w_db w') \<longleftrightarrow> processed k i (w_db w)
    \<or> (k = ec_name c \<and> i = ev_eventId ev \<and> processed k i (w_db w'))"
  using lossless_projector.handle_processed [OF lossless_consumer [OF assms(1,2)]
      assms(3) [unfolded onEvent_def], of k i] by blast

section \<open>Nothing is lost\<close>

lemma dispatch_frame:
  "\<exists>os. w_db (rs_world (dispatchPending cfg ord ff io s)) = (w_db (rs_world s))\<lparr>outbox := os\<rparr>"
proof -
  have u: "prisma_outbox_update err i f s = (r, s') \<Longrightarrow>
      \<exists>os. w_db (rs_world s') = (w_db (rs_world s))\<lparr>outbox := os\<rparr>" for err i f s r s'
    by (auto simp: prisma_outbox_update_def outbox_set_def split: option.splits intro: exI [of _ "outbox (w_db (rs_world s))"])
  have p: "publishRow cfg io row s = (r, s') \<Longrightarrow>
      \<exists>os. w_db (rs_world s') = (w_db (rs_world s))\<lparr>outbox := os\<rparr>" for io row s r s'
    by (auto simp: publishRow_def Let_def split: option.splits prod.splits dest!: u)
  have "\<exists>os. w_db (rs_world (publish_rows cfg io rows s)) = (w_db (rs_world s))\<lparr>outbox := os\<rparr>" for rows s
  proof (induction rows arbitrary: s)
    case Nil
    then show ?case by (auto intro: exI [of _ "outbox (w_db (rs_world s))"])
  next
    case (Cons row rows)
    obtain r s' where run: "publishRow cfg (io (ob_id row)) row s = (r, s')"
      by (cases "publishRow cfg (io (ob_id row)) row s")
    from p [OF run] Cons.IH [of s'] show ?case by (cases r) (auto simp: run)
  qed
  from this [of "take (rl_batchSize cfg) (ord (pending_rows (w_db (rs_world s))))" "s\<lparr>rs_running := True\<rparr>"]
  show ?thesis
    by (auto simp: dispatchPending_def Let_def intro: exI [of _ "outbox (w_db (rs_world s))"])
qed

text \<open>A function of the database that the consumers' own tables do not influence.\<close>

definition ignores_views :: "(db \<Rightarrow> 'a) \<Rightarrow> bool" where
  "ignores_views f \<longleftrightarrow> (\<forall>d pe ns ls ms. f (d\<lparr>processed_events := pe\<rparr>) = f d
     \<and> f (d\<lparr>notifications := ns\<rparr>) = f d \<and> f (d\<lparr>audit_logs := ls\<rparr>) = f d
     \<and> f (d\<lparr>ticket_metrics := ms\<rparr>) = f d)"

lemma audit_project_db:
  "audit_project ev w = (r, w') \<Longrightarrow> \<exists>ls. w_db w' = (w_db w)\<lparr>audit_logs := ls\<rparr>"
  by (auto simp: audit_project_def andThen_def lift_def run_basic write_db_def audit_log_insert_def
      split: sum.splits prod.splits if_splits intro: exI [of _ "audit_logs (w_db w)"])

lemma analytics_project_db:
  "analytics_project ev w = (r, w') \<Longrightarrow> \<exists>ms. w_db w' = (w_db w)\<lparr>ticket_metrics := ms\<rparr>"
  by (auto simp: analytics_project_def metric_upsert_def andThen_def lift_def run_basic write_db_def
      split: sum.splits prod.splits if_splits option.splits intro: exI [of _ "ticket_metrics (w_db w)"])

lemma handle_frame:
  assumes "\<And>w r w'. project ev w = (r, w') \<Longrightarrow> f (w_db w') = f (w_db w)"
    and "\<And>d pe. f (d\<lparr>processed_events := pe\<rparr>) = f d"
    and "handle em M c q project ev raw w = (ms, w')"
  shows "f (w_db w') = f (w_db w)"
proof (cases "processed c (ev_eventId ev) (w_db w)")
  case True
  with assms(3) show ?thesis by (auto simp: handle_def runOnce_duplicate)
next
  case False
  let ?v = "mark_processed c (ev_eventId ev) w"
  obtain r v where p: "project ev ?v = (r, v)" by (cases "project ev ?v")
  have "f (w_db v) = f (w_db ?v)" by (rule assms(1) [OF p])
  also have "\<dots> = f (w_db w)" using mark_processed_simps(2) [OF False] assms(2) by metis
  finally have "f (w_db v) = f (w_db w)" .
  with assms(3) False p show ?thesis
    by (auto simp: handle_def runOnce_fresh split: sum.splits if_splits)
qed

lemma onEvent_frame:
  assumes "c \<in> set event_consumers" and "ignores_views f"
    and "onEvent em M c fault ev raw w = (ms, w')"
  shows "f (w_db w') = f (w_db w)"
proof (rule handle_frame [OF _ _ assms(3) [unfolded onEvent_def]])
  show "f (d\<lparr>processed_events := pe\<rparr>) = f d" for d pe using assms(2) by (simp add: ignores_views_def)
  fix w r w'
  assume p: "faulty fault (ec_project c) ev w = (r, w')"
  note i = assms(2) [unfolded ignores_views_def]
  show "f (w_db w') = f (w_db w)"
  proof (cases fault)
    case (Some e)
    with p show ?thesis by (simp add: faulty_def mrun)
  next
    case None
    from assms(1) consider "ec_project c = notification_project" | "ec_project c = audit_project"
      | "ec_project c = analytics_project"
      by (auto simp: event_consumers_def consumer_defs)
    then show ?thesis
    proof cases
      case 1
      with p None show ?thesis by (intro notification_project_keeps) (auto simp: faulty_def i)
    next
      case 2
      with p None audit_project_db [of ev w r w'] show ?thesis by (auto simp: faulty_def i)
    next
      case 3
      with p None analytics_project_db [of ev w r w'] show ?thesis by (auto simp: faulty_def i)
    qed
  qed
qed

text \<open>The shape of a delivery that does something.\<close>

lemma receiveE:
  assumes "delivers c i s"
  obtains (nothing) "receive m em M c i fault lost s = s"
  | (handled) ev raw ms w' where "pl_queues s (sb_queue c) ! i = (EventBody ev, raw)"
      "(EventBody ev, raw) \<in> set (pl_queues s (sb_queue c))"
      "onEvent em M c fault ev raw (rs_world (pl_relay s)) = (ms, w')"
      "receive m em M c i fault lost s = (set_world w' s)\<lparr>pl_queues :=
        (case lost of
           None \<Rightarrow> fold (post_message m) ms
             ((pl_queues s)(sb_queue c := drop_nth i (pl_queues s (sb_queue c))))
         | Some n \<Rightarrow> fold (post_message m) (take n ms) (pl_queues s))\<rparr>"
proof -
  obtain b raw where x: "pl_queues s (sb_queue c) ! i = (b, raw)" by (cases "pl_queues s (sb_queue c) ! i")
  then have mem: "(b, raw) \<in> set (pl_queues s (sb_queue c))"
    using assms nth_mem unfolding delivers_def by metis
  show ?thesis
  proof (cases b)
    case (EventBody ev)
    obtain ms w' where "onEvent em M c fault ev raw (rs_world (pl_relay s)) = (ms, w')" by fastforce
    with x mem EventBody show ?thesis by (intro handled) (simp_all add: receive_def)
  next
    case DeadLetterBody
    with x have "receive m em M c i fault lost s = s" by (simp add: receive_def)
    then show ?thesis by (rule nothing)
  qed
qed

definition pl_ok :: "relay_config \<Rightarrow> pipeline \<Rightarrow> bool" where
  "pl_ok cfg s \<longleftrightarrow> relay_ok cfg (pl_relay s) \<and> outbox_sound (pl_db s)"

definition dead_of :: "event_consumer \<Rightarrow> domain_event \<Rightarrow> delivery \<Rightarrow> bool" where
  "dead_of c ev d \<longleftrightarrow> (case fst d of
       DeadLetterBody q _ _ ev' \<Rightarrow> q = sb_queue c \<and> ev' = ev | EventBody _ \<Rightarrow> False)"

text \<open>Where an event can be, as a consumer sees it.\<close>

definition located :: "event_consumer \<Rightarrow> domain_event \<Rightarrow> pipeline \<Rightarrow> bool" where
  "located c ev s \<longleftrightarrow> processed (ec_name c) (ev_eventId ev) (pl_db s)
     \<or> (\<exists>raw. (EventBody ev, raw) \<in> set (pl_queues s (sb_queue c)))
     \<or> (\<exists>d\<in>set (pl_queues s Q_DeadLetter) \<union> set (pl_buried s). dead_of c ev d)"

lemma set_world_simps [simp]:
  "pl_db (set_world w s) = w_db w" "pl_queues (set_world w s) = pl_queues s"
  "pl_buried (set_world w s) = pl_buried s" "rs_sent (pl_relay (set_world w s)) = rs_sent (pl_relay s)"
  "rs_world (pl_relay (set_world w s)) = w" "relay_outbox (pl_relay (set_world w s)) = outbox (w_db w)"
  by (simp_all add: set_world_def pl_db_def relay_outbox_def)

lemma pl_db_upd [simp]: "pl_db (s\<lparr>pl_queues := x\<rparr>) = pl_db s" "pl_db (s\<lparr>pl_buried := y\<rparr>) = pl_db s"
  by (simp_all add: pl_db_def)

lemma relay_outbox_db: "relay_outbox (pl_relay s) = outbox (pl_db s)"
  by (simp add: relay_outbox_def pl_db_def)

lemma outbox_sound_ignores: "ignores_views outbox_sound"
proof -
  have same: "outbox_sound d' = outbox_sound d" if "users d' = users d" "organizations d' = organizations d"
    "tickets d' = tickets d" "outbox d' = outbox d" for d d'
  proof -
    have "grows d d'" "grows d' d" using grows_same that by metis+
    with that show ?thesis unfolding outbox_sound_def
      by (metis sound_event_mono tickets_known_mono)
  qed
  show ?thesis unfolding ignores_views_def by (intro allI conjI same) simp_all
qed

lemma relay_ok_cong:
  "relay_outbox s' = relay_outbox s \<Longrightarrow> rs_sent s' = rs_sent s \<Longrightarrow> relay_ok cfg s' = relay_ok cfg s"
  by (simp add: relay_ok_def)

lemma outbox_sound_contents:
  assumes "outbox_sound d" and "map content os = map content (outbox d)"
  shows "outbox_sound (d\<lparr>outbox := os\<rparr>)"
proof -
  have g: "grows d (d\<lparr>outbox := os\<rparr>)" by (rule grows_same) simp_all
  have "sound_event d (ob_routingKey r) (ob_payload r)" if r: "r \<in> set os" for r
  proof -
    have "content r \<in> set (map content (outbox d))"
      unfolding assms(2) [symmetric] using r by simp
    then obtain x where "x \<in> set (outbox d)" "content x = content r" by auto
    then show ?thesis using assms(1) by (auto simp: outbox_sound_def content_def)
  qed
  then show ?thesis
    using assms(1) sound_event_mono [OF _ g] tickets_known_mono [OF _ g]
    by (auto simp: outbox_sound_def)
qed

section \<open>Invariants of the pipeline\<close>

lemma pipe_step_ok:
  assumes "pipe_step m cfg ord em M s s'" and "pl_ok cfg s" and "permutes_outbox ord"
    and "0 < rl_maxAttempts cfg"
  shows "pl_ok cfg s'"
  using assms(1)
proof cases
  case (serves w')
  have s: "outbox_sound (w_db w')"
    by (rule service_steps_sound [OF r_into_rtranclp [of service_step, OF serves(2)]])
      (use assms(2) in \<open>simp add: pl_ok_def pl_db_def\<close>)
  have k: "tickets_known (w_db (rs_world (pl_relay s)))"
    using assms(2) by (simp add: pl_ok_def outbox_sound_def pl_db_def)
  obtain rows where r: "announces (w_db (rs_world (pl_relay s))) (w_db w') rows"
    using service_step_announces [OF serves(2) k] by blast
  have d: "distinct (map ob_id (relay_outbox (pl_relay s)))"
    using assms(2) by (simp add: pl_ok_def relay_ok_def)
  then have "outbox_ids_distinct w'"
    using service_step_ids [OF serves(2)] by (simp add: outbox_ids_distinct_def relay_outbox_def)
  then have "relay_step cfg ord (pl_relay s) (pl_relay (set_world w' s))"
    using r
    by (intro relay_step.enqueued [where rows = rows])
      (auto simp: outbox_ids_distinct_def announces_def relay_outbox_def set_world_def
        fresh_row_def list_all_iff)
  with s assms(2-4) show ?thesis by (simp add: serves(1) pl_ok_def relay_step_ok)
next
  case (relays ff io)
  let ?r = "dispatchPending cfg ord ff io (pl_relay s)"
  have o1: "relay_ok cfg ?r" "extends (pl_relay s) ?r (rl_batchSize cfg)"
    using dispatch_ok [OF _ assms(3)] assms(2) by (simp_all add: pl_ok_def)
  obtain os where os: "w_db (rs_world ?r) = (pl_db s)\<lparr>outbox := os\<rparr>"
    using dispatch_frame [of cfg ord ff io "pl_relay s"] by (auto simp: pl_db_def)
  have "map content os = map content (outbox (pl_db s))"
    using o1(2) by (simp add: extends_def relay_outbox_def os pl_db_def)
  with outbox_sound_contents assms(2) os have "outbox_sound (w_db (rs_world ?r))"
    by (simp add: pl_ok_def)
  with o1(1) show ?thesis by (simp add: relays pl_ok_def relay_tick_def Let_def pl_db_def)
next
  case (receives c i fault lost)
  from receives(2) show ?thesis
  proof (cases rule: receiveE [where m = m and em = em and M = M and fault = fault and lost = lost])
    case nothing
    with receives(1) assms(2) show ?thesis by simp
  next
    case (handled ev raw ms w')
    have c: "c \<in> set event_consumers" using receives(2) by (simp add: delivers_def)
    have "outbox_sound (w_db w')"
      using onEvent_frame [OF c outbox_sound_ignores handled(3)] assms(2) by (simp add: pl_ok_def pl_db_def)
    moreover have "outbox (w_db w') = outbox (pl_db s)"
      using onEvent_frame [OF c _ handled(3), of outbox] by (simp add: ignores_views_def pl_db_def)
    moreover have "relay_ok cfg ((pl_relay s)\<lparr>rs_world := w'\<rparr>) = relay_ok cfg (pl_relay s)"
      using \<open>outbox (w_db w') = outbox (pl_db s)\<close>
      by (intro relay_ok_cong) (simp_all add: relay_outbox_def pl_db_def)
    ultimately show ?thesis
      using assms(2) by (simp add: receives(1) handled(4) pl_ok_def set_world_def pl_db_def)
  qed
next
  case (buries i)
  with assms(2) show ?thesis by (simp add: bury_def pl_ok_def pl_db_def)
next
  case shuts
  with assms(2) show ?thesis by (simp add: shut_def pl_ok_def pl_db_def onModuleDestroy_def relay_ok_def relay_outbox_def)
qed

lemma located_mono:
  assumes "located c ev s"
    and "processed (ec_name c) (ev_eventId ev) (pl_db s) \<Longrightarrow> processed (ec_name c) (ev_eventId ev) (pl_db s')"
    and "\<And>q. set (pl_queues s q) \<subseteq> set (pl_queues s' q)"
    and "set (pl_buried s) \<subseteq> set (pl_buried s')"
  shows "located c ev s'"
  using assms unfolding located_def by blast

lemma retry_located:
  assumes "topic_matching m" and "c \<in> set event_consumers"
    and "pl_queues s' = post_message m (retryOrDeadLetter M (sb_queue c) ev raw msg t) qs"
  shows "located c ev s'"
proof (cases "\<exists>a. retry_attempt raw = Some a \<and> a < M")
  case True
  then have "requeue (sb_queue c) ev (retryOrDeadLetter M (sb_queue c) ev raw msg t)"
    using retry_requeue by blast
  then show ?thesis
    using route_default [OF assms(2)]
    by (auto simp: located_def assms(3) post_message_def post_def requeue_def)
next
  case False
  then have "retry_attempt raw = None \<or> (\<exists>a. retry_attempt raw = Some a \<and> M \<le> a)"
    by (cases "retry_attempt raw") auto
  from retry_dead_letter [OF this, of "sb_queue c" ev msg t] show ?thesis
    using route_dead [OF assms(1)]
    by (auto simp: located_def assms(3) post_message_def post_def dead_letter_def dead_of_def)
qed

lemma received_located:
  assumes m: "topic_matching m" and d: "delivers c' i s" and f: "outage fault"
    and c: "c \<in> set event_consumers" and l: "located c ev s"
  shows "located c ev (receive m em M c' i fault lost s)"
  using d
proof (cases rule: receiveE [where m = m and em = em and M = M and fault = fault and lost = lost])
  case nothing
  with l show ?thesis by simp
next
  case (handled ev' raw ms w')
  have c': "c' \<in> set event_consumers" using d by (simp add: delivers_def)
  have p: "processed (ec_name c) (ev_eventId ev) (pl_db s) \<Longrightarrow> processed (ec_name c) (ev_eventId ev) (w_db w')"
    using onEvent_processed [OF c' f handled(3)] unfolding pl_db_def by blast
  show ?thesis
  proof (cases lost)
    case (Some n)
    then have r: "receive m em M c' i fault lost s
        = (set_world w' s)\<lparr>pl_queues := fold (post_message m) (take n ms) (pl_queues s)\<rparr>"
      using handled(4) by simp
    show ?thesis
      unfolding r by (rule located_mono [OF l]) (use p fold_post_mono(2) in auto)
  next
    case None
    define qs where "qs = (pl_queues s)(sb_queue c' := drop_nth i (pl_queues s (sb_queue c')))"
    have r: "receive m em M c' i fault lost s = (set_world w' s)\<lparr>pl_queues := fold (post_message m) ms qs\<rparr>"
      using handled(4) by (simp add: None qs_def)
    show ?thesis
    proof (cases "c' = c \<and> ev' = ev")
      case True
      from onEvent_outcome [OF c' f handled(3)] show ?thesis
      proof
        assume "ms = [] \<and> processed (ec_name c') (ev_eventId ev') (w_db w')"
        with True show ?thesis unfolding r by (simp add: located_def)
      next
        assume "\<exists>msg t. ms = [retryOrDeadLetter M (sb_queue c') ev' raw msg t]
          \<and> w_db w' = w_db (rs_world (pl_relay s))"
        then obtain msg t where "ms = [retryOrDeadLetter M (sb_queue c') ev' raw msg t]" by blast
        with True show ?thesis unfolding r by (intro retry_located [OF m c]) auto
      qed
    next
      case False
      have i: "i < length (pl_queues s (sb_queue c'))" using d by (simp add: delivers_def)
      have "(EventBody ev, rw) \<in> set (qs (sb_queue c))"
        if "(EventBody ev, rw) \<in> set (pl_queues s (sb_queue c))" for rw
      proof (cases "c' = c")
        case True
        with False that set_drop_nth [OF i] handled(1) show ?thesis by (auto simp: qs_def)
      next
        case neq: False
        then have "sb_queue c \<noteq> sb_queue c'" using consumer_by_queue [OF c' c] by auto
        with that show ?thesis by (simp add: qs_def)
      qed
      moreover have "qs Q_DeadLetter = pl_queues s Q_DeadLetter"
        using consumer_queue(1) [OF c'] by (auto simp: qs_def)
      ultimately have "located c ev ((set_world w' s)\<lparr>pl_queues := qs\<rparr>)"
        using l p by (auto simp: located_def)
      then show ?thesis
        unfolding r by (rule located_mono) (use fold_post_mono(2) in auto)
    qed
  qed
qed

text \<open>What a tick publishes: rows of the outbox.\<close>

lemma dispatch_sent:
  assumes "permutes_outbox ord"
  shows "\<exists>new. rs_sent (dispatchPending cfg ord ff io s) = rs_sent s @ new
    \<and> (\<forall>p\<in>set new. \<exists>r\<in>set (relay_outbox s). \<exists>t. p = publication_of cfg r t)"
proof -
  have u: "prisma_outbox_update err i f s = (r, s') \<Longrightarrow> rs_sent s' = rs_sent s" for err i f s r s'
    by (auto simp: prisma_outbox_update_def split: option.splits)
  have p: "publishRow cfg io row s = (r, s') \<Longrightarrow> \<exists>new. rs_sent s' = rs_sent s @ new
      \<and> (\<forall>p\<in>set new. \<exists>t. p = publication_of cfg row t)" for io row s r s'
    by (auto simp: publishRow_def Let_def split: option.splits prod.splits dest!: u)
  have q: "\<exists>new. rs_sent (publish_rows cfg io rows s) = rs_sent s @ new
      \<and> (\<forall>p\<in>set new. \<exists>r\<in>set rows. \<exists>t. p = publication_of cfg r t)" for rows s
  proof (induction rows arbitrary: s)
    case (Cons row rows)
    obtain r s' where run: "publishRow cfg (io (ob_id row)) row s = (r, s')"
      by (cases "publishRow cfg (io (ob_id row)) row s")
    obtain new where n: "rs_sent s' = rs_sent s @ new" "\<forall>p\<in>set new. \<exists>t. p = publication_of cfg row t"
      using p [OF run] by blast
    obtain new' where n': "rs_sent (publish_rows cfg io rows s') = rs_sent s' @ new'"
        "\<forall>p\<in>set new'. \<exists>r\<in>set rows. \<exists>t. p = publication_of cfg r t"
      using Cons.IH by blast
    show ?case
    proof (cases r)
      case None
      with n n' show ?thesis by (intro exI [of _ "new @ new'"]) (auto simp: run)
    next
      case (Some e)
      with n show ?thesis by (intro exI [of _ new]) (auto simp: run)
    qed
  qed simp
  let ?rows = "take (rl_batchSize cfg) (ord (pending_rows (w_db (rs_world s))))"
  have sub: "set ?rows \<subseteq> set (relay_outbox s)"
    using permutes_outbox_set [OF assms] by (auto simp: pending_rows_def relay_outbox_def dest: in_set_takeD)
  show ?thesis
    using q [of ?rows "s\<lparr>rs_running := True\<rparr>"] sub
    by (fastforce simp: dispatchPending_def Let_def)
qed

lemma tick_queues:
  assumes "permutes_outbox ord"
  obtains new where "pl_queues (relay_tick m cfg ord ff io s) = fold (post_publication m) new (pl_queues s)"
    and "rs_sent (pl_relay (relay_tick m cfg ord ff io s)) = rs_sent (pl_relay s) @ new"
    and "\<forall>p\<in>set new. \<exists>r\<in>set (outbox (pl_db s)). \<exists>t. p = publication_of cfg r t"
proof -
  obtain new where "rs_sent (dispatchPending cfg ord ff io (pl_relay s)) = rs_sent (pl_relay s) @ new"
      "\<forall>p\<in>set new. \<exists>r\<in>set (relay_outbox (pl_relay s)). \<exists>t. p = publication_of cfg r t"
    using dispatch_sent [OF assms] by blast
  then show ?thesis by (intro that [of new]) (simp_all add: relay_tick_def Let_def relay_outbox_db)
qed

lemma tick_db:
  "\<exists>os. pl_db (relay_tick m cfg ord ff io s) = (pl_db s)\<lparr>outbox := os\<rparr>"
  using dispatch_frame [of cfg ord ff io "pl_relay s"] by (simp add: relay_tick_def Let_def pl_db_def)

lemma posted_publication:
  assumes "c \<in> set event_consumers" and "p \<in> set ps" and "pb_exchange p = EXCHANGE"
    and "list_ex (\<lambda>q. m q (pb_routingKey p)) (sb_routingKey c)"
  shows "\<exists>raw. (EventBody (pb_event p), raw) \<in> set (fold (post_publication m) ps qs (sb_queue c))"
  using assms(2)
proof (induction ps arbitrary: qs)
  case (Cons p' ps)
  show ?case
  proof (cases "p' = p")
    case True
    have "sb_queue c \<in> set (route m EXCHANGE (pb_routingKey p))"
      using assms(1,4) by (auto simp: route_event)
    then have "\<exists>raw. (EventBody (pb_event p), raw) \<in> set (post_publication m p' qs (sb_queue c))"
      using assms(3) by (auto simp: True post_publication_def post_def)
    with fold_post_mono(1) show ?thesis by fastforce
  next
    case False
    with Cons show ?thesis by simp
  qed
qed simp

definition sent_located :: "topic_match \<Rightarrow> pipeline \<Rightarrow> bool" where
  "sent_located m s \<longleftrightarrow> (\<forall>p\<in>set (rs_sent (pl_relay s)). \<forall>c\<in>set event_consumers.
     list_ex (\<lambda>q. m q (pb_routingKey p)) (sb_routingKey c) \<longrightarrow> located c (pb_event p) s)"

lemma pipe_step_located:
  assumes "pipe_step m cfg ord em M s s'" and "pl_ok cfg s" and "sent_located m s"
    and "topic_matching m" and "permutes_outbox ord" and "rl_exchange cfg = EXCHANGE"
  shows "sent_located m s'"
  using assms(1)
proof cases
  case (serves w')
  have k: "tickets_known (w_db (rs_world (pl_relay s)))"
    using assms(2) by (simp add: pl_ok_def outbox_sound_def pl_db_def)
  obtain rows where r: "announces (w_db (rs_world (pl_relay s))) (w_db w') rows"
    using service_step_announces [OF serves(2) k] by blast
  then have "processed_events (w_db w') = processed_events (pl_db s)"
    by (simp add: announces_def pl_db_def)
  with assms(3) show ?thesis
    by (simp add: serves(1) sent_located_def located_def processed_def)
next
  case (relays ff io)
  obtain new where q: "pl_queues s' = fold (post_publication m) new (pl_queues s)"
      "rs_sent (pl_relay s') = rs_sent (pl_relay s) @ new"
      "\<forall>p\<in>set new. \<exists>r\<in>set (outbox (pl_db s)). \<exists>t. p = publication_of cfg r t"
    using tick_queues [OF assms(5)] unfolding relays by metis
  obtain os where os: "pl_db s' = (pl_db s)\<lparr>outbox := os\<rparr>"
    using tick_db unfolding relays by blast
  have b: "pl_buried s' = pl_buried s" by (simp add: relays relay_tick_def Let_def)
  have "located c (pb_event p) s'"
    if "p \<in> set (rs_sent (pl_relay s'))" and c: "c \<in> set event_consumers"
      and k: "list_ex (\<lambda>q. m q (pb_routingKey p)) (sb_routingKey c)" for p c
  proof (cases "p \<in> set new")
    case True
    then have "pb_exchange p = EXCHANGE" using q(3) assms(6) by (auto simp: publication_of_def)
    from posted_publication [OF c True this, of m "pl_queues s"] k show ?thesis
      by (auto simp: located_def q(1))
  next
    case False
    with that assms(3) q(2) have "located c (pb_event p) s" by (auto simp: sent_located_def)
    then show ?thesis
      by (rule located_mono) (use fold_post_mono(1) in \<open>auto simp: q(1) b os processed_def\<close>)
  qed
  then show ?thesis by (simp add: sent_located_def)
next
  case (receives c i fault lost)
  have "rs_sent (pl_relay s') = rs_sent (pl_relay s)"
    by (simp add: receives(1) receive_def set_world_def split: prod.split message_body.split)
  with assms(3) received_located [OF assms(4) receives(2,3)] show ?thesis
    by (simp add: sent_located_def receives(1))
next
  case (buries i)
  have "set (pl_queues s Q_DeadLetter) \<union> set (pl_buried s)
      = set (pl_queues s' Q_DeadLetter) \<union> set (pl_buried s')"
    using set_drop_nth [OF buries(2)] by (auto simp: buries(1) bury_def)
  moreover have "pl_queues s' (sb_queue c) = pl_queues s (sb_queue c)" if "c \<in> set event_consumers" for c
    using consumer_queue(1) [OF that] by (simp add: buries(1) bury_def)
  ultimately show ?thesis
    using assms(3) by (simp add: sent_located_def located_def) (simp add: buries(1) bury_def pl_db_def)
next
  case shuts
  with assms(3) show ?thesis
    by (simp add: shut_def sent_located_def located_def onModuleDestroy_def pl_db_def)
qed

text \<open>Before anything has been relayed.\<close>

definition launched :: "relay_config \<Rightarrow> pipeline \<Rightarrow> bool" where
  "launched cfg s \<longleftrightarrow> rs_sent (pl_relay s) = [] \<and> pl_queues s = (\<lambda>_. []) \<and> pl_buried s = []
     \<and> pl_ok cfg s \<and> processed_events (pl_db s) = [] \<and> audit_logs (pl_db s) = []"

definition pipeline_settings :: "topic_match \<Rightarrow> relay_config \<Rightarrow> (event_outbox list \<Rightarrow> event_outbox list) \<Rightarrow> bool" where
  "pipeline_settings m cfg ord \<longleftrightarrow> topic_matching m \<and> permutes_outbox ord
     \<and> 0 < rl_maxAttempts cfg \<and> rl_exchange cfg = EXCHANGE"

lemma reachable_ok:
  assumes "(pipe_step m cfg ord em M)\<^sup>*\<^sup>* s0 s" and "launched cfg s0" and "pipeline_settings m cfg ord"
  shows "pl_ok cfg s \<and> sent_located m s"
  using assms(1)
proof (induction rule: rtranclp_induct)
  case base
  with assms(2) show ?case by (simp add: launched_def sent_located_def)
next
  case (step s s')
  with assms(3) pipe_step_ok [OF step.hyps(2)] pipe_step_located [OF step.hyps(2)] show ?case
    by (simp add: pipeline_settings_def)
qed

lemma dispatched_located:
  assumes "(pipe_step m cfg ord em M)\<^sup>*\<^sup>* s0 s" and "launched cfg s0" and "pipeline_settings m cfg ord"
    and "r \<in> set (outbox (pl_db s))" and "ob_status r = Outbox_DISPATCHED"
    and "c \<in> set event_consumers" and "list_ex (\<lambda>p. m p (ob_routingKey r)) (sb_routingKey c)"
  shows "\<exists>t. located c (event_of r t) s"
proof -
  have ok: "pl_ok cfg s" "sent_located m s" using reachable_ok [OF assms(1-3)] by simp_all
  then have "row_ok cfg (rs_sent (pl_relay s)) r"
    using assms(4) by (simp add: pl_ok_def relay_ok_def relay_outbox_db)
  then obtain t where "publication_of cfg r t \<in> set (rs_sent (pl_relay s))"
    using assms(5) by (auto simp: row_ok_def)
  with ok(2) assms(6,7) have "located c (event_of r t) s"
    by (auto simp: sent_located_def publication_of_def)
  then show ?thesis ..
qed

text \<open>
  C4. No announced event is lost. In every history of the platform, in which services write, the
  relay ticks, consumers and sink receive messages in any order, deliveries are repeated because
  an acknowledgement was lost, and the infrastructure fails in between: an outbox row marked
  DISPATCHED has, for each consumer whose queue is bound to its key, been processed, or it waits in
  that consumer's queue, or it is dead-lettered under the name of that queue (in \<open>dlq\<close> or already
  logged by the sink).
\<close>

theorem no_event_lost:
  assumes "(pipe_step m cfg ord em M)\<^sup>*\<^sup>* s0 s" and "launched cfg s0" and "pipeline_settings m cfg ord"
    and "r \<in> set (outbox (pl_db s))" and "ob_status r = Outbox_DISPATCHED"
    and "c \<in> set event_consumers" and "list_ex (\<lambda>p. m p (ob_routingKey r)) (sb_routingKey c)"
  shows "\<exists>t. located c (event_of r t) s"
  by (rule dispatched_located [OF assms])

section \<open>A concrete run\<close>

definition fx_match :: topic_match where
  "fx_match p k \<longleftrightarrow> p = ''#'' \<or> p = k"

definition fx_start :: pipeline where
  "fx_start = \<lparr>pl_relay = \<lparr>rs_world = fx_world fx_db, rs_sent = [], rs_running = False, rs_stopped = False\<rparr>,
     pl_queues = (\<lambda>_. []), pl_buried = []\<rparr>"

definition fx_written :: pipeline where
  "fx_written = set_world fx_opened fx_start"

definition fx_published :: "relay_config \<Rightarrow> pipeline" where
  "fx_published cfg = relay_tick fx_match cfg (\<lambda>xs. xs) False (\<lambda>_. all_fine) fx_written"

definition fx_audited :: pipeline where
  "fx_audited = receive fx_match (\<lambda>_. []) 3 audit_consumer 0 None None (fx_published fx_relay)"

definition fx_elsewhere :: relay_config where
  "fx_elsewhere = fx_relay\<lparr>rl_exchange := ''support.events.v2''\<rparr>"

lemma fx_settings: "pipeline_settings fx_match fx_relay (\<lambda>xs. xs)"
  using fx_permutes
  by (auto simp: pipeline_settings_def topic_matching_def fx_match_def fx_relay_def)

lemma fx_launched: "launched cfg fx_start"
proof -
  have "outbox_sound (pl_db fx_start)"
    using fx_db_sound by (simp add: pl_db_def fx_start_def)
  then show ?thesis
    by (simp add: launched_def pl_ok_def relay_ok_def relay_outbox_def fx_start_def pl_db_def
        fx_world_def fx_db_def empty_db_def)
qed

lemma fx_steps:
  "(pipe_step fx_match cfg (\<lambda>xs. xs) (\<lambda>_. []) 3)\<^sup>*\<^sup>* fx_start fx_written"
  "(pipe_step fx_match cfg (\<lambda>xs. xs) (\<lambda>_. []) 3)\<^sup>*\<^sup>* fx_start (fx_published cfg)"
  "(pipe_step fx_match fx_relay (\<lambda>xs. xs) (\<lambda>_. []) 3)\<^sup>*\<^sup>* fx_start fx_audited"
proof -
  have "service_step (rs_world (pl_relay fx_start)) fx_opened"
    unfolding fx_start_def pipeline.simps relay_state.simps
  proof (rule creates)
    show "live_actor carol (w_db (fx_world fx_db))" by code_simp
    show "create_ticket carol fx_create None (fx_world fx_db)
      = (fst (create_ticket carol fx_create None (fx_world fx_db)), fx_opened)"
      by (simp add: fx_opened_def)
  qed
  from serves [OF this]
  have 1: "pipe_step fx_match cfg (\<lambda>xs. xs) (\<lambda>_. []) 3 fx_start fx_written" for cfg
    unfolding fx_written_def .
  have 2: "pipe_step fx_match cfg (\<lambda>xs. xs) (\<lambda>_. []) 3 fx_written (fx_published cfg)" for cfg
    unfolding fx_published_def by (rule relays)
  have "delivers audit_consumer 0 (fx_published fx_relay)"
  proof -
    have "length (pl_queues (fx_published fx_relay) Q_Audit) = 1" by code_simp
    then show ?thesis by (simp add: delivers_def event_consumers_def audit_consumer_def)
  qed
  then have 3: "pipe_step fx_match fx_relay (\<lambda>xs. xs) (\<lambda>_. []) 3 (fx_published fx_relay) fx_audited"
    unfolding fx_audited_def by (rule receives) (simp add: outage_def)
  show "(pipe_step fx_match cfg (\<lambda>xs. xs) (\<lambda>_. []) 3)\<^sup>*\<^sup>* fx_start fx_written"
    using 1 by blast
  show p: "(pipe_step fx_match cfg (\<lambda>xs. xs) (\<lambda>_. []) 3)\<^sup>*\<^sup>* fx_start (fx_published cfg)" for cfg
    using 1 2 by (meson converse_rtranclp_into_rtranclp r_into_rtranclp)
  show "(pipe_step fx_match fx_relay (\<lambda>xs. xs) (\<lambda>_. []) 3)\<^sup>*\<^sup>* fx_start fx_audited"
    using p 3 by (rule rtranclp.rtrancl_into_rtrancl)
qed

theorem no_event_lost_witness:
  "\<exists>t. located notification_consumer (event_of (hd (outbox (pl_db (fx_published fx_relay)))) t)
     (fx_published fx_relay)"
proof -
  have "outbox (pl_db (fx_published fx_relay)) \<noteq> []" by code_simp
  then have 1: "hd (outbox (pl_db (fx_published fx_relay))) \<in> set (outbox (pl_db (fx_published fx_relay)))"
    by simp
  have 2: "ob_status (hd (outbox (pl_db (fx_published fx_relay)))) = Outbox_DISPATCHED" by code_simp
  have 3: "notification_consumer \<in> set event_consumers" by (simp add: event_consumers_def)
  have 4: "list_ex (\<lambda>p. fx_match p (ob_routingKey (hd (outbox (pl_db (fx_published fx_relay))))))
      (sb_routingKey notification_consumer)" by code_simp
  show ?thesis by (rule no_event_lost [OF fx_steps(2) fx_launched fx_settings 1 2 3 4])
qed

section \<open>The exchange\<close>

text \<open>
  The consumers listen on the constant \<open>EXCHANGE\<close>, while the relay publishes to the exchange the
  configuration names. If the two differ, then in every history the relay marks its rows
  DISPATCHED and no consumer ever receives or processes anything, and nothing is dead-lettered.
\<close>

theorem wrong_exchange_silences:
  assumes "(pipe_step m cfg ord em M)\<^sup>*\<^sup>* s0 s" and "launched cfg s0" and "permutes_outbox ord"
    and "0 < rl_maxAttempts cfg" and "rl_exchange cfg \<notin> {[], EXCHANGE, DEAD_LETTER_EXCHANGE}"
  shows "pl_queues s = (\<lambda>_. []) \<and> processed_events (pl_db s) = [] \<and> audit_logs (pl_db s) = []
    \<and> pl_buried s = []"
proof -
  have "pl_ok cfg s \<and> pl_queues s = (\<lambda>_. []) \<and> processed_events (pl_db s) = [] \<and> audit_logs (pl_db s) = []
    \<and> pl_buried s = []"
    using assms(1)
  proof (induction rule: rtranclp_induct)
    case base
    with assms(2) show ?case by (simp add: launched_def)
  next
    case (step s s')
    then have ok': "pl_ok cfg s'" using pipe_step_ok assms(3,4) by blast
    from step.hyps(2) show ?case
    proof cases
      case (serves w')
      have "tickets_known (w_db (rs_world (pl_relay s)))"
        using step.IH by (simp add: pl_ok_def outbox_sound_def pl_db_def)
      with service_step_announces [OF serves(2)] obtain rows where "announces (pl_db s) (w_db w') rows"
        unfolding pl_db_def by blast
      with step.IH ok' show ?thesis by (simp add: serves(1) announces_def)
    next
      case (relays ff io)
      obtain new where q: "pl_queues s' = fold (post_publication m) new (pl_queues s)"
          "\<forall>p\<in>set new. \<exists>r\<in>set (outbox (pl_db s)). \<exists>t. p = publication_of cfg r t"
        using tick_queues [OF assms(3)] unfolding relays by metis
      obtain os where os: "pl_db s' = (pl_db s)\<lparr>outbox := os\<rparr>"
        using tick_db unfolding relays by blast
      have "post_publication m p qs = qs" if "p \<in> set new" for p qs
        using that q(2) route_elsewhere [OF assms(5), of m]
        by (auto simp: post_publication_def post_def publication_of_def)
      then have "fold (post_publication m) new (pl_queues s) = pl_queues s"
        by (induction new arbitrary: s) simp_all
      with step.IH ok' os q(1) show ?thesis by (simp add: relays relay_tick_def Let_def)
    next
      case (receives c i fault lost)
      with step.IH show ?thesis by (simp add: delivers_def)
    next
      case (buries i)
      with step.IH show ?thesis by simp
    next
      case shuts
      with step.IH ok' show ?thesis by (simp add: shut_def pl_db_def onModuleDestroy_def)
    qed
  qed
  then show ?thesis by blast
qed

theorem wrong_exchange_silences_witness:
  "list_all (\<lambda>r. ob_status r = Outbox_DISPATCHED) (outbox (pl_db (fx_published fx_elsewhere)))
   \<and> pl_queues (fx_published fx_elsewhere) = (\<lambda>_. [])"
proof -
  have 1: "list_all (\<lambda>r. ob_status r = Outbox_DISPATCHED) (outbox (pl_db (fx_published fx_elsewhere)))"
    by code_simp
  have 2: "0 < rl_maxAttempts fx_elsewhere" by (simp add: fx_elsewhere_def fx_relay_def)
  have 3: "rl_exchange fx_elsewhere \<notin> {[], EXCHANGE, DEAD_LETTER_EXCHANGE}"
    by (simp add: fx_elsewhere_def EXCHANGE_def DEAD_LETTER_EXCHANGE_def)
  from 1 wrong_exchange_silences [OF fx_steps(2) fx_launched fx_permutes 2 3] show ?thesis by blast
qed

end
