(* ===== verification/PipelineAudit.thy ===== *)
theory PipelineAudit
  imports Pipeline
begin

text \<open>
  The audit trail and the worker in the event pipeline: the trail is at all times made of entries of
  distinct outbox rows, the worker comes to an end with empty queues, and every reachable state
  can go on to one in which every change has been audited exactly once.
\<close>

section \<open>The audit trail, end to end\<close>

text \<open>The audit entry of an outbox row; it does not depend on when the row is published.\<close>

definition row_event :: "string \<times> string \<times> json \<times> string option \<Rightarrow> domain_event" where
  "row_event x = (case x of (i, k, p, c) \<Rightarrow> \<lparr>ev_eventId = i, ev_routingKey = k, ev_occurredAt = [],
     ev_correlationId = c, ev_payload = p\<rparr>)"

definition row_entry :: "event_outbox \<Rightarrow> audit_entry" where
  "row_entry r = the (audit_entry_of (row_event (content r)))"

lemma describe_time: "describe (ev\<lparr>ev_occurredAt := t\<rparr>) = describe ev"
  by (simp add: describe_def Let_def)

lemma entry_time: "audit_entry_of (event_of r t) = audit_entry_of (row_event (content r))"
proof -
  have e: "event_of r t = (row_event (content r))\<lparr>ev_occurredAt := toISOString t\<rparr>"
    by (simp add: event_of_def row_event_def content_def)
  show ?thesis unfolding e audit_entry_of_def describe_time by (simp split: sum.split)
qed

lemma entry_content: "content r = content r' \<Longrightarrow> row_entry r = row_entry r'"
  by (simp add: row_entry_def)

abbreviation audited :: "string \<Rightarrow> db \<Rightarrow> bool" where
  "audited i d \<equiv> processed Consumer_Audit i d"

text \<open>
  The trail consists of the entries of the processed rows; what waits in the audit queue are rows
  of the outbox; and only rows of the outbox have been processed.
\<close>

definition audit_settled :: "pipeline \<Rightarrow> bool" where
  "audit_settled s \<longleftrightarrow>
     mset (trail (pl_db s)) = image_mset row_entry (filter_mset (\<lambda>r. audited (ob_id r) (pl_db s)) (mset (outbox (pl_db s))))
   \<and> (\<forall>x\<in>set (pl_queues s Q_Audit). \<exists>r\<in>set (outbox (pl_db s)). \<exists>t. fst x = EventBody (event_of r t))
   \<and> (\<forall>i. audited i (pl_db s) \<longrightarrow> i \<in> ob_id ` set (outbox (pl_db s)))"

lemma settled_contents:
  assumes "map content os = map content rs"
  shows "image_mset row_entry (filter_mset (\<lambda>r. P (ob_id r)) (mset os))
    = image_mset row_entry (filter_mset (\<lambda>r. P (ob_id r)) (mset rs))"
proof -
  let ?e = "\<lambda>x. the (audit_entry_of (row_event x))"
  have f: "image_mset row_entry (filter_mset (\<lambda>r. P (ob_id r)) (mset xs))
      = image_mset ?e (filter_mset (\<lambda>x. P (fst x)) (mset (map content xs)))" for xs
    by (induction xs) (simp_all add: row_entry_def content_def)
  show ?thesis unfolding f assms ..
qed

lemma same_contents:
  assumes "map content os = map content rs" and "r \<in> set rs"
  shows "\<exists>r'\<in>set os. \<forall>t. event_of r' t = event_of r t"
proof -
  have "content r \<in> set (map content os)" unfolding assms(1) using assms(2) by simp
  then obtain r' where "r' \<in> set os" "content r' = content r" by auto
  then show ?thesis by (auto simp: event_of_def content_def)
qed

lemma posted_new:
  "x \<in> set (fold (post_publication m) ps qs q) \<Longrightarrow> x \<in> set (qs q) \<or> (\<exists>p\<in>set ps. fst x = EventBody (pb_event p))"
proof (induction ps arbitrary: qs)
  case (Cons p ps)
  then have "x \<in> set (fold (post_publication m) ps (post_publication m p qs) q)" by simp
  from Cons.IH [OF this] show ?case
    by (auto simp: post_publication_def post_def split: if_splits)
qed simp

lemma take_at_most_one:
  assumes "xs = [] \<or> (\<exists>a b. xs = [f a b])"
  shows "take k xs = [] \<or> (\<exists>a b. take k xs = [f a b])"
proof (cases k)
  case 0
  then show ?thesis by simp
next
  case (Suc n)
  then have "take k xs = xs" using assms by auto
  with assms show ?thesis by metis
qed

lemma outage_db:
  assumes "handle em M c q (\<lambda>_. throw e) ev raw w = (ms, w')"
  shows "w_db w' = w_db w"
proof (cases "processed c (ev_eventId ev) (w_db w)")
  case True
  with assms show ?thesis by (auto simp: handle_def runOnce_duplicate)
next
  case False
  with assms show ?thesis
    by (auto simp: handle_def runOnce_fresh mrun split: if_splits)
qed

text \<open>Where the message of a failed delivery goes: back to the same queue, or to \<open>dlq\<close>.\<close>

lemma retry_posted:
  assumes "topic_matching m" and "c \<in> set event_consumers"
    and "x \<in> set (post_message m (retryOrDeadLetter M (sb_queue c) ev raw msg t) qs q)"
  shows "x \<in> set (qs q) \<or> (q = sb_queue c \<and> fst x = EventBody ev) \<or> q = Q_DeadLetter"
proof (cases "\<exists>a. retry_attempt raw = Some a \<and> a < M")
  case True
  then have "requeue (sb_queue c) ev (retryOrDeadLetter M (sb_queue c) ev raw msg t)"
    using retry_requeue by blast
  then show ?thesis
    using assms(3) route_default [OF assms(2)]
    by (auto simp: post_message_def post_def requeue_def split: if_splits)
next
  case False
  then have "retry_attempt raw = None \<or> (\<exists>a. retry_attempt raw = Some a \<and> M \<le> a)"
    by (cases "retry_attempt raw") auto
  from retry_dead_letter [OF this, of "sb_queue c" ev msg t] show ?thesis
    using assms(3) route_dead [OF assms(1)]
    by (auto simp: post_message_def post_def dead_letter_def split: if_splits)
qed

lemma received_queue:
  assumes m: "topic_matching m" and d: "delivers c i s" and f: "outage fault"
    and x: "x \<in> set (pl_queues (receive m em M c i fault lost s) q)" and q: "q \<noteq> Q_DeadLetter"
  shows "\<exists>y\<in>set (pl_queues s q). fst x = fst y"
  using d
proof (cases rule: receiveE [where m = m and em = em and M = M and fault = fault and lost = lost])
  case nothing
  with x show ?thesis by auto
next
  case (handled ev raw ms w')
  have c: "c \<in> set event_consumers" and i: "i < length (pl_queues s (sb_queue c))"
    using d by (simp_all add: delivers_def)
  define qs where "qs = (case lost of None \<Rightarrow> (pl_queues s)(sb_queue c := drop_nth i (pl_queues s (sb_queue c)))
    | Some n \<Rightarrow> pl_queues s)"
  have old: "y \<in> set (pl_queues s q)" if "y \<in> set (qs q)" for y q
    using that set_drop_nth [OF i] by (auto simp: qs_def split: option.splits if_splits)
  obtain k where k: "pl_queues (receive m em M c i fault lost s) = fold (post_message m) (take k ms) qs"
  proof (cases lost)
    case None
    with handled(4) show ?thesis by (intro that [of "length ms"]) (simp add: qs_def)
  next
    case (Some n)
    with handled(4) show ?thesis by (intro that [of n]) (simp add: qs_def)
  qed
  have ms: "ms = [] \<or> (\<exists>msg t. ms = [retryOrDeadLetter M (sb_queue c) ev raw msg t])"
    using onEvent_outcome [OF c f handled(3)] by blast
  then have "take k ms = [] \<or> (\<exists>msg t. take k ms = [retryOrDeadLetter M (sb_queue c) ev raw msg t])"
    by (rule take_at_most_one)
  then have "x \<in> set (pl_queues s q) \<or> (q = sb_queue c \<and> fst x = EventBody ev)"
  proof
    assume "take k ms = []"
    with x old show ?thesis unfolding k by simp
  next
    assume "\<exists>msg t. take k ms = [retryOrDeadLetter M (sb_queue c) ev raw msg t]"
    then obtain msg t where "take k ms = [retryOrDeadLetter M (sb_queue c) ev raw msg t]" by blast
    with x have "x \<in> set (post_message m (retryOrDeadLetter M (sb_queue c) ev raw msg t) qs q)"
      unfolding k by simp
    from retry_posted [OF m c this] old [of x q] q show ?thesis by auto
  qed
  with handled(2) show ?thesis by (metis fst_conv)
qed

lemma filter_mset_insert_key:
  assumes "distinct (map k xs)" and "r \<in> set xs" and "\<not> P (k r)"
  shows "filter_mset (\<lambda>x. P (k x) \<or> k x = k r) (mset xs) = filter_mset (\<lambda>x. P (k x)) (mset xs) + {#r#}"
  using assms
proof (induction xs)
  case (Cons y ys)
  show ?case
  proof (cases "y = r")
    case True
    have "\<forall>x\<in>set ys. k x \<noteq> k r" using Cons.prems(1) True by (metis distinct.simps(2) image_eqI image_set list.simps(9))
    then have "filter_mset (\<lambda>x. P (k x) \<or> k x = k r) (mset ys) = filter_mset (\<lambda>x. P (k x)) (mset ys)"
      by (intro filter_mset_cong) auto
    with True Cons.prems(3) show ?thesis by simp
  next
    case False
    with Cons.prems have "r \<in> set ys" "k y \<noteq> k r" by auto
    with Cons show ?thesis by simp
  qed
qed simp

lemma received_audit:
  assumes a: "audit_settled s" and ok: "pl_ok cfg s" and m: "topic_matching m"
    and d: "delivers c i s" and f: "outage fault"
  shows "audit_settled (receive m em M c i fault lost s)"
  using d
proof (cases rule: receiveE [where m = m and em = em and M = M and fault = fault and lost = lost])
  case nothing
  with a show ?thesis by simp
next
  case (handled ev raw ms w')
  have c: "c \<in> set event_consumers" using d by (simp add: delivers_def)
  let ?s = "receive m em M c i fault lost s" and ?w = "rs_world (pl_relay s)"
  have db: "pl_db ?s = w_db w'" unfolding handled(4) by simp
  have ob: "outbox (w_db w') = outbox (pl_db s)"
    using onEvent_frame [OF c _ handled(3), of outbox] by (simp add: ignores_views_def pl_db_def)
  have q: "\<exists>r\<in>set (outbox (w_db w')). \<exists>t. fst x = EventBody (event_of r t)"
    if "x \<in> set (pl_queues ?s Q_Audit)" for x
    using received_queue [OF m d f that queue_names_distinct(2)] a unfolding ob audit_settled_def by metis
  have "mset (trail (w_db w')) = image_mset row_entry
        (filter_mset (\<lambda>r. audited (ob_id r) (w_db w')) (mset (outbox (pl_db s))))
      \<and> (\<forall>i. audited i (w_db w') \<longrightarrow> i \<in> ob_id ` set (outbox (pl_db s)))"
  proof (cases "c = audit_consumer \<and> fault = None")
    case False
    have same: "trail (w_db w') = trail (pl_db s) \<and> (\<forall>i. audited i (w_db w') \<longleftrightarrow> audited i (pl_db s))"
    proof (cases "c = audit_consumer")
      case True
      with False obtain e where "fault = Some e" by (cases fault) auto
      with handled(3) have "handle em M (ec_name c) (sb_queue c) (\<lambda>_. throw e) ev raw ?w = (ms, w')"
        by (simp add: onEvent_def faulty_def)
      from outage_db [OF this] show ?thesis by (simp add: pl_db_def)
    next
      case other: False
      have n: "ec_name c \<noteq> Consumer_Audit"
        using c other by (auto simp: event_consumers_def consumer_defs Consumer_Audit_def
            Consumer_Notification_def Consumer_Analytics_def)
      have "faulty fault (ec_project c) ev v = (r, v') \<Longrightarrow> audit_logs (w_db v') = audit_logs (w_db v)" for v r v'
      proof (cases fault)
        case None
        assume run: "faulty fault (ec_project c) ev v = (r, v')"
        have "ec_project c = notification_project \<or> ec_project c = analytics_project"
          using c other unfolding event_consumers_def
          by (auto simp: notification_consumer_def analytics_consumer_def)
        then show ?thesis
          using run None notification_project_keeps [of ev v r v' audit_logs]
            analytics_project_db [of ev v r v'] by (auto simp: faulty_def)
      qed (simp add: faulty_def mrun)
      then have "audit_logs (w_db w') = audit_logs (w_db ?w)"
        by (rule handle_frame [OF _ _ handled(3) [unfolded onEvent_def]]) simp_all
      moreover have "audited i (w_db w') \<longleftrightarrow> audited i (w_db ?w)" for i
        using onEvent_processed [OF c f handled(3), of Consumer_Audit i] n by auto
      ultimately show ?thesis by (simp add: trail_def pl_db_def)
    qed
    with a show ?thesis by (simp add: audit_settled_def)
  next
    case True
    have "sb_queue c = Q_Audit" using True by (simp add: audit_consumer_def)
    then obtain r t where r: "r \<in> set (outbox (pl_db s))" and ev: "ev = event_of r t"
      using a handled(2) unfolding audit_settled_def by fastforce
    have snd: "sound_event (pl_db s) (ev_routingKey ev) (ev_payload ev)"
      using ok r by (simp add: pl_ok_def outbox_sound_def ev event_of_def)
    note good = sound_auditable [OF snd]
    have h: "handle em M Consumer_Audit Q_Audit audit_project ev raw ?w = (ms, w')"
      using handled(3) True by (simp add: onEvent_def faulty_def audit_consumer_def)
    note v = audit_trail.handle_view [OF good [unfolded pl_db_def], of em M Q_Audit raw,
        unfolded h snd_conv, folded pl_db_def]
    have id: "ev_eventId ev = ob_id r" by (simp add: ev event_of_def)
    have dist: "distinct (map ob_id (outbox (pl_db s)))"
      using ok by (simp add: pl_ok_def relay_ok_def relay_outbox_db)
    show ?thesis
    proof (cases "audited (ob_id r) (pl_db s)")
      case True
      then have "audited i (w_db w') \<longleftrightarrow> audited i (pl_db s)" for i using v id by auto
      with v id True a show ?thesis by (simp add: audit_settled_def)
    next
      case new: False
      have e: "audit_entry_of ev = Some (row_entry r)"
        using good entry_time [of r t] unfolding ev row_entry_def
        by (auto simp: auditable_def split: option.splits)
      have t': "trail (w_db w') = trail (pl_db s) @ [row_entry r]"
        using v new id e by (simp add: audit_step_def)
      have p: "audited i (w_db w') \<longleftrightarrow> audited i (pl_db s) \<or> i = ob_id r" for i using v id by auto
      have "filter_mset (\<lambda>x. audited (ob_id x) (w_db w')) (mset (outbox (pl_db s)))
          = filter_mset (\<lambda>x. audited (ob_id x) (pl_db s)) (mset (outbox (pl_db s))) + {#r#}"
        unfolding p by (rule filter_mset_insert_key [where P = "\<lambda>i. audited i (pl_db s)", OF dist r new])
      with t' p a r show ?thesis by (simp add: audit_settled_def)
    qed
  qed
  with q show ?thesis by (simp add: audit_settled_def db ob)
qed

lemma pipe_step_audit:
  assumes "pipe_step m cfg ord em M s s'" and ok: "pl_ok cfg s" and a: "audit_settled s"
    and "topic_matching m" and "permutes_outbox ord"
  shows "audit_settled s'"
  using assms(1)
proof cases
  case (serves w')
  have k: "tickets_known (w_db (rs_world (pl_relay s)))"
    using ok by (simp add: pl_ok_def outbox_sound_def pl_db_def)
  obtain rows where r: "announces (pl_db s) (w_db w') rows"
    using service_step_announces [OF serves(2) k] unfolding pl_db_def by blast
  have "outbox_ids_distinct w'"
    using service_step_ids [OF serves(2)] ok
    by (simp add: pl_ok_def relay_ok_def outbox_ids_distinct_def relay_outbox_def)
  then have "ob_id x \<notin> ob_id ` set (outbox (pl_db s))" if "x \<in> set rows" for x
    using that r by (auto simp: outbox_ids_distinct_def announces_def)
  then have new: "\<not> audited (ob_id x) (pl_db s)" if "x \<in> set rows" for x
    using that a unfolding audit_settled_def by blast
  have p: "audited i (w_db w') = audited i (pl_db s)" for i
    using r by (simp add: announces_def processed_def)
  have "filter (\<lambda>x. audited (ob_id x) (pl_db s)) rows = []"
    using new by (simp only: filter_empty_conv) blast
  then have "filter_mset (\<lambda>x. audited (ob_id x) (pl_db s)) (mset rows) = {#}"
    by (metis mset.simps(1) mset_filter)
  moreover have "\<exists>y\<in>set (outbox (w_db w')). \<exists>t. fst x = EventBody (event_of y t)"
    if "x \<in> set (pl_queues s Q_Audit)" for x
    using a r that unfolding audit_settled_def announces_def by (metis Un_iff set_append)
  moreover have "trail (w_db w') = trail (pl_db s)" "outbox (w_db w') = outbox (pl_db s) @ rows"
    using r by (simp_all add: announces_def trail_def)
  ultimately show ?thesis
    using a by (simp add: serves(1) audit_settled_def p) blast
next
  case (relays ff io)
  obtain new where q: "pl_queues s' = fold (post_publication m) new (pl_queues s)"
      "\<forall>p\<in>set new. \<exists>r\<in>set (outbox (pl_db s)). \<exists>t. p = publication_of cfg r t"
    using tick_queues [OF assms(5)] unfolding relays by metis
  obtain os where os: "pl_db s' = (pl_db s)\<lparr>outbox := os\<rparr>"
    using tick_db unfolding relays by blast
  have "extends (pl_relay s) (pl_relay s') (rl_batchSize cfg)"
    using dispatch_ok [OF _ assms(5)] ok by (simp add: pl_ok_def relays relay_tick_def Let_def)
  then have c: "map content os = map content (outbox (pl_db s))"
    by (simp add: extends_def relay_outbox_db os)
  have e: "\<exists>r\<in>set os. \<exists>t. fst x = EventBody (event_of r t)" if "x \<in> set (pl_queues s' Q_Audit)" for x
  proof -
    from posted_new [OF that [unfolded q(1)]] a q(2)
    obtain r t where "r \<in> set (outbox (pl_db s))" "fst x = EventBody (event_of r t)"
      unfolding audit_settled_def by (fastforce simp: publication_of_def)
    with same_contents [OF c] show ?thesis by metis
  qed
  have i: "ob_id ` set os = ob_id ` set (outbox (pl_db s))"
  proof -
    have "map fst (map content os) = map fst (map content (outbox (pl_db s)))" by (simp only: c)
    then have "map ob_id os = map ob_id (outbox (pl_db s))" by (simp add: content_def comp_def)
    then show ?thesis by (metis list.set_map)
  qed
  have p: "audited j (pl_db s') = audited j (pl_db s)" for j by (simp add: os processed_def)
  have "trail (pl_db s') = trail (pl_db s)" by (simp add: os trail_def)
  with a e i settled_contents [OF c, of "\<lambda>j. audited j (pl_db s)"] show ?thesis
    unfolding audit_settled_def p by (simp add: os)
next
  case (receives c i fault lost)
  with received_audit [OF a ok assms(4)] show ?thesis by simp
next
  case (buries i)
  with a show ?thesis by (simp add: bury_def audit_settled_def pl_db_def)
next
  case shuts
  with a show ?thesis by (simp add: shut_def audit_settled_def pl_db_def onModuleDestroy_def)
qed

lemma reachable_audit:
  assumes "(pipe_step m cfg ord em M)\<^sup>*\<^sup>* s0 s" and "launched cfg s0" and "pipeline_settings m cfg ord"
  shows "audit_settled s"
  using assms(1)
proof (induction rule: rtranclp_induct)
  case base
  with assms(2) show ?case by (simp add: launched_def audit_settled_def trail_def processed_def)
next
  case (step s s')
  from pipe_step_audit [OF step.hyps(2)] reachable_ok [OF step.hyps(1) assms(2,3)] step.IH assms(3)
  show ?case by (simp add: pipeline_settings_def)
qed

text \<open>Some message of the consumer's queue was dead-lettered.\<close>

definition dead_from :: "string \<Rightarrow> delivery \<Rightarrow> bool" where
  "dead_from q d \<longleftrightarrow> (case fst d of DeadLetterBody q' _ _ _ \<Rightarrow> q' = q | EventBody _ \<Rightarrow> False)"

definition buried_by :: "event_consumer \<Rightarrow> pipeline \<Rightarrow> bool" where
  "buried_by c s \<longleftrightarrow> list_ex (dead_from (sb_queue c)) (pl_queues s Q_DeadLetter @ pl_buried s)"

lemma dead_buried:
  "dead_of c ev d \<Longrightarrow> d \<in> set (pl_queues s Q_DeadLetter) \<union> set (pl_buried s) \<Longrightarrow> buried_by c s"
  by (auto simp: dead_of_def buried_by_def dead_from_def list_ex_iff split: message_body.splits intro!: bexI [of _ d])

lemma trail_prefix:
  assumes "(pipe_step m cfg ord em M)\<^sup>*\<^sup>* s0 s" and "launched cfg s0" and "pipeline_settings m cfg ord"
  shows "mset (trail (pl_db s)) = image_mset row_entry
      (filter_mset (\<lambda>r. audited (ob_id r) (pl_db s)) (mset (outbox (pl_db s))))"
  using reachable_audit [OF assms] by (simp add: audit_settled_def)

lemma trail_complete:
  assumes "(pipe_step m cfg ord em M)\<^sup>*\<^sup>* s0 s" and "launched cfg s0" and "pipeline_settings m cfg ord"
    and h: "list_all (\<lambda>r. ob_status r = Outbox_DISPATCHED) (outbox (pl_db s))"
      "pl_queues s Q_Audit = []" "\<not> buried_by audit_consumer s"
  shows "mset (trail (pl_db s)) = mset (map row_entry (outbox (pl_db s)))"
proof -
  have "audited (ob_id r) (pl_db s)" if r: "r \<in> set (outbox (pl_db s))" for r
  proof -
    have c: "audit_consumer \<in> set event_consumers" by (simp add: event_consumers_def)
    have m: "list_ex (\<lambda>p. m p (ob_routingKey r)) (sb_routingKey audit_consumer)"
      using assms(3) by (simp add: audit_consumer_def AuditBindings_def pipeline_settings_def topic_matching_def)
    have "ob_status r = Outbox_DISPATCHED" using h r by (simp add: list_all_iff)
    from dispatched_located [OF assms(1-3) r this c m] obtain t where "located audit_consumer (event_of r t) s" ..
    then have "audited (ob_id r) (pl_db s) \<or> (\<exists>raw. (EventBody (event_of r t), raw) \<in> set (pl_queues s Q_Audit))
        \<or> buried_by audit_consumer s"
      using dead_buried [of audit_consumer] unfolding located_def
      by (auto simp: audit_consumer_def event_of_def)
    with h show ?thesis by auto
  qed
  then have "filter_mset (\<lambda>r. audited (ob_id r) (pl_db s)) (mset (outbox (pl_db s))) = mset (outbox (pl_db s))"
    by (simp add: filter_mset_eq_conv)
  then show ?thesis by (simp add: trail_prefix [OF assms(1-3)])
qed

lemma map_entry_contents:
  assumes "map content os = map content rs"
  shows "map row_entry os = map row_entry rs"
proof -
  have "map row_entry xs = map (\<lambda>x. the (audit_entry_of (row_event x))) (map content xs)" for xs
    by (simp add: row_entry_def)
  with assms show ?thesis by metis
qed

text \<open>
  C5. The audit trail follows the outbox. In every history of the platform the trail is at all
  times made of the entries of distinct outbox rows: no change is recorded twice, however often
  messages were published, redelivered or retried, and nothing is recorded that no service
  announced. Once every row is DISPATCHED and the audit queue is empty, and no message was
  dead-lettered from it, the trail has exactly one entry for each row.
\<close>

theorem audit_end_to_end:
  assumes "(pipe_step m cfg ord em M)\<^sup>*\<^sup>* s0 s" and "launched cfg s0" and "pipeline_settings m cfg ord"
  shows "mset (trail (pl_db s)) \<subseteq># mset (map row_entry (outbox (pl_db s)))
    \<and> (list_all (\<lambda>r. ob_status r = Outbox_DISPATCHED) (outbox (pl_db s))
       \<and> pl_queues s Q_Audit = [] \<and> \<not> buried_by audit_consumer s \<longrightarrow>
       mset (trail (pl_db s)) = mset (map row_entry (outbox (pl_db s))))"
  using trail_complete [OF assms]
  by (auto simp: trail_prefix [OF assms] image_mset_subseteq_mono)

theorem audit_end_to_end_witness:
  "mset (trail (pl_db fx_audited)) = mset (map row_entry (outbox (pl_db fx_audited)))
   \<and> length (trail (pl_db fx_audited)) = 1"
proof -
  have 1: "list_all (\<lambda>r. ob_status r = Outbox_DISPATCHED) (outbox (pl_db fx_audited))" by code_simp
  have 2: "pl_queues fx_audited Q_Audit = []" by code_simp
  have 3: "\<not> buried_by audit_consumer fx_audited" by code_simp
  have 4: "length (outbox (pl_db fx_audited)) = 1" by code_simp
  note t = audit_end_to_end [OF fx_steps(3) fx_launched fx_settings, THEN conjunct2, THEN mp, OF conjI [OF 1 conjI [OF 2 3]]]
  with 4 show ?thesis by (metis length_map size_mset)
qed

section \<open>The worker comes to an end\<close>

text \<open>
  A delivery that is acknowledged takes its message from the queue and puts at most one back: the
  event with a higher attempt, or a dead letter. \<open>weight\<close> counts the deliveries a message can
  still cause.
\<close>

definition weight :: "int \<Rightarrow> delivery \<Rightarrow> nat" where
  "weight M x = (case fst x of
       DeadLetterBody _ _ _ _ \<Rightarrow> 1
     | EventBody _ \<Rightarrow> (case retry_attempt (snd x) of None \<Rightarrow> 2 | Some a \<Rightarrow> 2 + nat (M - a)))"

definition queue_load :: "int \<Rightarrow> delivery list \<Rightarrow> nat" where
  "queue_load M xs = sum_list (map (weight M) xs)"

definition queue_list :: "string list" where
  "queue_list = map sb_queue subscriptions"

definition backlog :: "int \<Rightarrow> pipeline \<Rightarrow> nat" where
  "backlog M s = sum_list (map (\<lambda>q. queue_load M (pl_queues s q)) queue_list)"

inductive worker_step ::
  "topic_match \<Rightarrow> (exn \<Rightarrow> string) \<Rightarrow> int \<Rightarrow> pipeline \<Rightarrow> pipeline \<Rightarrow> bool"
  for m em M
where
  works: "delivers c i s \<Longrightarrow> pl_queues s (sb_queue c) ! i = (EventBody ev, raw) \<Longrightarrow> outage fault \<Longrightarrow>
    worker_step m em M s (receive m em M c i fault None s)"
| sinks: "i < length (pl_queues s Q_DeadLetter) \<Longrightarrow> worker_step m em M s (bury i s)"

lemma queue_list_names: "queue_list = [Q_Notification, Q_Audit, Q_Analytics, Q_DeadLetter]"
  by (simp add: queue_list_def subscriptions_def event_consumers_def consumer_defs
      dead_letter_sink_def subscription.truncate_def)

lemma queue_load_simps [simp]:
  "queue_load M [] = 0" "queue_load M (xs @ ys) = queue_load M xs + queue_load M ys"
  "queue_load M (x # xs) = weight M x + queue_load M xs"
  by (simp_all add: queue_load_def)

lemma queue_load_drop:
  "i < length xs \<Longrightarrow> queue_load M (drop_nth i xs) + weight M (xs ! i) = queue_load M xs"
  by (subst (2) id_take_nth_drop) (auto simp: drop_nth_def simp del: append_take_drop_id)

lemma weight_pos: "0 < weight M x"
  by (simp add: weight_def split: message_body.split option.split)

text \<open>The queues after an acknowledged delivery.\<close>

lemma acknowledged_queues:
  assumes m: "topic_matching m" and d: "delivers c i s" and f: "outage fault"
    and x: "pl_queues s (sb_queue c) ! i = (EventBody ev, raw)"
  obtains (gone) "pl_queues (receive m em M c i fault None s)
      = (pl_queues s)(sb_queue c := drop_nth i (pl_queues s (sb_queue c)))"
  | (again) y where "pl_queues (receive m em M c i fault None s)
      = (pl_queues s)(sb_queue c := drop_nth i (pl_queues s (sb_queue c)) @ [y])"
      "weight M y < weight M (EventBody ev, raw)" "fst y = EventBody ev"
  | (dead) y where "pl_queues (receive m em M c i fault None s)
      = (pl_queues s)(sb_queue c := drop_nth i (pl_queues s (sb_queue c)),
          Q_DeadLetter := pl_queues s Q_DeadLetter @ [y])"
      "weight M y < weight M (EventBody ev, raw)" "\<exists>e t. fst y = DeadLetterBody (sb_queue c) e t ev"
proof -
  have c: "c \<in> set event_consumers" using d by (simp add: delivers_def)
  note cq = consumer_queue(1) [OF c]
  let ?qs = "(pl_queues s)(sb_queue c := drop_nth i (pl_queues s (sb_queue c)))"
  obtain ms w' where run: "onEvent em M c fault ev raw (rs_world (pl_relay s)) = (ms, w')" by fastforce
  have q: "pl_queues (receive m em M c i fault None s) = fold (post_message m) ms ?qs"
    by (simp add: receive_def x run)
  from onEvent_outcome [OF c f run] consider "ms = []"
    | msg t where "ms = [retryOrDeadLetter M (sb_queue c) ev raw msg t]" by blast
  then show ?thesis
  proof cases
    case 1
    then show ?thesis by (intro gone) (simp add: q)
  next
    case (2 msg t)
    let ?m = "retryOrDeadLetter M (sb_queue c) ev raw msg t"
    have q': "pl_queues (receive m em M c i fault None s) = post_message m ?m ?qs" by (simp add: q 2)
    show ?thesis
    proof (cases "\<exists>a. retry_attempt raw = Some a \<and> a < M")
      case True
      then obtain a where a: "retry_attempt raw = Some a" "a < M" by blast
      note r = retry_requeue [OF a, of "sb_queue c" ev msg t]
      then have "post_message m ?m ?qs = ?qs(sb_queue c := ?qs (sb_queue c) @ [(EventBody ev, redelivered ?m)])"
        using route_default [OF c, of m]
        by (auto simp: post_message_def post_def requeue_def fun_eq_iff)
      moreover have "weight M (EventBody ev, redelivered ?m) < weight M (EventBody ev, raw)"
        using r a by (simp add: weight_def)
      ultimately show ?thesis by (intro again [of "(EventBody ev, redelivered ?m)"]) (simp_all add: q')
    next
      case False
      then have "retry_attempt raw = None \<or> (\<exists>a. retry_attempt raw = Some a \<and> M \<le> a)"
        by (cases "retry_attempt raw") auto
      from retry_dead_letter [OF this, of "sb_queue c" ev msg t] obtain e u where
        r: "om_exchange ?m = DEAD_LETTER_EXCHANGE" "om_body ?m = DeadLetterBody (sb_queue c) e u ev"
        by (auto simp: dead_letter_def)
      have "post_message m ?m ?qs = ?qs(Q_DeadLetter := ?qs Q_DeadLetter @ [(om_body ?m, redelivered ?m)])"
        using route_dead [OF m] r(1) by (auto simp: post_message_def post_def fun_eq_iff)
      moreover have "weight M (om_body ?m, redelivered ?m) < weight M (EventBody ev, raw)"
        by (simp add: weight_def r(2) split: option.split)
      ultimately show ?thesis using r(2) cq by (intro dead [of "(om_body ?m, redelivered ?m)"]) (auto simp: q')
    qed
  qed
qed

lemma worker_step_backlog:
  assumes "worker_step m em M s s'" and "topic_matching m"
  shows "backlog M s' < backlog M s"
  using assms(1)
proof cases
  case (works c i ev raw fault)
  have c: "c \<in> set event_consumers" and i: "i < length (pl_queues s (sb_queue c))"
    using works(2) by (simp_all add: delivers_def)
  note ld = queue_load_drop [OF i, of M, unfolded works(3)]
  note w = weight_pos [of M "(EventBody ev, raw)"]
  from c have sq: "sb_queue c \<in> {Q_Notification, Q_Audit, Q_Analytics}"
    by (auto simp: event_consumers_def consumer_defs)
  show ?thesis
    using assms(2) works(2,4,3)
  proof (cases rule: acknowledged_queues [where em = em and M = M])
    case gone
    with ld w sq show ?thesis
      by (auto simp: works(1) backlog_def queue_list_names)
  next
    case (again y)
    with ld w sq show ?thesis
      by (auto simp: works(1) backlog_def queue_list_names)
  next
    case (dead y)
    with ld w sq show ?thesis
      by (auto simp: works(1) backlog_def queue_list_names)
  qed
next
  case (sinks i)
  with queue_load_drop [OF sinks(2), of M] weight_pos [of M "pl_queues s Q_DeadLetter ! i"] show ?thesis
    by (simp add: bury_def backlog_def queue_list_names)
qed

text \<open>Consumer queues hold events only.\<close>

definition events_queued :: "pipeline \<Rightarrow> bool" where
  "events_queued s \<longleftrightarrow> (\<forall>c\<in>set event_consumers. \<forall>x\<in>set (pl_queues s (sb_queue c)). \<exists>ev. fst x = EventBody ev)"

lemma pipe_step_events:
  assumes "pipe_step m cfg ord em M s s'" and e: "events_queued s" and "topic_matching m"
    and "permutes_outbox ord"
  shows "events_queued s'"
  using assms(1)
proof cases
  case (relays ff io)
  obtain new where "pl_queues s' = fold (post_publication m) new (pl_queues s)"
    using tick_queues [OF assms(4)] unfolding relays by metis
  with posted_new e show ?thesis unfolding events_queued_def by metis
next
  case (receives c i fault lost)
  have "\<exists>ev. fst x = EventBody ev"
    if c: "c' \<in> set event_consumers" and "x \<in> set (pl_queues s' (sb_queue c'))" for c' x
    using received_queue [OF assms(3) receives(2,3) that(2) [unfolded receives(1)] consumer_queue(1) [OF c]]
      e c unfolding events_queued_def by metis
  then show ?thesis by (simp add: events_queued_def)
next
  case (buries i)
  with e consumer_queue(1) show ?thesis by (auto simp: bury_def events_queued_def)
qed (use e in \<open>simp_all add: events_queued_def shut_def\<close>)

lemma reachable_events:
  assumes "(pipe_step m cfg ord em M)\<^sup>*\<^sup>* s0 s" and "launched cfg s0" and "pipeline_settings m cfg ord"
  shows "events_queued s"
  using assms(1)
proof (induction rule: rtranclp_induct)
  case base
  with assms(2) show ?case by (simp add: launched_def events_queued_def)
next
  case (step s s')
  from pipe_step_events [OF step.hyps(2)] step.IH assms(3)
  show ?case by (simp add: pipeline_settings_def)
qed

definition queues_empty :: "pipeline \<Rightarrow> bool" where
  "queues_empty s \<longleftrightarrow> list_all (\<lambda>q. pl_queues s q = []) queue_list"

lemma queues_empty_iff:
  "queues_empty s \<longleftrightarrow> (\<forall>c\<in>set event_consumers. pl_queues s (sb_queue c) = []) \<and> pl_queues s Q_DeadLetter = []"
  by (auto simp: queues_empty_def queue_list_names event_consumers_def consumer_defs)

text \<open>A queue that is not empty can be served, also without a fault.\<close>

lemma worker_progress:
  assumes "events_queued s" and "\<not> queues_empty s"
  obtains (event) c ev raw where "delivers c 0 s" "pl_queues s (sb_queue c) ! 0 = (EventBody ev, raw)"
  | (letter) "0 < length (pl_queues s Q_DeadLetter)"
proof (cases "pl_queues s Q_DeadLetter = []")
  case True
  with assms(2) obtain c where c: "c \<in> set event_consumers" "pl_queues s (sb_queue c) \<noteq> []"
    by (auto simp: queues_empty_iff)
  then have "pl_queues s (sb_queue c) ! 0 \<in> set (pl_queues s (sb_queue c))" by simp
  with assms(1) c(1) obtain ev where "fst (pl_queues s (sb_queue c) ! 0) = EventBody ev"
    unfolding events_queued_def by blast
  with c show ?thesis
    by (intro event [of c ev "snd (pl_queues s (sb_queue c) ! 0)"])
      (simp_all add: delivers_def prod_eq_iff)
qed (simp add: letter)

lemma worker_steps_backlog:
  "(worker_step m em M ^^ n) s s' \<Longrightarrow> topic_matching m \<Longrightarrow> n + backlog M s' \<le> backlog M s"
proof (induction n arbitrary: s')
  case (Suc n)
  from Suc.prems(1) obtain s1 where s1: "(worker_step m em M ^^ n) s s1" "worker_step m em M s1 s'"
    by auto
  from Suc.IH [OF s1(1) Suc.prems(2)] worker_step_backlog [OF s1(2) Suc.prems(2)] show ?case by simp
qed simp

text \<open>
  C19. The worker comes to an end. Left to itself (no new publications, every delivery
  acknowledged), the worker stops: from any state it can take at most as many steps as the
  backlog counts, whichever messages it takes first and however often the projections fail, so
  there is no endless retrying. And it stops only when there is nothing left to do: in a
  reachable state it can take a step unless every queue is empty.
\<close>

theorem worker_terminates:
  assumes "pipeline_settings m cfg ord"
  shows "((worker_step m em M ^^ n) s s' \<longrightarrow> n \<le> backlog M s)
    \<and> wfP (\<lambda>v s. worker_step m em M s v)
    \<and> ((pipe_step m cfg ord em M)\<^sup>*\<^sup>* s0 s \<and> launched cfg s0 \<longrightarrow>
        ((\<forall>v. \<not> worker_step m em M s v) \<longleftrightarrow> queues_empty s))"
proof (intro conjI impI)
  have m: "topic_matching m" using assms by (simp add: pipeline_settings_def)
  assume "(worker_step m em M ^^ n) s s'"
  from worker_steps_backlog [OF this m] show "n \<le> backlog M s" by simp
next
  have m: "topic_matching m" using assms by (simp add: pipeline_settings_def)
  show "wfP (\<lambda>v s. worker_step m em M s v)"
    by (rule wfp_if_convertible_to_nat [where f = "backlog M"]) (rule worker_step_backlog [OF _ m])
next
  assume r: "(pipe_step m cfg ord em M)\<^sup>*\<^sup>* s0 s \<and> launched cfg s0"
  then have e: "events_queued s" using reachable_events assms by blast
  show "(\<forall>v. \<not> worker_step m em M s v) \<longleftrightarrow> queues_empty s"
  proof
    assume stuck: "\<forall>v. \<not> worker_step m em M s v"
    show "queues_empty s"
    proof (rule ccontr)
      assume "\<not> queues_empty s"
      from e this show False
      proof (cases rule: worker_progress)
        case (event c ev raw)
        have "outage None" by (simp add: outage_def)
        with stuck works [OF event] show False by blast
      next
        case letter
        with stuck sinks show False by blast
      qed
    qed
  next
    assume "queues_empty s"
    then show "\<forall>v. \<not> worker_step m em M s v"
      by (auto simp: queues_empty_iff delivers_def elim!: worker_step.cases)
  qed
qed

theorem worker_terminates_witness:
  "1 \<le> backlog 3 (fx_published fx_relay)
   \<and> (\<forall>v. \<not> worker_step fx_match (\<lambda>_. []) 3 fx_written v) = queues_empty fx_written"
proof -
  have q: "pl_queues (fx_published fx_relay) Q_Audit \<noteq> []" by code_simp
  then have d: "delivers audit_consumer 0 (fx_published fx_relay)"
    by (simp add: delivers_def event_consumers_def audit_consumer_def)
  have "\<exists>ev raw. pl_queues (fx_published fx_relay) (sb_queue audit_consumer) ! 0 = (EventBody ev, raw)"
  proof -
    have "case fst (pl_queues (fx_published fx_relay) (sb_queue audit_consumer) ! 0) of
        EventBody _ \<Rightarrow> True | _ \<Rightarrow> False" by code_simp
    then show ?thesis by (auto simp: prod_eq_iff split: message_body.splits)
  qed
  then obtain ev raw where "pl_queues (fx_published fx_relay) (sb_queue audit_consumer) ! 0 = (EventBody ev, raw)"
    by blast
  from works [OF d this, of None fx_match "\<lambda>_. []" 3]
  have "(worker_step fx_match (\<lambda>_. []) 3 ^^ 1) (fx_published fx_relay) fx_audited"
    by (auto simp: outage_def fx_audited_def relcompp_apply)
  with worker_terminates [OF fx_settings, where n = 1 and em = "\<lambda>_. []" and M = 3]
    worker_terminates [OF fx_settings, where em = "\<lambda>_. []" and M = 3 and s = fx_written and s0 = fx_start]
    fx_steps(1) fx_launched
  show ?thesis by blast
qed

section \<open>Every change is audited in the end\<close>

lemma audit_handled:
  assumes "auditable ev (w_db w)"
  shows "\<exists>w'. handle em M Consumer_Audit q audit_project ev raw w = ([], w')"
proof (cases "processed Consumer_Audit (ev_eventId ev) (w_db w)")
  case True
  then show ?thesis by (simp add: handle_def runOnce_duplicate)
next
  case False
  let ?v = "mark_processed Consumer_Audit (ev_eventId ev) w"
  obtain p where p: "w_db ?v = (w_db w)\<lparr>processed_events := p\<rparr>"
    using mark_processed_simps(2) [OF False] by blast
  have "auditable ev (w_db ?v) = auditable ev (w_db w)"
    unfolding p by (rule auditable_cong) simp_all
  with assms audit_project_good [of ev ?v] obtain v where "audit_project ev ?v = (Inr (), v)" by blast
  then show ?thesis using False by (simp add: handle_def runOnce_fresh)
qed

text \<open>A delivery without a fault buries nothing of the audit queue.\<close>

lemma healthy_letters:
  assumes ok: "pl_ok cfg s" and a: "audit_settled s" and m: "topic_matching m"
    and d: "delivers c i s" and x: "pl_queues s (sb_queue c) ! i = (EventBody ev, raw)"
    and n: "\<not> buried_by audit_consumer s"
  shows "\<not> buried_by audit_consumer (receive m em M c i None None s)"
proof -
  have b: "pl_buried (receive m em M c i None None s) = pl_buried s"
    by (simp add: receive_def x split: prod.split)
  have c: "c \<in> set event_consumers" and i: "i < length (pl_queues s (sb_queue c))"
    using d by (simp_all add: delivers_def)
  have o': "outage None" by (simp add: outage_def)
  have q: "pl_queues (receive m em M c i None None s) Q_DeadLetter = pl_queues s Q_DeadLetter
    \<or> (\<exists>y. pl_queues (receive m em M c i None None s) Q_DeadLetter = pl_queues s Q_DeadLetter @ [y]
        \<and> c \<noteq> audit_consumer \<and> (\<exists>e t. fst y = DeadLetterBody (sb_queue c) e t ev))"
  proof (cases "c = audit_consumer")
    case True
    then have "(EventBody ev, raw) \<in> set (pl_queues s Q_Audit)"
      using i x nth_mem by (fastforce simp: audit_consumer_def)
    then obtain r t where r: "r \<in> set (outbox (pl_db s))" "ev = event_of r t"
      using a unfolding audit_settled_def by fastforce
    then have "sound_event (pl_db s) (ev_routingKey ev) (ev_payload ev)"
      using ok by (simp add: pl_ok_def outbox_sound_def event_of_def)
    from audit_handled [OF sound_auditable [OF this, unfolded pl_db_def], of em M Q_Audit raw]
    obtain w' where "onEvent em M c None ev raw (rs_world (pl_relay s)) = ([], w')"
      unfolding onEvent_def True audit_consumer_def faulty_def by (auto simp del: split_paired_Ex)
    then show ?thesis using consumer_queue(1) [OF c] by (auto simp: receive_def x)
  next
    case False
    from m d o' x show ?thesis
    proof (cases rule: acknowledged_queues [where em = em and M = M])
      case gone
      then show ?thesis using consumer_queue(1) [OF c] by auto
    next
      case (again y)
      then show ?thesis using consumer_queue(1) [OF c] by auto
    next
      case (dead y)
      then show ?thesis using False by auto
    qed
  qed
  have neq: "sb_queue c \<noteq> sb_queue audit_consumer" if "c \<noteq> audit_consumer"
    using that consumer_by_queue [OF c, of audit_consumer] by (auto simp: event_consumers_def)
  then have dead: "\<not> dead_from (sb_queue audit_consumer) y"
    if "c \<noteq> audit_consumer" "\<exists>e t. fst y = DeadLetterBody (sb_queue c) e t ev" for y
    using that by (auto simp: dead_from_def)
  from q n dead show ?thesis unfolding buried_by_def b by auto
qed

lemma drains:
  assumes "(pipe_step m cfg ord em M)\<^sup>*\<^sup>* s0 s" and "launched cfg s0" and "pipeline_settings m cfg ord"
    and "\<not> buried_by audit_consumer s"
  shows "\<exists>s'. (pipe_step m cfg ord em M)\<^sup>*\<^sup>* s0 s' \<and> (pipe_step m cfg ord em M)\<^sup>*\<^sup>* s s'
    \<and> queues_empty s' \<and> outbox (pl_db s') = outbox (pl_db s) \<and> \<not> buried_by audit_consumer s'"
  using assms(1,4)
proof (induction "backlog M s" arbitrary: s rule: less_induct)
  case less
  have m: "topic_matching m" using assms(3) by (simp add: pipeline_settings_def)
  show ?case
  proof (cases "queues_empty s")
    case True
    with less.prems show ?thesis by blast
  next
    case False
    have inv: "pl_ok cfg s" "audit_settled s"
      using reachable_ok [OF less.prems(1) assms(2,3)] reachable_audit [OF less.prems(1) assms(2,3)] by simp_all
    have o': "outage None" by (simp add: outage_def)
    from reachable_events [OF less.prems(1) assms(2,3)] False
    obtain v where v: "pipe_step m cfg ord em M s v" "worker_step m em M s v"
      "outbox (pl_db v) = outbox (pl_db s)" "\<not> buried_by audit_consumer v"
    proof (cases rule: worker_progress)
      case (event c ev raw)
      let ?v = "receive m em M c 0 None None s"
      have c: "c \<in> set event_consumers" using event(1) by (simp add: delivers_def)
      obtain ms w' where run: "onEvent em M c None ev raw (rs_world (pl_relay s)) = (ms, w')" by fastforce
      have "outbox (pl_db ?v) = outbox (pl_db s)"
        using onEvent_frame [OF c _ run, of outbox] event(2) run
        by (simp add: receive_def ignores_views_def) (simp add: pl_db_def)
      then show thesis
        by (rule that [OF receives [OF event(1) o'] works [OF event o'] _ healthy_letters [OF inv m event less.prems(2)]])
    next
      case letter
      have "outbox (pl_db (bury 0 s)) = outbox (pl_db s)" by (simp add: bury_def pl_db_def)
      moreover have "set (pl_queues s Q_DeadLetter) \<union> set (pl_buried s)
          = set (pl_queues (bury 0 s) Q_DeadLetter) \<union> set (pl_buried (bury 0 s))"
        using set_drop_nth [OF letter] by (auto simp: bury_def)
      then have "\<not> buried_by audit_consumer (bury 0 s)" using less.prems(2) by (simp add: buried_by_def list_ex_iff ball_Un [symmetric] bex_Un [symmetric])
      ultimately show thesis by (rule that [OF buries [OF letter] sinks [OF letter]])
    qed
    have "(pipe_step m cfg ord em M)\<^sup>*\<^sup>* s0 v" using less.prems(1) v(1) by simp
    from less.hyps [OF worker_step_backlog [OF v(2) m] this v(4)] obtain s' where
      "(pipe_step m cfg ord em M)\<^sup>*\<^sup>* s0 s'" "(pipe_step m cfg ord em M)\<^sup>*\<^sup>* v s'" "queues_empty s'"
      "outbox (pl_db s') = outbox (pl_db v)" "\<not> buried_by audit_consumer s'" by blast
    with v(1,3) show ?thesis by (intro exI [of _ s']) (auto intro: converse_rtranclp_into_rtranclp)
  qed
qed

text \<open>Ticks while the broker and the database answer.\<close>

lemma tick_statuses:
  assumes "io_fine io" and "permutes_outbox ord" and "idle s"
    and "\<forall>r\<in>set (relay_outbox s). ob_status r \<noteq> Outbox_FAILED"
  shows "\<forall>r\<in>set (relay_outbox (dispatchPending cfg ord False io s)). ob_status r \<noteq> Outbox_FAILED"
proof -
  let ?rows = "take (rl_batchSize cfg) (ord (pending_of s))"
  have "ob_id ` set ?rows \<subseteq> ob_id ` set (relay_outbox (s\<lparr>rs_running := True\<rparr>))"
    using permutes_outbox_set [OF assms(2)]
    by (auto simp: pending_of_def pending_rows_def relay_outbox_def dest!: in_set_takeD)
  from publish_rows_fine [OF assms(1) this, of cfg] assms(3,4) show ?thesis
    by (auto simp: dispatchPending_def idle_def pending_of_def Let_def dispatch_ids_def split: if_splits)
qed

definition tick_times ::
  "topic_match \<Rightarrow> relay_config \<Rightarrow> (event_outbox list \<Rightarrow> event_outbox list) \<Rightarrow> (string \<Rightarrow> row_io)
    \<Rightarrow> nat \<Rightarrow> pipeline \<Rightarrow> pipeline"
where
  "tick_times m cfg ord io n s = (relay_tick m cfg ord False io ^^ n) s"

lemma tick_times_Suc:
  "tick_times m cfg ord io (Suc n) s = relay_tick m cfg ord False io (tick_times m cfg ord io n s)"
  by (simp add: tick_times_def)

lemma posted_letters:
  "\<forall>p\<in>set ps. pb_exchange p = EXCHANGE \<Longrightarrow> fold (post_publication m) ps qs Q_DeadLetter = qs Q_DeadLetter"
proof (induction ps arbitrary: qs)
  case (Cons p ps)
  have "Q_DeadLetter \<notin> set (route m EXCHANGE k)" for k
    using consumer_queue(1) by (auto simp: route_event)
  with Cons show ?case by (simp add: post_publication_def post_def)
qed simp

lemma tick_times_relay:
  assumes "io_fine io" and "permutes_outbox ord" and "idle (pl_relay s)"
    and "distinct (map ob_id (outbox (pl_db s)))" and "rl_exchange cfg = EXCHANGE"
    and "\<forall>r\<in>set (outbox (pl_db s)). ob_status r \<noteq> Outbox_FAILED"
  shows "pl_relay (tick_times m cfg ord io n s) = ticks cfg ord io n (pl_relay s)
    \<and> (pipe_step m cfg ord em M)\<^sup>*\<^sup>* s (tick_times m cfg ord io n s)
    \<and> (\<forall>r\<in>set (outbox (pl_db (tick_times m cfg ord io n s))). ob_status r \<noteq> Outbox_FAILED)
    \<and> pl_queues (tick_times m cfg ord io n s) Q_DeadLetter = pl_queues s Q_DeadLetter
    \<and> pl_buried (tick_times m cfg ord io n s) = pl_buried s"
proof (induction n)
  case 0
  with assms(6) show ?case by (simp add: tick_times_def ticks_def)
next
  case (Suc n)
  let ?s = "tick_times m cfg ord io n s"
  let ?v = "relay_tick m cfg ord False io ?s"
  have r: "pl_relay ?v = dispatchPending cfg ord False io (pl_relay ?s)"
    by (simp add: relay_tick_def Let_def)
  have "idle (pl_relay ?s)"
    using ticks_fine [OF assms(1-3) assms(4) [folded relay_outbox_db], of cfg n] Suc.IH by simp
  from tick_statuses [OF assms(1,2) this] Suc.IH
  have st: "\<forall>r\<in>set (outbox (pl_db ?v)). ob_status r \<noteq> Outbox_FAILED"
    by (simp add: relay_outbox_db [symmetric] r)
  obtain new where new: "pl_queues ?v = fold (post_publication m) new (pl_queues ?s)"
    "\<forall>p\<in>set new. \<exists>r\<in>set (outbox (pl_db ?s)). \<exists>t. p = publication_of cfg r t"
    using tick_queues [OF assms(2)] by metis
  then have "\<forall>p\<in>set new. pb_exchange p = EXCHANGE" using assms(5) by (auto simp: publication_of_def)
  from posted_letters [OF this] have "pl_queues ?v Q_DeadLetter = pl_queues ?s Q_DeadLetter"
    by (simp add: new(1))
  moreover have "pl_buried ?v = pl_buried ?s" by (simp add: relay_tick_def Let_def)
  moreover have "pipe_step m cfg ord em M ?s ?v" by (rule relays)
  ultimately show ?case
    using Suc.IH st r unfolding tick_times_Suc
    by (auto simp: ticks_def intro: rtranclp.rtrancl_into_rtrancl)
qed

text \<open>
  C6. Every change is audited in the end. From every state the platform can reach in which the relay
  is idle, no row has used up its tries and nothing of the audit queue was dead-lettered, it
  can go on (ticks while the broker answers, then deliveries without faults) to a state in
  which all queues are empty and the audit trail consists of exactly one entry for each row
  the services have written, whatever failed and was repeated before.
\<close>

theorem every_change_audited:
  assumes "(pipe_step m cfg ord em M)\<^sup>*\<^sup>* s0 s" and "launched cfg s0" and "pipeline_settings m cfg ord"
    and "0 < rl_batchSize cfg" and "idle (pl_relay s)" and "\<not> buried_by audit_consumer s"
    and "\<forall>r\<in>set (outbox (pl_db s)). ob_status r \<noteq> Outbox_FAILED"
  shows "\<exists>s'. (pipe_step m cfg ord em M)\<^sup>*\<^sup>* s s' \<and> queues_empty s'
    \<and> map content (outbox (pl_db s')) = map content (outbox (pl_db s))
    \<and> mset (trail (pl_db s')) = mset (map row_entry (outbox (pl_db s)))"
proof -
  let ?io = "\<lambda>_. \<lparr>io_publish = None, io_update = None, io_record = None\<rparr> :: row_io"
  have io: "io_fine ?io" by (simp add: io_fine_def)
  have perm: "permutes_outbox ord" and ex: "rl_exchange cfg = EXCHANGE"
    using assms(3) by (simp_all add: pipeline_settings_def)
  have dist: "distinct (map ob_id (outbox (pl_db s)))"
    using reachable_ok [OF assms(1-3)] by (simp add: pl_ok_def relay_ok_def relay_outbox_db)
  define n where "n = length (pending_of (pl_relay s))"
  let ?s1 = "tick_times m cfg ord ?io n s"
  note t = tick_times_relay [OF io perm assms(5) dist ex assms(7), of m n em M]
  have le: "length (pending_of (pl_relay s)) \<le> n * rl_batchSize cfg"
    using assms(4) by (simp add: n_def)
  have "length (pending_of (pl_relay ?s1)) = 0"
    using ticks_fine [OF io perm assms(5) dist [folded relay_outbox_db], of cfg n] t le by simp
  then have "\<forall>r\<in>set (outbox (pl_db ?s1)). ob_status r \<noteq> Outbox_PENDING"
    by (simp add: pending_of_def pending_rows_def pl_db_def filter_empty_conv)
  moreover have "\<forall>r\<in>set (outbox (pl_db ?s1)). ob_status r \<noteq> Outbox_FAILED" using t by blast
  ultimately have disp: "list_all (\<lambda>r. ob_status r = Outbox_DISPATCHED) (outbox (pl_db ?s1))"
    unfolding list_all_iff using outbox_status.exhaust by metis
  have reach: "(pipe_step m cfg ord em M)\<^sup>*\<^sup>* s0 ?s1" using assms(1) t by auto
  have nb: "\<not> buried_by audit_consumer ?s1" using assms(6) t by (simp add: buried_by_def)
  from drains [OF reach assms(2,3) nb] obtain s' where s':
    "(pipe_step m cfg ord em M)\<^sup>*\<^sup>* s0 s'" "(pipe_step m cfg ord em M)\<^sup>*\<^sup>* ?s1 s'" "queues_empty s'"
    "outbox (pl_db s') = outbox (pl_db ?s1)" "\<not> buried_by audit_consumer s'" by blast
  have "map content (relay_outbox (ticks cfg ord ?io k (pl_relay s))) = map content (relay_outbox (pl_relay s))
      \<and> relay_ok cfg (ticks cfg ord ?io k (pl_relay s))" for k
  proof (induction k)
    case 0
    show ?case using reachable_ok [OF assms(1-3)] by (simp add: ticks_def pl_ok_def)
  next
    case (Suc k)
    with dispatch_ok [OF _ perm] show ?case by (simp add: ticks_def extends_def)
  qed
  then have con: "map content (outbox (pl_db ?s1)) = map content (outbox (pl_db s))"
    using t by (simp add: relay_outbox_db [symmetric])
  have q: "pl_queues s' Q_Audit = []" using s'(3) by (simp add: queues_empty_def queue_list_names)
  have "mset (trail (pl_db s')) = mset (map row_entry (outbox (pl_db s')))"
    by (rule trail_complete [OF s'(1) assms(2,3)]) (use disp q s' in simp_all)
  also have "map row_entry (outbox (pl_db s')) = map row_entry (outbox (pl_db s))"
    using map_entry_contents [OF con] by (simp add: s'(4))
  finally show ?thesis using s' t con by (intro exI [of _ s']) auto
qed

theorem every_change_audited_witness:
  "\<exists>s'. queues_empty s' \<and> length (trail (pl_db s')) = 1
     \<and> mset (trail (pl_db s')) = mset (map row_entry (outbox (pl_db fx_written)))"
proof -
  have 1: "0 < rl_batchSize fx_relay" by (simp add: fx_relay_def)
  have 2: "idle (pl_relay fx_written)" by (simp add: idle_def fx_written_def fx_start_def set_world_def)
  have 3: "\<not> buried_by audit_consumer fx_written" by code_simp
  have 4: "\<forall>r\<in>set (outbox (pl_db fx_written)). ob_status r \<noteq> Outbox_FAILED" by code_simp
  have 5: "length (outbox (pl_db fx_written)) = 1" by code_simp
  from every_change_audited [OF fx_steps(1) fx_launched fx_settings 1 2 3 4] obtain s' where
    "queues_empty s'" "mset (trail (pl_db s')) = mset (map row_entry (outbox (pl_db fx_written)))" by blast
  with 5 show ?thesis by (metis length_map size_mset)
qed

end
