(* ===== verification/PageOrder.thy ===== *)
theory PageOrder
  imports Tickets "HOL-Library.List_Lexorder" "HOL-Library.Char_ord"
begin

text \<open>
  What \<open>ORDER BY\<close> gives the list endpoints: \<open>toPrismaOrderBy\<close> asks for one column, and
  PostgreSQL returns the rows in that column's order and rows with equal keys in any order, which
  may be another one in the next query. Enums are ordered as the schema declares them, text by
  the collation of the database (\<open>collate\<close>, a parameter: the sort key of a string), times by
  the clock. This theory determines when the pages a client walks are exact.
\<close>

section \<open>The order of the enums\<close>

fun status_rank :: "ticket_status \<Rightarrow> nat" where
  "status_rank OPEN = 0"
| "status_rank IN_PROGRESS = 1"
| "status_rank PENDING = 2"
| "status_rank RESOLVED = 3"
| "status_rank CLOSED = 4"

fun priority_rank :: "ticket_priority \<Rightarrow> nat" where
  "priority_rank LOW = 0"
| "priority_rank MEDIUM = 1"
| "priority_rank HIGH = 2"
| "priority_rank URGENT = 3"

lemma status_rank_inj: "status_rank x = status_rank y \<Longrightarrow> x = y"
  by (cases x; cases y) simp_all

lemma priority_rank_inj: "priority_rank x = priority_rank y \<Longrightarrow> x = y"
  by (cases x; cases y) simp_all

instantiation ticket_status :: linorder
begin

definition less_eq_ticket_status :: "ticket_status \<Rightarrow> ticket_status \<Rightarrow> bool" where
  "less_eq_ticket_status x y \<longleftrightarrow> status_rank x \<le> status_rank y"

definition less_ticket_status :: "ticket_status \<Rightarrow> ticket_status \<Rightarrow> bool" where
  "less_ticket_status x y \<longleftrightarrow> status_rank x < status_rank y"

instance
  by standard (auto simp: less_eq_ticket_status_def less_ticket_status_def intro: status_rank_inj)

end

instantiation ticket_priority :: linorder
begin

definition less_eq_ticket_priority :: "ticket_priority \<Rightarrow> ticket_priority \<Rightarrow> bool" where
  "less_eq_ticket_priority x y \<longleftrightarrow> priority_rank x \<le> priority_rank y"

definition less_ticket_priority :: "ticket_priority \<Rightarrow> ticket_priority \<Rightarrow> bool" where
  "less_ticket_priority x y \<longleftrightarrow> priority_rank x < priority_rank y"

instance
  by standard
    (auto simp: less_eq_ticket_priority_def less_ticket_priority_def intro: priority_rank_inj)

end

section \<open>Sort keys\<close>

text \<open>A column's value as the database compares it.\<close>

datatype 'k sort_key =
    Text_key 'k
  | Time_key time
  | Status_key ticket_status
  | Priority_key ticket_priority

fun key_rank :: "'k sort_key \<Rightarrow> nat" where
  "key_rank (Text_key _) = 0"
| "key_rank (Time_key _) = 1"
| "key_rank (Status_key _) = 2"
| "key_rank (Priority_key _) = 3"

fun key_le :: "('k :: linorder) sort_key \<Rightarrow> 'k sort_key \<Rightarrow> bool" where
  "key_le (Text_key a) (Text_key b) = (a \<le> b)"
| "key_le (Time_key a) (Time_key b) = (a \<le> b)"
| "key_le (Status_key a) (Status_key b) = (a \<le> b)"
| "key_le (Priority_key a) (Priority_key b) = (a \<le> b)"
| "key_le a b = (key_rank a < key_rank b)"

instantiation sort_key :: (linorder) linorder
begin

definition less_eq_sort_key :: "'a sort_key \<Rightarrow> 'a sort_key \<Rightarrow> bool" where
  "less_eq_sort_key x y \<longleftrightarrow> key_le x y"

definition less_sort_key :: "'a sort_key \<Rightarrow> 'a sort_key \<Rightarrow> bool" where
  "less_sort_key x y \<longleftrightarrow> key_le x y \<and> \<not> key_le y x"

instance
proof
  fix x y z :: "'a sort_key"
  show "(x < y) = (x \<le> y \<and> \<not> y \<le> x)" by (simp add: less_eq_sort_key_def less_sort_key_def)
  show "x \<le> x" by (cases x) (simp_all add: less_eq_sort_key_def)
  show "x \<le> y \<Longrightarrow> y \<le> z \<Longrightarrow> x \<le> z"
    by (cases x; cases y; cases z) (simp_all add: less_eq_sort_key_def)
  show "x \<le> y \<Longrightarrow> y \<le> x \<Longrightarrow> x = y"
    by (cases x; cases y) (simp_all add: less_eq_sort_key_def)
  show "x \<le> y \<or> y \<le> x"
    by (cases x; cases y) (auto simp: less_eq_sort_key_def)
qed

end

fun ticket_sort_key :: "(string \<Rightarrow> 'k) \<Rightarrow> string \<Rightarrow> ticket \<Rightarrow> 'k sort_key" where
  "ticket_sort_key collate f t =
     (if f = ''updatedAt'' then Time_key (tk_updatedAt t)
      else if f = ''priority'' then Priority_key (tk_priority t)
      else if f = ''status'' then Status_key (tk_status t)
      else if f = ''reference'' then Text_key (collate (tk_reference t))
      else Time_key (tk_createdAt t))"

section \<open>What ORDER BY promises\<close>

text \<open>The order of a direction: \<open>before d a b\<close> when a row with key \<open>a\<close> may precede one with \<open>b\<close>.\<close>

fun before :: "sort_direction \<Rightarrow> ('k :: linorder) \<Rightarrow> 'k \<Rightarrow> bool" where
  "before Asc a b = (a \<le> b)"
| "before Desc a b = (b \<le> a)"

definition answers_order ::
  "(string \<Rightarrow> 'a \<Rightarrow> 'k :: linorder) \<Rightarrow> (order_by \<Rightarrow> 'a list \<Rightarrow> 'a list) \<Rightarrow> bool"
where
  "answers_order key ord \<longleftrightarrow>
     (\<forall>f d rows. mset (ord (f, d) rows) = mset rows
        \<and> sorted_wrt (before d) (map (key f) (ord (f, d) rows)))"

lemma before_total: "before d a b \<or> before d b a" by (cases d) auto
lemma before_antisym: "before d a b \<Longrightarrow> before d b a \<Longrightarrow> a = b" by (cases d) auto
lemma before_trans: "before d a b \<Longrightarrow> before d b c \<Longrightarrow> before d a c" by (cases d) auto
lemma before_refl [simp]: "before d a a" by (cases d) auto

text \<open>The keys of an answer do not depend on how the ties fall.\<close>

lemma sorted_before_unique:
  assumes "mset ks = mset ks'" "sorted_wrt (before d) ks" "sorted_wrt (before d) ks'"
  shows "ks = ks'"
  using assms
proof (induction ks arbitrary: ks')
  case (Cons k ks)
  from Cons.prems(1) obtain j js where ks': "ks' = j # js" by (cases ks') auto
  have "j \<in> set (k # ks)" "k \<in> set (j # js)"
    using mset_eq_setD [OF Cons.prems(1)] ks' by auto
  then have "before d k j" "before d j k" using Cons.prems(2,3) ks' by auto
  then have "k = j" by (rule before_antisym)
  with Cons ks' show ?case by auto
qed simp

definition ordered_keys :: "(string \<Rightarrow> 'a \<Rightarrow> 'k :: linorder) \<Rightarrow> order_by \<Rightarrow> 'a list \<Rightarrow> 'k list" where
  "ordered_keys key oby rows =
     (case snd oby of
        Asc \<Rightarrow> sort (map (key (fst oby)) rows)
      | Desc \<Rightarrow> rev (sort (map (key (fst oby)) rows)))"

lemma sorted_ordered_keys: "sorted_wrt (before d) (ordered_keys key (f, d) rows)"
proof (cases d)
  case Asc
  have "before Asc = ((\<le>) :: 'a :: linorder \<Rightarrow> 'a \<Rightarrow> bool)" by (intro ext) simp
  with Asc show ?thesis by (simp add: ordered_keys_def)
next
  case Desc
  have "(\<lambda>x y. before Desc y x) = ((\<le>) :: 'a :: linorder \<Rightarrow> 'a \<Rightarrow> bool)" by (intro ext) simp
  with Desc show ?thesis by (simp add: ordered_keys_def sorted_wrt_rev)
qed

lemma mset_ordered_keys: "mset (ordered_keys key (f, d) rows) = mset (map (key f) rows)"
  by (cases d) (simp_all add: ordered_keys_def)

lemma answers_order_keys:
  assumes "answers_order key ord"
  shows "map (key f) (ord (f, d) rows) = ordered_keys key (f, d) rows"
proof (rule sorted_before_unique [where d = d])
  show "mset (map (key f) (ord (f, d) rows)) = mset (ordered_keys key (f, d) rows)"
    using assms by (simp add: answers_order_def mset_ordered_keys)
qed (use assms in \<open>simp_all add: answers_order_def sorted_ordered_keys\<close>)

lemma answers_order_permutes: "answers_order key ord \<Longrightarrow> permutes_rows ord"
  by (auto simp: answers_order_def permutes_rows_def)

section \<open>When no tie crosses a page break\<close>

text \<open>\<open>clean_breaks l ks\<close>: no two rows on the two sides of a page break have the same key.\<close>

definition clean_breaks :: "nat \<Rightarrow> 'k list \<Rightarrow> bool" where
  "clean_breaks l ks \<longleftrightarrow> list_all (\<lambda>i. l dvd i \<longrightarrow> ks ! (i - 1) \<noteq> ks ! i) [1..<length ks]"

lemma clean_breaks_iff:
  "clean_breaks l ks \<longleftrightarrow> (\<forall>i. 0 < i \<and> i < length ks \<and> l dvd i \<longrightarrow> ks ! (i - 1) \<noteq> ks ! i)"
  by (auto simp: clean_breaks_def list_all_iff)

lemma distinct_clean_breaks: "distinct ks \<Longrightarrow> clean_breaks l ks"
  by (auto simp: clean_breaks_iff nth_eq_iff_index_eq)

lemma take_before_break:
  assumes s: "sorted_wrt (before d) (map k xs)" and i: "0 < i" "i < length xs"
    and ne: "k (xs ! (i - 1)) \<noteq> k (xs ! i)"
  shows "take i xs = filter (\<lambda>x. \<not> before d (k (xs ! i)) (k x)) xs"
proof -
  let ?K = "k (xs ! i)" and ?p = "k (xs ! (i - 1))"
  have le: "before d (k (xs ! a)) (k (xs ! b))" if "a \<le> b" "b < length xs" for a b
    using s that by (cases "a = b") (simp_all add: sorted_wrt_iff_nth_less)
  have "\<not> before d ?K (k (xs ! a))" if "a < i" for a
  proof
    assume "before d ?K (k (xs ! a))"
    moreover have "before d (k (xs ! a)) ?p" using that i by (intro le) auto
    ultimately have "before d ?K ?p" by (rule before_trans)
    moreover have "before d ?p ?K" using i by (intro le) auto
    ultimately show False using ne by (blast dest: before_antisym)
  qed
  then have l: "\<forall>x\<in>set (take i xs). \<not> before d ?K (k x)"
    by (auto simp: in_set_conv_nth)
  have "before d ?K (k (xs ! (i + a)))" if "i + a < length xs" for a
    using that by (intro le) auto
  then have r: "\<forall>x\<in>set (drop i xs). before d ?K (k x)"
    by (auto simp: in_set_conv_nth)
  have "filter (\<lambda>x. \<not> before d ?K (k x)) (take i xs @ drop i xs) = take i xs"
    using l r unfolding filter_append by (simp add: filter_id_conv filter_empty_conv)
  then show ?thesis by simp
qed

lemma same_rows_before_break:
  assumes "answers_order key ord" "answers_order key ord'"
    and "clean_breaks l (ordered_keys key (f, d) rows)"
  shows "mset (take (n * l) (ord (f, d) rows)) = mset (take (n * l) (ord' (f, d) rows))"
proof -
  let ?i = "n * l" and ?xs = "ord (f, d) rows" and ?ys = "ord' (f, d) rows"
  have keys: "map (key f) ?xs = ordered_keys key (f, d) rows"
    "map (key f) ?ys = ordered_keys key (f, d) rows"
    by (rule answers_order_keys [OF assms(1)], rule answers_order_keys [OF assms(2)])
  have len: "length ?ys = length ?xs" by (metis keys length_map)
  have ms: "mset ?xs = mset rows" "mset ?ys = mset rows"
    and s: "sorted_wrt (before d) (map (key f) ?xs)" "sorted_wrt (before d) (map (key f) ?ys)"
    using assms(1,2) by (simp_all add: answers_order_def)
  show ?thesis
  proof (cases "0 < ?i \<and> ?i < length ?xs")
    case True
    have "l dvd ?i" by simp
    then have ne: "map (key f) ?xs ! (?i - 1) \<noteq> map (key f) ?xs ! ?i"
      using assms(3) True unfolding clean_breaks_iff keys [symmetric] by auto
    have nth: "key f (?xs ! j) = key f (?ys ! j)" if "j < length ?xs" for j
      using that by (metis keys len nth_map)
    have "take ?i ?xs = filter (\<lambda>x. \<not> before d (key f (?xs ! ?i)) (key f x)) ?xs"
      using s(1) True ne by (intro take_before_break) auto
    moreover have "take ?i ?ys = filter (\<lambda>x. \<not> before d (key f (?ys ! ?i)) (key f x)) ?ys"
      using s(2) True ne nth by (intro take_before_break) (auto simp: len)
    ultimately show ?thesis using True ms by (simp add: nth mset_filter)
  next
    case False
    with ms len show ?thesis by auto
  qed
qed

lemma chunks_mset:
  assumes "\<And>k. mset (take (k * l) (xs k)) = mset (take (k * l) (xs 0))"
    and "\<And>k. mset (take (Suc k * l) (xs k)) = mset (take (Suc k * l) (xs 0))"
  shows "mset (concat (map (\<lambda>k. take l (drop (k * l) (xs k))) [0..<n])) = mset (take (n * l) (xs 0))"
proof (induction n)
  case (Suc n)
  have "take (Suc n * l) (xs n) = take (n * l) (xs n) @ take l (drop (n * l) (xs n))"
    by (simp add: take_add [symmetric] add.commute)
  with assms(2) [of n] assms(1) [of n]
  have "mset (take (n * l) (xs 0)) + mset (take l (drop (n * l) (xs n)))
    = mset (take (Suc n * l) (xs 0))"
    by (metis mset_append)
  with Suc show ?case by simp
qed simp

text \<open>
  A client walking a list: page \<open>k\<close> is answered with the order \<open>ords k\<close>, each of them one
  the database may choose.
\<close>

definition walk_pages ::
  "(nat \<Rightarrow> order_by \<Rightarrow> 'a list \<Rightarrow> 'a list) \<Rightarrow> ('a \<Rightarrow> bool) \<Rightarrow> order_by \<Rightarrow> page_query \<Rightarrow> 'a list \<Rightarrow> 'a list"
where
  "walk_pages ords P oby q rows =
     concat (map (\<lambda>k. items (list_page (ords k) P oby (nth_page q k) rows))
       [0..<nat (m_totalPages (meta (list_page (ords 0) P oby q rows)))])"

lemma walk_pages_chunks:
  assumes "1 \<le> query_limit q"
  shows "walk_pages ords P oby q rows
    = concat (map (\<lambda>k. take (nat (query_limit q)) (drop (k * nat (query_limit q))
          (ords k oby (filter P rows))))
        [0..<nat (m_totalPages (meta (list_page (ords 0) P oby q rows)))])"
  by (simp add: walk_pages_def items_nth_page assms)

lemma walk_exact:
  assumes q: "1 \<le> query_limit q" and o: "\<And>k. answers_order key (ords k)"
    and c: "clean_breaks (nat (query_limit q)) (ordered_keys key (f, d) (filter P rows))"
  shows "mset (walk_pages ords P (f, d) q rows) = mset (filter P rows)"
proof -
  let ?l = "nat (query_limit q)" and ?xs = "\<lambda>k. ords k (f, d) (filter P rows)"
  let ?n = "nat (m_totalPages (meta (list_page (ords 0) P (f, d) q rows)))"
  have "mset (walk_pages ords P (f, d) q rows) = mset (take (?n * ?l) (?xs 0))"
    unfolding walk_pages_chunks [OF q]
    by (rule chunks_mset) (rule same_rows_before_break [OF o o c])+
  also have "take (?n * ?l) (?xs 0) = ?xs 0"
    using total_pages_cover [OF q, of P rows "ords 0" "(f, d)"]
    by (simp add: permutes_rows_length [OF answers_order_permutes [OF o]])
  finally show ?thesis using o [of 0] by (simp add: answers_order_def)
qed

text \<open>The rows of two pages overlap when the two rows at the break are exchanged between the queries.\<close>

definition sort_rows :: "(string \<Rightarrow> 'a \<Rightarrow> 'k :: linorder) \<Rightarrow> order_by \<Rightarrow> 'a list \<Rightarrow> 'a list" where
  "sort_rows key oby rows =
     (case snd oby of
        Asc \<Rightarrow> sort_key (key (fst oby)) rows
      | Desc \<Rightarrow> rev (sort_key (key (fst oby)) rows))"

definition swap_at :: "nat \<Rightarrow> 'a list \<Rightarrow> 'a list" where
  "swap_at i xs = xs[i - 1 := xs ! i, i := xs ! (i - 1)]"

text \<open>A database that exchanges the tied rows around position \<open>i\<close> of one particular answer.\<close>

definition swapping_order ::
  "(string \<Rightarrow> 'a \<Rightarrow> 'k :: linorder) \<Rightarrow> nat \<Rightarrow> order_by \<Rightarrow> 'a list \<Rightarrow> 'a list"
where
  "swapping_order key i oby rows =
     (let xs = sort_rows key oby rows
      in if 0 < i \<and> i < length xs \<and> key (fst oby) (xs ! (i - 1)) = key (fst oby) (xs ! i)
         then swap_at i xs else xs)"

lemma map_sort_key: "map k (sort_key k xs) = sort (map k xs)"
  by (rule properties_for_sort [symmetric]) simp_all

lemma sort_rows_answers: "answers_order key (sort_rows key)"
  unfolding answers_order_def
proof (intro allI conjI)
  fix f d rows
  show "mset (sort_rows key (f, d) rows) = mset rows" by (cases d) (simp_all add: sort_rows_def)
  have eq: "map (key f) (sort_rows key (f, d) rows) = ordered_keys key (f, d) rows"
    by (cases d) (simp_all add: sort_rows_def ordered_keys_def rev_map [symmetric] map_sort_key)
  show "sorted_wrt (before d) (map (key f) (sort_rows key (f, d) rows))"
    unfolding eq by (rule sorted_ordered_keys)
qed

lemma swap_at_mset: "0 < i \<Longrightarrow> i < length xs \<Longrightarrow> mset (swap_at i xs) = mset xs"
  unfolding swap_at_def by (rule mset_swap) simp_all

lemma swap_at_keys:
  assumes "0 < i" "i < length xs" "k (xs ! (i - 1)) = k (xs ! i)"
  shows "map k (swap_at i xs) = map k xs"
  using assms by (auto simp: swap_at_def map_update nth_list_update intro!: nth_equalityI)

lemma swapping_order_answers: "answers_order key (swapping_order key i)"
proof -
  have "mset (swapping_order key i (f, d) rows) = mset (sort_rows key (f, d) rows)
      \<and> map (key f) (swapping_order key i (f, d) rows) = map (key f) (sort_rows key (f, d) rows)"
    for f d rows
    by (simp add: swapping_order_def Let_def swap_at_mset swap_at_keys)
  with sort_rows_answers [of key] show ?thesis by (simp add: answers_order_def)
qed

lemma distinct_concat_disjoint:
  assumes "distinct (concat (map g [0..<n]))" and "a < b" "b < n"
  shows "set (g a) \<inter> set (g b) = {}"
  using assms
proof (induction n)
  case (Suc n)
  show ?case
  proof (cases "b = n")
    case True
    have "distinct (concat (map g [0..<n]) @ g n)" using Suc.prems(1) by simp
    moreover have "set (g a) \<subseteq> set (concat (map g [0..<n]))" using Suc.prems(2) True by auto
    ultimately show ?thesis unfolding True distinct_append by blast
  qed (use Suc in auto)
qed simp

lemma mult_less_mono_cancel: "0 < (l :: nat) \<Longrightarrow> a * l < b * l \<Longrightarrow> a < b"
  by simp

lemma walk_overlaps:
  assumes q: "1 \<le> query_limit q" and dist: "distinct (filter P rows)"
    and tie: "\<not> clean_breaks (nat (query_limit q)) (ordered_keys key (f, d) (filter P rows))"
  shows "\<exists>ords. (\<forall>k. answers_order key (ords k)) \<and> \<not> distinct (walk_pages ords P (f, d) q rows)"
proof -
  let ?l = "nat (query_limit q)" and ?xs = "sort_rows key (f, d) (filter P rows)"
  have keys: "ordered_keys key (f, d) (filter P rows) = map (key f) ?xs"
    by (rule answers_order_keys [OF sort_rows_answers, symmetric])
  from tie obtain i where i: "0 < i" "i < length ?xs" "?l dvd i"
      "key f (?xs ! (i - 1)) = key f (?xs ! i)"
    by (auto simp: clean_breaks_iff keys)
  from i(1,3) obtain b where b: "i = Suc b * ?l" by (metis dvd_def gr0_conv_Suc mult.commute mult_is_0 not_gr0)
  define ords where "ords k = (if k \<le> b then sort_rows key else swapping_order key i)" for k
  let ?g = "\<lambda>k. take ?l (drop (k * ?l) (ords k (f, d) (filter P rows)))"
  let ?n = "nat (m_totalPages (meta (list_page (ords 0) P (f, d) q rows)))"
  have l: "0 < ?l" using q by simp
  have len: "length ?xs = length (filter P rows)"
    by (metis size_mset sort_rows_answers answers_order_def)
  have "Suc b * ?l < ?n * ?l"
    using total_pages_cover [OF q, of P rows "ords 0" "(f, d)"] i(2) len b by linarith
  then have n: "Suc b < ?n" by (rule mult_less_mono_cancel [OF l])
  have "?g b ! (?l - 1) = ?xs ! (i - 1)" "?l - 1 < length (?g b)"
    using i(1,2) l b by (auto simp: ords_def nth_append algebra_simps)
  then have one: "?xs ! (i - 1) \<in> set (?g b)" by (metis nth_mem)
  have "?g (Suc b) = take ?l (drop i (swap_at i ?xs))"
    using i by (simp add: ords_def swapping_order_def b [symmetric] del: mult_Suc)
  moreover have "take ?l (drop i (swap_at i ?xs)) ! 0 = ?xs ! (i - 1)"
      "0 < length (take ?l (drop i (swap_at i ?xs)))"
    using i(1,2) l by (simp_all add: swap_at_def)
  ultimately have two: "?xs ! (i - 1) \<in> set (?g (Suc b))" by (metis nth_mem)
  have "\<not> distinct (walk_pages ords P (f, d) q rows)"
    unfolding walk_pages_chunks [OF q]
    using distinct_concat_disjoint [of ?g ?n b "Suc b"] n one two by blast
  moreover have "\<forall>k. answers_order key (ords k)"
    by (simp add: ords_def sort_rows_answers swapping_order_answers)
  ultimately show ?thesis by blast
qed

lemma walk_exact_iff:
  assumes "1 \<le> query_limit q" and "distinct (filter P rows)"
  shows "(\<forall>ords. (\<forall>k. answers_order key (ords k))
            \<longrightarrow> mset (walk_pages ords P (f, d) q rows) = mset (filter P rows))
    \<longleftrightarrow> clean_breaks (nat (query_limit q)) (ordered_keys key (f, d) (filter P rows))"
proof (intro iffI allI impI)
  assume exact: "\<forall>ords. (\<forall>k. answers_order key (ords k))
      \<longrightarrow> mset (walk_pages ords P (f, d) q rows) = mset (filter P rows)"
  show "clean_breaks (nat (query_limit q)) (ordered_keys key (f, d) (filter P rows))"
  proof (rule ccontr)
    assume "\<not> clean_breaks (nat (query_limit q)) (ordered_keys key (f, d) (filter P rows))"
    then obtain ords where o: "\<forall>k. answers_order key (ords k)"
        and n: "\<not> distinct (walk_pages ords P (f, d) q rows)"
      using walk_overlaps [OF assms] by blast
    from exact o have "mset (walk_pages ords P (f, d) q rows) = mset (filter P rows)" by blast
    from mset_eq_imp_distinct_iff [OF this] assms(2) n show False by simp
  qed
qed (rule walk_exact [OF assms(1)], auto)

section \<open>The ticket list\<close>

text \<open>A client pages through the ticket list; \<open>ords k\<close> is how page \<open>k\<close> is ordered.\<close>

definition walk_tickets ::
  "(nat \<Rightarrow> order_by \<Rightarrow> ticket list \<Rightarrow> ticket list) \<Rightarrow> (string \<Rightarrow> string \<Rightarrow> bool)
    \<Rightarrow> authenticated_user \<Rightarrow> ticket_query \<Rightarrow> world \<Rightarrow> ticket list"
where
  "walk_tickets ords ilike actor q w =
     (let page = (\<lambda>k. fst (find_tickets (ords k) ilike actor
                        (q\<lparr>tq_page := nth_page (tq_page q) k\<rparr>) w))
      in case page 0 of
           Inl _ \<Rightarrow> []
         | Inr first \<Rightarrow> concat (map (\<lambda>k. case page k of Inl _ \<Rightarrow> [] | Inr p \<Rightarrow> items p)
             [0..<nat (m_totalPages (meta first))]))"

definition visible_tickets ::
  "(string \<Rightarrow> string \<Rightarrow> bool) \<Rightarrow> authenticated_user \<Rightarrow> ticket_query \<Rightarrow> world \<Rightarrow> ticket list"
where
  "visible_tickets ilike actor q w = filter (ticket_where ilike actor q) (tickets (w_db w))"

definition ticket_order :: "ticket_query \<Rightarrow> order_by" where
  "ticket_order q = toPrismaOrderBy (q_sort (tq_page q)) TICKET_SORTABLE default_order"

lemma ticket_where_page:
  "ticket_where ilike actor (q\<lparr>tq_page := nth_page (tq_page q) k\<rparr>) = ticket_where ilike actor q"
  by (rule ext) (simp add: ticket_where_def nth_page_def)

lemma list_page_pages:
  "m_totalPages (meta (list_page ord P oby (nth_page q k) rows))
    = m_totalPages (meta (list_page ord P oby q rows))"
  by (simp add: list_page_def buildPaginatedResult_def nth_page_def query_limit_def Let_def)

lemma walk_tickets_pages:
  "walk_tickets ords ilike actor q w
    = walk_pages ords (ticket_where ilike actor q) (ticket_order q) (tq_page q) (tickets (w_db w))"
  by (simp add: walk_tickets_def walk_pages_def find_tickets_def run_basic ticket_where_page
      ticket_order_def list_page_pages Let_def) (simp add: nth_page_def)

lemma sorted_by_reference:
  assumes "inj collate" and "distinct (map tk_reference rows)"
  shows "clean_breaks l (ordered_keys (ticket_sort_key collate) (''reference'', d) rows)"
proof -
  have key: "map (ticket_sort_key collate ''reference'') rows
      = map (Text_key \<circ> collate) (map tk_reference rows)" by simp
  have "inj (Text_key \<circ> collate)" using assms(1) by (simp add: inj_def)
  then have "distinct (map (Text_key \<circ> collate) (map tk_reference rows))"
    using assms(2) by (subst distinct_map) (blast intro: inj_on_subset)
  then have "distinct (ordered_keys (ticket_sort_key collate) (''reference'', d) rows)"
    using mset_eq_imp_distinct_iff [OF mset_ordered_keys] key by metis
  then show ?thesis by (rule distinct_clean_breaks)
qed

text \<open>
  C15. Walking the pages of the ticket list returns every ticket the caller may see exactly once,
  however PostgreSQL orders rows that compare equal in each of the queries, if and only if no two
  tickets with the same key of the one sorted column stand on the two sides of a page break. So
  the list is exact when it is sorted by the unique reference; sorted by status, priority or a
  time it can repeat some tickets and leave out others as soon as a tie crosses a break, because
  the \<open>orderBy\<close> the code builds names one column and no unique tie-breaker.
\<close>

theorem ticket_pages_exact:
  assumes "valid_page_query (tq_page q)" and "distinct (map tk_reference (tickets (w_db w)))"
    and "inj collate"
  shows "((\<forall>ords. (\<forall>k. answers_order (ticket_sort_key collate) (ords k))
             \<longrightarrow> mset (walk_tickets ords ilike actor q w) = mset (visible_tickets ilike actor q w))
           \<longleftrightarrow> clean_breaks (nat (query_limit (tq_page q)))
                 (ordered_keys (ticket_sort_key collate) (ticket_order q) (visible_tickets ilike actor q w)))
         \<and> (fst (ticket_order q) = ''reference''
           \<longrightarrow> clean_breaks (nat (query_limit (tq_page q)))
                 (ordered_keys (ticket_sort_key collate) (ticket_order q) (visible_tickets ilike actor q w)))"
proof -
  obtain f d where oby: "ticket_order q = (f, d)" by (cases "ticket_order q")
  have l: "1 \<le> query_limit (tq_page q)" using assms(1) by (simp add: valid_page_query_def)
  have refs: "distinct (map tk_reference (visible_tickets ilike actor q w))"
    using assms(2) by (simp add: visible_tickets_def distinct_map_filter)
  then have "distinct (visible_tickets ilike actor q w)" by (simp add: distinct_map)
  then show ?thesis
    unfolding walk_tickets_pages oby
    using \<open>distinct (visible_tickets ilike actor q w)\<close> walk_exact_iff [OF l, of "ticket_where ilike actor q" "tickets (w_db w)"
        "ticket_sort_key collate" f d] sorted_by_reference [OF assms(3) refs]
    by (simp add: visible_tickets_def)
qed

text \<open>
  Two tickets opened in the same millisecond, pages of one: with the default order the second page
  may show the first ticket again, and the other one is never shown.
\<close>

theorem ticket_pages_exact_witness:
  "\<exists>ords. (\<forall>k. answers_order (ticket_sort_key (\<lambda>s. s)) (ords k))
     \<and> mset (walk_tickets ords (\<lambda>_ _. True) alex
         \<lparr>tq_page = \<lparr>q_page = None, q_limit = Some 1, q_sort = None, q_search = None\<rparr>,
          tq_status = None, tq_priority = None, tq_assignedToId = None\<rparr> (fx_world fx_db))
       \<noteq> mset (tickets fx_db)"
proof -
  let ?q = "\<lparr>tq_page = \<lparr>q_page = None, q_limit = Some 1, q_sort = None, q_search = None\<rparr>,
     tq_status = None, tq_priority = None, tq_assignedToId = None\<rparr>"
  have v: "valid_page_query (tq_page ?q)"
    by (simp add: valid_page_query_def query_page_def query_limit_def)
  have r: "distinct (map tk_reference (tickets (w_db (fx_world fx_db))))" by code_simp
  have rows: "visible_tickets (\<lambda>_ _. True) alex ?q (fx_world fx_db) = tickets fx_db" by code_simp
  have "\<not> clean_breaks (nat (query_limit (tq_page ?q)))
      (ordered_keys (ticket_sort_key (\<lambda>s. s)) (ticket_order ?q) (tickets fx_db))"
    by code_simp
  with ticket_pages_exact [OF v r, where collate = "\<lambda>s. s" and actor = alex
      and ilike = "\<lambda>_ _. True"]
  show ?thesis by (simp add: rows)
qed

end
