(* ===== verification/Numbering.thy ===== *)
theory Numbering
  imports Tickets Organizations Http
begin

text \<open>
  The numbering of the tickets over the life of the platform: \<open>nextReference\<close> counts the tickets
  of all organizations, and \<open>OrganizationsService.remove\<close> takes the tickets of one away (the
  cascade of the schema). After that the next number may be taken.
\<close>

text \<open>The next number is in use.\<close>

definition number_taken :: "db \<Rightarrow> bool" where
  "number_taken d \<longleftrightarrow> reference_of (length (tickets d) + 1) \<in> tk_reference ` set (tickets d)"

lemma taken_no_creation: "number_taken (w_db w) \<Longrightarrow> create_ticket actor dto c w \<noteq> (Inr t, w')"
proof
  assume taken: "number_taken (w_db w)" and "create_ticket actor dto c w = (Inr t, w')"
  from create_ticket_okD [OF this(2)]
  have "\<forall>r\<in>set (tickets (w_db w)). tk_reference r \<noteq> reference_of (length (tickets (w_db w)) + 1)"
    by (auto simp: new_ticket_def create_data_def)
  with taken show False unfolding number_taken_def by (metis imageE)
qed

lemma taken_kept:
  assumes "identities d' = identities d"
  shows "number_taken d' = number_taken d"
proof -
  have refs: "map tk_reference (tickets d') = map tk_reference (tickets d)"
    by (rule distinct_identities(2) [OF assms])
  then have "length (tickets d') = length (tickets d)" by (rule map_eq_imp_length_eq)
  moreover have "tk_reference ` set (tickets d') = tk_reference ` set (tickets d)"
    unfolding list.set_map [symmetric] refs ..
  ultimately show ?thesis by (simp only: number_taken_def)
qed

lemma taken_history:
  assumes "ticket_step\<^sup>*\<^sup>* w w'" and "tickets_ok (w_db w)" and "number_taken (w_db w)"
  shows "tickets_ok (w_db w') \<and> number_taken (w_db w') \<and> identities (w_db w') = identities (w_db w)"
  using assms(1)
proof (induction rule: rtranclp_induct)
  case base
  show ?case using assms(2,3) by simp
next
  case (step v w')
  then have "tickets_ok (w_db v)" "number_taken (w_db v)" by simp_all
  with ticket_step_adds [OF step.hyps(2)] taken_no_creation
  have "tickets_ok (w_db w')" "identities (w_db w') = identities (w_db v)" by blast+
  with step.IH taken_kept [of "w_db w'" "w_db v"] show ?case by simp
qed

section \<open>Removing an organization\<close>

lemma remove_organization_tickets:
  assumes "remove_organization blocked g w = (Inr (), w')"
  shows "w_db w' = cascade_organization g (w_db w)"
  using assms
  by (auto simp: remove_organization_def runs dest: find_organization_ok split: if_splits)

lemma cascade_references:
  "map tk_reference (tickets (cascade_organization g d))
    = map tk_reference (filter (\<lambda>t. tk_organizationId t \<noteq> g) (tickets d))"
  by (simp add: cascade_sel)

lemma cascade_tickets_ok:
  assumes "tickets_ok d"
  shows "tickets_ok (cascade_organization g d)"
proof -
  have "map tk_id (tickets (cascade_organization g d))
      = map tk_id (filter (\<lambda>t. tk_organizationId t \<noteq> g) (tickets d))"
    by (simp add: cascade_sel)
  with assms show ?thesis
    by (auto simp: tickets_ok_def cascade_references distinct_map_filter) (auto simp: cascade_sel)
qed

text \<open>
  With the references in sequence, a removal that takes \<open>m\<close> of \<open>n\<close> tickets leaves the number
  \<open>n - m + 1\<close> in use exactly if the ticket with that number is not one of those taken.
\<close>

lemma removal_takes_number:
  assumes seq: "refs_sequential d" and old: "i < length (tickets d)"
    and i: "i = length (filter (\<lambda>t. tk_organizationId t \<noteq> g) (tickets d))"
  shows "number_taken (cascade_organization g d) \<longleftrightarrow> tk_organizationId (tickets d ! i) \<noteq> g"
proof -
  let ?rest = "filter (\<lambda>t. tk_organizationId t \<noteq> g) (tickets d)"
  have ref: "tk_reference (tickets d ! j) = reference_of (Suc j)" if "j < length (tickets d)" for j
  proof -
    have "tk_reference (tickets d ! j) = map tk_reference (tickets d) ! j" using that by simp
    also have "\<dots> = reference_of (Suc j)"
      using seq that unfolding refs_sequential_def by (simp del: upt_Suc)
    finally show ?thesis .
  qed
  have "number_taken (cascade_organization g d)
      \<longleftrightarrow> reference_of (i + 1) \<in> set (map tk_reference ?rest)"
    unfolding number_taken_def list.set_map [symmetric] cascade_references
    by (simp add: i cascade_sel)
  also have "\<dots> \<longleftrightarrow> (\<exists>j<length (tickets d). tk_organizationId (tickets d ! j) \<noteq> g
      \<and> reference_of (i + 1) = reference_of (Suc j))"
    using ref by (auto simp: in_set_conv_nth image_iff)
  also have "\<dots> \<longleftrightarrow> tk_organizationId (tickets d ! i) \<noteq> g"
    using old by auto
  finally show ?thesis .
qed


text \<open>
  Organization globex had the first of two tickets and is removed: acme's customer can no longer
  create one.
\<close>

definition fx_mixed :: db where
  "fx_mixed = fx_db\<lparr>tickets := [fx_ticket ''t1'' ''TKT-000001'' ''globex'' ''gus'',
     fx_ticket ''t2'' ''TKT-000002'' ''acme'' ''ada'']\<rparr>"


end
