(* ===== verification/TicketRaces.thy ===== *)
theory TicketRaces
  imports Tickets
begin

text \<open>
  Concurrent requests on tickets. \<open>TicketsService\<close> reads before it writes: \<open>create\<close> counts,
  \<open>update\<close> and \<open>assign\<close> check the ticket (and the assignee) outside their transaction. Here each
  operation is its check and its commit, and other requests may come in between, so that a commit
  works with what its check saw.
\<close>

section \<open>Check and commit\<close>

definition update_check :: "authenticated_user \<Rightarrow> string \<Rightarrow> update_ticket_dto \<Rightarrow> ticket op" where
  "update_check actor i dto =
     andThen (find_ticket actor i) (\<lambda>existing.
     if customer_forbidden actor dto
     then throw (ForbiddenException ''Customers cannot change status or priority'')
     else ret existing)"

definition update_commit ::
  "authenticated_user \<Rightarrow> string \<Rightarrow> update_ticket_dto \<Rightarrow> string option \<Rightarrow> ticket \<Rightarrow> ticket op" where
  "update_commit actor i dto c existing = transaction (update_body actor i dto c (closing dto existing))"

definition assign_check :: "authenticated_user \<Rightarrow> string \<Rightarrow> assign_ticket_dto \<Rightarrow> unit op" where
  "assign_check actor i dto =
     andThen (find_ticket actor i) (\<lambda>_.
     andThen (read_db (\<lambda>d. List.find (assignable actor (at_assigneeId dto)) (users d))) (\<lambda>assignee.
     case assignee of
       None \<Rightarrow> throw (NotFoundException ''Assignee must be an active agent or admin'')
     | Some _ \<Rightarrow> ret ()))"

definition assign_commit ::
  "authenticated_user \<Rightarrow> string \<Rightarrow> assign_ticket_dto \<Rightarrow> string option \<Rightarrow> ticket op" where
  "assign_commit actor i dto c = transaction (assign_body actor i dto c)"

text \<open>One after the other they are the operations of \<open>Tickets\<close>.\<close>

lemma update_in_two:
  "update_ticket actor i dto c = andThen (update_check actor i dto) (update_commit actor i dto c)"
  by (rule ext) (auto simp: update_ticket_eq update_check_def update_commit_def andThen_def run_basic
      split: prod.splits sum.splits)

lemma assign_in_two:
  "assign_ticket actor i dto c = andThen (assign_check actor i dto) (\<lambda>_. assign_commit actor i dto c)"
  by (rule ext) (auto simp: assign_ticket_eq assign_check_def assign_commit_def andThen_def run_basic
      split: prod.splits sum.splits option.splits)

text \<open>A request between its check and its commit, with what the check saw.\<close>

datatype pending =
    Creating authenticated_user create_ticket_dto "string option" nat
  | Updating authenticated_user string update_ticket_dto "string option" ticket
  | Assigning authenticated_user string assign_ticket_dto "string option"

fun commit :: "pending \<Rightarrow> ticket op" where
  "commit (Creating actor dto c n) = create_after_count actor dto c n"
| "commit (Updating actor i dto c existing) = update_commit actor i dto c existing"
| "commit (Assigning actor i dto c) = assign_commit actor i dto c"

text \<open>Any number of requests, in any interleaving of their checks and commits.\<close>

inductive race_step :: "world \<times> pending list \<Rightarrow> world \<times> pending list \<Rightarrow> bool" where
  counts: "race_step (w, ps) (w, ps @ [Creating actor dto c (length (tickets (w_db w)))])"
| checks_update: "update_check actor i dto w = (Inr existing, w') \<Longrightarrow>
    race_step (w, ps) (w', ps @ [Updating actor i dto c existing])"
| checks_assign: "assign_check actor i dto w = (Inr (), w') \<Longrightarrow>
    race_step (w, ps) (w', ps @ [Assigning actor i dto c])"
| commits: "p \<in> set ps \<Longrightarrow> commit p w = (r, w') \<Longrightarrow> race_step (w, ps) (w', remove1 p ps)"
| time: "race_step (w, ps) (w\<lparr>w_now := t\<rparr>, ps)"

lemma update_check_ok:
  assumes "distinct (map tk_id (tickets (w_db w)))" and "update_check actor i dto w = (Inr old, w')"
  shows "w' = w \<and> find_ticket actor i w = (Inr old, w) \<and> \<not> customer_forbidden actor dto"
  using assms(2) find_ticket_keeps
  by (auto simp: update_check_def andThen_ok mrun split: if_splits)

lemma assign_check_ok:
  assumes "assign_check actor i dto w = (Inr (), w')"
  shows "w' = w \<and> (\<exists>old. find_ticket actor i w = (Inr old, w))"
  using assms find_ticket_keeps
  by (auto simp: assign_check_def andThen_ok mrun split: option.splits)

section \<open>What a commit may rely on\<close>

definition row_for :: "authenticated_user \<Rightarrow> string \<Rightarrow> ticket \<Rightarrow> bool" where
  "row_for actor i t \<longleftrightarrow> tk_id t = i \<and> can_access actor t"

fun pending_ok :: "db \<Rightarrow> pending \<Rightarrow> bool" where
  "pending_ok d (Creating actor dto c n) = True"
| "pending_ok d (Updating actor i dto c existing) =
     (\<not> customer_forbidden actor dto \<and> (\<exists>t\<in>set (tickets d). row_for actor i t
        \<and> (tk_status existing = CLOSED \<longrightarrow> tk_closedAt t \<noteq> None)))"
| "pending_ok d (Assigning actor i dto c) = (\<exists>t\<in>set (tickets d). row_for actor i t)"

text \<open>Every ticket lives on as itself, and a closing time once set stays set.\<close>

definition lives_on :: "db \<Rightarrow> db \<Rightarrow> bool" where
  "lives_on d d' \<longleftrightarrow> (\<forall>t\<in>set (tickets d). \<exists>t'\<in>set (tickets d').
     ticket_identity t' = ticket_identity t \<and> (tk_closedAt t \<noteq> None \<longrightarrow> tk_closedAt t' \<noteq> None))"

lemma row_for_identity:
  "ticket_identity t' = ticket_identity t \<Longrightarrow> row_for actor i t' = row_for actor i t"
  by (simp add: row_for_def can_access_def ticket_identity_def)

lemma lives_on_refl: "tickets d' = tickets d \<Longrightarrow> lives_on d d'"
  by (auto simp: lives_on_def)

lemma row_lives_on:
  assumes "lives_on d d'" and "t \<in> set (tickets d)" and "row_for actor i t"
  shows "\<exists>t'\<in>set (tickets d'). row_for actor i t' \<and> (tk_closedAt t \<noteq> None \<longrightarrow> tk_closedAt t' \<noteq> None)"
proof -
  obtain t' where t': "t' \<in> set (tickets d')" "ticket_identity t' = ticket_identity t"
      "tk_closedAt t \<noteq> None \<longrightarrow> tk_closedAt t' \<noteq> None"
    using assms(1,2) unfolding lives_on_def by blast
  with row_for_identity [OF t'(2)] assms(3) show ?thesis by blast
qed

lemma pending_ok_lives_on:
  assumes "lives_on d d'" and "pending_ok d p"
  shows "pending_ok d' p"
  using assms(2)
proof (cases p)
  case (Updating actor i dto c existing)
  with assms(2) obtain t where t: "t \<in> set (tickets d)" "row_for actor i t"
      "tk_status existing = CLOSED \<longrightarrow> tk_closedAt t \<noteq> None" "\<not> customer_forbidden actor dto"
    by auto
  from row_lives_on [OF assms(1) t(1,2)] t(3,4) show ?thesis unfolding Updating pending_ok.simps by blast
next
  case (Assigning actor i dto c)
  with assms(2) obtain t where t: "t \<in> set (tickets d)" "row_for actor i t" by auto
  from row_lives_on [OF assms(1) t] show ?thesis unfolding Assigning pending_ok.simps by blast
qed simp

text \<open>A commit that replaces a row by one with the same identity.\<close>

lemma replaces:
  assumes ok: "tickets_ok (w_db w)" and row: "find_by tk_id i (tickets (w_db w)) = Some cur"
    and same: "ticket_identity t = ticket_identity cur"
    and kept: "tk_closedAt cur \<noteq> None \<longrightarrow> tk_closedAt t \<noteq> None"
    and closed: "tk_status t = CLOSED \<longrightarrow> tk_closedAt t \<noteq> None"
    and d: "w_db w' = (ticket_set i t (w_db w))\<lparr>outbox := os\<rparr>"
  shows "tickets_ok (w_db w') \<and> identities (w_db w') = identities (w_db w)
    \<and> lives_on (w_db w) (w_db w')
    \<and> (\<forall>x\<in>set (tickets (w_db w)). x \<notin> set (tickets (w_db w')) \<longrightarrow> x = cur)"
proof -
  have dist: "distinct (map tk_id (tickets (w_db w)))" using ok by (simp add: tickets_ok_def)
  have cur: "cur \<in> set (tickets (w_db w))" "tk_id cur = i" using find_by_Some [OF row] by simp_all
  have only: "x = cur" if "x \<in> set (tickets (w_db w))" "tk_id x = i" for x
    using that cur dist by (auto simp: distinct_map inj_on_def)
  have ts: "set (tickets (w_db w')) = (\<lambda>x. if tk_id x = i then t else x) ` set (tickets (w_db w))"
    by (simp add: d ticket_set_def update_row_def)
  have "lives_on (w_db w) (w_db w')"
    unfolding lives_on_def ts
  proof
    fix x assume x: "x \<in> set (tickets (w_db w))"
    show "\<exists>t'\<in>(\<lambda>x. if tk_id x = i then t else x) ` set (tickets (w_db w)).
        ticket_identity t' = ticket_identity x \<and> (tk_closedAt x \<noteq> None \<longrightarrow> tk_closedAt t' \<noteq> None)"
    proof (rule bexI [OF _ imageI [OF x]])
      show "ticket_identity (if tk_id x = i then t else x) = ticket_identity x
          \<and> (tk_closedAt x \<noteq> None \<longrightarrow> tk_closedAt (if tk_id x = i then t else x) \<noteq> None)"
        using only [OF x] same kept by auto
    qed
  qed
  moreover have "x = cur" if "x \<in> set (tickets (w_db w))" "x \<notin> set (tickets (w_db w'))" for x
  proof (rule only [OF that(1)])
    show "tk_id x = i"
    proof (rule ccontr)
      assume ne: "tk_id x \<noteq> i"
      have "(if tk_id x = i then t else x) \<in> set (tickets (w_db w'))"
        unfolding ts using that(1) by (rule imageI)
      then have "x \<in> set (tickets (w_db w'))" by (simp only: ne if_False)
      with that(2) show False ..
    qed
  qed
  moreover have "tickets_ok (w_db w') \<and> identities (w_db w') = identities (w_db w)"
    by (rule ticket_set_step [OF ok row same _ d]) (use closed in blast)
  ultimately show ?thesis by blast
qed

definition committed :: "pending \<Rightarrow> db \<Rightarrow> db \<Rightarrow> bool" where
  "committed p d d' \<longleftrightarrow> tickets_ok d' \<and> (\<exists>new. identities d' = identities d @ new) \<and> lives_on d d'
     \<and> (\<forall>t\<in>set (tickets d). t \<notin> set (tickets d') \<longrightarrow>
          (case p of
             Creating actor dto c n \<Rightarrow> False
           | Updating actor i dto c existing \<Rightarrow> row_for actor i t
           | Assigning actor i dto c \<Rightarrow> row_for actor i t))"

lemma committed_nothing: "tickets_ok d \<Longrightarrow> d' = d \<Longrightarrow> committed p d d'"
  by (simp add: committed_def lives_on_refl)

lemma row_unique:
  assumes "distinct (map tk_id (tickets d))" and "t \<in> set (tickets d)" and "row_for actor i t"
  shows "find_by tk_id i (tickets d) = Some t"
  using find_by_mem [OF assms(1,2)] assms(3) by (simp add: row_for_def)

lemma commit_creating:
  assumes ok: "tickets_ok (w_db w)" and run: "create_after_count actor dto c n w = (r, w')"
  shows "committed (Creating actor dto c n) (w_db w) (w_db w')"
proof (cases r)
  case (Inl e)
  with run have "w_db w' = w_db w"
    unfolding create_after_count_def by (auto dest: transaction_rollback)
  with ok show ?thesis by (rule committed_nothing)
next
  case (Inr t)
  from run [unfolded Inr create_after_count_def] obtain v row where
    m: "prisma_ticket_create (create_data actor dto (n + 1)) w = (Inr t, v)"
    and w': "w_db w' = (w_db v)\<lparr>outbox := outbox (w_db v) @ [row]\<rparr>"
    by (auto dest: publisher.committed_put)
  note t = prisma_ticket_create_ok [OF m]
  then have ts: "tickets (w_db w') = tickets (w_db w) @ [t]" by (simp add: w')
  have "tk_status t = OPEN" using t by (simp add: new_ticket_def)
  with t ok have "tickets_ok (w_db w')" by (auto simp: tickets_ok_def ts ticket_exists_iff)
  then show ?thesis by (auto simp: committed_def ts identities_def lives_on_def)
qed

lemma committed_row:
  assumes "tickets_ok (w_db w)" and "t0 \<in> set (tickets (w_db w))" and "row_for actor i t0"
    and "ticket_identity t = ticket_identity t0"
    and "tk_closedAt t0 \<noteq> None \<longrightarrow> tk_closedAt t \<noteq> None"
    and "tk_status t = CLOSED \<longrightarrow> tk_closedAt t \<noteq> None"
    and "w_db w' = (ticket_set i t (w_db w))\<lparr>outbox := os\<rparr>"
    and "p = Updating actor i dto c existing \<or> p = Assigning actor i dto' c"
  shows "committed p (w_db w) (w_db w')"
proof -
  have "distinct (map tk_id (tickets (w_db w)))" using assms(1) by (simp add: tickets_ok_def)
  from replaces [OF assms(1) row_unique [OF this assms(2,3)] assms(4-7)] assms(3,8)
  show ?thesis by (auto simp: committed_def)
qed

lemma commit_updating:
  assumes ok: "tickets_ok (w_db w)" and p: "pending_ok (w_db w) (Updating actor i dto c existing)"
    and run: "update_commit actor i dto c existing w = (r, w')"
  shows "committed (Updating actor i dto c existing) (w_db w) (w_db w')"
proof (cases r)
  case (Inl e)
  with run have "w_db w' = w_db w"
    unfolding update_commit_def by (auto dest: transaction_rollback)
  with ok show ?thesis by (rule committed_nothing)
next
  case (Inr t)
  have dist: "distinct (map tk_id (tickets (w_db w)))" using ok by (simp add: tickets_ok_def)
  from p obtain cur where cur: "cur \<in> set (tickets (w_db w))" "row_for actor i cur"
    and stale: "tk_status existing = CLOSED \<longrightarrow> tk_closedAt cur \<noteq> None" by auto
  from run have "update_body actor i dto c (closing dto existing) w = (Inr t, w')"
    by (simp add: Inr update_commit_def transaction_ok)
  from update_body_okD [OF dist row_unique [OF dist cur] this] obtain rows where
    t: "t = apply_changes dto (closing dto existing) (w_now w) cur"
    and d: "w_db w' = (ticket_set i t (w_db w))\<lparr>outbox := outbox (w_db w) @ rows\<rparr>" by blast
  show ?thesis
  proof (rule committed_row [OF ok cur _ _ _ d])
    show "ticket_identity t = ticket_identity cur"
      by (simp add: t ticket_identity_def apply_changes_def)
    show kept: "tk_closedAt cur \<noteq> None \<longrightarrow> tk_closedAt t \<noteq> None"
      by (simp add: t apply_changes_def)
    have "tk_status cur = CLOSED \<longrightarrow> tk_closedAt cur \<noteq> None" using ok cur(1) by (simp add: tickets_ok_def)
    with stale show "tk_status t = CLOSED \<longrightarrow> tk_closedAt t \<noteq> None"
      by (cases "ut_status dto") (auto simp: t apply_changes_def closing_def)
  qed simp
qed

lemma commit_assigning:
  assumes ok: "tickets_ok (w_db w)" and p: "pending_ok (w_db w) (Assigning actor i dto c)"
    and run: "assign_commit actor i dto c w = (r, w')"
  shows "committed (Assigning actor i dto c) (w_db w) (w_db w')"
proof (cases r)
  case (Inl e)
  with run have "w_db w' = w_db w"
    unfolding assign_commit_def by (auto dest: transaction_rollback)
  with ok show ?thesis by (rule committed_nothing)
next
  case (Inr t)
  have dist: "distinct (map tk_id (tickets (w_db w)))" using ok by (simp add: tickets_ok_def)
  from p obtain cur where cur: "cur \<in> set (tickets (w_db w))" "row_for actor i cur" by auto
  from run have "transaction (assign_body actor i dto c) w = (Inr t, w')"
    by (simp add: Inr assign_commit_def)
  from assign_body_okD [OF dist row_unique [OF dist cur] this] obtain row where
    t: "t = apply_assign (at_assigneeId dto) (w_now w) cur"
    and d: "w_db w' = (ticket_set i t (w_db w))\<lparr>outbox := outbox (w_db w) @ [row]\<rparr>" by blast
  show ?thesis
    by (rule committed_row [OF ok cur _ _ _ d])
      (simp_all add: t apply_assign_def ticket_identity_def)
qed

lemma commit_committed:
  assumes "tickets_ok (w_db w)" and "pending_ok (w_db w) p" and "commit p w = (r, w')"
  shows "committed p (w_db w) (w_db w')"
  using assms by (cases p) (simp_all add: commit_creating commit_updating commit_assigning)

section \<open>Every interleaving\<close>

definition race_ok :: "world \<times> pending list \<Rightarrow> bool" where
  "race_ok s \<longleftrightarrow> tickets_ok (w_db (fst s)) \<and> (\<forall>p\<in>set (snd s). pending_ok (w_db (fst s)) p)"

lemma checked_ok:
  assumes "tickets_ok (w_db w)" and "find_ticket actor i w = (Inr old, w)"
  shows "old \<in> set (tickets (w_db w)) \<and> row_for actor i old
    \<and> (tk_status old = CLOSED \<longrightarrow> tk_closedAt old \<noteq> None)"
  using assms tickets_service.find_one_sound [OF assms(2)] by (simp add: row_for_def tickets_ok_def)

lemma race_step_ok:
  assumes "race_step s s'" and "race_ok s"
  shows "race_ok s' \<and> (\<exists>new. identities (w_db (fst s')) = identities (w_db (fst s)) @ new)"
  using assms(1)
proof (cases rule: race_step.cases)
  case (counts w ps actor dto c)
  with assms(2) show ?thesis by (simp add: race_ok_def)
next
  case (checks_update actor i dto w existing w' ps c)
  have ok: "tickets_ok (w_db w)" using assms(2) checks_update(1) by (simp add: race_ok_def)
  then have "distinct (map tk_id (tickets (w_db w)))" by (simp add: tickets_ok_def)
  from update_check_ok [OF this checks_update(3)] have
    u: "w' = w" "find_ticket actor i w = (Inr existing, w)" "\<not> customer_forbidden actor dto"
    by blast+
  from checked_ok [OF ok u(2)] u(3) have "pending_ok (w_db w) (Updating actor i dto c existing)"
    unfolding pending_ok.simps by blast
  with assms(2) checks_update u(1) show ?thesis by (simp add: race_ok_def)
next
  case (checks_assign actor i dto w w' ps c)
  have ok: "tickets_ok (w_db w)" using assms(2) checks_assign(1) by (simp add: race_ok_def)
  from assign_check_ok [OF checks_assign(3)] obtain old where
    u: "w' = w" "find_ticket actor i w = (Inr old, w)" by blast
  from checked_ok [OF ok u(2)] have "pending_ok (w_db w) (Assigning actor i dto c)"
    unfolding pending_ok.simps by blast
  with assms(2) checks_assign u(1) show ?thesis by (simp add: race_ok_def)
next
  case (commits p ps w r w')
  have ok: "tickets_ok (w_db w)" and ps: "\<forall>p\<in>set ps. pending_ok (w_db w) p"
    using assms(2) commits(1) by (simp_all add: race_ok_def)
  from commit_committed [OF ok ps [rule_format, OF commits(3)] commits(4)]
  have c: "committed p (w_db w) (w_db w')" .
  then have "\<forall>q\<in>set ps. pending_ok (w_db w') q"
    using ps pending_ok_lives_on unfolding committed_def by blast
  with c commits show ?thesis by (simp add: race_ok_def committed_def) (blast dest: notin_set_remove1)
next
  case (time w ps t)
  with assms(2) show ?thesis by (simp add: race_ok_def)
qed

lemma race_history:
  assumes "race_step\<^sup>*\<^sup>* s s'" and "race_ok s"
  shows "race_ok s' \<and> (\<exists>new. identities (w_db (fst s')) = identities (w_db (fst s)) @ new)"
  using assms(1)
proof (induction rule: rtranclp_induct)
  case base
  with assms(2) show ?case by simp
next
  case (step v s')
  with race_step_ok [OF step.hyps(2)] show ?case by auto
qed

text \<open>
  C21. Requests on tickets may interleave in any way. However the checks and the commits of any
  number of creations, updates and assignments fall in between each other: ids and references
  stay unique, every CLOSED ticket has its closing time, no ticket disappears or changes its
  id, reference, organization, creator or creation time; and although the access is checked before
  the transaction only, a commit changes no ticket but the one it names, and that is a ticket the
  caller may access at the moment of the commit.
\<close>

theorem tickets_interleaved:
  assumes "race_step\<^sup>*\<^sup>* (w0, []) (w, ps)" and "tickets_ok (w_db w0)"
  shows "tickets_ok (w_db w) \<and> (\<exists>new. identities (w_db w) = identities (w_db w0) @ new)
    \<and> (\<forall>p\<in>set ps. \<forall>r w'. commit p w = (r, w') \<longrightarrow>
        (\<forall>t\<in>set (tickets (w_db w)). t \<notin> set (tickets (w_db w')) \<longrightarrow>
          (case p of
             Creating actor dto c n \<Rightarrow> False
           | Updating actor i dto c existing \<Rightarrow> tk_id t = i \<and> can_access actor t
           | Assigning actor i dto c \<Rightarrow> tk_id t = i \<and> can_access actor t)))"
proof -
  have "race_ok (w0, [])" using assms(2) by (simp add: race_ok_def)
  from race_history [OF assms(1) this]
  have ok: "race_ok (w, ps)" and new: "\<exists>new. identities (w_db w) = identities (w_db w0) @ new"
    by simp_all
  from ok have t: "tickets_ok (w_db w)" and ps: "\<forall>p\<in>set ps. pending_ok (w_db w) p"
    by (simp_all add: race_ok_def)
  have "committed p (w_db w) (w_db w')" if "p \<in> set ps" "commit p w = (r, w')" for p r w'
    using commit_committed [OF t ps [rule_format, OF that(1)] that(2)] .
  with t new show ?thesis unfolding committed_def row_for_def by blast
qed

text \<open>The number of \<open>ticket.closed\<close> events that were announced.\<close>

definition closed_events :: "db \<Rightarrow> nat" where
  "closed_events d = length (filter (\<lambda>r. ob_routingKey r = RK_TicketClosed) (outbox d))"

lemma announced_closings:
  assumes "list_all2 (\<lambda>(k, p) r. pending_row k p c r) (update_announces actor dto b now t) rows"
  shows "length (filter (\<lambda>r. ob_routingKey r = RK_TicketClosed) rows) = (if b then 1 else 0)"
  using assms
  by (auto simp: update_announces_def list_all2_Cons1 pending_row_def RK_TicketUpdated_def
      RK_TicketClosed_def)

lemma stale_closings:
  assumes ok: "race_ok (w, ps)" and p: "Updating actor i dto c existing \<in> set ps"
    and dto: "ut_status dto = Val CLOSED"
    and run: "commit (Updating actor i dto c existing) w = (Inr t, w')"
  shows "tk_status t = CLOSED
    \<and> closed_events (w_db w') = closed_events (w_db w) + (if tk_status existing = CLOSED then 0 else 1)"
proof -
  have dist: "distinct (map tk_id (tickets (w_db w)))"
    using ok by (simp add: race_ok_def tickets_ok_def)
  have "pending_ok (w_db w) (Updating actor i dto c existing)"
    using ok p unfolding race_ok_def fst_conv snd_conv by blast
  then obtain cur where cur: "cur \<in> set (tickets (w_db w))" "row_for actor i cur" by auto
  from run have "update_body actor i dto c (closing dto existing) w = (Inr t, w')"
    by (simp add: update_commit_def transaction_ok)
  from update_body_okD [OF dist row_unique [OF dist cur] this] obtain rows where
    t: "t = apply_changes dto (closing dto existing) (w_now w) cur"
    and d: "w_db w' = (ticket_set i t (w_db w))\<lparr>outbox := outbox (w_db w) @ rows\<rparr>"
    and rows: "list_all2 (\<lambda>(k, p) r. pending_row k p c r)
        (update_announces actor dto (closing dto existing) (w_now w) t) rows" by blast
  show ?thesis
    using announced_closings [OF rows] dto
    by (simp add: closed_events_def d closing_def ticket_set_def) (simp add: t apply_changes_def)
qed

text \<open>
  C20. Whether a close is announced depends on what the check saw. A request that closes a ticket
  announces \<open>ticket.closed\<close> if and only if the ticket was not CLOSED when its access was checked.
  One after the other that is right. But two requests that close an open ticket together announce
  it twice, so the metrics count two closings of one ticket; and a request whose check saw a
  CLOSED ticket that was reopened meanwhile closes it without a word.
\<close>

theorem stale_close:
  assumes "race_step\<^sup>*\<^sup>* (w0, []) (w, ps)" and "tickets_ok (w_db w0)"
    and "Updating actor i dto c existing \<in> set ps" and "ut_status dto = Val CLOSED"
    and "commit (Updating actor i dto c existing) w = (Inr t, w1)"
    and "Updating actor' i dto' c' existing' \<in> set (remove1 (Updating actor i dto c existing) ps)"
    and "ut_status dto' = Val CLOSED"
    and "commit (Updating actor' i dto' c' existing') w1 = (Inr t', w2)"
  shows "tk_status t = CLOSED \<and> tk_status t' = CLOSED
    \<and> closed_events (w_db w1) = closed_events (w_db w) + (if tk_status existing = CLOSED then 0 else 1)
    \<and> closed_events (w_db w2) = closed_events (w_db w1) + (if tk_status existing' = CLOSED then 0 else 1)"
proof -
  have "race_ok (w0, [])" using assms(2) by (simp add: race_ok_def)
  with race_history [OF assms(1)] have ok: "race_ok (w, ps)" by blast
  from race_step_ok [OF race_step.commits [OF assms(3,5)] ok]
  have ok1: "race_ok (w1, remove1 (Updating actor i dto c existing) ps)" by blast
  from stale_closings [OF ok assms(3-5)] stale_closings [OF ok1 assms(6-8)] show ?thesis by blast
qed

text \<open>Ada and alex close the same open ticket at the same time: two events announce one closing.\<close>

definition fx_closing :: "authenticated_user \<Rightarrow> pending" where
  "fx_closing actor = Updating actor ''t1'' fx_close None (fx_ticket ''t1'' ''TKT-000001'' ''acme'' ''carol'')"

lemma fx_closing_reached:
  "race_step\<^sup>*\<^sup>* (fx_world fx_db, []) (fx_world fx_db, [fx_closing ada, fx_closing alex])"
proof -
  have c: "update_check a ''t1'' fx_close (fx_world fx_db)
      = (Inr (fx_ticket ''t1'' ''TKT-000001'' ''acme'' ''carol''), fx_world fx_db)"
    if "a = ada \<or> a = alex" for a
    using that by (auto simp: update_check_def meval mrun find_ticket_run can_access_def
        customer_forbidden_def fixtures)
  have "race_step (fx_world fx_db, []) (fx_world fx_db, [fx_closing ada])"
    using race_step.checks_update [OF c [of ada], of "[]" None] by (simp add: fx_closing_def)
  moreover have "race_step (fx_world fx_db, [fx_closing ada])
      (fx_world fx_db, [fx_closing ada, fx_closing alex])"
    using race_step.checks_update [OF c [of alex], of "[fx_closing ada]" None]
    by (simp add: fx_closing_def)
  ultimately show ?thesis by (meson converse_rtranclp_into_rtranclp r_into_rtranclp)
qed

lemma fx_tickets_ok: "tickets_ok (w_db (fx_world fx_db))"
  by (simp add: tickets_ok_def fixtures)

theorem tickets_interleaved_witness:
  "fx_ticket ''t2'' ''TKT-000002'' ''acme'' ''ada''
     \<in> set (tickets (w_db (snd (commit (fx_closing ada) (fx_world fx_db)))))"
proof -
  obtain r w' where c: "commit (fx_closing ada) (fx_world fx_db) = (r, w')" by (rule prod.exhaust)
  have m: "fx_ticket ''t2'' ''TKT-000002'' ''acme'' ''ada'' \<in> set (tickets (w_db (fx_world fx_db)))"
    by (simp add: fx_world_def fx_db_def)
  have "\<forall>t\<in>set (tickets (w_db (fx_world fx_db))). t \<notin> set (tickets (w_db w')) \<longrightarrow> tk_id t = ''t1''"
    using tickets_interleaved [OF fx_closing_reached fx_tickets_ok] c
    by (simp add: fx_closing_def)
  with m have "fx_ticket ''t2'' ''TKT-000002'' ''acme'' ''ada'' \<in> set (tickets (w_db w'))"
    by (auto simp: fx_ticket_def)
  then show ?thesis by (simp add: c)
qed

theorem stale_close_witness:
  "closed_events (w_db (snd (commit (fx_closing alex) (snd (commit (fx_closing ada) (fx_world fx_db))))))
     = closed_events fx_db + 2"
proof -
  let ?w = "fx_world fx_db"
  have s: "succeeds (commit (fx_closing ada)) ?w"
    "succeeds (commit (fx_closing alex)) (snd (commit (fx_closing ada) ?w))" by code_simp+
  have x: "ut_status fx_close = Val CLOSED" by (simp add: fx_close_def)
  obtain t where 1: "commit (fx_closing ada) ?w = (Inr t, snd (commit (fx_closing ada) ?w))"
    using s(1) by (rule succeedsE) simp
  obtain t' where 2: "commit (fx_closing alex) (snd (commit (fx_closing ada) ?w))
      = (Inr t', snd (commit (fx_closing alex) (snd (commit (fx_closing ada) ?w))))"
    using s(2) by (rule succeedsE) simp
  have in1: "fx_closing ada \<in> set [fx_closing ada, fx_closing alex]"
    and in2: "fx_closing alex \<in> set (remove1 (fx_closing ada) [fx_closing ada, fx_closing alex])"
    by simp_all
  have d: "w_db ?w = fx_db" by (simp add: fx_world_def)
  show ?thesis
    using stale_close [OF fx_closing_reached [unfolded fx_closing_def] fx_tickets_ok
        in1 [unfolded fx_closing_def] x 1 [unfolded fx_closing_def] in2 [unfolded fx_closing_def] x
        2 [unfolded fx_closing_def]]
    by (simp add: fx_closing_def d fx_ticket_def)
qed

end
