(* ===== verification/Router.thy ===== *)
theory Router
  imports Layout Forms
begin

text \<open>
  The pages of the browser: the route tables (\<open>app.routes.ts\<close> and the \<open>*.routes.ts\<close> of the
  features) as data, the router that reads them, and the guards it runs; what happens in a tab is
  in \<open>Navigation\<close>. The router is Angular's, written out as it is documented: routes are tried
  in order and a branch without a match is left for the next; a redirect replaces the segments it
  matched and is followed once per level; the guards of the routes that are newly activated run
  from the root, and the first that answers a URL starts a navigation to it. A URL is its segments
  and its query; reading and writing it as text is Angular's (\<open>parseUrl\<close>, \<open>serializeUrl\<close>,
  parameters).
\<close>

section \<open>The route tables\<close>

datatype component =
    LoginComponent | RegisterComponent | DashboardComponent | TicketListComponent
  | TicketDetailComponent | UserListComponent | OrganizationListComponent

datatype layout = AuthLayoutComponent | MainLayoutComponent

datatype nav_guard = AuthGuard | RoleGuard

datatype nav_route =
    Redirect string string
  | Page string component string
  | Section string "layout option" "nav_guard list" "role list option" "nav_route list"

definition titled :: "string \<Rightarrow> string" where
  "titled t = t @ [CHR '' '', CHR 0xC2, CHR 0xB7] @ '' Support Platform''"

definition AUTH_ROUTES :: "nav_route list" where
  "AUTH_ROUTES =
     [Redirect '''' ''login'',
      Page ''login'' LoginComponent (titled ''Sign in''),
      Page ''register'' RegisterComponent (titled ''Create account'')]"

definition TICKETS_ROUTES :: "nav_route list" where
  "TICKETS_ROUTES =
     [Page '''' TicketListComponent (titled ''Tickets''), Page '':id'' TicketDetailComponent (titled ''Ticket'')]"

definition USERS_ROUTES :: "nav_route list" where
  "USERS_ROUTES = [Page '''' UserListComponent (titled ''Users'')]"

definition ORGANIZATIONS_ROUTES :: "nav_route list" where
  "ORGANIZATIONS_ROUTES = [Page '''' OrganizationListComponent (titled ''Organizations'')]"

definition routes :: "nav_route list" where
  "routes =
     [Section ''auth'' (Some AuthLayoutComponent) [] None AUTH_ROUTES,
      Section '''' (Some MainLayoutComponent) [AuthGuard] None
        [Redirect '''' ''dashboard'',
         Page ''dashboard'' DashboardComponent (titled ''Dashboard''),
         Section ''tickets'' None [] None TICKETS_ROUTES,
         Section ''users'' None [RoleGuard] (Some [ADMIN]) USERS_ROUTES,
         Section ''organizations'' None [RoleGuard] (Some [ADMIN]) ORGANIZATIONS_ROUTES],
      Redirect ''**'' ''dashboard'']"

section \<open>Recognition\<close>

text \<open>An activated route: the segments it took, its parameter, and what it says.\<close>

record activated =
  av_segments :: "string list"
  av_params :: "(string \<times> string) list"
  av_layout :: "layout option"
  av_guards :: "nav_guard list"
  av_roles :: "role list option"
  av_component :: "component option"
  av_title :: string

definition match_path :: "string \<Rightarrow> string list \<Rightarrow> (string list \<times> (string \<times> string) list \<times> string list) option" where
  "match_path p segs =
     (if p = [] then Some ([], [], segs)
      else case segs of
             [] \<Rightarrow> None
           | s # rest \<Rightarrow>
               if take 1 p = '':'' then Some ([s], [(drop 1 p, s)], rest)
               else if s = p then Some ([s], [], rest) else None)"

text \<open>A redirect of the tables matches the whole rest: \<open>pathMatch: 'full'\<close> with the empty path, or \<open>**\<close>.\<close>

definition redirects :: "string \<Rightarrow> string list \<Rightarrow> bool" where
  "redirects p segs \<longleftrightarrow> p = ''**'' \<or> segs = []"

definition or_next :: "'a option \<Rightarrow> 'a option \<Rightarrow> 'a option" where
  "or_next r r' = (case r of Some x \<Rightarrow> Some x | None \<Rightarrow> r')"

text \<open>
  \<open>recognize follow level rs segs\<close>: the first of \<open>rs\<close>, a suffix of the routes \<open>level\<close>, that
  matches; \<open>follow\<close> is whether this level may still redirect.
\<close>

function recognize :: "bool \<Rightarrow> nav_route list \<Rightarrow> nav_route list \<Rightarrow> string list \<Rightarrow> activated list option" where
  "recognize follow level [] segs = None"
| "recognize follow level (Redirect p to # rs) segs =
     or_next (if follow \<and> redirects p segs then recognize False level level [to] else None)
       (recognize follow level rs segs)"
| "recognize follow level (Page p c t # rs) segs =
     or_next (case match_path p segs of
         Some (taken, ps, []) \<Rightarrow>
           Some [\<lparr>av_segments = taken, av_params = ps, av_layout = None, av_guards = [],
                  av_roles = None, av_component = Some c, av_title = t\<rparr>]
       | _ \<Rightarrow> None)
       (recognize follow level rs segs)"
| "recognize follow level (Section p l gs roles children # rs) segs =
     or_next (case match_path p segs of
         Some (taken, ps, rest) \<Rightarrow>
           map_option ((#) \<lparr>av_segments = taken, av_params = ps, av_layout = l, av_guards = gs,
                  av_roles = roles, av_component = None, av_title = []\<rparr>)
             (recognize True children children rest)
       | None \<Rightarrow> None)
       (recognize follow level rs segs)"
  by pat_completeness auto

termination
  by (relation "measures [\<lambda>(f, level, rs, segs). max (size_list size level) (size_list size rs),
        \<lambda>(f, level, rs, segs). if f then 1 else 0, \<lambda>(f, level, rs, segs). length rs]")
    auto

definition recognize_url :: "string list \<Rightarrow> activated list option" where
  "recognize_url = recognize True routes routes"

lemmas page_tables = routes_def AUTH_ROUTES_def TICKETS_ROUTES_def USERS_ROUTES_def
  ORGANIZATIONS_ROUTES_def

text \<open>What the tables mean: the layout and the page of a path, and the path that is shown.\<close>

definition page_entry :: "string list \<Rightarrow> (string \<times> string) list \<Rightarrow> component \<Rightarrow> string \<Rightarrow> activated" where
  "page_entry taken ps c t = \<lparr>av_segments = taken, av_params = ps, av_layout = None,
     av_guards = [], av_roles = None, av_component = Some c, av_title = titled t\<rparr>"

definition section_entry ::
  "string list \<Rightarrow> layout option \<Rightarrow> nav_guard list \<Rightarrow> role list option \<Rightarrow> activated" where
  "section_entry taken l gs roles = \<lparr>av_segments = taken, av_params = [], av_layout = l,
     av_guards = gs, av_roles = roles, av_component = None, av_title = []\<rparr>"

definition auth_layout :: activated where
  "auth_layout = section_entry [''auth''] (Some AuthLayoutComponent) [] None"

definition main_layout :: activated where
  "main_layout = section_entry [] (Some MainLayoutComponent) [AuthGuard] None"

definition login_route :: "activated list" where
  "login_route = [auth_layout, page_entry [''login''] [] LoginComponent ''Sign in'']"

definition register_route :: "activated list" where
  "register_route = [auth_layout, page_entry [''register''] [] RegisterComponent ''Create account'']"

definition dashboard_route :: "activated list" where
  "dashboard_route = [main_layout, page_entry [''dashboard''] [] DashboardComponent ''Dashboard'']"

definition tickets_route :: "activated list" where
  "tickets_route = [main_layout, section_entry [''tickets''] None [] None,
     page_entry [] [] TicketListComponent ''Tickets'']"

definition ticket_route :: "string \<Rightarrow> activated list" where
  "ticket_route i = [main_layout, section_entry [''tickets''] None [] None,
     page_entry [i] [(''id'', i)] TicketDetailComponent ''Ticket'']"

definition users_route :: "activated list" where
  "users_route = [main_layout, section_entry [''users''] None [RoleGuard] (Some [ADMIN]),
     page_entry [] [] UserListComponent ''Users'']"

definition organizations_route :: "activated list" where
  "organizations_route = [main_layout,
     section_entry [''organizations''] None [RoleGuard] (Some [ADMIN]),
     page_entry [] [] OrganizationListComponent ''Organizations'']"

lemmas page_defs = page_entry_def section_entry_def auth_layout_def main_layout_def
  login_route_def register_route_def dashboard_route_def tickets_route_def ticket_route_def
  users_route_def organizations_route_def

definition page_at :: "string list \<Rightarrow> activated list" where
  "page_at segs =
     (if segs = [''auth''] \<or> segs = [''auth'', ''login''] then login_route
      else if segs = [''auth'', ''register''] then register_route
      else if segs = [''tickets''] then tickets_route
      else if length segs = 2 \<and> hd segs = ''tickets'' then ticket_route (segs ! 1)
      else if segs = [''users''] then users_route
      else if segs = [''organizations''] then organizations_route
      else dashboard_route)"

lemma recognize_dashboard:
  "recognize False routes routes [''dashboard''] = Some dashboard_route"
  by (simp add: page_tables match_path_def or_next_def redirects_def page_defs)

theorem recognize_url_page: "recognize_url segs = Some (page_at segs)"
proof -
  have step: "recognize_url segs = or_next (recognize True routes (butlast routes) segs)
      (Some dashboard_route)"
    using recognize_dashboard
    by (simp add: recognize_url_def page_tables redirects_def or_next_def split: option.split)
  note simps = page_tables match_path_def or_next_def redirects_def page_defs page_at_def
  consider "segs = []" | s where "segs = [s]" | s s' rest where "segs = s # s' # rest"
    by (cases segs rule: remdups_adj.cases) auto
  then show ?thesis
  proof cases
    case 1
    from step [unfolded 1] show ?thesis by (simp add: 1 simps)
  next
    case 2
    from step [unfolded 2] show ?thesis by (simp add: 2 simps)
  next
    case 3
    from step [unfolded 3] show ?thesis by (cases rest) (simp_all add: 3 simps)
  qed
qed

section \<open>Navigations\<close>

record url =
  url_path :: "string list"
  url_query :: "(string \<times> string) list"

record tab =
  tb_url :: url
  tb_page :: "activated list"

definition fresh_tab :: tab where
  "fresh_tab = \<lparr>tb_url = \<lparr>url_path = [], url_query = []\<rparr>, tb_page = []\<rparr>"

definition shown_path :: "activated list \<Rightarrow> string list" where
  "shown_path page = concat (map av_segments page)"

text \<open>Routes that stay active are not checked again.\<close>

fun newly :: "activated list \<Rightarrow> activated list \<Rightarrow> activated list" where
  "newly (c # cs) (f # fs) = (if c = f then newly cs fs else f # fs)"
| "newly _ fs = fs"

fun run_guard :: "string \<Rightarrow> browser \<Rightarrow> role list option \<Rightarrow> nav_guard \<Rightarrow> navigation" where
  "run_guard shown b roles AuthGuard = authGuard shown b"
| "run_guard shown b roles RoleGuard = roleGuard roles b"

definition entry_answers :: "string \<Rightarrow> browser \<Rightarrow> activated \<Rightarrow> navigation list" where
  "entry_answers shown b e = map (run_guard shown b (av_roles e)) (av_guards e)"

fun first_refusal :: "navigation list \<Rightarrow> navigation" where
  "first_refusal [] = Allow"
| "first_refusal (Allow # ns) = first_refusal ns"
| "first_refusal (n # ns) = n"

text \<open>\<open>createUrlTree\<close> of the guards: the commands, and \<open>redirectTo\<close> as the only query parameter.\<close>

definition guard_url :: "string \<Rightarrow> string option \<Rightarrow> url" where
  "guard_url path redirectTo = \<lparr>url_path = tl (split_on CHR ''/'' path),
     url_query = (case redirectTo of None \<Rightarrow> [] | Some u \<Rightarrow> [(''redirectTo'', u)])\<rparr>"

fun visit :: "nat \<Rightarrow> (url \<Rightarrow> string) \<Rightarrow> browser \<Rightarrow> tab \<Rightarrow> url \<Rightarrow> tab option" where
  "visit 0 serialize b t u = None"
| "visit (Suc n) serialize b t u =
     (case recognize_url (url_path u) of
        None \<Rightarrow> Some t
      | Some page \<Rightarrow>
          (let u' = u\<lparr>url_path := shown_path page\<rparr>
           in case first_refusal (concat (map (entry_answers (serialize u') b) (newly (tb_page t) page))) of
                Allow \<Rightarrow> Some \<lparr>tb_url = u', tb_page = page\<rparr>
              | RedirectTo path redirectTo \<Rightarrow> visit n serialize b t (guard_url path redirectTo)))"

text \<open>\<open>navigateByUrl\<close>, a link or the address bar; two rounds are enough (\<open>navigate_ends\<close>).\<close>

definition navigate :: "(url \<Rightarrow> string) \<Rightarrow> browser \<Rightarrow> tab \<Rightarrow> url \<Rightarrow> tab option" where
  "navigate = visit 2"

definition login_url :: "string option \<Rightarrow> url" where
  "login_url = guard_url ''/auth/login''"

definition dashboard_url :: url where
  "dashboard_url = guard_url ''/dashboard'' None"

definition redirect_param :: "url \<Rightarrow> string option" where
  "redirect_param u = map_of (url_query u) ''redirectTo''"

lemma guard_urls:
  "url_path (login_url r) = [''auth'', ''login'']" "url_path dashboard_url = [''dashboard'']"
  "redirect_param (login_url r) = r" "url_query dashboard_url = []"
  by (simp_all add: login_url_def dashboard_url_def guard_url_def redirect_param_def
      split: option.split)

section \<open>Where a navigation ends\<close>

text \<open>What the guards of a route ask of the user, and a page all of whose routes are open to the user.\<close>

definition entry_open :: "browser \<Rightarrow> activated \<Rightarrow> bool" where
  "entry_open b e \<longleftrightarrow> (AuthGuard \<in> set (av_guards e) \<longrightarrow> isAuthenticated b)
     \<and> (RoleGuard \<in> set (av_guards e) \<longrightarrow>
          (case av_roles e of None \<Rightarrow> True | Some rs \<Rightarrow> rs = [] \<or> hasRole rs b))"

definition allowed :: "browser \<Rightarrow> activated list \<Rightarrow> bool" where
  "allowed b page \<longleftrightarrow> list_all (entry_open b) page"

lemma first_refusal_Allow: "first_refusal ns = Allow \<longleftrightarrow> set ns \<subseteq> {Allow}"
  by (induction ns rule: first_refusal.induct) auto

lemma first_refusal_append:
  "first_refusal ns = Allow \<Longrightarrow> first_refusal (ns @ ms) = first_refusal ms"
  by (induction ns rule: first_refusal.induct) auto

lemma all_guards:
  "(\<forall>g\<in>set gs. P g) \<longleftrightarrow> (AuthGuard \<in> set gs \<longrightarrow> P AuthGuard) \<and> (RoleGuard \<in> set gs \<longrightarrow> P RoleGuard)"
proof -
  have "P g" if "AuthGuard \<in> set gs \<longrightarrow> P AuthGuard" "RoleGuard \<in> set gs \<longrightarrow> P RoleGuard"
      "g \<in> set gs" for g
    using that by (cases g) simp_all
  then show ?thesis by blast
qed

lemma entry_answers_open: "set (entry_answers s b e) \<subseteq> {Allow} \<longleftrightarrow> entry_open b e"
proof -
  have "set (entry_answers s b e) \<subseteq> {Allow}
    \<longleftrightarrow> (\<forall>g\<in>set (av_guards e). run_guard s b (av_roles e) g = Allow)"
    by (auto simp: entry_answers_def)
  then show ?thesis
    unfolding all_guards entry_open_def
    by (simp add: authGuard_def roleGuard_def split: option.split)
qed

lemma answers_allowed:
  "first_refusal (concat (map (entry_answers s b) page)) = Allow \<longleftrightarrow> allowed b page"
  unfolding first_refusal_Allow allowed_def list_all_iff
  using entry_answers_open [of s b] by fastforce

lemma newly_allowed:
  assumes "allowed b cur"
  shows "first_refusal (concat (map (entry_answers s b) (newly cur page)))
    = first_refusal (concat (map (entry_answers s b) page))"
  using assms
proof (induction cur page rule: newly.induct)
  case (1 c cs f fs)
  have "first_refusal (entry_answers s b c) = Allow" "allowed b cs"
    using 1(2) entry_answers_open by (auto simp: first_refusal_Allow allowed_def)
  with 1(1) show ?case by (cases "c = f") (simp_all add: first_refusal_append)
qed simp_all

text \<open>So a link inside the application leads where the same address leads in a new tab.\<close>

lemma visit_fresh:
  assumes "allowed b (tb_page t)"
  shows "visit n serialize b t u = visit n serialize b fresh_tab u"
proof (induction n arbitrary: u)
  case (Suc n)
  then show ?case
    by (simp add: recognize_url_page newly_allowed [OF assms] newly_allowed [of b "[]"]
        fresh_tab_def allowed_def Let_def cong: navigation.case_cong)
qed simp

lemma page_at_range:
  "page_at segs \<in> {login_route, register_route, dashboard_route, tickets_route, users_route,
     organizations_route} \<union> range ticket_route"
  by (simp add: page_at_def)

lemma page_at_cases:
  obtains "page_at segs = login_route" | "page_at segs = register_route"
  | "page_at segs = dashboard_route" | "page_at segs = tickets_route"
  | i where "page_at segs = ticket_route i" | "page_at segs = users_route"
  | "page_at segs = organizations_route"
  using page_at_range [of segs] by blast

lemma page_at_pages:
  "page_at (shown_path login_route) = login_route" "page_at (shown_path register_route) = register_route"
  "page_at (shown_path dashboard_route) = dashboard_route"
  "page_at (shown_path tickets_route) = tickets_route"
  "page_at (shown_path (ticket_route i)) = ticket_route i"
  "page_at (shown_path users_route) = users_route"
  "page_at (shown_path organizations_route) = organizations_route"
  by (simp_all add: page_defs shown_path_def page_at_def)

lemma page_at_shown [simp]: "page_at (shown_path (page_at segs)) = page_at segs"
  by (cases segs rule: page_at_cases) (simp_all add: page_at_pages)

lemma allowed_pages:
  "allowed b login_route" "allowed b register_route"
  "allowed b dashboard_route = isAuthenticated b" "allowed b tickets_route = isAuthenticated b"
  "allowed b (ticket_route i) = isAuthenticated b"
  "allowed b users_route = hasRole [ADMIN] b" "allowed b organizations_route = hasRole [ADMIN] b"
  by (auto simp: allowed_def page_defs entry_open_def hasRole_def isAuthenticated_def
      split: option.splits)

text \<open>Where the guards send a user who may not enter a page.\<close>

definition refused_to :: "string \<Rightarrow> browser \<Rightarrow> url" where
  "refused_to shown b = (if isAuthenticated b then dashboard_url else login_url (Some shown))"

definition shown_url :: "url \<Rightarrow> url" where
  "shown_url u = u\<lparr>url_path := shown_path (page_at (url_path u))\<rparr>"

lemma page_answers:
  "concat (map (entry_answers s b) login_route) = []"
  "concat (map (entry_answers s b) register_route) = []"
  "concat (map (entry_answers s b) dashboard_route) = [authGuard s b]"
  "concat (map (entry_answers s b) tickets_route) = [authGuard s b]"
  "concat (map (entry_answers s b) (ticket_route i)) = [authGuard s b]"
  "concat (map (entry_answers s b) users_route) = [authGuard s b, roleGuard (Some [ADMIN]) b]"
  "concat (map (entry_answers s b) organizations_route) = [authGuard s b, roleGuard (Some [ADMIN]) b]"
  by (simp_all add: page_defs entry_answers_def)

lemma refusal:
  assumes "\<not> allowed b (page_at segs)"
  shows "(case first_refusal (concat (map (entry_answers s b) (page_at segs))) of
       Allow \<Rightarrow> x | RedirectTo path r \<Rightarrow> f (guard_url path r)) = f (refused_to s b)"
  using assms
  by (cases segs rule: page_at_cases)
    (simp_all add: allowed_pages page_answers authGuard_def roleGuard_def refused_to_def
      dashboard_url_def login_url_def)

lemma visit_step:
  assumes "allowed b (tb_page t)"
  shows "visit (Suc n) serialize b t u =
    (if allowed b (page_at (url_path u))
     then Some \<lparr>tb_url = shown_url u, tb_page = page_at (url_path u)\<rparr>
     else visit n serialize b t (refused_to (serialize (shown_url u)) b))"
proof (cases "allowed b (page_at (url_path u))")
  case True
  then have "first_refusal (concat (map (entry_answers s b) (page_at (url_path u)))) = Allow" for s
    by (simp only: answers_allowed)
  with True show ?thesis
    by (simp add: recognize_url_page newly_allowed [OF assms] shown_url_def Let_def)
next
  case False
  from refusal [OF False, where f = "visit n serialize b t"] False show ?thesis
    by (simp add: recognize_url_page newly_allowed [OF assms] shown_url_def Let_def)
qed

lemma refused_to_allowed: "allowed b (page_at (url_path (refused_to s b)))"
  by (simp add: refused_to_def guard_urls page_at_def allowed_pages)

text \<open>Where a navigation ends: on the page of the address, or where the guards send the user.\<close>

definition destination :: "(url \<Rightarrow> string) \<Rightarrow> browser \<Rightarrow> url \<Rightarrow> tab" where
  "destination serialize b u =
     (let v = (if allowed b (page_at (url_path u)) then u
               else refused_to (serialize (shown_url u)) b)
      in \<lparr>tb_url = shown_url v, tb_page = page_at (url_path v)\<rparr>)"

lemma visit_ends:
  assumes "allowed b (tb_page t)" and "2 \<le> n"
  shows "visit n serialize b t u = Some (destination serialize b u)"
proof -
  obtain m where n: "n = Suc (Suc m)" using assms(2) by (metis Suc_le_D numeral_2_eq_2 Suc_le_mono)
  show ?thesis
    by (simp add: n visit_step [OF assms(1)] refused_to_allowed destination_def Let_def del: visit.simps)
qed

lemma destination_allowed: "allowed b (tb_page (destination serialize b u))"
  by (simp add: destination_def Let_def refused_to_allowed)

lemma destination_page: "tb_page (destination s b u) = page_at (url_path (tb_url (destination s b u)))"
  by (simp add: destination_def Let_def shown_url_def)

lemma navigate_destination:
  "allowed b (tb_page t) \<Longrightarrow> navigate serialize b t u = Some (destination serialize b u)"
  unfolding navigate_def by (rule visit_ends) simp_all

lemma login_url_open: "page_at (url_path (login_url r)) = login_route"
  by (simp add: guard_urls page_at_def)

lemma guarded_layout: "allowed b page \<Longrightarrow> main_layout \<in> set page \<Longrightarrow> isAuthenticated b"
  by (auto simp: allowed_def list_all_iff entry_open_def main_layout_def section_entry_def)

lemma shown_login_url: "shown_url (login_url r) = login_url r"
  by (simp add: shown_url_def login_url_open)
    (simp add: login_url_def guard_url_def page_defs shown_path_def)

lemma destination_signed_out:
  assumes "\<not> isAuthenticated b" and "\<not> allowed b (page_at (url_path u))"
  shows "destination serialize b u
    = \<lparr>tb_url = login_url (Some (serialize (shown_url u))), tb_page = login_route\<rparr>"
  using assms by (simp add: destination_def refused_to_def shown_login_url login_url_open Let_def)

text \<open>Every entry of the menu a user sees, and every link to a ticket, leads to its page.\<close>

definition nav_page :: "string \<Rightarrow> activated list" where
  "nav_page r =
     (if r = ''/tickets'' then tickets_route else if r = ''/users'' then users_route
      else if r = ''/organizations'' then organizations_route else dashboard_route)"

lemma menu_leads:
  assumes "i \<in> set (visibleNav b)" and "isAuthenticated b"
  shows "tb_page (destination serialize b (guard_url (ni_route i) None)) = nav_page (ni_route i)"
proof -
  have "ni_route i = ''/dashboard'' \<or> ni_route i = ''/tickets''
      \<or> ni_route i = ''/users'' \<and> hasRole [ADMIN] b
      \<or> ni_route i = ''/organizations'' \<and> hasRole [ADMIN] b"
    using assms(1) unfolding visibleNav_def nav_def set_filter by auto
  then show ?thesis
  proof (elim disjE conjE)
  qed (simp_all add: assms(2) destination_def guard_url_def page_at_def allowed_pages nav_page_def Let_def)
qed

lemma ticket_link_leads:
  assumes "isAuthenticated b" and "CHR ''/'' \<notin> set i"
  shows "tb_page (destination serialize b (guard_url (''/tickets/'' @ i) None)) = ticket_route i"
  using assms
  by (simp add: destination_def guard_url_def page_at_def allowed_pages split_on_none Let_def)

end
