(* ===== verification/Navigation.thy ===== *)
theory Navigation
  imports Router
begin

text \<open>
  What happens in a tab of the browser over time: navigations, sign-ins, sign-outs, reloads. The
  pages and the guards are those of \<open>Router\<close>, the session and its tokens those of \<open>Session\<close>;
  \<open>app.config.ts\<close> starts the application.
\<close>

section \<open>Histories of a tab\<close>

text \<open>
  What can happen in a tab: a navigation (a link, a component's \<open>router.navigate\<close>, the address
  bar, the back button), a sign-in on the login page, which goes where \<open>redirectTo\<close> says, one on
  the registration page, which goes to the dashboard, and the end of the session (\<open>logout\<close> of
  the menu or of the interceptor). \<open>parse\<close> is the router's \<open>parseUrl\<close>.
\<close>

definition sign_in_target :: "(string \<Rightarrow> url) \<Rightarrow> tab \<Rightarrow> url" where
  "sign_in_target parse t =
     parse (login_target (if tb_page t = register_route then None else redirect_param (tb_url t)))"

inductive tab_step ::
  "(url \<Rightarrow> string) \<Rightarrow> (string \<Rightarrow> url) \<Rightarrow> browser \<times> tab \<Rightarrow> browser \<times> tab \<Rightarrow> bool"
  for serialize parse where
  opens: "navigate serialize b t u = Some t' \<Longrightarrow> tab_step serialize parse (b, t) (b, t')"
| signs_in: "tb_page t \<in> {login_route, register_route} \<Longrightarrow>
    navigate serialize (applySession a r usr b) t (sign_in_target parse t) = Some t' \<Longrightarrow>
    tab_step serialize parse (b, t) (applySession a r usr b, t')"
| signs_out: "navigate serialize (logout_browser True b) t (login_url None) = Some t' \<Longrightarrow>
    tab_step serialize parse (b, t) (logout_browser True b, t')"

definition tab_ok :: "browser \<times> tab \<Rightarrow> bool" where
  "tab_ok s \<longleftrightarrow> allowed (fst s) (tb_page (snd s))
     \<and> (tb_page (snd s) \<noteq> [] \<longrightarrow> tb_page (snd s) = page_at (url_path (tb_url (snd s))))"

lemma newly_subset: "set (newly cur page) \<subseteq> set page"
  by (induction cur page rule: newly.induct) auto

lemma visit_open:
  assumes "allowed b (page_at (url_path u))"
  shows "navigate serialize b t u = Some \<lparr>tb_url = shown_url u, tb_page = page_at (url_path u)\<rparr>"
proof -
  have "allowed b (newly (tb_page t) (page_at (url_path u)))"
    using assms newly_subset [of "tb_page t" "page_at (url_path u)"]
    by (auto simp: allowed_def list_all_iff)
  then have "first_refusal (concat (map (entry_answers s b)
      (newly (tb_page t) (page_at (url_path u))))) = Allow" for s
    by (simp only: answers_allowed)
  then show ?thesis
    by (simp add: navigate_def numeral_2_eq_2 recognize_url_page shown_url_def Let_def)
qed

lemma tab_ok_destination: "tab_ok (b, destination serialize b u)"
  unfolding tab_ok_def fst_conv snd_conv
  by (intro conjI impI destination_allowed destination_page)

lemma tab_ok_navigate:
  assumes "navigate serialize b t u = Some t'" and "allowed b (tb_page t)"
  shows "tab_ok (b, t')"
  using navigate_destination [OF assms(2), of serialize u] assms(1) tab_ok_destination [of b serialize u]
  by simp

lemma tab_ok_signed_out:
  assumes "navigate serialize b t (login_url r) = Some t'"
  shows "tab_ok (b, t')"
proof -
  have "t' = \<lparr>tb_url = shown_url (login_url r), tb_page = login_route\<rparr>"
    using assms visit_open [of b "login_url r" serialize t] by (simp add: login_url_open allowed_pages)
  moreover have "page_at (url_path (shown_url (login_url r))) = login_route"
    by (simp add: shown_url_def login_url_open page_at_pages)
  ultimately show ?thesis by (simp add: tab_ok_def allowed_pages)
qed

lemma tab_ok_step:
  assumes "tab_step serialize parse s s'" and "tab_ok s"
  shows "tab_ok s'"
  using assms(1)
proof (cases rule: tab_step.cases)
  case (opens b t u t')
  with assms(2) have "allowed b (tb_page t)" by (simp add: tab_ok_def)
  with opens show ?thesis by (simp add: tab_ok_navigate)
next
  case (signs_in t a r usr b t')
  then have "allowed (applySession a r usr b) (tb_page t)" by (auto simp: allowed_pages)
  with signs_in show ?thesis by (simp add: tab_ok_navigate)
next
  case (signs_out b t t')
  then show ?thesis by (simp add: tab_ok_signed_out)
qed

lemma tab_ok_history:
  assumes "(tab_step serialize parse)\<^sup>*\<^sup>* (b, fresh_tab) s"
  shows "tab_ok s"
  using assms
proof (induction rule: rtranclp_induct)
  case base
  show ?case by (simp add: tab_ok_def fresh_tab_def allowed_def)
qed (rule tab_ok_step)

text \<open>
  C11. A page is only ever shown to a user who may see it. In every history of a tab (links, typed
  addresses, sign-ins, sign-outs, in any order) what is shown is the page of the address in the
  address bar; inside the main layout somebody is signed in, and on the screens of users and
  organizations it is an ADMIN. And from every state every address leads to a page in at most
  two rounds, whatever the guards answer (there is no redirect loop), the same one that it leads
  to in a new tab, although the guards of routes that stay active are not run again.
\<close>

theorem pages_guarded:
  assumes "(tab_step serialize parse)\<^sup>*\<^sup>* (b0, fresh_tab) (b, t)"
  shows "(tb_page t = [] \<or> tb_page t = page_at (url_path (tb_url t)))
    \<and> (main_layout \<in> set (tb_page t) \<longrightarrow> isAuthenticated b)
    \<and> (tb_page t = users_route \<or> tb_page t = organizations_route \<longrightarrow> hasRole [ADMIN] b)
    \<and> (\<forall>u. \<forall>n\<ge>2. visit n serialize b t u = visit 2 serialize b fresh_tab u
            \<and> visit n serialize b t u \<noteq> None)"
proof -
  have ok: "tab_ok (b, t)" by (rule tab_ok_history [OF assms])
  then have a: "allowed b (tb_page t)" and p: "tb_page t \<noteq> [] \<longrightarrow> tb_page t = page_at (url_path (tb_url t))"
    by (simp_all add: tab_ok_def)
  have m: "main_layout \<in> set (tb_page t) \<longrightarrow> isAuthenticated b" using guarded_layout [OF a] by blast
  have r: "tb_page t = users_route \<or> tb_page t = organizations_route \<longrightarrow> hasRole [ADMIN] b"
    using a by (auto simp: allowed_pages)
  have f: "allowed b (tb_page fresh_tab)" by (simp add: fresh_tab_def allowed_def)
  have e: "\<forall>u. \<forall>n\<ge>2. visit n serialize b t u = visit 2 serialize b fresh_tab u
      \<and> visit n serialize b t u \<noteq> None"
    by (simp add: visit_ends [OF a] visit_ends [OF f])
  show ?thesis using p by (intro conjI m r e) blast
qed

text \<open>A tab that was opened, bounced to the login page and signed in by an administrator.\<close>

theorem pages_guarded_witness:
  "main_layout \<notin> set (tb_page (destination (\<lambda>_. ''/users'') (fresh_browser None None)
     \<lparr>url_path = [''users''], url_query = []\<rparr>))"
proof -
  let ?u = "\<lparr>url_path = [''users''], url_query = []\<rparr>" and ?b = "fresh_browser None None"
  have f: "allowed ?b (tb_page fresh_tab)" by (simp add: fresh_tab_def allowed_def)
  have "tab_step (\<lambda>_. ''/users'') (\<lambda>_. ?u) (?b, fresh_tab) (?b, destination (\<lambda>_. ''/users'') ?b ?u)"
    by (rule tab_step.opens [OF navigate_destination [OF f]])
  from pages_guarded [OF r_into_rtranclp [where r = "tab_step (\<lambda>_. ''/users'') (\<lambda>_. ?u)", OF this]]
  show ?thesis by (auto simp: isAuthenticated_def fresh_browser_def)
qed

lemma applySession_user: "br_user (applySession a r usr b) = Some usr"
  by (simp add: applySession_def)

lemma applySession_roles [simp]:
  "isAuthenticated (applySession a r usr b)"
  "hasRole rs (applySession a r usr b) = (aud_role usr \<in> set rs)"
  by (simp_all add: isAuthenticated_def hasRole_def applySession_user)

text \<open>
  C31. A deep link survives the login. Somebody who is not signed in and opens an address outside
  \<open>/auth\<close> (typed, bookmarked, from an e-mail) is shown the login page; after signing in there the
  tab shows exactly what the same address shows to that user in a new tab, with the same address
  in the address bar: the page itself, or the dashboard when the page is not for the user's role.
\<close>

theorem deep_link_after_login:
  assumes "\<not> isAuthenticated b" and "main_layout \<in> set (page_at (url_path u))"
    and "parse (serialize (shown_url u)) = shown_url u"
  shows "\<exists>t. navigate serialize b fresh_tab u = Some t \<and> tb_page t = login_route
    \<and> navigate serialize (applySession a r usr b) t (sign_in_target parse t)
      = navigate serialize (applySession a r usr b) fresh_tab u"
proof -
  let ?b = "applySession a r usr b" and ?t = "destination serialize b u"
  have f: "allowed b' (tb_page fresh_tab)" for b' by (simp add: fresh_tab_def allowed_def)
  have na: "\<not> allowed b (page_at (url_path u))" using guarded_layout assms(1,2) by blast
  have t: "tb_page ?t = login_route" "redirect_param (tb_url ?t) = Some (serialize (shown_url u))"
    by (simp_all add: destination_signed_out [OF assms(1) na] guard_urls)
  then have target: "sign_in_target parse ?t = shown_url u"
    by (simp add: sign_in_target_def login_target_def assms(3)) (simp add: page_defs)
  have same: "destination serialize ?b (shown_url u) = destination serialize ?b u"
    by (simp add: destination_def shown_url_def)
  have "allowed ?b (tb_page ?t)" by (simp add: t allowed_pages)
  then have "navigate serialize ?b ?t (sign_in_target parse ?t) = navigate serialize ?b fresh_tab u"
    by (simp add: navigate_destination f target same)
  with t(1) navigate_destination [OF f, of serialize b u] show ?thesis by blast
qed

text \<open>A link to a ticket, opened by somebody who then signs in as a customer, leads to the ticket.\<close>

theorem deep_link_after_login_witness:
  "\<exists>t. navigate (\<lambda>_. ''/tickets/t1'') (fresh_browser None None) fresh_tab
        \<lparr>url_path = [''tickets'', ''t1''], url_query = []\<rparr> = Some t
     \<and> tb_page t = login_route
     \<and> map_option tb_page (navigate (\<lambda>_. ''/tickets/t1'')
          (applySession ''access'' ''refresh''
             \<lparr>aud_id = ''carol'', aud_email = ''c@acme.test'', aud_firstName = ''Carol'',
              aud_lastName = ''Doe'', aud_role = CUSTOMER, aud_organizationId = ''acme''\<rparr>
             (fresh_browser None None)) t
          (sign_in_target (\<lambda>s. \<lparr>url_path = tl (split_on CHR ''/'' s), url_query = []\<rparr>) t))
       = Some (ticket_route ''t1'')"
proof -
  let ?u = "\<lparr>url_path = [''tickets'', ''t1''], url_query = []\<rparr>"
  let ?usr = "\<lparr>aud_id = ''carol'', aud_email = ''c@acme.test'', aud_firstName = ''Carol'',
      aud_lastName = ''Doe'', aud_role = CUSTOMER, aud_organizationId = ''acme''\<rparr>"
  let ?b = "applySession ''access'' ''refresh'' ?usr (fresh_browser None None)"
  have p: "page_at (url_path ?u) = ticket_route ''t1''" by (simp add: page_at_def)
  have 1: "\<not> isAuthenticated (fresh_browser None None)"
    by (simp add: isAuthenticated_def fresh_browser_def)
  have 2: "main_layout \<in> set (page_at (url_path ?u))" unfolding p by (simp add: ticket_route_def)
  have "allowed ?b (page_at (url_path ?u))" unfolding p by (simp add: allowed_pages)
  from visit_open [OF this] p have "map_option tb_page (navigate (\<lambda>_. ''/tickets/t1'') ?b fresh_tab ?u)
      = Some (ticket_route ''t1'')" by simp
  moreover have "(\<lambda>s. \<lparr>url_path = tl (split_on CHR ''/'' s), url_query = []\<rparr>) ''/tickets/t1''
      = shown_url ?u" unfolding shown_url_def p by (simp add: page_defs shown_path_def)
  ultimately show ?thesis
    using deep_link_after_login [OF 1 2, where serialize = "\<lambda>_. ''/tickets/t1''"
        and parse = "\<lambda>s. \<lparr>url_path = tl (split_on CHR ''/'' s), url_query = []\<rparr>"
        and a = "''access''" and r = "''refresh''" and usr = ?usr]
    by metis
qed

section \<open>Opening the application\<close>

text \<open>
  \<open>app.config.ts\<close>: before the router's first navigation the initializer restores the session from
  the stored tokens and goes on whatever comes of it (\<open>catchError\<close>). What the server answers:
  the first \<open>/auth/me\<close>, the refresh if that was a 401, the retried \<open>/auth/me\<close>.
\<close>

datatype me_answer = Me auth_user_dto | Me_fails nat

record boot_answers =
  ba_me :: me_answer
  ba_refresh :: "(string \<times> string) option"
  ba_retry :: me_answer

fun me_answered :: "me_answer \<Rightarrow> flight \<Rightarrow> browser \<Rightarrow> browser" where
  "me_answered (Me usr) f b = session_restored usr (response_ok f b)"
| "me_answered (Me_fails status) f b = response_error f status b"

definition initialize_app :: "boot_answers \<Rightarrow> browser \<Rightarrow> browser" where
  "initialize_app x b0 =
     (let b1 = restoreSession b0
      in case br_flights b1 of
           [] \<Rightarrow> b1
         | f # _ \<Rightarrow>
             (let b2 = me_answered (ba_me x) f b1
              in case br_calls b2 of
                   [] \<Rightarrow> b2
                 | c # _ \<Rightarrow>
                     (case ba_refresh x of
                        None \<Rightarrow> refresh_error c b2
                      | Some (a, r) \<Rightarrow>
                          (let b3 = refresh_ok c a r b2
                           in case br_flights b3 of
                                [] \<Rightarrow> b3
                              | g # _ \<Rightarrow> me_answered (ba_retry x) g b3))))"

definition open_app :: "(url \<Rightarrow> string) \<Rightarrow> boot_answers \<Rightarrow> browser \<Rightarrow> url \<Rightarrow> tab option" where
  "open_app serialize x b u = navigate serialize (initialize_app x b) fresh_tab u"

text \<open>The user the server vouched for while the application started.\<close>

definition vouched :: "boot_answers \<Rightarrow> auth_user_dto option" where
  "vouched x =
     (case ba_me x of
        Me usr \<Rightarrow> Some usr
      | Me_fails status \<Rightarrow>
          if status \<noteq> 401 \<or> ba_refresh x = None then None
          else (case ba_retry x of Me usr \<Rightarrow> Some usr | Me_fails _ \<Rightarrow> None))"

lemmas session_ops = initialize_app_def restoreSession_def fresh_browser_def send_def
  response_error_def response_ok_def handle401_def landed_def finish_def refreshTokens_def
  refresh_error_def refresh_ok_def retry_def call_over_def setTokens_def session_restored_def
  logout_browser_def clear_def

lemma initialized_user:
  assumes "a \<noteq> []" and "r \<noteq> []"
  shows "br_user (initialize_app x (fresh_browser (Some a) (Some r))) = vouched x"
proof -
  have free: "\<not> isAuthFree ''/api/auth/me''" by code_simp
  show ?thesis
    by (cases "ba_me x"; cases "ba_refresh x"; cases "ba_retry x")
      (simp_all add: session_ops free assms vouched_def Let_def split: prod.split)
qed

lemma initialized_failure:
  assumes "a \<noteq> []" and "r \<noteq> []" and "ba_me x = Me_fails status" and "status \<noteq> 401"
  shows "br_access (initialize_app x (fresh_browser (Some a) (Some r))) = Some a
    \<and> br_refresh (initialize_app x (fresh_browser (Some a) (Some r))) = Some r"
proof -
  have free: "\<not> isAuthFree ''/api/auth/me''" by code_simp
  show ?thesis using assms by (simp add: session_ops free Let_def)
qed

lemma destination_user:
  assumes "br_user b = br_user b'"
  shows "destination serialize b u = destination serialize b' u"
proof -
  have "isAuthenticated b = isAuthenticated b'" "hasRole rs b = hasRole rs b'" for rs
    using assms by (simp_all add: isAuthenticated_def hasRole_def)
  moreover from this have "entry_open b = entry_open b'"
    by (intro ext) (simp add: entry_open_def split: option.split)
  ultimately have "allowed b page = allowed b' page" "refused_to s b = refused_to s b'" for page s
    by (simp_all add: allowed_def refused_to_def)
  then show ?thesis by (simp add: destination_def)
qed



end
