(* ===== verification/Toasts.thy ===== *)
theory Toasts
  imports Session Views
begin

text \<open>
  What the user is told of failed requests. \<open>app.config.ts\<close> puts \<open>errorInterceptor\<close> outside
  \<open>authInterceptor\<close>, so every request of the application, the refresh calls of the inner one
  included, passes it on the way out: an error that leaves the inner interceptor is shown and
  rethrown. The steps are those of \<open>Session\<close> with the messages on the screen.
\<close>

datatype origin = Request nat | Refresh nat

record toast_screen =
  sc_browser :: browser
  sc_toasts :: "(origin \<times> snack_bar) list"

text \<open>\<open>errorInterceptor\<close> on an \<open>HttpErrorResponse\<close>: the status and the \<open>message\<close> of the body.\<close>

definition errorInterceptor :: "origin \<Rightarrow> nat \<Rightarrow> http_message option \<Rightarrow> toast_screen \<Rightarrow> toast_screen" where
  "errorInterceptor i status message s =
     s\<lparr>sc_toasts := sc_toasts s @ [(i, ui_error (extractMessage status message))]\<rparr>"

definition on_browser :: "(browser \<Rightarrow> browser) \<Rightarrow> toast_screen \<Rightarrow> toast_screen" where
  "on_browser f s = s\<lparr>sc_browser := f (sc_browser s)\<rparr>"

text \<open>Whether \<open>authInterceptor\<close> takes the error to itself: the first 401 of a request, with a refresh token.\<close>

definition absorbed :: "flight \<Rightarrow> nat \<Rightarrow> browser \<Rightarrow> bool" where
  "absorbed f status b \<longleftrightarrow>
     fl_stage f = First \<and> status = 401 \<and> \<not> isAuthFree (fl_url f) \<and> present (br_refresh b)"

definition call_failed :: "flight \<Rightarrow> nat \<Rightarrow> http_message option \<Rightarrow> toast_screen \<Rightarrow> toast_screen" where
  "call_failed f status message s =
     (let s' = on_browser (response_error f status) s
      in if absorbed f status (sc_browser s) then s'
         else errorInterceptor (Request (fl_id f)) status message s')"

text \<open>A refused refresh passes the interceptor as a request, and again as the error of the request that wanted it.\<close>

definition refresh_failed :: "refresh_call \<Rightarrow> nat \<Rightarrow> http_message option \<Rightarrow> toast_screen \<Rightarrow> toast_screen" where
  "refresh_failed c status message s =
     errorInterceptor (Request (rf_id c)) status message
       (on_browser (refresh_error c) (errorInterceptor (Refresh (rf_id c)) status message s))"

inductive screen_step :: "toast_screen \<Rightarrow> toast_screen \<Rightarrow> bool" where
  issue: "screen_step s (on_browser (send url) s)"
| restore: "screen_step s (on_browser restoreSession s)"
| ok: "f \<in> set (br_flights (sc_browser s)) \<Longrightarrow> screen_step s (on_browser (response_ok f) s)"
| login: "f \<in> set (br_flights (sc_browser s)) \<Longrightarrow>
    screen_step s (on_browser (applySession a r u \<circ> response_ok f) s)"
| restored: "f \<in> set (br_flights (sc_browser s)) \<Longrightarrow>
    screen_step s (on_browser (session_restored u \<circ> response_ok f) s)"
| failed: "f \<in> set (br_flights (sc_browser s)) \<Longrightarrow>
    screen_step s (call_failed f status message s)"
| refreshed: "c \<in> set (br_calls (sc_browser s)) \<Longrightarrow>
    screen_step s (on_browser (refresh_ok c a r) s)"
| refused: "c \<in> set (br_calls (sc_browser s)) \<Longrightarrow>
    screen_step s (refresh_failed c status message s)"
| logout: "screen_step s (on_browser (logout_browser navigate) s)"

text \<open>Every step of the screen is one of the browser.\<close>

lemma screen_step_browser:
  "screen_step s s' \<Longrightarrow> \<exists>e. browser_step e (sc_browser s) (sc_browser s')"
proof (induction rule: screen_step.induct)
  case (failed f s status message)
  then show ?case
    by (cases "fl_stage f = Own_retry")
      (auto simp: call_failed_def on_browser_def errorInterceptor_def Let_def
        intro: browser_step.intros)
qed (auto simp: on_browser_def refresh_failed_def errorInterceptor_def intro: browser_step.intros)

section \<open>Told once\<close>

fun request_of :: "origin \<Rightarrow> nat list" where
  "request_of (Request i) = [i]"
| "request_of (Refresh i) = []"

definition told_requests :: "toast_screen \<Rightarrow> nat list" where
  "told_requests s = concat (map (request_of \<circ> fst) (sc_toasts s))"

definition failed_requests :: "browser \<Rightarrow> nat list" where
  "failed_requests b = map fst (filter (\<lambda>d. \<not> snd d) (br_done b))"

lemma told_simps [simp]:
  "told_requests (on_browser g s) = told_requests s"
  "told_requests (errorInterceptor (Request i) status message s) = told_requests s @ [i]"
  "told_requests (errorInterceptor (Refresh i) status message s) = told_requests s"
  "sc_browser (on_browser g s) = g (sc_browser s)"
  "sc_browser (errorInterceptor j status message s) = sc_browser s"
  by (simp_all add: told_requests_def on_browser_def errorInterceptor_def)

lemma done_kept [simp]:
  "br_done (send url b) = br_done b" "br_done (restoreSession b) = br_done b"
  "br_done (landed i b) = br_done b" "br_done (handle401 i url b) = br_done b"
  "br_done (logout_browser navigate b) = br_done b" "br_done (applySession a r u b) = br_done b"
  "br_done (session_restored u b) = br_done b" "br_done (refresh_ok c a r b) = br_done b"
  "br_done (call_over i b) = br_done b" "br_done (finish i k b) = br_done b @ [(i, k)]"
  by (simp_all add: send_def restoreSession_def landed_def handle401_def refreshTokens_def
      logout_browser_def clear_def applySession_def setTokens_def session_restored_def refresh_ok_def
      call_over_def finish_def Let_def split: option.split)

lemma failed_simps:
  "failed_requests (response_ok f b) = failed_requests b"
  "failed_requests (refresh_error c b) = failed_requests b @ [rf_id c]"
  "failed_requests (response_error f status b) =
     (if absorbed f status b then failed_requests b else failed_requests b @ [fl_id f])"
  by (simp_all add: failed_requests_def response_ok_def refresh_error_def response_error_def
      absorbed_def Let_def split: stage.split) (auto simp: landed_def)

lemma told_step: "screen_step s s' \<Longrightarrow> told_requests s = failed_requests (sc_browser s)
    \<Longrightarrow> told_requests s' = failed_requests (sc_browser s')"
proof (induction rule: screen_step.induct)
  case (failed f s status message)
  then show ?case by (simp add: call_failed_def failed_simps Let_def)
qed (simp_all add: refresh_failed_def failed_simps, simp_all add: failed_requests_def response_ok_def)

definition refusals_doubled :: "(origin \<times> snack_bar) list \<Rightarrow> bool" where
  "refusals_doubled ts \<longleftrightarrow> (\<forall>i x. (Refresh i, x) \<in> set ts \<longrightarrow> (Request i, x) \<in> set ts)"

lemma doubled_step: "screen_step s s' \<Longrightarrow> refusals_doubled (sc_toasts s) \<Longrightarrow> refusals_doubled (sc_toasts s')"
  by (induction rule: screen_step.induct)
    (auto simp: refusals_doubled_def on_browser_def call_failed_def refresh_failed_def
      errorInterceptor_def Let_def)

lemma two_steps: "screen_step s t \<Longrightarrow> screen_step t v \<Longrightarrow> screen_step\<^sup>*\<^sup>* s v"
  by (meson rtranclp.rtrancl_into_rtrancl r_into_rtranclp)

definition fresh_screen :: "string option \<Rightarrow> string option \<Rightarrow> toast_screen" where
  "fresh_screen a r = \<lparr>sc_browser = fresh_browser a r, sc_toasts = []\<rparr>"

text \<open>
  C30. Every failure is told, and no success. In every history of the application, whatever the
  server answers and however often the session is refreshed or ended, the error messages on the
  screen are, in order, one for each request that ended in an error: none for a request that was
  answered after a refresh, none twice for a request. Only a refused refresh is told twice, with
  the same words: once as the failed refresh and once as the request that wanted it.
\<close>

theorem failures_told_once:
  assumes "screen_step\<^sup>*\<^sup>* (fresh_screen a r) s"
  shows "told_requests s = map fst (filter (\<lambda>d. \<not> snd d) (br_done (sc_browser s)))
    \<and> distinct (told_requests s)
    \<and> (\<forall>i x. (Refresh i, x) \<in> set (sc_toasts s) \<longrightarrow> (Request i, x) \<in> set (sc_toasts s))"
proof -
  from assms have "told_requests s = failed_requests (sc_browser s) \<and> accounted (sc_browser s)
      \<and> refusals_doubled (sc_toasts s)"
  proof (induction rule: rtranclp_induct)
    case base
    show ?case
      by (simp add: fresh_screen_def told_requests_def failed_requests_def fresh_browser_def
          accounted_def account_def refusals_doubled_def)
  next
    case (step s s')
    then show ?case
      using screen_step_browser [OF step(2)] by (blast intro: told_step doubled_step accounted_step)
  qed
  moreover from this have "distinct (map fst (br_done (sc_browser s)))"
    by (blast intro: accounted_distinct(3))
  ultimately show ?thesis
    by (simp add: failed_requests_def refusals_doubled_def distinct_map_filter)
qed

text \<open>
  Signing out with an expired access token: the revocation is answered 401, nobody can refresh any
  more, and the goodbye is an error message.
\<close>

theorem failures_told_once_witness:
  "let s = on_browser (logout_browser True) (fresh_screen (Some ''T'') (Some ''R''));
       f = \<lparr>fl_id = 0, fl_url = ''/api/auth/logout'', fl_token = Some ''T'', fl_stage = First\<rparr>;
       s' = call_failed f 401 None s
   in br_location (sc_browser s') = ''/auth/login''
      \<and> map (sn_message \<circ> snd) (sc_toasts s') = [''Your session has expired. Please sign in again.'']
      \<and> told_requests s' = [0] \<and> distinct (told_requests s')"
proof -
  let ?s = "on_browser (logout_browser True) (fresh_screen (Some ''T'') (Some ''R''))"
  let ?f = "\<lparr>fl_id = 0, fl_url = ''/api/auth/logout'', fl_token = Some ''T'', fl_stage = First\<rparr>"
  have signed_out: "\<not> present (br_refresh (logout_browser True b))" for b
    by (simp add: logout_browser_def clear_def Let_def)
  have "\<not> isAuthFree ''/api/auth/logout''" by code_simp
  then have b: "sc_browser ?s = (send ''/api/auth/logout'' (fresh_browser (Some ''T'') (Some ''R'')))
      \<lparr>br_access := None, br_refresh := None, br_user := None, br_location := ''/auth/login''\<rparr>"
    and f: "?f \<in> set (br_flights (sc_browser ?s))"
    by (simp_all add: fresh_screen_def logout_browser_def clear_def fresh_browser_def send_def Let_def)
  have "screen_step\<^sup>*\<^sup>* (fresh_screen (Some ''T'') (Some ''R'')) (call_failed ?f 401 None ?s)"
    by (rule two_steps [OF screen_step.logout screen_step.failed [OF f]])
  from failures_told_once [OF this]
  have "distinct (told_requests (call_failed ?f 401 None ?s))" by blast
  moreover have "call_failed ?f 401 None ?s
      = errorInterceptor (Request 0) 401 None (on_browser (response_error ?f 401) ?s)"
    by (simp add: call_failed_def absorbed_def signed_out Let_def)
  moreover have "br_location (response_error ?f 401 (sc_browser ?s)) = ''/auth/login''"
    by (simp add: response_error_def finish_def landed_def signed_out Let_def)
      (simp add: logout_browser_def Let_def)
  ultimately show ?thesis
    by (simp add: Let_def errorInterceptor_def ui_error_def extractMessage_def fresh_screen_def
        on_browser_def told_requests_def)
qed

end
