(* ===== verification/Startup.thy ===== *)
theory Startup
  imports Bootstrap AuthService
begin

text \<open>
  Starting the two processes (\<open>main.ts\<close>, \<open>worker.ts\<close>, \<open>app.module.ts\<close>, \<open>worker.module.ts\<close>):
  what each needs before it listens, in the order NestJS goes through it. The configuration
  module validates the environment; the providers are built, among them the RabbitMQ connection,
  which the worker waits for and the API does not, and in the API the JWT strategy, which wants
  its secret; then the modules are initialised (\<open>PrismaService.onModuleInit\<close> connects) and the
  port is taken. What the surroundings do is a parameter (\<open>surroundings\<close>).
\<close>

record surroundings =
  su_database :: bool
  su_broker_after :: "nat option"
  su_port_free :: "int \<Rightarrow> bool"

datatype boot_failure =
    Invalid_environment | Boot_error exn | Broker_timeout | No_database | No_port

record running =
  rn_process :: process
  rn_broker :: broker_setup
  rn_connected :: bool

text \<open>\<open>connectionInitOptions\<close>: \<open>wait\<close> with a timeout in milliseconds, or carry on at once.\<close>

definition broker_in_time :: "broker_setup \<Rightarrow> nat option \<Rightarrow> bool" where
  "broker_in_time bk answered \<longleftrightarrow>
     \<not> bk_wait bk \<or> (case answered of
        None \<Rightarrow> False
      | Some t \<Rightarrow> (case bk_timeout bk of None \<Rightarrow> True | Some limit \<Rightarrow> t \<le> limit))"

definition listen :: "surroundings \<Rightarrow> process \<Rightarrow> broker_setup \<Rightarrow> boot_failure + running" where
  "listen su p bk =
     (if \<not> su_database su then Inl No_database
      else case pr_port p of
             None \<Rightarrow> Inl No_port
           | Some n \<Rightarrow>
               if su_port_free su n
               then Inr \<lparr>rn_process = p, rn_broker = bk, rn_connected = bk_wait bk\<rparr>
               else Inl No_port)"

text \<open>The factories of the providers, run on the configuration alone (no database is touched).\<close>

definition api_providers :: "app_config \<Rightarrow> broker_setup op" where
  "api_providers cfg =
     andThen (messaging_module cfg) (\<lambda>bk.
     andThen (getOrThrow ''jwt.accessSecret'' (jwt_accessSecret (cf_jwt cfg))) (\<lambda>_.
     ret bk))"

definition boot ::
  "(environment \<Rightarrow> bool) \<Rightarrow> (app_config \<Rightarrow> broker_setup op) \<Rightarrow> (app_config \<Rightarrow> process)
    \<Rightarrow> surroundings \<Rightarrow> world \<Rightarrow> environment \<Rightarrow> boot_failure + running"
where
  "boot valid providers process_of su w env =
     (if \<not> valid env then Inl Invalid_environment
      else let cfg = configuration env
           in case result (providers cfg) w of
                Inl e \<Rightarrow> Inl (Boot_error e)
              | Inr bk \<Rightarrow>
                  if \<not> broker_in_time bk (su_broker_after su) then Inl Broker_timeout
                  else listen su (process_of cfg) bk)"

definition boot_api ::
  "(environment \<Rightarrow> bool) \<Rightarrow> surroundings \<Rightarrow> world \<Rightarrow> environment \<Rightarrow> boot_failure + running" where
  "boot_api valid = boot valid api_providers api_process"

definition boot_worker ::
  "(environment \<Rightarrow> bool) \<Rightarrow> surroundings \<Rightarrow> world \<Rightarrow> environment \<Rightarrow> boot_failure + running" where
  "boot_worker valid = boot valid worker_messaging_module worker_process"

section \<open>What a start needs\<close>

text \<open>\<open>number\<close> is Joi's reading of a number; \<open>parseInt\<close> reads the accepted integers the same way.\<close>

definition reads_numbers :: "(string \<Rightarrow> int option) \<Rightarrow> bool" where
  "reads_numbers number \<longleftrightarrow> (\<forall>s n. number s = Some n \<longrightarrow> parseInt s = Some n)"

lemma valid_ports:
  assumes "envValidation number uri env" and "reads_numbers number"
  shows "\<exists>n. cf_port (configuration env) = Some n" "\<exists>n. cf_workerPort (configuration env) = Some n"
proof -
  have int: "\<exists>n. env_int env k f = Some n"
    if "joi_number_ok number env k (\<lambda>_. True)" "parseInt f = Some m" for k f m
    using that assms(2) unfolding joi_number_ok_def env_int_def reads_numbers_def
    by (cases "env k") (auto split: option.splits)
  have d: "parseInt ''3000'' = Some 3000" "parseInt ''3001'' = Some 3001" by code_simp+
  show "\<exists>n. cf_port (configuration env) = Some n" "\<exists>n. cf_workerPort (configuration env) = Some n"
    using assms(1) int [OF _ d(1), of "''PORT''"] int [OF _ d(2), of "''WORKER_PORT''"]
    by (simp_all add: envValidation_def configuration_def)
qed

lemma valid_secrets:
  assumes "envValidation number uri env"
  shows "\<exists>s. jwt_accessSecret (cf_jwt (configuration env)) = Some s"
    "\<exists>s. jwt_refreshSecret (cf_jwt (configuration env)) = Some s"
    "\<exists>s. cf_rabbitUri (configuration env) = Some s"
  using assms by (auto simp: envValidation_def joi_string_ok_def configuration_def split: option.splits)

lemma boots_iff:
  assumes "valid env \<Longrightarrow> providers (configuration env) w = (Inr bk, w)"
    and "valid env \<Longrightarrow> pr_port (process_of (configuration env)) = Some n"
  shows "(\<exists>r. boot valid providers process_of su w env = Inr r) \<longleftrightarrow>
    valid env \<and> broker_in_time bk (su_broker_after su) \<and> su_database su \<and> su_port_free su n"
  using assms by (auto simp: boot_def listen_def result_def Let_def)

lemma api_providers_run:
  assumes "envValidation number uri env"
  shows "\<exists>bk. api_providers (configuration env) w = (Inr bk, w) \<and> \<not> bk_wait bk"
  using valid_secrets [OF assms]
  by (auto simp: api_providers_def messaging_module_def andThen_def run_basic)

lemma worker_providers_run:
  assumes "envValidation number uri env"
  shows "\<exists>bk. worker_messaging_module (configuration env) w = (Inr bk, w) \<and> bk_wait bk
    \<and> bk_timeout bk = Some 20000"
  using valid_secrets [OF assms]
  by (auto simp: worker_messaging_module_def andThen_def run_basic)

lemma issueTokens_error:
  assumes "jwt_accessSecret cfg = Some s" and "jwt_refreshSecret cfg = Some s'"
    and "result (issueTokens cr cfg u ctx family) w = Inl e"
  shows "\<exists>code target. e = PrismaKnown code target"
  using assms
  by (auto simp: result_def issueTokens_def default_family_def meval mrun refresh_token_insert_def
      prisma_errors Let_def split: option.splits sum.splits prod.splits if_splits)

text \<open>
  What a start needs. With Joi reading integers as \<open>parseInt\<close> does, the API starts exactly if
  the environment is valid, the database accepts the connection and its port is free: it does not
  need the broker, and events wait in the outbox. The worker starts exactly if, besides, the
  broker answers within twenty seconds. And an API that has started never fails for a missing
  secret when it issues tokens: the errors left are those of the database.
\<close>

theorem processes_start:
  assumes "reads_numbers number"
  shows "((\<exists>r. boot_api (envValidation number uri) su w env = Inr r) \<longleftrightarrow>
        envValidation number uri env \<and> su_database su
        \<and> (\<exists>n. cf_port (configuration env) = Some n \<and> su_port_free su n))
    \<and> ((\<exists>r. boot_worker (envValidation number uri) su w env = Inr r) \<longleftrightarrow>
        envValidation number uri env \<and> su_database su
        \<and> (\<exists>n. cf_workerPort (configuration env) = Some n \<and> su_port_free su n)
        \<and> (\<exists>t\<le>20000. su_broker_after su = Some t))
    \<and> (\<forall>r cr u ctx family v e. boot_api (envValidation number uri) su w env = Inr r
        \<and> result (issueTokens cr (cf_jwt (configuration env)) u ctx family) v = Inl e
        \<longrightarrow> (\<exists>code target. e = PrismaKnown code target))"
proof (cases "envValidation number uri env")
  case False
  then show ?thesis by (simp add: boot_api_def boot_worker_def boot_def)
next
  case True
  obtain a b where ports: "cf_port (configuration env) = Some a"
      "cf_workerPort (configuration env) = Some b"
    using valid_ports [OF True assms] by blast
  obtain ab where api: "api_providers (configuration env) w = (Inr ab, w)" "\<not> bk_wait ab"
    using api_providers_run [OF True] by blast
  obtain wb where wrk: "worker_messaging_module (configuration env) w = (Inr wb, w)" "bk_wait wb"
      "bk_timeout wb = Some 20000"
    using worker_providers_run [OF True] by blast
  have p: "pr_port (api_process (configuration env)) = Some a"
      "pr_port (worker_process (configuration env)) = Some b"
    by (simp_all add: api_process_def worker_process_def ports)
  have 1: "(\<exists>r. boot_api (envValidation number uri) su w env = Inr r) \<longleftrightarrow>
      su_database su \<and> su_port_free su a"
    unfolding boot_api_def using boots_iff [where providers = api_providers and env = env and w = w and bk = ab
        and process_of = api_process and n = a and valid = "envValidation number uri"] api(1) p(1) True api(2)
    by (simp add: broker_in_time_def)
  have 2: "(\<exists>r. boot_worker (envValidation number uri) su w env = Inr r) \<longleftrightarrow>
      (\<exists>t\<le>20000. su_broker_after su = Some t) \<and> su_database su \<and> su_port_free su b"
    unfolding boot_worker_def using boots_iff [where providers = worker_messaging_module and env = env
        and w = w and bk = wb and process_of = worker_process and n = b
        and valid = "envValidation number uri"] wrk(1) p(2) True wrk(2,3)
    by (auto simp: broker_in_time_def split: option.split)
  obtain s s' where "jwt_accessSecret (cf_jwt (configuration env)) = Some s"
      "jwt_refreshSecret (cf_jwt (configuration env)) = Some s'"
    using valid_secrets [OF True] by blast
  note err = issueTokens_error [OF this]
  show ?thesis using True ports 1 2 err by auto
qed

theorem processes_start_witness:
  "(\<exists>r. boot_api (envValidation parseInt (\<lambda>_. True)) \<lparr>su_database = True, su_broker_after = None,
       su_port_free = (\<lambda>n. n \<noteq> 80)\<rparr> (fx_world fx_db) fx_env = Inr r)
   \<and> \<not> (\<exists>r. boot_worker (envValidation parseInt (\<lambda>_. True)) \<lparr>su_database = True,
       su_broker_after = None, su_port_free = (\<lambda>n. n \<noteq> 80)\<rparr> (fx_world fx_db) fx_env = Inr r)"
proof -
  have n: "reads_numbers parseInt" by (simp add: reads_numbers_def)
  have v: "envValidation parseInt (\<lambda>_. True) fx_env" by code_simp
  have p: "cf_port (configuration fx_env) = Some 3000" by code_simp
  show ?thesis using processes_start [OF n, of "\<lambda>_. True"] v p by simp
qed

end
