(* ===== verification/Spec2Isabelle.thy ===== *)
theory Spec2Isabelle
  imports SessionServer Wire Views FormViews Bootstrap Seed PipelineAudit PageOrder Numbering
    TicketRaces Navigation Toasts Startup
begin

text \<open>
  \<^bold>\<open>The program.\<close> A help-desk platform. The backend (\<open>src/backend\<close>, NestJS, Prisma on PostgreSQL,
  RabbitMQ) serves a REST API for organizations, users, tickets and comments. What a request
  changes is announced by events: the request writes them into an outbox table in its own
  transaction, a relay publishes the table, and a worker process consumes the messages into
  notifications, an audit trail and daily metrics. The frontend (\<open>src/frontend\<close>, Angular) is a
  client of the API with its own session handling. This development models both, from the
  button to the projection, and states what a maintainer relies on.

  \<^bold>\<open>How code became definitions.\<close> An asynchronous method of a service is an operation of the
  \<open>world\<close> (\<open>Effects\<close>): the database, the supply of UUIDs and the present time go in; an exception
  or a value, and the new world come out. \<open>andThen\<close> is \<open>await\<close>, \<open>throw\<close> is \<open>throw\<close>, \<open>transaction\<close>
  is \<open>$transaction\<close> and undoes the writes of a body that throws. A model of the schema is a record,
  a table a list of such records, a Prisma call an operation that checks the keys the schema
  declares (\<open>Schema\<close>, \<open>Tables\<close>). A DTO is a record whose optional properties have the type
  \<open>field\<close> (undefined, null or a value); JSON is the datatype of \<open>JsValue\<close>. Strings are lists of
  UTF-8 bytes, a \<open>Date\<close> is an integer of milliseconds, read by the calendar of \<open>JsDate\<close>. In the
  browser one callback is one step, as JavaScript runs it to its end before the next; what is
  in flight is part of the state. Names are the source's, prefixed where they clash.

  \<^bold>\<open>The theories.\<close>
  \<^item> \<open>Prelude\<close>, \<open>JsValue\<close>, \<open>JsDate\<close>: string functions, JSON values, the calendar; lemma collections.
  \<^item> \<open>Schema\<close>, \<open>Effects\<close>, \<open>Tables\<close>: the data model, operations, the constraints (\<open>prisma/schema.prisma\<close>).
  \<^item> \<open>Pagination\<close>: \<open>common/utils/pagination.util.ts\<close>; pages partition the rows, the sort allow-list.
  \<^item> \<open>PageOrder\<close>: what \<open>ORDER BY\<close> promises (\<open>answers_order\<close>), and a client that walks the ticket list.
  \<^item> \<open>Messaging\<close>: \<open>messaging/contracts\<close> and \<open>event-publisher.service.ts\<close>; the interface
    \<open>outbox_writer\<close> is what the services need of the publisher.
  \<^item> \<open>Guards\<close>, \<open>Config\<close>, \<open>Tokens\<close>, \<open>AuthService\<close>: \<open>common/guards\<close>, \<open>config\<close>, \<open>auth\<close>.
  \<^item> \<open>Tickets\<close>, \<open>Comments\<close>, \<open>Users\<close>, \<open>Organizations\<close>, \<open>ReadModels\<close>: the services of the same names,
    and the queries of notifications and audit; \<open>ticket_access\<close> is what comments need of tickets.
  \<^item> \<open>TicketRaces\<close>: creations, updates and assignments as check and commit, interleaved (\<open>race_step\<close>).
  \<^item> \<open>Numbering\<close>: the ticket numbers when organizations are removed.
  \<^item> \<open>Http\<close>, \<open>Api\<close>, \<open>RequestDto\<close>: exception filter, interceptors, health, every controller handler
    with the path of a request (throttler, guards, interceptors, pipes, handler, filter), and the
    validators of every DTO.
  \<^item> \<open>OutboxRelay\<close>: \<open>messaging/outbox-relay.service.ts\<close>, tick, publication, flags.
  \<^item> \<open>ConsumerRunner\<close>, \<open>Projections\<close>: \<open>consumers\<close>; idempotent delivery, retries, dead letters, the
    three projections. \<open>projector\<close> and \<open>view_projector\<close> say what a projection owes the runner.
  \<^item> \<open>EventTypes\<close>: the payload types of \<open>messaging/contracts/event-payloads.ts\<close>, the services as
    producers (\<open>service_step\<close>), and what the consumers make of a well-typed event.
  \<^item> \<open>Pipeline\<close>, \<open>PipelineAudit\<close>: services, relay, exchanges, queues, consumers, retries and the
    dead-letter sink in one transition system (\<open>pipe_step\<close>); the \<open>@RabbitSubscribe\<close> decorators,
    \<open>worker-messaging.module.ts\<close> and \<open>consumers.module.ts\<close>.
  \<^item> \<open>Seed\<close>: \<open>prisma/seed.ts\<close>.
  \<^item> \<open>ApiClient\<close>, \<open>Session\<close>: the frontend's services, token storage, interceptors, route guards.
  \<^item> \<open>Wire\<close>: the interfaces of \<open>frontend/src/app/models\<close>, the routes the client's calls reach, and its
    request types at the server's validators.
  \<^item> \<open>SessionServer\<close>: the tabs of one browser and the token service in one transition system
    (\<open>site_step\<close>); calls, answers and the shared \<open>localStorage\<close>.
  \<^item> \<open>ListScreens\<close>, \<open>Forms\<close>, \<open>TicketDetail\<close>, \<open>Layout\<close>: the screens, dialogs, shell and dashboard.
  \<^item> \<open>Views\<close>, \<open>FormViews\<close>: their templates and the shared components, as functions from the state of
    a component to what it shows; the handlers of the three lists with the requests they send.
  \<^item> \<open>Bootstrap\<close>: the settings of the two processes (\<open>main.ts\<close>, \<open>worker.ts\<close>, \<open>app.setup.ts\<close>, modules).
  \<^item> \<open>Startup\<close>: starting the API and the worker, with the database, the broker and the ports around them.
  \<^item> \<open>Router\<close>, \<open>Navigation\<close>: the route tables of the frontend as data, recognition and guards; the
    histories of a tab (\<open>tab_step\<close>), signing in with \<open>redirectTo\<close>, \<open>app.config.ts\<close>'s start.
  \<^item> \<open>Toasts\<close>: both interceptors together (\<open>screen_step\<close>): which failures the user is told.
  \<^item> \<open>Fixtures\<close>: the small database of the witnesses.

  \<^bold>\<open>What is shown.\<close>
  \<^item> Access: a caller reads and lists exactly the tickets, comments and users the role and the
    organization allow; what is in other organizations does not influence any answer; no handler
    behind the guards runs without a stored, active user of a sufficient role; deactivation ends
    every session.
  \<^item> Tokens: rotation, reuse detection, revocation, and over all histories at most one live token
    per family, unless two rotations interleave between check and writes, which is exhibited.
  \<^item> Tickets, comments, users, organizations: what each operation changes and what it leaves
    alone, on success and on every exception; that creation succeeds, and when it conflicts; the
    histories of tickets, the checks and commits of any number of requests interleaved, and what
    those miss (a close announced twice or not at all); how removing an organization can stop
    every further creation.
  \<^item> Lists: the pages partition the rows of one order, and with the order left to the database they
    are exact if and only if no tie of the sorted column crosses a page break.
  \<^item> Events: a change and its events are stored together or not at all; the relay's table
    over all histories; a drained outbox; every outcome of a delivery; the bound on
    retries; the audit trail and the metrics as exact views of the set of applied events,
    in whatever order and however often they were delivered; who is notified.
  \<^item> The pipeline end to end: payloads keep the types of the contract, so no event of the platform
    is poison; in every interleaving of services, ticks, deliveries, repeated deliveries and
    outages no announced event is lost and the audit trail has no entry twice; the worker comes
    to an end, with empty queues; and from every reachable state the platform can go on until
    each change is audited exactly once. With a differing exchange name nothing arrives.
  \<^item> Browser: every request is answered, retried or waiting exactly once; one refresh at a time;
    how sessions end; lists that show what their controls say if the answers come in order; the
    ticket screen that writes to the ticket it shows, in every history; and across the wire:
    queries, forms, comments and the offered assignees are read by the server as they were meant
    by the screen, the dashboard counts what its user may read, and the badge follows the server.
  \<^item> The wire: every call of the client reaches the one route it is written for, whatever that route
    answers has the type the client casts it to, and a typed request is refused for the bounds of its
    texts only.
  \<^item> Browser and server: in every history of one tab no live session is taken for a stolen one,
    while two tabs that refresh together end the session of both.
  \<^item> Navigation: no page is shown to a user who may not see it and no navigation loops, in every
    history of a tab; a deep link survives the login; a reload restores the user the server vouches
    for, and loses one it could not ask about. Every failed request is told, none twice, except
    that a refused refresh is.
  \<^item> Starting: exactly what the API and the worker need before they listen.
  \<^item> Templates: every table fits the rows the server sends and sorts the way its headers say, with
    the exceptions named there; whatever the ticket screen offers is carried out by the server;
    which refused saves explain themselves.

  \<^bold>\<open>Interfaces and their interpretations.\<close> \<open>outbox_writer\<close> by \<open>enqueue\<close> (\<open>publisher\<close>), \<open>ticket_access\<close> by
  \<open>find_ticket\<close> (\<open>tickets_service\<close>), \<open>projector\<close> and its extension \<open>lossless_projector\<close> by the three
  projections, \<open>view_projector\<close> by the audit and the metrics projections. The properties use the
  interpreted facts.

  \<^bold>\<open>Recursion and bounds.\<close> Loops of the source run over a finite list (rows of a tick, recipients,
  headers, seed tickets) or over the characters of a string, and their definitions are total.
  \<open>recognize\<close> ends because a level redirects once and its children are smaller (a lexicographic
  measure). The one fuel is that of \<open>visit\<close>, the rounds of redirects of a navigation: two rounds
  are enough from every state and more change nothing (\<open>pages_guarded\<close>). A tick of the relay takes at most the batch of the source; the histories, which have
  no bound, are inductive relations. Numbers the source computes with (pages, counters,
  attempts, milliseconds) stay far below 2 to the 53 and are integers.

  \<^bold>\<open>Parameters.\<close> Third-party behaviour is an argument: the order the database returns rows in
  (\<open>permutes_rows\<close>: a permutation), the case-insensitive \<open>contains\<close>, hashing and signing
  (\<open>crypto\<close>, \<open>passwords\<close>), Joi's numbers and URIs, class-validator's \<open>len\<close>, \<open>isUUID\<close>, \<open>isEmail\<close>
  and \<open>isJWT\<close>, the broker's and the database's failures row by row, the verified payload of a
  bearer token, the verdict of the throttler, the rows that block a deletion, the broker's
  matching of a topic pattern with a key (\<open>topic_matching\<close>: \<open>#\<close> matches all, a pattern without
  wildcards itself), the router of Express (\<open>express_paths\<close>), Angular's reading and writing of an address,
  the collation of the database, and what surrounds a starting process. A claim that needs more of one of them says so as a hypothesis, and has a
  witness.

  \<^bold>\<open>Readings worth knowing.\<close> One operation runs at one instant and, outside the interleavings that
  are modelled (\<open>rotate_check\<close> and \<open>rotate_commit\<close>; the checks and commits of \<open>TicketRaces\<close>), without
  others in between. Prisma drops filters that are undefined. The implicit conversion of the
  validation pipe runs before a property's own \<open>@Transform\<close>. A query string holds each name once.
  Angular's router is written out as it is documented (\<open>Router\<close>): first match with backtracking,
  one redirect per level, guards of newly activated routes only. PostgreSQL orders enums as they
  are declared and rows with equal keys in any way, which may differ between two queries.
  Requests of the browser are never cancelled; a debounced search is typing followed by
  settling. The body of a 204 is \<open>null\<close>. JSON keys keep their order (PostgreSQL's JSONB may not).
  A header counter is converted by \<open>Number\<close> for decimal integers only. In the pipeline a delivery
  is one step, because \<open>runOnce\<close> is one transaction and its unique index orders two deliveries of
  one event; the worker may die after it before the message is acknowledged, and an outage may
  take the place of the projection. Organizations are not removed while the pipeline runs.

  \<^bold>\<open>Not modelled.\<close> Dependency injection and the internals of NestJS, Helmet, Swagger, Angular and
  Angular Material: the settings that the sources hand to them are data of \<open>Bootstrap\<close> and \<open>Views\<close>,
  what they make of them is theirs. Logging. Styles and layout, and the formatting of dates by
  Angular's date pipe (\<open>Cell_date\<close> carries the date). The avatar's initials (Unicode upper case).
  The range of a \<open>Date\<close> and the precision of floating point. Tests, scripts, container and
  pipeline files.
\<close>

end
